(* ===== verification/Prelude.thy ===== *)
theory Prelude
  imports Main "HOL-Library.Word"
begin

unbundle bit_operations_syntax

section \<open>Shared types, result handling and generic lemmas\<close>

text \<open>
  What every component theory of the development shares.

  \<^item> Byte strings.  A C++ \<open>char\<close> is eight bits; it is modelled by the HOL type \<open>char\<close>, so that
    a \<open>std::string\<close>, a \<open>std::string_view\<close> or a \<open>HostString\<close> is a \<open>string\<close> (a \<open>char list\<close>).
    \<open>byte_of\<close> and \<open>char_of_byte\<close> go to the 8-bit machine word and back.
  \<^item> JavaScript strings.  SpiderMonkey stores a string as Latin-1 or as UTF-16 code units;
    \<open>js_string\<close> has the two representations as constructors.
  \<^item> Fallible code.  A C++ function that returns \<open>false\<close>, \<open>nullptr\<close> or \<open>JS::Error\<close> after
    reporting an exception is a function into \<open>js_error + 'a\<close>; \<open>rbind\<close> is the early return
    of the macros \<open>MOZ_TRY\<close> and \<open>if (!f(..)) return false\<close>.
  \<^item> Generic lemmas on lists and on results, in the collections \<open>result_simps\<close> and
    \<open>list_simps\<close>.
\<close>

named_theorems result_simps "equations of rbind on the two constructors"
named_theorems list_simps "equations on lists shared by the component theories"

type_synonym byte = "8 word"

definition byte_of :: "char \<Rightarrow> byte" where
  "byte_of c = of_nat (of_char c)"

definition char_of_byte :: "byte \<Rightarrow> char" where
  "char_of_byte b = char_of (unat b)"

lemma char_of_byte_of [simp]: "char_of_byte (byte_of c) = c"
proof -
  have "(of_char c :: nat) < 256" by simp
  then have "unat (of_nat (of_char c) :: byte) = of_char c"
    by (simp add: unat_of_nat)
  then show ?thesis by (simp add: byte_of_def char_of_byte_def)
qed

lemma byte_of_char_of_byte [simp]: "byte_of (char_of_byte b) = b"
proof -
  have "unat b < 256" using unsigned_less [of b] by simp
  then have "(of_char (char_of_byte b) :: nat) = unat b"
    by (simp add: char_of_byte_def)
  then have "(of_nat (of_char (char_of_byte b)) :: byte) = of_nat (unat b)"
    by (rule arg_cong)
  then show ?thesis by (simp add: byte_of_def)
qed

lemma byte_of_eq_iff: "byte_of c = b \<longleftrightarrow> c = char_of_byte b"
  by auto


lemma unat_byte_of: "unat (byte_of c) = of_char c"
  by (simp add: byte_of_def unat_of_nat)

lemma inj_byte_of: "inj byte_of"
  by (rule inj_on_inverseI [where g = char_of_byte]) simp

subsection \<open>Results\<close>

definition rbind :: "'e + 'a \<Rightarrow> ('a \<Rightarrow> 'e + 'b) \<Rightarrow> 'e + 'b" where
  "rbind r k = (case r of Inl e \<Rightarrow> Inl e | Inr x \<Rightarrow> k x)"

lemma rbind_Inl [simp, result_simps]: "rbind (Inl e) k = Inl e"
  and rbind_Inr [simp, result_simps]: "rbind (Inr x) k = k x"
  by (simp_all add: rbind_def)

lemma rbind_eq_Inr: "rbind r k = Inr y \<longleftrightarrow> (\<exists>x. r = Inr x \<and> k x = Inr y)"
  by (cases r) auto

lemma rbind_eq_Inl: "rbind r k = Inl e \<longleftrightarrow> r = Inl e \<or> (\<exists>x. r = Inr x \<and> k x = Inl e)"
  by (cases r) auto

lemma rbind_assoc: "rbind (rbind r k) h = rbind r (\<lambda>x. rbind (k x) h)"
  by (cases r) auto

lemma rbind_cong [fundef_cong]:
  "r = r' \<Longrightarrow> (\<And>x. r' = Inr x \<Longrightarrow> k x = k' x) \<Longrightarrow> rbind r k = rbind r' k'"
  by (cases r') auto

subsection \<open>JavaScript strings and values\<close>

text \<open>
  A string primitive of the engine in its two representations, and a value that is either a
  string or something else (an object, a number, \<open>undefined\<close>), which only the engine can look
  into.
\<close>

datatype js_string = Latin1 "byte list" | TwoByte "16 word list"

datatype 'o js_value = VString js_string | VOther 'o

text \<open>
  How a builtin fails.  \<open>Failure\<close> is \<open>JS::Error()\<close> with no exception reported by the callee;
  \<open>PendingException\<close> is an exception that an engine call (a conversion, a user callback) left
  on the context; \<open>NotEnoughArgs\<close> is \<open>CallArgs::requireAtLeast\<close>; \<open>ReportError\<close> carries the
  text of a \<open>JS_ReportError\<close> call.  Running out of memory in the engine is not modelled.
\<close>

datatype js_error =
    Failure
  | PendingException
  | InvalidCharacterError
  | NotEnoughArgs nat
  | ReportError string

text \<open>A buffer read as a C string ends at the first NUL.\<close>

definition c_string :: "string \<Rightarrow> string" where
  "c_string s = takeWhile (\<lambda>c. c \<noteq> CHR 0x00) s"

text \<open>A number in decimal.\<close>

fun decimal :: "nat \<Rightarrow> string" where
  "decimal n = (if n < 10 then [char_of (48 + n)] else decimal (n div 10) @ [char_of (48 + n mod 10)])"

declare decimal.simps [simp del]

subsection \<open>Lists\<close>

lemma drop_while_take_filter [list_simps]:
  "takeWhile P xs @ filter P (dropWhile P xs) = filter P xs"
  by (induction xs) auto

lemma filter_filter_same [list_simps]: "filter P (filter P xs) = filter P xs"
  by simp

lemma Char_of_byte: "char_of_byte w =
    Char (bit w 0) (bit w 1) (bit w 2) (bit w 3) (bit w 4) (bit w 5) (bit w 6) (bit w 7)"
proof -
  have "bit (unat w) k = bit w k" for k
    by (simp add: bit_unsigned_iff)
  then have "odd (unat w div 2 ^ k) = bit w k" for k
    by (simp add: bit_iff_odd [of "unat w"])
  from this [of 0] this [of 1] this [of 2] this [of 3] this [of 4] this [of 5] this [of 6] this [of 7]
  show ?thesis by (simp add: char_of_byte_def char_of_def bit_iff_odd [of "unat w"])
qed

lemma bit_byte_of_Char:
  "bit (byte_of (Char b0 b1 b2 b3 b4 b5 b6 b7)) n =
     (n < 8 \<and> [b0, b1, b2, b3, b4, b5, b6, b7] ! n)"
proof (cases "n < 8")
  case True
  then have "n \<in> {0, 1, 2, 3, 4, 5, 6, 7}" by (simp add: eval_nat_numeral less_Suc_eq)
  moreover have "char_of_byte (byte_of (Char b0 b1 b2 b3 b4 b5 b6 b7)) = Char b0 b1 b2 b3 b4 b5 b6 b7"
    by (rule char_of_byte_of)
  ultimately show ?thesis unfolding Char_of_byte by (elim insertE) simp_all
qed (simp add: bit_imp_le_length not_le [symmetric] impossible_bit)

lemma list_all_UNIV_iff: "list_all P (Enum.enum :: 'a::enum list) \<longleftrightarrow> (\<forall>x. P x)"
  by (simp add: list_all_iff enum_UNIV)

text \<open>A check of every element of a literal table together with its index.\<close>

primrec check_from :: "(nat \<Rightarrow> 'a \<Rightarrow> bool) \<Rightarrow> nat \<Rightarrow> 'a list \<Rightarrow> bool" where
  "check_from P k [] = True"
| "check_from P k (x # xs) = (P k x \<and> check_from P (k + 1) xs)"

lemma check_from_nth: "check_from P k xs \<Longrightarrow> i < length xs \<Longrightarrow> P (k + i) (xs ! i)"
proof (induction xs arbitrary: k i)
  case (Cons x xs)
  then show ?case using Cons.IH [of "Suc k"] by (cases i) auto
qed simp

end
