(* ===== verification/Base64.thy ===== *)
theory Base64
  imports Prelude
begin

section \<open>Base64: atob and btoa\<close>

text \<open>
  Models \<open>builtins/web/base64.cpp\<close>: the conversion of a JavaScript value to a byte string, the
  two decode tables and the encode table, the block decoders (4 to 3, 3 to 2 and 2 to 1), the
  forgiving-base64 decode and encode loops, and the two global functions \<open>atob\<close> and \<open>btoa\<close>.
  A \<open>uint8_t\<close> is a \<open>byte\<close>; shifts are taken at eight bits, which is what the \<open>uint8_t(..)\<close>
  casts of the code keep of the promoted value.  The reference decoder \<open>spec_decode\<close> is the
  bit-buffer algorithm of the WHATWG text that the code quotes in its comments.
\<close>

subsection \<open>From a value to a byte string\<close>

text \<open>
  \<open>to_string\<close> is the engine's \<open>JS::ToString\<close> on a value that is not a string (\<open>None\<close> when it
  throws).  \<open>JS_EncodeStringToLatin1\<close> on a string whose code units are all below 256 is the
  list of those units as bytes.
\<close>

definition has_bad_char :: "16 word list \<Rightarrow> bool" where
  "has_bad_char units \<longleftrightarrow> (\<exists>u\<in>set units. u > 255)"

fun encode_latin1 :: "js_string \<Rightarrow> string" where
  "encode_latin1 (Latin1 bs) = map char_of_byte bs"
| "encode_latin1 (TwoByte us) = map (\<lambda>u. char_of_byte (ucast u)) us"

definition convertJSValueToByteString ::
    "('o \<Rightarrow> js_string option) \<Rightarrow> 'o js_value \<Rightarrow> js_error + string" where
  "convertJSValueToByteString to_string v =
     (let s = (case v of VString s \<Rightarrow> Some s | VOther x \<Rightarrow> to_string x)
      in case s of
           None \<Rightarrow> Inl InvalidCharacterError
         | Some (TwoByte us) \<Rightarrow>
             (if has_bad_char us then Inl InvalidCharacterError
              else Inr (encode_latin1 (TwoByte us)))
         | Some (Latin1 bs) \<Rightarrow> Inr (encode_latin1 (Latin1 bs)))"

subsection \<open>Tables\<close>

definition nonAlphabet :: byte where
  "nonAlphabet = 255"

definition base64DecodeTable :: "byte list" where
  "base64DecodeTable =
    [nonAlphabet, nonAlphabet, nonAlphabet, nonAlphabet, nonAlphabet, nonAlphabet, nonAlphabet, nonAlphabet,
     nonAlphabet, nonAlphabet, nonAlphabet, nonAlphabet, nonAlphabet, nonAlphabet, nonAlphabet, nonAlphabet,
     nonAlphabet, nonAlphabet, nonAlphabet, nonAlphabet, nonAlphabet, nonAlphabet, nonAlphabet, nonAlphabet,
     nonAlphabet, nonAlphabet, nonAlphabet, nonAlphabet, nonAlphabet, nonAlphabet, nonAlphabet, nonAlphabet,
     nonAlphabet, nonAlphabet, nonAlphabet, nonAlphabet, nonAlphabet, nonAlphabet, nonAlphabet, nonAlphabet,
     nonAlphabet, nonAlphabet, nonAlphabet, 62, nonAlphabet, nonAlphabet, nonAlphabet, 63,
     52, 53, 54, 55, 56, 57, 58, 59,
     60, 61, nonAlphabet, nonAlphabet, nonAlphabet, nonAlphabet, nonAlphabet, nonAlphabet,
     nonAlphabet, 0, 1, 2, 3, 4, 5, 6,
     7, 8, 9, 10, 11, 12, 13, 14,
     15, 16, 17, 18, 19, 20, 21, 22,
     23, 24, 25, nonAlphabet, nonAlphabet, nonAlphabet, nonAlphabet, 63,
     nonAlphabet, 26, 27, 28, 29, 30, 31, 32,
     33, 34, 35, 36, 37, 38, 39, 40,
     41, 42, 43, 44, 45, 46, 47, 48,
     49, 50, 51, nonAlphabet, nonAlphabet, nonAlphabet, nonAlphabet, nonAlphabet]"

definition base64URLDecodeTable :: "byte list" where
  "base64URLDecodeTable =
    [nonAlphabet, nonAlphabet, nonAlphabet, nonAlphabet, nonAlphabet, nonAlphabet, nonAlphabet, nonAlphabet,
     nonAlphabet, nonAlphabet, nonAlphabet, nonAlphabet, nonAlphabet, nonAlphabet, nonAlphabet, nonAlphabet,
     nonAlphabet, nonAlphabet, nonAlphabet, nonAlphabet, nonAlphabet, nonAlphabet, nonAlphabet, nonAlphabet,
     nonAlphabet, nonAlphabet, nonAlphabet, nonAlphabet, nonAlphabet, nonAlphabet, nonAlphabet, nonAlphabet,
     nonAlphabet, nonAlphabet, nonAlphabet, nonAlphabet, nonAlphabet, nonAlphabet, nonAlphabet, nonAlphabet,
     nonAlphabet, nonAlphabet, nonAlphabet, nonAlphabet, nonAlphabet, 62, nonAlphabet, nonAlphabet,
     52, 53, 54, 55, 56, 57, 58, 59,
     60, 61, nonAlphabet, nonAlphabet, nonAlphabet, nonAlphabet, nonAlphabet, nonAlphabet,
     nonAlphabet, 0, 1, 2, 3, 4, 5, 6,
     7, 8, 9, 10, 11, 12, 13, 14,
     15, 16, 17, 18, 19, 20, 21, 22,
     23, 24, 25, nonAlphabet, nonAlphabet, nonAlphabet, nonAlphabet, 63,
     nonAlphabet, 26, 27, 28, 29, 30, 31, 32,
     33, 34, 35, 36, 37, 38, 39, 40,
     41, 42, 43, 44, 45, 46, 47, 48,
     49, 50, 51, nonAlphabet, nonAlphabet, nonAlphabet, nonAlphabet, nonAlphabet]"

definition base64EncodeTable :: string where
  "base64EncodeTable =
     ''ABCDEFGHIJKLMNOPQRSTUVWXYZ'' @ ''abcdefghijklmnopqrstuvwxyz'' @ ''0123456789+/''"

text \<open>
  \<open>static_cast<size_t>(character)\<close> sign-extends, since \<open>char\<close> is signed on the wasm target; the
  mask test then rejects every character above 127.
\<close>

definition base64CharacterToValue :: "char \<Rightarrow> byte list \<Rightarrow> byte option" where
  "base64CharacterToValue character decodeTable =
     (let mask = (127 :: 32 word);
          index = (scast (byte_of character) :: 32 word)
      in if index AND NOT mask \<noteq> 0 then None
         else let value = decodeTable ! unat (index AND mask)
              in if value \<noteq> 255 then Some value else None)"

subsection \<open>Decoding\<close>

definition base64Decode4to3 :: "string \<Rightarrow> string \<Rightarrow> byte list \<Rightarrow> js_error + string" where
  "base64Decode4to3 input output tbl =
     (case (base64CharacterToValue (input ! 0) tbl, base64CharacterToValue (input ! 1) tbl,
            base64CharacterToValue (input ! 2) tbl, base64CharacterToValue (input ! 3) tbl) of
        (Some w, Some x, Some y, Some z) \<Rightarrow>
          Inr (output @ [char_of_byte (push_bit 2 w OR drop_bit 4 x),
                         char_of_byte (push_bit 4 x OR drop_bit 2 y),
                         char_of_byte (push_bit 6 y OR z)])
      | _ \<Rightarrow> Inl Failure)"

definition base64Decode3to2 :: "string \<Rightarrow> string \<Rightarrow> byte list \<Rightarrow> js_error + string" where
  "base64Decode3to2 input output tbl =
     (case (base64CharacterToValue (input ! 0) tbl, base64CharacterToValue (input ! 1) tbl,
            base64CharacterToValue (input ! 2) tbl) of
        (Some w, Some x, Some y) \<Rightarrow>
          Inr (output @ [char_of_byte (push_bit 2 w OR drop_bit 4 x),
                         char_of_byte (push_bit 4 x OR drop_bit 2 y)])
      | _ \<Rightarrow> Inl Failure)"

definition base64Decode2to1 :: "string \<Rightarrow> string \<Rightarrow> byte list \<Rightarrow> js_error + string" where
  "base64Decode2to1 input output tbl =
     (case (base64CharacterToValue (input ! 0) tbl, base64CharacterToValue (input ! 1) tbl) of
        (Some w, Some x) \<Rightarrow>
          Inr (output @ [char_of_byte (push_bit 2 w OR drop_bit 4 x)])
      | _ \<Rightarrow> Inl Failure)"

definition isAsciiWhitespace :: "char \<Rightarrow> bool" where
  "isAsciiWhitespace c \<longleftrightarrow> c = CHR 0x09 \<or> c = CHR 0x0A \<or> c = CHR 0x0C \<or> c = CHR 0x0D \<or> c = CHR '' ''"

text \<open>
  The string views of the code: \<open>find_if\<close> splits the data at the first whitespace character
  and \<open>remove_if\<close> and \<open>erase\<close> run over the rest of it.
\<close>

definition strip_whitespace :: "string \<Rightarrow> string" where
  "strip_whitespace data =
     takeWhile (\<lambda>c. \<not> isAsciiWhitespace c) data
       @ filter (\<lambda>c. \<not> isAsciiWhitespace c) (dropWhile (\<lambda>c. \<not> isAsciiWhitespace c) data)"

definition remove_padding :: "string \<Rightarrow> string" where
  "remove_padding data =
     (let len = length data
      in if len \<noteq> 0 \<and> len mod 4 = 0
         then if data ! (len - 1) = CHR ''=''
              then if data ! (len - 2) = CHR ''='' then take (len - 2) data else take (len - 1) data
              else data
         else data)"

fun decode_blocks :: "string \<Rightarrow> string \<Rightarrow> byte list \<Rightarrow> js_error + string" where
  "decode_blocks data_view output tbl =
     (if 4 \<le> length data_view
      then rbind (base64Decode4to3 data_view output tbl)
             (\<lambda>output. decode_blocks (drop 4 data_view) output tbl)
      else if length data_view = 3 then base64Decode3to2 data_view output tbl
      else if length data_view = 2 then base64Decode2to1 data_view output tbl
      else if length data_view = 1 then Inl Failure
      else Inr output)"

declare decode_blocks.simps [simp del]

definition forgivingBase64Decode :: "string \<Rightarrow> byte list \<Rightarrow> js_error + string" where
  "forgivingBase64Decode data tbl =
     (let data_view = remove_padding (strip_whitespace data)
      in if length data_view mod 4 = 1 then Inl Failure
         else decode_blocks data_view [] tbl)"

text \<open>\<open>atob\<close>: \<open>args\<close> are the arguments of the call.\<close>

definition atob :: "('o \<Rightarrow> js_string option) \<Rightarrow> 'o js_value list \<Rightarrow> js_error + string" where
  "atob to_string args =
     (if length args < 1 then Inl (NotEnoughArgs 1)
      else rbind (convertJSValueToByteString to_string (args ! 0)) (\<lambda>data.
             case forgivingBase64Decode data base64DecodeTable of
               Inl _ \<Rightarrow> Inl InvalidCharacterError
             | Inr decoded \<Rightarrow> Inr decoded))"

subsection \<open>Encoding\<close>

definition CharTo8Bit :: "char \<Rightarrow> byte" where
  "CharTo8Bit character = byte_of character"

definition base64Encode3to4 :: "string \<Rightarrow> string \<Rightarrow> string \<Rightarrow> string" where
  "base64Encode3to4 data output encodeTable =
     (let b32 = foldl (\<lambda>b i. push_bit 8 b OR ucast (CharTo8Bit (data ! i))) (0 :: 32 word) [0, 1, 2]
      in output @ map (\<lambda>j. encodeTable ! unat (drop_bit j b32 AND 0x3F)) [18, 12, 6, 0])"

definition base64Encode2to4 :: "string \<Rightarrow> string \<Rightarrow> string \<Rightarrow> string" where
  "base64Encode2to4 data output encodeTable =
     (let src0 = CharTo8Bit (data ! 0); src1 = CharTo8Bit (data ! 1)
      in output @ [encodeTable ! unat (drop_bit 2 src0 AND 0x3F),
                   encodeTable ! unat (push_bit 4 (src0 AND 0x03) OR (drop_bit 4 src1 AND 0x0F)),
                   encodeTable ! unat (push_bit 2 (src1 AND 0x0F)),
                   CHR ''=''])"

definition base64Encode1to4 :: "string \<Rightarrow> string \<Rightarrow> string \<Rightarrow> string" where
  "base64Encode1to4 data output encodeTable =
     (let src0 = CharTo8Bit (data ! 0)
      in output @ [encodeTable ! unat (drop_bit 2 src0 AND 0x3F),
                   encodeTable ! unat (push_bit 4 (src0 AND 0x03)),
                   CHR ''='', CHR ''=''])"

text \<open>
  The loop counts down an \<open>int\<close>, the length of the data narrowed to 32 signed bits.
\<close>

function encode_blocks :: "int \<Rightarrow> string \<Rightarrow> string \<Rightarrow> string \<Rightarrow> string" where
  "encode_blocks len data output encodeTable =
     (if 3 \<le> len
      then encode_blocks (len - 3) (drop 3 data) (base64Encode3to4 data output encodeTable) encodeTable
      else if len = 2 then base64Encode2to4 data output encodeTable
      else if len = 1 then base64Encode1to4 data output encodeTable
      else output)"
  by pat_completeness auto
termination
  by (relation "measure (\<lambda>(len, _). nat len)") auto

declare encode_blocks.simps [simp del]

definition forgivingBase64Encode :: "string \<Rightarrow> string \<Rightarrow> string" where
  "forgivingBase64Encode data encodeTable =
     encode_blocks (sint (of_nat (length data) :: 32 word)) data [] encodeTable"

definition btoa :: "('o \<Rightarrow> js_string option) \<Rightarrow> 'o js_value list \<Rightarrow> js_error + string" where
  "btoa to_string args =
     (if length args < 1 then Inl (NotEnoughArgs 1)
      else rbind (convertJSValueToByteString to_string (args ! 0)) (\<lambda>byteString.
             Inr (forgivingBase64Encode byteString base64EncodeTable)))"

subsection \<open>The alphabet\<close>

text \<open>RFC 4648: the value of a character is its position in the alphabet.\<close>

definition alphabet_value :: "string \<Rightarrow> char \<Rightarrow> byte option" where
  "alphabet_value alphabet c =
     (let i = length (takeWhile (\<lambda>x. x \<noteq> c) alphabet)
      in if i < length alphabet then Some (of_nat i) else None)"

definition base64URLAlphabet :: string where
  "base64URLAlphabet =
     ''ABCDEFGHIJKLMNOPQRSTUVWXYZ'' @ ''abcdefghijklmnopqrstuvwxyz'' @ ''0123456789-_''"

definition sound_table :: "byte list \<Rightarrow> bool" where
  "sound_table tbl \<longleftrightarrow> length tbl = 128 \<and> list_all (\<lambda>v. v = 255 \<or> v < 64) tbl"

lemma sound_base64DecodeTable: "sound_table base64DecodeTable"
  by (simp add: sound_table_def base64DecodeTable_def nonAlphabet_def)

lemma sound_base64URLDecodeTable: "sound_table base64URLDecodeTable"
  by (simp add: sound_table_def base64URLDecodeTable_def nonAlphabet_def)

lemma character_value_bound:
  assumes "sound_table tbl" and "base64CharacterToValue c tbl = Some v"
  shows "v < 64"
proof -
  let ?i = "unat ((scast (byte_of c) :: 32 word) AND 127)"
  have "?i \<le> unat (127 :: 32 word)"
    by (rule word_and_le1 [THEN word_le_nat_alt [THEN iffD1]])
  with assms(1) have "tbl ! ?i \<in> set tbl" by (simp add: sound_table_def)
  moreover from assms(2) have "v = tbl ! ?i" and "v \<noteq> 255"
    by (auto simp: base64CharacterToValue_def Let_def split: if_splits)
  ultimately show ?thesis using assms(1) by (auto simp: sound_table_def list_all_iff)
qed

lemma decode_table_all:
  "list_all (\<lambda>c. base64CharacterToValue c base64DecodeTable =
     (if c = CHR ''_'' then Some 63 else alphabet_value base64EncodeTable c)) Enum.enum"
  by code_simp

lemma url_table_all:
  "list_all (\<lambda>c. base64CharacterToValue c base64URLDecodeTable =
     alphabet_value base64URLAlphabet c) Enum.enum"
  by code_simp

subsection \<open>The bit-buffer reference decoder\<close>

text \<open>
  The WHATWG algorithm: every character contributes the six bits of its value to a buffer, most
  significant bit first; the buffer is cut into bytes and what is left over (two or four bits)
  is discarded.
\<close>

definition six_bits :: "byte \<Rightarrow> bool list" where
  "six_bits v = [bit v 5, bit v 4, bit v 3, bit v 2, bit v 1, bit v 0]"

fun bytes_of_bits :: "bool list \<Rightarrow> string" where
  "bytes_of_bits (b7 # b6 # b5 # b4 # b3 # b2 # b1 # b0 # bits) =
     Char b0 b1 b2 b3 b4 b5 b6 b7 # bytes_of_bits bits"
| "bytes_of_bits _ = []"

definition spec_decode_values :: "(char \<Rightarrow> byte option) \<Rightarrow> string \<Rightarrow> string option" where
  "spec_decode_values value data =
     (if length data mod 4 = 1 then None
      else map_option (\<lambda>vs. bytes_of_bits (concat (map six_bits vs))) (those (map value data)))"

definition spec_decode :: "(char \<Rightarrow> byte option) \<Rightarrow> string \<Rightarrow> string option" where
  "spec_decode value data =
     spec_decode_values value (remove_padding (filter (\<lambda>c. \<not> isAsciiWhitespace c) data))"

lemma high_bits_zero:
  fixes v :: byte
  assumes "v < 64" and "6 \<le> n"
  shows "\<not> bit v n"
proof -
  have "unat v < 2 ^ 6" using assms(1) by (simp add: word_less_nat_alt)
  also have "(2 :: nat) ^ 6 \<le> 2 ^ n" using assms(2) by (rule power_increasing) simp
  finally have "\<not> bit (unat v) n" by (simp add: bit_iff_odd)
  then show ?thesis by (auto simp: bit_unsigned_iff dest: bit_imp_le_length)
qed

lemma block_bits:
  fixes w x y z :: byte
  shows "x < 64 \<Longrightarrow> char_of_byte (push_bit 2 w OR drop_bit 4 x) =
           Char (bit x 4) (bit x 5) (bit w 0) (bit w 1) (bit w 2) (bit w 3) (bit w 4) (bit w 5)"
    and "y < 64 \<Longrightarrow> char_of_byte (push_bit 4 x OR drop_bit 2 y) =
           Char (bit y 2) (bit y 3) (bit y 4) (bit y 5) (bit x 0) (bit x 1) (bit x 2) (bit x 3)"
    and "z < 64 \<Longrightarrow> char_of_byte (push_bit 6 y OR z) =
           Char (bit z 0) (bit z 1) (bit z 2) (bit z 3) (bit z 4) (bit z 5) (bit y 0) (bit y 1)"
  by (simp_all add: Char_of_byte bit_or_iff bit_push_bit_iff bit_drop_bit_eq high_bits_zero)

lemma those_Cons_split:
  "those (v # vs) = (case v of None \<Rightarrow> None | Some x \<Rightarrow> map_option ((#) x) (those vs))"
  by (cases v) simp_all

lemma base64Decode4to3_bits:
  assumes "sound_table tbl"
  shows "base64Decode4to3 (a # b # c # d # rest) out tbl =
    (case those (map (\<lambda>c. base64CharacterToValue c tbl) [a, b, c, d]) of
       None \<Rightarrow> Inl Failure
     | Some vs \<Rightarrow> Inr (out @ bytes_of_bits (concat (map six_bits vs))))"
  by (auto simp: character_value_bound [OF assms] base64Decode4to3_def block_bits six_bits_def split: option.splits)

lemma base64Decode3to2_bits:
  assumes "sound_table tbl"
  shows "base64Decode3to2 [a, b, c] out tbl =
    (case those (map (\<lambda>c. base64CharacterToValue c tbl) [a, b, c]) of
       None \<Rightarrow> Inl Failure
     | Some vs \<Rightarrow> Inr (out @ bytes_of_bits (concat (map six_bits vs))))"
  by (auto simp: character_value_bound [OF assms] base64Decode3to2_def block_bits six_bits_def split: option.splits)

lemma base64Decode2to1_bits:
  assumes "sound_table tbl"
  shows "base64Decode2to1 [a, b] out tbl =
    (case those (map (\<lambda>c. base64CharacterToValue c tbl) [a, b]) of
       None \<Rightarrow> Inl Failure
     | Some vs \<Rightarrow> Inr (out @ bytes_of_bits (concat (map six_bits vs))))"
  by (auto simp: character_value_bound [OF assms] base64Decode2to1_def block_bits six_bits_def split: option.splits)

lemma bytes_of_bits_24:
  "bytes_of_bits (six_bits w @ six_bits x @ six_bits y @ six_bits z @ bits) =
     bytes_of_bits (six_bits w @ six_bits x @ six_bits y @ six_bits z) @ bytes_of_bits bits"
  by (simp add: six_bits_def)

lemma those_map_append:
  "those (map f (xs @ ys)) =
     (case those (map f xs) of None \<Rightarrow> None | Some us \<Rightarrow> map_option ((@) us) (those (map f ys)))"
  by (induction xs) (auto simp: option.map_comp comp_def map_option_case split: option.splits)

lemma those_length: "those xs = Some ys \<Longrightarrow> length ys = length xs"
  by (induction xs arbitrary: ys) (auto simp: those_Cons_split split: option.splits)

lemma decode_blocks_spec:
  assumes "sound_table tbl"
  shows "decode_blocks data out tbl =
    (case spec_decode_values (\<lambda>c. base64CharacterToValue c tbl) data of
       None \<Rightarrow> Inl Failure | Some r \<Rightarrow> Inr (out @ r))"
proof (induction data arbitrary: out rule: length_induct)
  case (1 data)
  let ?val6 = "\<lambda>c. base64CharacterToValue c tbl"
  show ?case
  proof (cases "4 \<le> length data")
    case True
    then obtain a b c e rest where d: "data = a # b # c # e # rest"
      by (auto simp: Suc_le_length_iff numeral_eq_Suc)
    have split: "those (map ?val6 data) =
        (case those (map ?val6 [a, b, c, e]) of None \<Rightarrow> None
         | Some us \<Rightarrow> map_option ((@) us) (those (map ?val6 rest)))"
      using those_map_append [of ?val6 "[a, b, c, e]" rest] d by simp
    have len: "length data mod 4 = length rest mod 4" using d by simp
    have step: "decode_blocks data out tbl =
        rbind (base64Decode4to3 (a # b # c # e # rest) out tbl) (\<lambda>out. decode_blocks rest out tbl)"
      using True by (subst decode_blocks.simps) (simp add: d)
    show ?thesis
    proof (cases "those (map ?val6 [a, b, c, e])")
      case None
      with step split show ?thesis
        by (simp add: base64Decode4to3_bits [OF assms] spec_decode_values_def del: those.simps(2))
    next
      case (Some vs)
      have "length vs = 4" using those_length [OF Some] by simp
      then obtain w x y z where vs: "vs = [w, x, y, z]"
        by (auto simp: length_Suc_conv numeral_eq_Suc)
      have "decode_blocks rest out' tbl =
          (case spec_decode_values ?val6 rest of None \<Rightarrow> Inl Failure | Some r \<Rightarrow> Inr (out' @ r))" for out'
        using 1 d by simp
      with Some step split len show ?thesis
        by (auto simp: vs base64Decode4to3_bits [OF assms] spec_decode_values_def bytes_of_bits_24
            split: option.splits simp del: those.simps(2))
    qed
  next
    case False
    then consider "data = []" | a where "data = [a]" | a b where "data = [a, b]"
      | a b c where "data = [a, b, c]"
      by (cases data rule: remdups_adj.cases) (auto simp: numeral_eq_Suc length_Suc_conv not_le less_Suc_eq)
    then show ?thesis
      by cases (auto simp: decode_blocks.simps spec_decode_values_def base64Decode3to2_bits [OF assms]
          base64Decode2to1_bits [OF assms] simp del: those.simps(2) split: option.splits)
  qed
qed

subsection \<open>The bit-buffer reference encoder\<close>

text \<open>
  RFC 4648: the bits of the input are cut into groups of six, the last group is filled with
  zero bits, each group indexes the alphabet and \<open>=\<close> fills the last quantum of four.
\<close>

definition byte_bits :: "char \<Rightarrow> bool list" where
  "byte_bits c = map (bit (byte_of c)) [7, 6, 5, 4, 3, 2, 1, 0]"

definition sextet :: "bool \<Rightarrow> bool \<Rightarrow> bool \<Rightarrow> bool \<Rightarrow> bool \<Rightarrow> bool \<Rightarrow> byte" where
  "sextet a b c d e f = byte_of (Char f e d c b a False False)"

fun sextets :: "bool list \<Rightarrow> byte list" where
  "sextets (a # b # c # d # e # f # bits) = sextet a b c d e f # sextets bits"
| "sextets [] = []"
| "sextets bits =
     (let p = bits @ replicate (6 - length bits) False
      in [sextet (p ! 0) (p ! 1) (p ! 2) (p ! 3) (p ! 4) (p ! 5)])"

definition spec_encode_values :: "string \<Rightarrow> byte list" where
  "spec_encode_values data = sextets (concat (map byte_bits data))"

definition spec_encode :: "string \<Rightarrow> string \<Rightarrow> string" where
  "spec_encode alphabet data =
     (let cs = map (\<lambda>v. alphabet ! unat v) (spec_encode_values data)
      in cs @ replicate ((4 - length cs mod 4) mod 4) CHR ''='')"

lemma less_6_cases: "n < (6 :: nat) \<Longrightarrow> n \<in> {0, 1, 2, 3, 4, 5}"
  by auto

lemma bit_sextet: "bit (sextet a b c d e f) n = (n < 6 \<and> [f, e, d, c, b, a] ! n)"
proof (cases "n < 6")
  case True
  from less_6_cases [OF this] show ?thesis by (auto simp: sextet_def bit_byte_of_Char)
next
  case False
  then have "n < 8 \<Longrightarrow> n \<in> {6, 7}" by auto
  with False show ?thesis by (auto simp: sextet_def bit_byte_of_Char)
qed

lemma six_bits_sextet: "six_bits (sextet a b c d e f) = [a, b, c, d, e, f]"
  by (simp add: six_bits_def bit_sextet)

lemma sextet_bound: "sextet a b c d e f < 64"
proof -
  have "sextet a b c d e f = sextet a b c d e f AND mask 6"
    by (rule bit_eqI) (auto simp: bit_and_iff bit_mask_iff bit_sextet)
  also have "\<dots> \<le> mask 6" by (rule word_and_le1)
  also have "(mask 6 :: byte) < 64" by (simp add: mask_eq_exp_minus_1)
  finally show ?thesis .
qed

lemma word_eq_sextetI:
  fixes x :: "'a::len word"
  assumes "\<And>n. 6 \<le> n \<Longrightarrow> \<not> bit x n"
    and "bit x 0 = f" "bit x 1 = e" "bit x 2 = d" "bit x 3 = c" "bit x 4 = b" "bit x 5 = a"
    and "8 \<le> LENGTH('a)"
  shows "unat x = unat (sextet a b c d e f)"
proof -
  have "x = ucast (sextet a b c d e f)"
  proof (rule bit_word_eqI)
    fix n
    assume "n < LENGTH('a)"
    show "bit x n = bit (ucast (sextet a b c d e f) :: 'a word) n"
    proof (cases "n < 6")
      case True
      then show ?thesis
        using less_6_cases [OF True] assms(2-8) by (auto simp: bit_ucast_iff bit_sextet)
    next
      case False
      then show ?thesis using assms(1) by (simp add: bit_ucast_iff bit_sextet)
    qed
  qed
  moreover have "unat (sextet a b c d e f) < 2 ^ LENGTH('a)"
  proof -
    have "unat (sextet a b c d e f) < 2 ^ 6"
      using sextet_bound [of a b c d e f] by (simp add: word_less_nat_alt)
    also have "(2 :: nat) ^ 6 \<le> 2 ^ LENGTH('a)" using assms(8) by (intro power_increasing) simp_all
    finally show ?thesis .
  qed
  ultimately show ?thesis by (simp add: unsigned_ucast_eq take_bit_nat_eq_self)
qed

lemma encode3to4_values:
  "base64Encode3to4 (c0 # c1 # c2 # rest) out tbl =
     out @ map (\<lambda>v. tbl ! unat v) (sextets (byte_bits c0 @ byte_bits c1 @ byte_bits c2))"
proof -
  let ?b32 = "push_bit 8 (push_bit 8 (ucast (byte_of c0)) OR ucast (byte_of c1)) OR
      ucast (byte_of c2) :: 32 word"
  note bits = bit_and_iff bit_or_iff bit_drop_bit_eq bit_push_bit_iff bit_ucast_iff
  have mask: "(63 :: 32 word) = mask 6" by (simp add: mask_eq_exp_minus_1)
  have "unat (drop_bit 18 ?b32 AND 63) = unat (sextet (bit (byte_of c0) 7) (bit (byte_of c0) 6)
      (bit (byte_of c0) 5) (bit (byte_of c0) 4) (bit (byte_of c0) 3) (bit (byte_of c0) 2))"
    unfolding mask by (rule word_eq_sextetI) (auto simp: bits bit_mask_iff dest: bit_imp_le_length)
  moreover have "unat (drop_bit 12 ?b32 AND 63) = unat (sextet (bit (byte_of c0) 1) (bit (byte_of c0) 0)
      (bit (byte_of c1) 7) (bit (byte_of c1) 6) (bit (byte_of c1) 5) (bit (byte_of c1) 4))"
    unfolding mask by (rule word_eq_sextetI) (auto simp: bits bit_mask_iff dest: bit_imp_le_length)
  moreover have "unat (drop_bit 6 ?b32 AND 63) = unat (sextet (bit (byte_of c1) 3) (bit (byte_of c1) 2)
      (bit (byte_of c1) 1) (bit (byte_of c1) 0) (bit (byte_of c2) 7) (bit (byte_of c2) 6))"
    unfolding mask by (rule word_eq_sextetI) (auto simp: bits bit_mask_iff dest: bit_imp_le_length)
  moreover have "unat (?b32 AND 63) = unat (sextet (bit (byte_of c2) 5) (bit (byte_of c2) 4)
      (bit (byte_of c2) 3) (bit (byte_of c2) 2) (bit (byte_of c2) 1) (bit (byte_of c2) 0))"
    unfolding mask by (rule word_eq_sextetI) (auto simp: bits bit_mask_iff dest: bit_imp_le_length)
  ultimately show ?thesis
    by (simp add: base64Encode3to4_def CharTo8Bit_def byte_bits_def)
qed

lemma masks_byte: "(3 :: byte) = mask 2" "(15 :: byte) = mask 4" "(63 :: byte) = mask 6"
  by (simp_all add: mask_eq_exp_minus_1)

lemma encode2to4_values:
  "base64Encode2to4 [c0, c1] out tbl =
     out @ map (\<lambda>v. tbl ! unat v) (sextets (byte_bits c0 @ byte_bits c1)) @ ''=''"
proof -
  note bits = bit_and_iff bit_or_iff bit_drop_bit_eq bit_push_bit_iff bit_mask_iff
  have "unat (drop_bit 2 (byte_of c0) AND 63) = unat (sextet (bit (byte_of c0) 7) (bit (byte_of c0) 6)
      (bit (byte_of c0) 5) (bit (byte_of c0) 4) (bit (byte_of c0) 3) (bit (byte_of c0) 2))"
    unfolding masks_byte by (rule word_eq_sextetI) (auto simp: bits dest: bit_imp_le_length)
  moreover have "unat (push_bit 4 (byte_of c0 AND 3) OR (drop_bit 4 (byte_of c1) AND 15)) =
      unat (sextet (bit (byte_of c0) 1) (bit (byte_of c0) 0)
      (bit (byte_of c1) 7) (bit (byte_of c1) 6) (bit (byte_of c1) 5) (bit (byte_of c1) 4))"
    unfolding masks_byte by (rule word_eq_sextetI) (auto simp: bits dest: bit_imp_le_length)
  moreover have "unat (push_bit 2 (byte_of c1 AND 15)) = unat (sextet (bit (byte_of c1) 3)
      (bit (byte_of c1) 2) (bit (byte_of c1) 1) (bit (byte_of c1) 0) False False)"
    unfolding masks_byte by (rule word_eq_sextetI) (auto simp: bits dest: bit_imp_le_length)
  ultimately show ?thesis
    by (simp add: base64Encode2to4_def Let_def CharTo8Bit_def byte_bits_def)
qed

lemma encode1to4_values:
  "base64Encode1to4 [c0] out tbl =
     out @ map (\<lambda>v. tbl ! unat v) (sextets (byte_bits c0)) @ ''==''"
proof -
  note bits = bit_and_iff bit_or_iff bit_drop_bit_eq bit_push_bit_iff bit_mask_iff
  have "unat (drop_bit 2 (byte_of c0) AND 63) = unat (sextet (bit (byte_of c0) 7) (bit (byte_of c0) 6)
      (bit (byte_of c0) 5) (bit (byte_of c0) 4) (bit (byte_of c0) 3) (bit (byte_of c0) 2))"
    unfolding masks_byte by (rule word_eq_sextetI) (auto simp: bits dest: bit_imp_le_length)
  moreover have "unat (push_bit 4 (byte_of c0 AND 3)) = unat (sextet (bit (byte_of c0) 1)
      (bit (byte_of c0) 0) False False False False)"
    unfolding masks_byte by (rule word_eq_sextetI) (auto simp: bits dest: bit_imp_le_length)
  ultimately show ?thesis
    by (simp add: base64Encode1to4_def Let_def CharTo8Bit_def byte_bits_def)
qed

lemma sextets_24:
  "sextets (byte_bits c0 @ byte_bits c1 @ byte_bits c2 @ bits) =
     sextets (byte_bits c0 @ byte_bits c1 @ byte_bits c2) @ sextets bits"
  by (simp add: byte_bits_def)

lemma length_sextets: "length (sextets bits) = (length bits + 5) div 6"
  by (induction bits rule: sextets.induct) simp_all

lemma length_byte_bits [simp]: "length (byte_bits c) = 8"
  by (simp add: byte_bits_def)

lemma length_concat_byte_bits [simp]: "length (concat (map byte_bits data)) = 8 * length data"
  by (induction data) simp_all

lemma length_spec_encode_values: "length (spec_encode_values data) = (8 * length data + 5) div 6"
  by (simp add: spec_encode_values_def length_sextets)

lemma three_blocks_cases:
  obtains "data = []" | a where "data = [a]" | a b where "data = [a, b]"
  | a b c rest where "data = a # b # c # rest"
  by (metis list.exhaust)

lemma encode_blocks_spec:
  "encode_blocks (int (length data)) data out tbl = out @ spec_encode tbl data"
proof (induction data arbitrary: out rule: length_induct)
  case (1 data)
  show ?case
  proof (cases data rule: three_blocks_cases)
    case (4 a b c rest)
    have vals: "spec_encode_values data =
        sextets (byte_bits a @ byte_bits b @ byte_bits c) @ spec_encode_values rest"
      using sextets_24 [of a b c "concat (map byte_bits rest)"] 4 by (simp add: spec_encode_values_def)
    have "length (sextets (byte_bits a @ byte_bits b @ byte_bits c)) = 4"
      by (simp add: length_sextets)
    with vals have spec: "spec_encode tbl data =
        map (\<lambda>v. tbl ! unat v) (sextets (byte_bits a @ byte_bits b @ byte_bits c)) @ spec_encode tbl rest"
      by (simp add: spec_encode_def Let_def)
    have "encode_blocks (int (length data)) data out tbl =
        encode_blocks (int (length rest)) rest (base64Encode3to4 (a # b # c # rest) out tbl) tbl"
      by (subst encode_blocks.simps) (simp add: 4)
    also have "\<dots> = base64Encode3to4 (a # b # c # rest) out tbl @ spec_encode tbl rest"
      using 1 4 by simp
    finally show ?thesis by (simp add: encode3to4_values spec)
  qed (simp_all add: encode_blocks.simps encode1to4_values encode2to4_values spec_encode_def
      spec_encode_values_def length_sextets numeral_2_eq_2)
qed

subsection \<open>Round trip of the reference algorithms\<close>

lemma six_bits_sextets:
  "\<exists>k < 6. concat (map six_bits (sextets bits)) = bits @ replicate k False"
proof (induction bits rule: sextets.induct [case_names Six Nil One Two Three Four Five])
  case Nil
  show ?case by (rule exI [of _ 0]) simp
next
  case (One a)
  show ?case by (rule exI [of _ 5]) (simp add: six_bits_sextet eval_nat_numeral)
next
  case (Two a b)
  show ?case by (rule exI [of _ 4]) (simp add: six_bits_sextet eval_nat_numeral)
next
  case (Three a b c)
  show ?case by (rule exI [of _ 3]) (simp add: six_bits_sextet eval_nat_numeral)
next
  case (Four a b c d)
  show ?case by (rule exI [of _ 2]) (simp add: six_bits_sextet eval_nat_numeral)
next
  case (Five a b c d e)
  show ?case by (rule exI [of _ 1]) (simp add: six_bits_sextet eval_nat_numeral)
qed (auto simp: six_bits_sextet)

lemma bytes_of_bits_short: "length bits < 8 \<Longrightarrow> bytes_of_bits bits = []"
  by (cases bits rule: bytes_of_bits.cases) simp_all

lemma bytes_of_bits_bytes:
  "k < 8 \<Longrightarrow> bytes_of_bits (concat (map byte_bits data) @ replicate k False) = data"
proof (induction data)
  case (Cons c data)
  have "Char (bit (byte_of c) 0) (bit (byte_of c) 1) (bit (byte_of c) 2) (bit (byte_of c) 3)
      (bit (byte_of c) 4) (bit (byte_of c) 5) (bit (byte_of c) 6) (bit (byte_of c) 7) = c"
    by (metis Char_of_byte char_of_byte_of)
  with Cons show ?case by (simp add: byte_bits_def)
qed (simp add: bytes_of_bits_short)

lemma alphabet_chars: "list_all (\<lambda>c. \<not> isAsciiWhitespace c \<and> c \<noteq> CHR ''='' \<and> c \<noteq> CHR ''_'') base64EncodeTable"
  by (simp add: base64EncodeTable_def isAsciiWhitespace_def)

lemma takeWhile_distinct: "distinct xs \<Longrightarrow> i < length xs \<Longrightarrow> length (takeWhile (\<lambda>x. x \<noteq> xs ! i) xs) = i"
proof (induction xs arbitrary: i)
  case (Cons x xs)
  then show ?case by (cases i) auto
qed simp

lemma alphabet_value_nth:
  assumes "i < 64"
  shows "alphabet_value base64EncodeTable (base64EncodeTable ! i) = Some (of_nat i)"
proof -
  have "distinct base64EncodeTable" "length base64EncodeTable = 64" by (simp_all add: base64EncodeTable_def)
  then show ?thesis using assms takeWhile_distinct [of base64EncodeTable i] by (simp add: alphabet_value_def)
qed

lemma alphabet_all:
  "list_all (\<lambda>i. base64CharacterToValue (base64EncodeTable ! i) base64DecodeTable = Some (of_nat i)
     \<and> \<not> isAsciiWhitespace (base64EncodeTable ! i) \<and> base64EncodeTable ! i \<noteq> CHR ''='') [0..<64]"
proof -
  have "base64EncodeTable ! i \<in> set base64EncodeTable" if "i < 64" for i
    using that by (intro nth_mem) (simp add: base64EncodeTable_def)
  then show ?thesis
    using alphabet_chars alphabet_value_nth decode_table_all by (auto simp: list_all_iff enum_UNIV)
qed

lemma alphabet_facts:
  assumes "v < 64"
  shows "base64CharacterToValue (base64EncodeTable ! unat v) base64DecodeTable = Some v"
    and "\<not> isAsciiWhitespace (base64EncodeTable ! unat v)"
    and "base64EncodeTable ! unat v \<noteq> CHR ''=''"
proof -
  have "unat v < 64" using assms by (simp add: word_less_nat_alt)
  with alphabet_all show
    "base64CharacterToValue (base64EncodeTable ! unat v) base64DecodeTable = Some v"
    "\<not> isAsciiWhitespace (base64EncodeTable ! unat v)"
    "base64EncodeTable ! unat v \<noteq> CHR ''=''"
    by (simp_all add: list_all_iff)
qed

lemma spec_encode_values_bound: "v \<in> set (spec_encode_values data) \<Longrightarrow> v < 64"
proof -
  have "v \<in> set (sextets bits) \<Longrightarrow> v < 64" for bits
    by (induction bits rule: sextets.induct) (auto simp: sextet_bound Let_def)
  then show "v \<in> set (spec_encode_values data) \<Longrightarrow> v < 64"
    by (simp add: spec_encode_values_def)
qed

lemma those_map_Some: "(\<And>x. x \<in> set xs \<Longrightarrow> f x = Some (g x)) \<Longrightarrow> those (map f xs) = Some (map g xs)"
  by (induction xs) auto

lemma remove_padding_spec_encode:
  "remove_padding (spec_encode base64EncodeTable data) =
     map (\<lambda>v. base64EncodeTable ! unat v) (spec_encode_values data)"
proof -
  let ?cs = "map (\<lambda>v. base64EncodeTable ! unat v) (spec_encode_values data)"
  let ?n = "length ?cs"
  have n: "?n mod 4 \<noteq> 1" by (simp add: length_spec_encode_values) presburger
  have ne: "c \<in> set ?cs \<Longrightarrow> c \<noteq> CHR ''=''" for c
    using alphabet_facts(3) spec_encode_values_bound by auto
  have last: "?cs ! i \<noteq> CHR ''=''" if "i < ?n" for i
    using ne nth_mem [OF that] by blast
  have enc: "spec_encode base64EncodeTable data = ?cs @ replicate ((4 - ?n mod 4) mod 4) CHR ''=''"
    by (simp add: spec_encode_def Let_def)
  consider "?n mod 4 = 0" | "?n mod 4 = 2" | "?n mod 4 = 3" using n by linarith
  then show ?thesis
  proof cases
    case 1
    with last [of "?n - 1"] show ?thesis by (auto simp: enc remove_padding_def Let_def)
  next
    case 2
    then have "(?n + 2) mod 4 = 0" by presburger
    with 2 show ?thesis by (simp add: enc remove_padding_def Let_def nth_append numeral_2_eq_2)
  next
    case 3
    then have "(?n + 1) mod 4 = 0" and "?n \<noteq> 0" by presburger+
    with 3 last [of "?n - 1"] show ?thesis
      by (simp add: enc remove_padding_def Let_def nth_append)
  qed
qed

lemma strip_whitespace_filter [simp]:
  "strip_whitespace data = filter (\<lambda>c. \<not> isAsciiWhitespace c) data"
  by (simp add: strip_whitespace_def drop_while_take_filter)

lemma forgivingBase64Decode_spec:
  assumes "sound_table tbl"
  shows "forgivingBase64Decode data tbl =
    (case spec_decode (\<lambda>c. base64CharacterToValue c tbl) data of
       None \<Rightarrow> Inl Failure | Some r \<Rightarrow> Inr r)"
  by (auto simp: forgivingBase64Decode_def Let_def decode_blocks_spec [OF assms] spec_decode_def
      spec_decode_values_def split: option.splits)

lemma sint_length: "length data < 2 ^ 31 \<Longrightarrow> sint (of_nat (length data) :: 32 word) = int (length data)"
  by (simp add: signed_of_nat signed_take_bit_int_eq_self)

lemma forgivingBase64Encode_spec:
  "length data < 2 ^ 31 \<Longrightarrow> forgivingBase64Encode data tbl = spec_encode tbl data"
  by (simp add: forgivingBase64Encode_def sint_length encode_blocks_spec)

lemma spec_encode_no_whitespace:
  "filter (\<lambda>c. \<not> isAsciiWhitespace c) (spec_encode base64EncodeTable data) =
     spec_encode base64EncodeTable data"
  using alphabet_facts(2) spec_encode_values_bound
  by (auto simp: spec_encode_def Let_def isAsciiWhitespace_def filter_id_conv)

lemma spec_round_trip:
  "spec_decode (\<lambda>c. base64CharacterToValue c base64DecodeTable) (spec_encode base64EncodeTable data) =
     Some data"
proof -
  have "those (map (\<lambda>c. base64CharacterToValue c base64DecodeTable)
      (map (\<lambda>v. base64EncodeTable ! unat v) (spec_encode_values data))) = Some (spec_encode_values data)"
    unfolding map_map comp_def
    using alphabet_facts(1) spec_encode_values_bound by (subst those_map_Some [where g = id]) auto
  moreover obtain k where "k < 6" and "concat (map six_bits (spec_encode_values data)) =
      concat (map byte_bits data) @ replicate k False"
    using six_bits_sextets [of "concat (map byte_bits data)"] by (auto simp: spec_encode_values_def)
  moreover have "(8 * length data + 5) div 6 mod 4 \<noteq> 1" by presburger
  ultimately show ?thesis
    by (simp add: spec_decode_def spec_encode_no_whitespace remove_padding_spec_encode
        spec_decode_values_def length_spec_encode_values bytes_of_bits_bytes)
qed

lemma decode_table_alphabet:
  "base64CharacterToValue c base64DecodeTable =
     (if c = CHR ''_'' then Some 63 else alphabet_value base64EncodeTable c)"
  using decode_table_all unfolding list_all_UNIV_iff by blast

lemma url_table_alphabet:
  "base64CharacterToValue c base64URLDecodeTable = alphabet_value base64URLAlphabet c"
  using url_table_all unfolding list_all_UNIV_iff by blast

subsection \<open>Properties\<close>

text \<open>
  C1. Round trip of the two global functions: whatever byte string a value converts to,
  \<open>btoa\<close> returns a string and \<open>atob\<close> of that string is the byte string again.  (A JavaScript
  string is shorter than \<open>2^30\<close> code units; the bound is where the \<open>int\<close> length of the loop is
  exact.)
\<close>

theorem btoa_atob_roundtrip:
  assumes "convertJSValueToByteString to_string v = Inr bytes" and "length bytes < 2 ^ 31"
  shows "\<exists>encoded. btoa to_string [v] = Inr encoded
    \<and> atob to_string [VString (Latin1 (map byte_of encoded))] = Inr bytes"
  using assms
  by (simp add: btoa_def atob_def convertJSValueToByteString_def [of _ "VString _"] comp_def
      forgivingBase64Encode_spec forgivingBase64Decode_spec sound_base64DecodeTable spec_round_trip)

theorem btoa_atob_roundtrip_witness:
  "\<exists>encoded. btoa (\<lambda>_ :: unit. None) [VString (TwoByte [0x48, 0xFF])] = Inr encoded
    \<and> atob (\<lambda>_ :: unit. None) [VString (Latin1 (map byte_of encoded))] = Inr [CHR ''H'', CHR 0xFF]"
proof (rule btoa_atob_roundtrip)
  show "convertJSValueToByteString (\<lambda>_ :: unit. None) (VString (TwoByte [0x48, 0xFF])) =
      Inr [CHR ''H'', CHR 0xFF]"
    by (simp add: convertJSValueToByteString_def has_bad_char_def Char_of_byte bit_1_iff bit_Suc_0_iff)
qed simp

text \<open>
  C2. The block decoder with its two-at-a-time string views computes the bit-buffer algorithm
  of the WHATWG text: whitespace is dropped, padding is dropped from a multiple of four, a
  remainder of one or a character outside the table is a failure, and the output is the
  concatenated six-bit values cut into bytes.  For the URL table the values are exactly
  positions in the RFC 4648 URL alphabet; for the standard table they are positions in the
  alphabet, except that the underscore is accepted as the value 63.
\<close>

theorem forgivingBase64Decode_correct:
  "forgivingBase64Decode data base64URLDecodeTable =
     (case spec_decode (alphabet_value base64URLAlphabet) data of
        None \<Rightarrow> Inl Failure | Some r \<Rightarrow> Inr r)
   \<and> forgivingBase64Decode data base64DecodeTable =
     (case spec_decode (\<lambda>c. if c = CHR ''_'' then Some 63 else alphabet_value base64EncodeTable c) data of
        None \<Rightarrow> Inl Failure | Some r \<Rightarrow> Inr r)"
  by (simp add: forgivingBase64Decode_spec sound_base64DecodeTable sound_base64URLDecodeTable
      url_table_alphabet decode_table_alphabet)

text \<open>
  C3. The encode loop with its three block encoders computes RFC 4648 encoding: the bits of
  the input in groups of six, zero-filled, mapped through the alphabet and padded with \<open>=\<close>.
\<close>

theorem forgivingBase64Encode_correct:
  assumes "length data < 2 ^ 31"
  shows "forgivingBase64Encode data base64EncodeTable = spec_encode base64EncodeTable data"
  using assms by (rule forgivingBase64Encode_spec)

theorem forgivingBase64Encode_correct_witness:
  "forgivingBase64Encode ''Ma'' base64EncodeTable = spec_encode base64EncodeTable ''Ma''"
  by (rule forgivingBase64Encode_correct) simp

text \<open>
  The standard table departs from the RFC 4648 alphabet: \<open>atob\<close> accepts a string with an
  underscore in it, which the alphabet the code quotes in its comment (plus, slash and ASCII
  alphanumerics) does not contain, and decodes it as if it were a slash.
\<close>

theorem atob_accepts_underscore:
  "alphabet_value base64EncodeTable CHR ''_'' = None
   \<and> atob to_string [VString (Latin1 (map byte_of ''AAA_''))] =
       Inr [CHR 0x00, CHR 0x00, CHR 0x3F]"
proof -
  have lookup: "base64CharacterToValue CHR ''A'' base64DecodeTable = Some 0"
    "base64CharacterToValue CHR ''_'' base64DecodeTable = Some 63"
    by code_simp+
  have "forgivingBase64Decode ''AAA_'' base64DecodeTable = Inr [CHR 0x00, CHR 0x00, CHR 0x3F]"
    by (simp add: forgivingBase64Decode_def remove_padding_def isAsciiWhitespace_def
        decode_blocks.simps base64Decode4to3_def lookup Char_of_byte bit_1_iff bit_Suc_0_iff)
  moreover have "alphabet_value base64EncodeTable CHR ''_'' = None" by code_simp
  ultimately show ?thesis
    by (simp add: atob_def convertJSValueToByteString_def comp_def)
qed

end
