(* ===== verification/Event_Loop.thy ===== *)
theory Event_Loop
  imports Prelude
begin

section \<open>The event loop and timers\<close>

text \<open>
  Models \<open>runtime/event_loop.cpp\<close> (the task queue, cancellation and the loop),
  \<open>builtins/web/timers.cpp\<close> (the timer task and the four global functions), the declaration of
  \<open>AsyncTask\<close> in \<open>include/extension-api.h\<close>, and the clock and \<open>AsyncTask::select\<close> of
  \<open>host-apis/wasi-0.2.0/host_api.cpp\<close>.

  Tasks are C++ objects behind pointers, and a running task can be cancelled by its own callback,
  so the objects live in a heap and the queue is a list of references.  What is not code of the
  repository is a field of the record \<open>host\<close>: the clock, the handle the host gives to a new
  pollable, \<open>poll\<close>, and of the JavaScript engine the job queue, the conversion of arguments and
  the call of a callback, which may change the whole loop state (a callback can set and clear
  timers).  A handle that is not live makes the host trap when it is dropped: that, an abort of
  the process and an out-of-range access of the vector are the ways to stop of \<open>stop\<close>.
\<close>

text \<open>
  \<open>PollableHandle\<close> is an \<open>int32_t\<close>; a handle is the signed value.
\<close>

type_synonym pollable = int

definition INVALID_POLLABLE_HANDLE :: pollable where
  "INVALID_POLLABLE_HANDLE = - 1"

datatype stop = Trap | Abort | OutOfRange

record 'v timer =
  tm_handle :: pollable
  tm_delay :: "64 word"
  tm_deadline :: "64 word"
  tm_repeat :: bool
  tm_callback :: 'v
  tm_arguments :: "'v list"

record ('v, 'e) loop_state =
  heap :: "nat \<Rightarrow> 'v timer option"
  next_ref :: nat
  tasks :: "nat list"
  pollables :: "(pollable \<times> 64 word) list"
  engine :: 'e

record ('v, 'e) host =
  clock_now :: "'e \<Rightarrow> 64 word"
  fresh_handle :: "pollable list \<Rightarrow> pollable"
  poll :: "pollable list \<Rightarrow> 'e \<Rightarrow> nat list \<times> 'e"
  call_js :: "'v \<Rightarrow> 'v list \<Rightarrow> ('v, 'e) loop_state \<Rightarrow> bool \<times> ('v, 'e) loop_state"
  has_jobs :: "'e \<Rightarrow> bool"
  run_jobs :: "('v, 'e) loop_state \<Rightarrow> ('v, 'e) loop_state"
  exception_pending :: "'e \<Rightarrow> bool"
  is_callable :: "'v \<Rightarrow> bool"
  to_int32 :: "'v \<Rightarrow> 32 word option"

subsection \<open>The monotonic clock\<close>

definition MonotonicClock_now :: "('v, 'e) host \<Rightarrow> ('v, 'e) loop_state \<Rightarrow> 64 word" where
  "MonotonicClock_now h st = clock_now h (engine st)"

definition MonotonicClock_subscribe ::
    "('v, 'e) host \<Rightarrow> 64 word \<Rightarrow> bool \<Rightarrow> ('v, 'e) loop_state \<Rightarrow> pollable \<times> ('v, 'e) loop_state" where
  "MonotonicClock_subscribe h when absolute st =
     (let hd = fresh_handle h (map fst (pollables st));
          instant = (if absolute then when else MonotonicClock_now h st + when)
      in (hd, st\<lparr>pollables := pollables st @ [(hd, instant)]\<rparr>))"

definition MonotonicClock_unsubscribe ::
    "pollable \<Rightarrow> ('v, 'e) loop_state \<Rightarrow> stop + ('v, 'e) loop_state" where
  "MonotonicClock_unsubscribe handle_id st =
     (if handle_id \<in> fst ` set (pollables st)
      then Inr (st\<lparr>pollables := filter (\<lambda>p. fst p \<noteq> handle_id) (pollables st)\<rparr>)
      else Inl Trap)"

subsection \<open>Tasks\<close>

text \<open>
  \<open>AsyncTask::id\<close> returns the handle (the assertion that it is valid is only compiled into debug
  builds).  Every reference in the queue is a reference of the heap; the default case of the
  option is never taken (invariant \<open>loop_inv\<close> below).
\<close>

definition task_id :: "('v, 'e) loop_state \<Rightarrow> nat \<Rightarrow> pollable" where
  "task_id st t = (case heap st t of Some task \<Rightarrow> tm_handle task | None \<Rightarrow> INVALID_POLLABLE_HANDLE)"

definition TimerTask_new ::
    "('v, 'e) host \<Rightarrow> 64 word \<Rightarrow> bool \<Rightarrow> 'v \<Rightarrow> 'v list \<Rightarrow> ('v, 'e) loop_state
       \<Rightarrow> nat \<times> ('v, 'e) loop_state" where
  "TimerTask_new h delay_ns repeat callback args st =
     (let deadline = MonotonicClock_now h st + delay_ns;
          (hd, st) = MonotonicClock_subscribe h deadline True st;
          t = next_ref st;
          task = \<lparr>tm_handle = hd, tm_delay = delay_ns, tm_deadline = deadline, tm_repeat = repeat,
                  tm_callback = callback, tm_arguments = args\<rparr>
      in (t, st\<lparr>heap := (heap st)(t \<mapsto> task), next_ref := Suc t\<rparr>))"

definition queue_async_task :: "nat \<Rightarrow> ('v, 'e) loop_state \<Rightarrow> ('v, 'e) loop_state" where
  "queue_async_task task st = st\<lparr>tasks := tasks st @ [task]\<rparr>"

definition TimerTask_cancel :: "nat \<Rightarrow> ('v, 'e) loop_state \<Rightarrow> stop + ('v, 'e) loop_state" where
  "TimerTask_cancel t st =
     rbind (MonotonicClock_unsubscribe (task_id st t) st) (\<lambda>st.
       Inr (case heap st t of
              None \<Rightarrow> st
            | Some task \<Rightarrow> st\<lparr>heap := (heap st)(t \<mapsto> task\<lparr>tm_handle := INVALID_POLLABLE_HANDLE\<rparr>)\<rparr>))"

definition TimerTask_ready :: "('v, 'e) host \<Rightarrow> ('v, 'e) loop_state \<Rightarrow> nat \<Rightarrow> bool" where
  "TimerTask_ready h st t =
     (case heap st t of Some task \<Rightarrow> MonotonicClock_now h st \<ge> tm_deadline task | None \<Rightarrow> False)"

definition TimerTask_run ::
    "('v, 'e) host \<Rightarrow> nat \<Rightarrow> ('v, 'e) loop_state \<Rightarrow> stop + bool \<times> ('v, 'e) loop_state" where
  "TimerTask_run h t st =
     (case heap st t of
        None \<Rightarrow> Inl OutOfRange
      | Some task \<Rightarrow>
          (let (ok, st) = call_js h (tm_callback task) (tm_arguments task) st
           in if \<not> ok then Inr (False, st)
              else
                let st = (if tm_repeat task
                          then let (t', st) = TimerTask_new h (tm_delay task) True (tm_callback task)
                                                (tm_arguments task) st
                               in queue_async_task t' st
                          else st)
                in rbind (TimerTask_cancel t st) (\<lambda>st. Inr (True, st))))"

subsection \<open>The queue\<close>

fun find_task :: "('v, 'e) loop_state \<Rightarrow> pollable \<Rightarrow> nat list \<Rightarrow> nat option" where
  "find_task st tid [] = None"
| "find_task st tid (t # ts) =
     (if task_id st t = tid then Some 0 else map_option Suc (find_task st tid ts))"

definition erase_at :: "nat \<Rightarrow> 'a list \<Rightarrow> 'a list" where
  "erase_at i xs = take i xs @ drop (Suc i) xs"

definition cancel_async_task ::
    "pollable \<Rightarrow> ('v, 'e) loop_state \<Rightarrow> stop + bool \<times> ('v, 'e) loop_state" where
  "cancel_async_task tid st =
     (case find_task st tid (tasks st) of
        None \<Rightarrow> Inr (False, st)
      | Some i \<Rightarrow>
          rbind (TimerTask_cancel (tasks st ! i) st) (\<lambda>st.
            Inr (True, st\<lparr>tasks := erase_at i (tasks st)\<rparr>)))"

definition has_pending_async_tasks :: "('v, 'e) loop_state \<Rightarrow> bool" where
  "has_pending_async_tasks st \<longleftrightarrow> tasks st \<noteq> []"

text \<open>
  \<open>AsyncTask::select\<close>: the host's \<open>poll\<close> blocks until a pollable is ready and returns the
  indices of the ready ones; the first is taken.  Polling a handle that is not live traps.
\<close>

definition AsyncTask_select ::
    "('v, 'e) host \<Rightarrow> ('v, 'e) loop_state \<Rightarrow> stop + nat \<times> ('v, 'e) loop_state" where
  "AsyncTask_select h st =
     (let handles = map (task_id st) (tasks st)
      in if \<not> set handles \<subseteq> fst ` set (pollables st) then Inl Trap
         else case poll h handles (engine st) of
                ([], e) \<Rightarrow> Inl OutOfRange
              | (i # _, e) \<Rightarrow> Inr (i, st\<lparr>engine := e\<rparr>))"

subsection \<open>The loop\<close>

partial_function (option) drain_jobs ::
    "('v, 'e) host \<Rightarrow> ('v, 'e) loop_state \<Rightarrow> (stop + ('v, 'e) loop_state) option" where
  "drain_jobs h st =
     (if has_jobs h (engine st)
      then let st = run_jobs h st
           in if exception_pending h (engine st) then Some (Inl Abort) else drain_jobs h st
      else Some (Inr st))"

text \<open>
  One pass over the task part of the loop body: select, run, and erase at the index that was
  selected before the task ran.
\<close>

definition process_task ::
    "('v, 'e) host \<Rightarrow> ('v, 'e) loop_state \<Rightarrow> stop + bool \<times> ('v, 'e) loop_state" where
  "process_task h st =
     rbind (AsyncTask_select h st) (\<lambda>(index, st).
       if length (tasks st) \<le> index then Inl OutOfRange
       else rbind (TimerTask_run h (tasks st ! index) st) (\<lambda>(ok, st).
              if \<not> ok then Inr (False, st)
              else if length (tasks st) \<le> index then Inl OutOfRange
              else Inr (True, st\<lparr>tasks := erase_at index (tasks st)\<rparr>)))"

partial_function (option) run_event_loop ::
    "('v, 'e) host \<Rightarrow> ('v, 'e) loop_state \<Rightarrow> (stop + bool \<times> ('v, 'e) loop_state) option" where
  "run_event_loop h st =
     (case drain_jobs h st of
        None \<Rightarrow> None
      | Some (Inl e) \<Rightarrow> Some (Inl e)
      | Some (Inr st) \<Rightarrow>
          (case (if has_pending_async_tasks st then process_task h st else Inr (True, st)) of
             Inl e \<Rightarrow> Some (Inl e)
           | Inr (ok, st) \<Rightarrow>
               if \<not> ok then Some (Inr (False, st))
               else if has_jobs h (engine st) \<or> has_pending_async_tasks st
               then run_event_loop h st
               else Some (Inr (True, st))))"

subsection \<open>setTimeout, setInterval, clearTimeout, clearInterval\<close>

text \<open>
  Errors of the functions are the JavaScript exceptions; \<open>wizening\<close> is \<open>isWizening()\<close>.
  \<open>Inr (Inl e)\<close> is a builtin that returned \<open>false\<close> with the exception \<open>e\<close>; \<open>Inl\<close> is a
  stop of the process.
\<close>

definition timer_delay :: "32 word \<Rightarrow> 64 word" where
  "timer_delay delay_ms =
     (let ms = (if delay_ms <s 0 then 0 else delay_ms) in scast ms * 1000000)"

definition setTimeout_or_interval ::
    "('v, 'e) host \<Rightarrow> bool \<Rightarrow> bool \<Rightarrow> 'v list \<Rightarrow> ('v, 'e) loop_state
       \<Rightarrow> js_error + pollable \<times> ('v, 'e) loop_state" where
  "setTimeout_or_interval h repeat wizening args st =
     (let name = (if repeat then ''setInterval'' else ''setTimeout'')
      in if wizening
         then Inl (ReportError (name @ '' can only be used during request handling, not during initialization''))
         else if length args < 1 then Inl (NotEnoughArgs 1)
         else if \<not> is_callable h (args ! 0)
         then Inl (ReportError (''First argument to '' @ name @ '' must be a function''))
         else case (if length args > 1 then to_int32 h (args ! 1) else Some 0) of
                None \<Rightarrow> Inl PendingException
              | Some delay_ms \<Rightarrow>
                  let (t, st) = TimerTask_new h (timer_delay delay_ms) repeat (args ! 0) (drop 2 args) st;
                      st = queue_async_task t st
                  in Inr (task_id st t, st))"

definition clearTimeout_or_interval ::
    "('v, 'e) host \<Rightarrow> bool \<Rightarrow> bool \<Rightarrow> 'v list \<Rightarrow> ('v, 'e) loop_state
       \<Rightarrow> stop + (js_error + ('v, 'e) loop_state)" where
  "clearTimeout_or_interval h interval wizening args st =
     (let name = (if interval then ''clearInterval'' else ''clearTimeout'')
      in if wizening
         then Inr (Inl (ReportError (name @ '' can only be used during request handling, not during initialization'')))
         else if length args < 1 then Inr (Inl (NotEnoughArgs 1))
         else case to_int32 h (args ! 0) of
                None \<Rightarrow> Inr (Inl PendingException)
              | Some tid \<Rightarrow> rbind (cancel_async_task (sint tid) st) (\<lambda>(_, st). Inr (Inr st)))"

subsection \<open>The invariant of the queue\<close>

text \<open>
  What the host promises about handles: a new one is none of the live ones and not negative.
\<close>

definition fresh_ok :: "('v, 'e) host \<Rightarrow> bool" where
  "fresh_ok h \<longleftrightarrow> (\<forall>hs. fresh_handle h hs \<notin> set hs \<and> 0 \<le> fresh_handle h hs)"

definition task_ids :: "('v, 'e) loop_state \<Rightarrow> pollable list" where
  "task_ids st = map (task_id st) (tasks st)"

definition loop_inv :: "('v, 'e) loop_state \<Rightarrow> bool" where
  "loop_inv st \<longleftrightarrow>
     distinct (tasks st) \<and> distinct (task_ids st) \<and> distinct (map fst (pollables st))
     \<and> INVALID_POLLABLE_HANDLE \<notin> fst ` set (pollables st)
     \<and> (\<forall>t. next_ref st \<le> t \<longrightarrow> heap st t = None)
     \<and> (\<forall>t\<in>set (tasks st). \<exists>task. heap st t = Some task
          \<and> (tm_handle task, tm_deadline task) \<in> set (pollables st))"

lemma loop_invD:
  assumes "loop_inv st"
  shows "distinct (tasks st)" and "distinct (task_ids st)" and "distinct (map fst (pollables st))"
    and "INVALID_POLLABLE_HANDLE \<notin> fst ` set (pollables st)"
    and "next_ref st \<le> t \<Longrightarrow> heap st t = None"
    and "t \<in> set (tasks st) \<Longrightarrow>
      \<exists>task. heap st t = Some task \<and> (tm_handle task, tm_deadline task) \<in> set (pollables st)"
  using assms by (simp_all add: loop_inv_def)

lemma queued_live:
  assumes "loop_inv st" and "t \<in> set (tasks st)"
  shows "task_id st t \<in> fst ` set (pollables st)"
  using loop_invD(6) [OF assms] by (force simp: task_id_def)

lemma length_erase_at: "i < length xs \<Longrightarrow> length (erase_at i xs) = length xs - 1"
  by (simp add: erase_at_def)

lemma map_erase_at: "map f (erase_at i xs) = erase_at i (map f xs)"
  by (simp add: erase_at_def take_map drop_map)

lemma set_erase_at_distinct:
  assumes "distinct xs" and "i < length xs"
  shows "set (erase_at i xs) = set xs - {xs ! i}"
proof -
  have "xs = take i xs @ xs ! i # drop (Suc i) xs"
    using assms(2) by (rule id_take_nth_drop)
  with assms(1) show ?thesis unfolding erase_at_def by (metis Diff_insert_absorb Un_insert_right
    distinct.simps(2) distinct_append list.simps(15) not_distinct_conv_prefix set_append Un_iff)
qed

lemma distinct_erase_at: "distinct xs \<Longrightarrow> distinct (erase_at i xs)"
  by (auto simp: erase_at_def set_take_disj_set_drop_if_distinct)

lemma find_task_Some:
  "find_task st tid ts = Some k \<Longrightarrow> k < length ts \<and> task_id st (ts ! k) = tid"
  by (induction ts arbitrary: k) (auto split: if_splits)

lemma find_task_None: "find_task st tid ts = None \<longleftrightarrow> tid \<notin> task_id st ` set ts"
  by (induction ts) auto

lemma find_task_nth:
  "distinct (map (task_id st) ts) \<Longrightarrow> k < length ts \<Longrightarrow> find_task st (task_id st (ts ! k)) ts = Some k"
proof (induction ts arbitrary: k)
  case (Cons t ts)
  then show ?case by (cases k) (auto dest: nth_mem)
qed simp

subsection \<open>Adding and cancelling a task keep the invariant\<close>

definition add_timer ::
    "('v, 'e) host \<Rightarrow> 64 word \<Rightarrow> bool \<Rightarrow> 'v \<Rightarrow> 'v list \<Rightarrow> ('v, 'e) loop_state
       \<Rightarrow> pollable \<times> ('v, 'e) loop_state" where
  "add_timer h delay_ns repeat callback args st =
     (let (t, st) = TimerTask_new h delay_ns repeat callback args st;
          st = queue_async_task t st
      in (task_id st t, st))"

definition cancel_at :: "nat \<Rightarrow> ('v, 'e) loop_state \<Rightarrow> stop + ('v, 'e) loop_state" where
  "cancel_at i st =
     rbind (TimerTask_cancel (tasks st ! i) st) (\<lambda>st. Inr (st\<lparr>tasks := erase_at i (tasks st)\<rparr>))"

lemma add_timer_inv:
  assumes "fresh_ok h" and "loop_inv st" and "add_timer h d r c as st = (tid, st')"
  shows "loop_inv st'" and "task_ids st' = task_ids st @ [tid]"
    and "tid \<notin> fst ` set (pollables st)" and "tid = fresh_handle h (map fst (pollables st))"
    and "tasks st' = tasks st @ [next_ref st]" and "next_ref st' = Suc (next_ref st)"
    and "\<And>t. t \<noteq> next_ref st \<Longrightarrow> heap st' t = heap st t"
    and "engine st' = engine st"
proof -
  let ?hd = "fresh_handle h (map fst (pollables st))"
  let ?dl = "MonotonicClock_now h st + d"
  have st': "st' = st\<lparr>pollables := pollables st @ [(?hd, ?dl)],
      heap := (heap st)(next_ref st \<mapsto> \<lparr>tm_handle = ?hd, tm_delay = d, tm_deadline = ?dl, tm_repeat = r,
        tm_callback = c, tm_arguments = as\<rparr>),
      next_ref := Suc (next_ref st), tasks := tasks st @ [next_ref st]\<rparr>" and tid: "tid = ?hd"
    using assms(3)
    by (auto simp: add_timer_def TimerTask_new_def MonotonicClock_subscribe_def queue_async_task_def
        Let_def task_id_def)
  have hd: "?hd \<notin> fst ` set (pollables st)" "?hd \<noteq> INVALID_POLLABLE_HANDLE"
    using assms(1) by (auto simp: fresh_ok_def INVALID_POLLABLE_HANDLE_def simp flip: set_map)
      (metis neg_0_le_iff_le not_one_le_zero)
  have new: "next_ref st \<notin> set (tasks st)"
    using loop_invD(5,6) [OF assms(2)] by fastforce
  have same: "t \<in> set (tasks st) \<Longrightarrow> task_id st' t = task_id st t" for t
    using new by (auto simp: st' task_id_def)
  show ids: "task_ids st' = task_ids st @ [tid]"
    using same by (auto simp: task_ids_def st' tid task_id_def)
  have "tid \<notin> set (task_ids st)"
    using queued_live [OF assms(2)] hd tid by (auto simp: task_ids_def)
  moreover have "\<exists>task. heap st' t = Some task \<and> (tm_handle task, tm_deadline task) \<in> set (pollables st')"
    if "t \<in> set (tasks st')" for t
  proof (cases "t = next_ref st")
    case True
    then show ?thesis by (simp add: st')
  next
    case False
    with that have "t \<in> set (tasks st)" by (simp add: st')
    from loop_invD(6) [OF assms(2) this] False show ?thesis by (auto simp: st')
  qed
  ultimately show "loop_inv st'"
    using ids hd new loop_invD(1-5) [OF assms(2)] unfolding loop_inv_def
    by (simp add: st' image_iff)
  show "tid \<notin> fst ` set (pollables st)" "tid = ?hd" "tasks st' = tasks st @ [next_ref st]"
    "next_ref st' = Suc (next_ref st)" "\<And>t. t \<noteq> next_ref st \<Longrightarrow> heap st' t = heap st t"
    "engine st' = engine st"
    using hd by (simp_all add: tid st')
qed

lemma cancel_at_inv:
  assumes "loop_inv st" and "i < length (tasks st)"
  obtains st' where "cancel_at i st = Inr st'" and "loop_inv st'"
    and "tasks st' = erase_at i (tasks st)" and "task_ids st' = erase_at i (task_ids st)"
    and "pollables st' = filter (\<lambda>p. fst p \<noteq> task_ids st ! i) (pollables st)"
    and "engine st' = engine st"
proof -
  let ?t = "tasks st ! i"
  let ?id = "task_id st ?t"
  from assms have t: "?t \<in> set (tasks st)" by simp
  from loop_invD(6) [OF assms(1) t] obtain task where task: "heap st ?t = Some task"
    and live: "(tm_handle task, tm_deadline task) \<in> set (pollables st)" by blast
  have id: "?id = tm_handle task" using task by (simp add: task_id_def)
  let ?st' = "st\<lparr>pollables := filter (\<lambda>p. fst p \<noteq> ?id) (pollables st),
      heap := (heap st)(?t \<mapsto> task\<lparr>tm_handle := INVALID_POLLABLE_HANDLE\<rparr>),
      tasks := erase_at i (tasks st)\<rparr>"
  have eq: "cancel_at i st = Inr ?st'"
    using queued_live [OF assms(1) t] task
    by (simp add: cancel_at_def TimerTask_cancel_def MonotonicClock_unsubscribe_def)
  have set: "set (erase_at i (tasks st)) = set (tasks st) - {?t}"
    by (rule set_erase_at_distinct [OF loop_invD(1) [OF assms(1)] assms(2)])
  have ids: "task_ids ?st' = erase_at i (task_ids st)"
    unfolding task_ids_def map_erase_at [symmetric]
    by (rule map_cong) (auto simp: set task_id_def)
  have other: "task_id st t \<noteq> ?id" if "t \<in> set (tasks st)" "t \<noteq> ?t" for t
  proof -
    from that(1) obtain j where j: "j < length (tasks st)" "t = tasks st ! j"
      by (auto simp: in_set_conv_nth)
    with that(2) have "j \<noteq> i" by blast
    with loop_invD(2) [OF assms(1)] j assms(2) show ?thesis
      by (simp add: task_ids_def distinct_conv_nth)
  qed
  have "\<exists>task. heap ?st' t = Some task \<and> (tm_handle task, tm_deadline task) \<in> set (pollables ?st')"
    if "t \<in> set (tasks ?st')" for t
  proof -
    from that have q: "t \<in> set (tasks st)" and ne: "t \<noteq> ?t" by (auto simp: set)
    from loop_invD(6) [OF assms(1) q] other [OF q ne] ne show ?thesis
      by (auto simp: task_id_def)
  qed
  moreover have "distinct (map fst (pollables ?st'))"
    using loop_invD(3) [OF assms(1)] by (simp add: distinct_map_filter)
  moreover have "heap ?st' t = None" if "next_ref st \<le> t" for t
    using loop_invD(5) [OF assms(1) that] task by auto
  ultimately have "loop_inv ?st'"
    unfolding loop_inv_def ids using loop_invD(1,2,4) [OF assms(1)]
    by (auto simp: distinct_erase_at)
  moreover have "task_ids st ! i = ?id" using assms(2) by (simp add: task_ids_def)
  ultimately show thesis by (intro that [OF eq]) (simp_all add: ids)
qed

subsection \<open>The queue as an interface\<close>

text \<open>
  What a client of the queue relies on: the ids of the queued tasks are distinct, adding appends
  a new id, cancelling removes exactly the task with the id and reports an id that is not there.
\<close>

locale task_queue =
  fixes ids :: "'q \<Rightarrow> 'i list"
    and add :: "'t \<Rightarrow> 'q \<Rightarrow> 'i \<times> 'q"
    and cancel :: "'i \<Rightarrow> 'q \<Rightarrow> 'q option"
    and inv :: "'q \<Rightarrow> bool"
  assumes inv_distinct: "inv q \<Longrightarrow> distinct (ids q)"
    and add_inv: "inv q \<Longrightarrow> add t q = (i, q') \<Longrightarrow> inv q'"
    and add_ids: "inv q \<Longrightarrow> add t q = (i, q') \<Longrightarrow> ids q' = ids q @ [i]"
    and cancel_present: "inv q \<Longrightarrow> i \<in> set (ids q) \<Longrightarrow>
      \<exists>q'. cancel i q = Some q' \<and> inv q' \<and> ids q' = remove1 i (ids q)"
    and cancel_absent: "inv q \<Longrightarrow> i \<notin> set (ids q) \<Longrightarrow> cancel i q = None"
begin

lemma add_new: "inv q \<Longrightarrow> add t q = (i, q') \<Longrightarrow> i \<notin> set (ids q)"
  using add_ids [of q t i q'] add_inv [of q t i q'] inv_distinct [of q'] by simp

lemma cancel_added:
  assumes "inv q" and "add t q = (i, q')"
  shows "\<exists>q''. cancel i q' = Some q'' \<and> inv q'' \<and> ids q'' = ids q"
  using cancel_present [OF add_inv [OF assms], of i] add_ids [OF assms] add_new [OF assms]
  by (auto simp: remove1_append)

lemma cancel_twice:
  assumes "inv q" and "cancel i q = Some q'"
  shows "cancel i q' = None"
proof -
  have i: "i \<in> set (ids q)" using cancel_absent [OF assms(1), of i] assms(2) by fastforce
  from cancel_present [OF assms(1) i] assms(2) have "inv q'" "ids q' = remove1 i (ids q)" by auto
  with inv_distinct [OF assms(1)] show ?thesis by (simp add: cancel_absent)
qed

end

lemma erase_at_remove1: "distinct xs \<Longrightarrow> k < length xs \<Longrightarrow> erase_at k xs = remove1 (xs ! k) xs"
proof (induction xs arbitrary: k)
  case (Cons x xs)
  then show ?case by (cases k) (auto simp: erase_at_def dest: nth_mem)
qed (simp add: erase_at_def)

lemma cancel_async_task_cancel_at:
  "cancel_async_task tid st =
     (case find_task st tid (tasks st) of
        None \<Rightarrow> Inr (False, st)
      | Some i \<Rightarrow> rbind (cancel_at i st) (\<lambda>st. Inr (True, st)))"
  by (simp add: cancel_async_task_def cancel_at_def rbind_assoc split: option.splits)

definition cancel_queued :: "pollable \<Rightarrow> ('v, 'e) loop_state \<Rightarrow> ('v, 'e) loop_state option" where
  "cancel_queued tid st =
     (case cancel_async_task tid st of Inr (True, st') \<Rightarrow> Some st' | _ \<Rightarrow> None)"

lemma cancel_queued_present:
  assumes "loop_inv st" and "tid \<in> set (task_ids st)"
  shows "\<exists>st'. cancel_async_task tid st = Inr (True, st') \<and> loop_inv st'
    \<and> task_ids st' = remove1 tid (task_ids st)"
proof -
  from assms(2) obtain k where k: "k < length (tasks st)" and tid: "tid = task_id st (tasks st ! k)"
    by (auto simp: task_ids_def in_set_conv_nth)
  have find: "find_task st tid (tasks st) = Some k"
    unfolding tid by (rule find_task_nth [OF _ k]) (use loop_invD(2) [OF assms(1)] in \<open>simp add: task_ids_def\<close>)
  obtain st' where "cancel_at k st = Inr st'" "loop_inv st'" "task_ids st' = erase_at k (task_ids st)"
    using cancel_at_inv [OF assms(1) k] by blast
  moreover have "erase_at k (task_ids st) = remove1 tid (task_ids st)"
    using erase_at_remove1 [OF loop_invD(2) [OF assms(1)], of k] k by (simp add: task_ids_def tid)
  ultimately show ?thesis by (auto simp: cancel_async_task_cancel_at find)
qed

lemma cancel_absent_unchanged:
  "tid \<notin> set (task_ids st) \<Longrightarrow> cancel_async_task tid st = Inr (False, st)"
  by (simp add: cancel_async_task_def task_ids_def flip: find_task_None)

interpretation timers: task_queue task_ids
    "\<lambda>(d, r, c, as). add_timer h d r c as" cancel_queued "\<lambda>st. fresh_ok h \<and> loop_inv st" for h
proof (unfold_locales, goal_cases)
  case (1 q)
  then show ?case by (simp add: loop_invD)
next
  case (2 q t i q')
  then show ?case by (cases t) (auto intro: add_timer_inv(1))
next
  case (3 q t i q')
  then show ?case by (cases t) (auto intro: add_timer_inv(2))
next
  case (4 q i)
  then show ?case using cancel_queued_present [of q i] by (auto simp: cancel_queued_def)
next
  case (5 q i)
  then show ?case by (simp add: cancel_queued_def cancel_absent_unchanged)
qed

lemma setTimeout_add_timer:
  "setTimeout_or_interval h r w args st = Inr (i, st') \<longleftrightarrow>
     \<not> w \<and> args \<noteq> [] \<and> is_callable h (args ! 0)
     \<and> (\<exists>ms. (if length args > 1 then to_int32 h (args ! 1) else Some 0) = Some ms
          \<and> add_timer h (timer_delay ms) r (args ! 0) (drop 2 args) st = (i, st'))"
  by (auto simp: setTimeout_or_interval_def add_timer_def Let_def Suc_le_eq
      split: if_splits option.splits prod.splits)

lemma clearTimeout_cancel:
  "clearTimeout_or_interval h b w args st = Inr (Inr st') \<longleftrightarrow>
     \<not> w \<and> args \<noteq> []
     \<and> (\<exists>v ok. to_int32 h (args ! 0) = Some v \<and> cancel_async_task (sint v) st = Inr (ok, st'))"
  by (auto simp: clearTimeout_or_interval_def Let_def rbind_eq_Inr Suc_le_eq
      split: if_splits option.splits)

subsection \<open>Steps of the loop\<close>

text \<open>
  What JavaScript code can do to the loop between two task selections: set a timer, clear a timer,
  or change the engine's own state (which also covers the passing of time).
\<close>

inductive api_step :: "('v, 'e) host \<Rightarrow> ('v, 'e) loop_state \<Rightarrow> ('v, 'e) loop_state \<Rightarrow> bool"
  for h where
  set_timer: "setTimeout_or_interval h r w args st = Inr (i, st') \<Longrightarrow> api_step h st st'"
| clear_timer: "clearTimeout_or_interval h b w args st = Inr (Inr st') \<Longrightarrow> api_step h st st'"
| engine_step: "api_step h st (st\<lparr>engine := e\<rparr>)"

text \<open>
  A callback is disciplined at position \<open>i\<close> of the queue if it returns normally, acts through the
  functions above, and leaves the running task and the tasks queued before it in place.
\<close>

definition disciplined ::
    "('v, 'e) host \<Rightarrow> nat \<Rightarrow> 'v timer \<Rightarrow> ('v, 'e) loop_state \<Rightarrow> ('v, 'e) loop_state \<Rightarrow> bool" where
  "disciplined h i task st st' \<longleftrightarrow>
     call_js h (tm_callback task) (tm_arguments task) st = (True, st')
     \<and> rtranclp (api_step h) st st' \<and> take (Suc i) (tasks st') = take (Suc i) (tasks st)"

inductive loop_step :: "('v, 'e) host \<Rightarrow> ('v, 'e) loop_state \<Rightarrow> ('v, 'e) loop_state \<Rightarrow> bool"
  for h where
  script: "api_step h st st' \<Longrightarrow> loop_step h st st'"
| task: "AsyncTask_select h st = Inr (i, st0) \<Longrightarrow> i < length (tasks st0) \<Longrightarrow>
     heap st0 (tasks st0 ! i) = Some task \<Longrightarrow> disciplined h i task st0 st1 \<Longrightarrow>
     process_task h st = Inr (True, st') \<Longrightarrow> loop_step h st st'"

inductive_cases loop_step_cases: "loop_step h st st'"

lemma loop_inv_engine: "loop_inv (st\<lparr>engine := e\<rparr>) \<longleftrightarrow> loop_inv st"
  by (simp add: loop_inv_def task_ids_def task_id_def cong: map_cong)

lemma api_step_inv:
  assumes "fresh_ok h" and "api_step h st st'" and "loop_inv st"
  shows "loop_inv st'"
  using assms(2,3)
proof cases
  case (set_timer r w args i)
  then show ?thesis
    using add_timer_inv(1) [OF assms(1,3)] by (auto simp: setTimeout_add_timer)
next
  case (clear_timer b w args)
  then obtain tid ok where c: "cancel_async_task tid st = Inr (ok, st')"
    by (auto simp: clearTimeout_cancel)
  show ?thesis
  proof (cases "tid \<in> set (task_ids st)")
    case True
    with c cancel_queued_present [OF assms(3), of tid] show ?thesis by auto
  next
    case False
    with c assms(3) show ?thesis by (simp add: cancel_absent_unchanged)
  qed
next
  case (engine_step e)
  with assms(3) show ?thesis by (simp add: loop_inv_engine)
qed

lemma api_steps_inv:
  assumes "fresh_ok h" and "rtranclp (api_step h) st st'" and "loop_inv st"
  shows "loop_inv st'"
  using assms(2,3) by (induction rule: rtranclp_induct) (auto intro: api_step_inv [OF assms(1)])

lemma select_state:
  "AsyncTask_select h st = Inr (i, st0) \<Longrightarrow>
     (\<exists>e. st0 = st\<lparr>engine := e\<rparr>) \<and> tasks st0 = tasks st \<and> task_ids st0 = task_ids st"
  by (auto simp: AsyncTask_select_def task_ids_def task_id_def Let_def split: if_splits prod.splits list.splits)

lemma select_inv: "AsyncTask_select h st = Inr (i, st0) \<Longrightarrow> loop_inv st \<Longrightarrow> loop_inv st0"
  using select_state [of h st i st0] by (auto simp: loop_inv_engine)

lemma take_Suc_same:
  assumes "take (Suc i) xs = take (Suc i) ys" and "i < length ys"
  shows "i < length xs" and "xs ! i = ys ! i"
proof -
  have "length (take (Suc i) xs) = Suc i" using assms by simp
  then show "i < length xs" by simp
  show "xs ! i = ys ! i" using assms(1) by (metis lessI nth_take)
qed

text \<open>The state in which the running task is cancelled: a repeating task has queued its successor.\<close>

definition after_repeat ::
    "('v, 'e) host \<Rightarrow> 'v timer \<Rightarrow> ('v, 'e) loop_state \<Rightarrow> ('v, 'e) loop_state" where
  "after_repeat h task st =
     (if tm_repeat task
      then snd (add_timer h (tm_delay task) True (tm_callback task) (tm_arguments task) st)
      else st)"

lemma TimerTask_run_eq:
  assumes "heap st t = Some task"
    and "call_js h (tm_callback task) (tm_arguments task) st = (True, st1)"
  shows "TimerTask_run h t st =
    rbind (TimerTask_cancel t (after_repeat h task st1)) (\<lambda>st. Inr (True, st))"
  using assms by (simp add: TimerTask_run_def after_repeat_def add_timer_def Let_def split: prod.splits)

lemma after_repeat_inv:
  assumes "fresh_ok h" and "loop_inv st"
  shows "loop_inv (after_repeat h task st)"
    and "\<exists>ts ids. tasks (after_repeat h task st) = tasks st @ ts
      \<and> task_ids (after_repeat h task st) = task_ids st @ ids
      \<and> length ids = (if tm_repeat task then 1 else 0)"
proof -
  obtain i st' where "add_timer h (tm_delay task) True (tm_callback task) (tm_arguments task) st = (i, st')"
    by fastforce
  from this add_timer_inv(1,2,5) [OF assms this] assms(2)
  show "loop_inv (after_repeat h task st)"
    and "\<exists>ts ids. tasks (after_repeat h task st) = tasks st @ ts
      \<and> task_ids (after_repeat h task st) = task_ids st @ ids
      \<and> length ids = (if tm_repeat task then 1 else 0)"
    by (auto simp: after_repeat_def)
qed

lemma process_task_disciplined:
  assumes "fresh_ok h" and "loop_inv st" and "AsyncTask_select h st = Inr (i, st0)"
    and "i < length (tasks st0)" and "heap st0 (tasks st0 ! i) = Some task"
    and "disciplined h i task st0 st1"
  obtains st' where "process_task h st = Inr (True, st')" and "loop_inv st'"
    and "tasks st' = erase_at i (tasks (after_repeat h task st1))"
    and "task_ids st' = erase_at i (task_ids (after_repeat h task st1))"
    and "engine st' = engine (after_repeat h task st1)"
proof -
  let ?st2 = "after_repeat h task st1"
  from assms(6) have call: "call_js h (tm_callback task) (tm_arguments task) st0 = (True, st1)"
    and steps: "rtranclp (api_step h) st0 st1"
    and take: "take (Suc i) (tasks st1) = take (Suc i) (tasks st0)"
    by (simp_all add: disciplined_def)
  have inv1: "loop_inv st1" by (rule api_steps_inv [OF assms(1) steps select_inv [OF assms(3,2)]])
  obtain ts where ts: "tasks ?st2 = tasks st1 @ ts" using after_repeat_inv(2) [OF assms(1) inv1] by blast
  note i1 = take_Suc_same [OF take assms(4)]
  have len: "i < length (tasks ?st2)" and nth: "tasks ?st2 ! i = tasks st0 ! i"
    using i1 by (simp_all add: ts nth_append)
  obtain st' where c: "cancel_at i ?st2 = Inr st'" and "loop_inv st'"
    and "tasks st' = erase_at i (tasks ?st2)" and "task_ids st' = erase_at i (task_ids ?st2)"
    and "engine st' = engine ?st2"
    using cancel_at_inv [OF after_repeat_inv(1) [OF assms(1) inv1, of task] len] by blast
  moreover have "process_task h st = Inr (True, st')"
  proof -
    from c obtain st3 where c3: "TimerTask_cancel (tasks st0 ! i) ?st2 = Inr st3"
      and st': "st' = st3\<lparr>tasks := erase_at i (tasks st3)\<rparr>"
      by (auto simp: cancel_at_def rbind_eq_Inr nth)
    have "tasks st3 = tasks ?st2"
      using c3 by (auto simp: TimerTask_cancel_def MonotonicClock_unsubscribe_def rbind_eq_Inr
          split: if_splits option.splits)
    with c3 len assms(4) st' show ?thesis
      by (simp add: process_task_def assms(3) TimerTask_run_eq [OF assms(5) call])
  qed
  ultimately show thesis using that by blast
qed

subsection \<open>A concrete host for the witnesses\<close>

text \<open>
  The clock is the engine state, a new handle is one above the largest live one, the first task is
  always ready, every value is callable and converts to itself.
\<close>

definition demo_host ::
    "(int \<Rightarrow> int list \<Rightarrow> (int, nat) loop_state \<Rightarrow> bool \<times> (int, nat) loop_state) \<Rightarrow> (int, nat) host" where
  "demo_host call =
     \<lparr>clock_now = of_nat, fresh_handle = (\<lambda>hs. fold max hs 0 + 1), poll = (\<lambda>hs e. ([0], e)),
      call_js = call, has_jobs = (\<lambda>_. False), run_jobs = (\<lambda>st. st),
      exception_pending = (\<lambda>_. False), is_callable = (\<lambda>_. True), to_int32 = (\<lambda>v. Some (of_int v))\<rparr>"

definition init_loop :: "'e \<Rightarrow> ('v, 'e) loop_state" where
  "init_loop e = \<lparr>heap = (\<lambda>_. None), next_ref = 0, tasks = [], pollables = [], engine = e\<rparr>"

lemma fold_max_start: "(a :: int) \<le> fold max xs a"
proof (induction xs arbitrary: a)
  case (Cons y xs)
  have "a \<le> max y a" by simp
  with Cons show ?case by (metis fold_simps(2) order_trans)
qed simp

lemma fold_max_mem: "(x :: int) \<in> set xs \<Longrightarrow> x \<le> fold max xs a"
proof (induction xs arbitrary: a)
  case (Cons y xs)
  then show ?case using fold_max_start [of "max y a" xs] by auto
qed simp

lemma demo_fresh_ok: "fresh_ok (demo_host call)"
proof -
  have "fold max hs 0 + 1 \<notin> set hs" for hs :: "int list"
    using fold_max_mem [of "fold max hs 0 + 1" hs 0] by auto
  moreover have "0 \<le> fold max hs 0 + (1 :: int)" for hs
    using fold_max_start [of 0 hs] by simp
  ultimately show ?thesis by (simp add: fresh_ok_def demo_host_def)
qed

lemma loop_inv_init: "loop_inv (init_loop e)"
  by (simp add: loop_inv_def init_loop_def task_ids_def)

definition quiet_call :: "int \<Rightarrow> int list \<Rightarrow> (int, nat) loop_state \<Rightarrow> bool \<times> (int, nat) loop_state" where
  "quiet_call c args st = (True, st)"

lemma timer_delay_value: "unat (timer_delay w) = nat (max 0 (sint w)) * 1000000"
proof (cases "w <s 0")
  case True
  then have "sint w < 0" by (simp add: word_sless_alt)
  with True show ?thesis by (simp add: timer_delay_def)
next
  case False
  then have pos: "0 \<le> sint w" by (simp add: word_sless_alt)
  have lt: "sint w < 2 ^ 31" using sint_lt [of w] by simp
  have "timer_delay w = of_int (sint w * 1000000)"
    using False by (simp add: timer_delay_def)
  then have "uint (timer_delay w) = take_bit 64 (sint w * 1000000)"
    by (simp only: uint_word_of_int_eq) simp
  also have "\<dots> = sint w * 1000000"
    using pos lt by (intro take_bit_int_eq_self) simp_all
  finally have "uint (timer_delay w) = sint w * 1000000" .
  then show ?thesis using pos by (simp add: unat_eq_nat_uint nat_mult_distrib)
qed

subsection \<open>Properties\<close>

text \<open>
  C4. In every state reached from the empty queue by JavaScript code setting and clearing timers
  and by iterations of the loop with disciplined callbacks, the queued tasks have distinct ids,
  every id is a live pollable of the host registered for the task's deadline, and selecting a
  task cannot trap on a dead handle.
\<close>

theorem event_loop_invariant:
  assumes "fresh_ok h" and "rtranclp (loop_step h) (init_loop e) st"
  shows "loop_inv st \<and> AsyncTask_select h st \<noteq> Inl Trap"
proof -
  have "loop_inv st"
    using assms(2)
  proof (induction rule: rtranclp_induct)
    case base
    show ?case by (rule loop_inv_init)
  next
    case (step st st')
    from step.hyps(2) show ?case
    proof (cases rule: loop_step.cases)
      case script
      then show ?thesis using api_step_inv [OF assms(1)] step.IH by blast
    next
      case (task i st0 task st1)
      from process_task_disciplined [OF assms(1) step.IH task(1-4)] task(5)
      show ?thesis by (metis Inr_inject prod.inject)
    qed
  qed
  then show ?thesis
    using queued_live by (auto simp: AsyncTask_select_def split: prod.splits list.splits)
qed

theorem event_loop_invariant_witness:
  "\<exists>st. tasks st = [0] \<and> loop_inv (st :: (int, nat) loop_state)
    \<and> AsyncTask_select (demo_host quiet_call) st \<noteq> Inl Trap"
proof -
  let ?h = "demo_host quiet_call"
  obtain i st where set: "setTimeout_or_interval ?h False False [7, 5] (init_loop 0) = Inr (i, st)"
    and ts: "tasks st = [0]"
    by (simp add: setTimeout_or_interval_def demo_host_def TimerTask_new_def queue_async_task_def
        MonotonicClock_subscribe_def init_loop_def Let_def)
  have "rtranclp (loop_step ?h) (init_loop 0) st"
    by (intro r_into_rtranclp loop_step.script api_step.set_timer [OF set])
  from event_loop_invariant [OF demo_fresh_ok this] ts show ?thesis by blast
qed

text \<open>
  An iteration of the loop with a disciplined callback succeeds, runs the selected task and
  removes exactly it: the ids afterwards are those the callback left, with the successor of a
  repeating task at the end, less the id at the selected position.
\<close>

theorem process_task_runs_selected:
  assumes "fresh_ok h" and "loop_inv st" and "AsyncTask_select h st = Inr (i, st0)"
    and "i < length (tasks st0)" and "heap st0 (tasks st0 ! i) = Some task"
    and "disciplined h i task st0 st1"
  shows "\<exists>st' successor. process_task h st = Inr (True, st') \<and> loop_inv st'
    \<and> task_ids st' = erase_at i (task_ids st1 @ successor)
    \<and> length successor = (if tm_repeat task then 1 else 0)"
proof -
  have "loop_inv st1"
    using assms(6) by (auto simp: disciplined_def intro: api_steps_inv [OF assms(1) _ select_inv [OF assms(3,2)]])
  from after_repeat_inv(2) [OF assms(1) this, of task] process_task_disciplined [OF assms]
  show ?thesis by metis
qed

theorem process_task_runs_selected_witness:
  "\<exists>st st' successor. process_task (demo_host quiet_call) st = Inr (True, st') \<and> loop_inv st'
    \<and> task_ids st' = erase_at 0 (task_ids st @ successor) \<and> length successor = 1"
proof -
  let ?h = "demo_host quiet_call"
  let ?task = "\<lparr>tm_handle = 1, tm_delay = 5000000, tm_deadline = 5000000, tm_repeat = True,
      tm_callback = 7, tm_arguments = []\<rparr>"
  let ?st = "\<lparr>heap = [0 \<mapsto> ?task], next_ref = 1, tasks = [0], pollables = [(1, 5000000)], engine = (0 :: nat)\<rparr>"
  have inv: "loop_inv ?st"
    by (simp add: loop_inv_def task_ids_def task_id_def INVALID_POLLABLE_HANDLE_def)
  have sel: "AsyncTask_select ?h ?st = Inr (0, ?st)"
    by (simp add: AsyncTask_select_def task_id_def demo_host_def)
  have disc: "disciplined ?h 0 ?task ?st ?st"
    by (simp add: disciplined_def demo_host_def quiet_call_def)
  from process_task_runs_selected [OF demo_fresh_ok inv sel _ _ disc] show ?thesis by auto
qed

text \<open>
  A callback that clears its own timer stops the process: the timer's cancellation has put
  the invalid handle into the task, and \<open>run\<close> drops that handle when it cancels the task after
  the callback, on which the host traps.
\<close>

theorem clearing_own_timer_traps:
  assumes "fresh_ok h" and "loop_inv st" and "AsyncTask_select h st = Inr (i, st0)"
    and "i < length (tasks st0)" and "heap st0 (tasks st0 ! i) = Some task"
    and "call_js h (tm_callback task) (tm_arguments task) st0 = (True, st1)"
    and "clearTimeout_or_interval h b False [v] st0 = Inr (Inr st1)"
    and "to_int32 h v = Some w" and "sint w = tm_handle task"
  shows "process_task h st = Inl Trap"
proof -
  let ?t = "tasks st0 ! i"
  have inv0: "loop_inv st0" by (rule select_inv [OF assms(3,2)])
  have t: "?t \<in> set (tasks st0)" using assms(4) by simp
  have own: "task_id st0 ?t = sint w" using assms(5,9) by (simp add: task_id_def)
  have find: "find_task st0 (sint w) (tasks st0) = Some i"
    using find_task_nth [of st0, OF _ assms(4)] loop_invD(2) [OF inv0] own by (simp add: task_ids_def)
  from assms(7,8) obtain ok where "cancel_async_task (sint w) st0 = Inr (ok, st1)"
    by (auto simp: clearTimeout_cancel)
  then have st1: "heap st1 ?t = Some (task\<lparr>tm_handle := INVALID_POLLABLE_HANDLE\<rparr>)"
    by (auto simp: cancel_async_task_def find rbind_eq_Inr TimerTask_cancel_def assms(5)
        MonotonicClock_unsubscribe_def split: if_splits)
  have inv1: "loop_inv st1"
    using api_step_inv [OF assms(1) api_step.clear_timer [OF assms(7)] inv0] .
  let ?st2 = "after_repeat h task st1"
  have "?t < next_ref st1" using loop_invD(5) [OF inv1, of ?t] st1 by fastforce
  then have "heap ?st2 ?t = heap st1 ?t"
    using add_timer_inv(7) [OF assms(1) inv1 prod.collapse [symmetric]] by (simp add: after_repeat_def)
  then have "task_id ?st2 ?t = INVALID_POLLABLE_HANDLE" using st1 by (simp add: task_id_def)
  moreover have "INVALID_POLLABLE_HANDLE \<notin> fst ` set (pollables ?st2)"
    by (rule loop_invD(4) [OF after_repeat_inv(1) [OF assms(1) inv1]])
  ultimately have "TimerTask_cancel ?t ?st2 = Inl Trap"
    by (simp add: TimerTask_cancel_def MonotonicClock_unsubscribe_def)
  then show ?thesis
    using assms(4) by (simp add: process_task_def assms(3) TimerTask_run_eq [OF assms(5,6)])
qed

definition self_clearing_call :: "int \<Rightarrow> int list \<Rightarrow> (int, nat) loop_state \<Rightarrow> bool \<times> (int, nat) loop_state" where
  "self_clearing_call c args st =
     (case clearTimeout_or_interval (demo_host quiet_call) False False [1] st of
        Inr (Inr st') \<Rightarrow> (True, st') | _ \<Rightarrow> (False, st))"

theorem clearing_own_timer_traps_witness:
  "\<exists>st i. setTimeout_or_interval (demo_host self_clearing_call) False False [7, 5] (init_loop 0) = Inr (i, st)
    \<and> process_task (demo_host self_clearing_call) st = Inl Trap"
proof -
  let ?h = "demo_host self_clearing_call"
  let ?task = "\<lparr>tm_handle = 1, tm_delay = timer_delay 5, tm_deadline = timer_delay 5, tm_repeat = False,
      tm_callback = 7, tm_arguments = []\<rparr>"
  let ?st = "\<lparr>heap = [0 \<mapsto> ?task], next_ref = Suc 0, tasks = [0], pollables = [(1, timer_delay 5)],
      engine = (0 :: nat)\<rparr>"
  let ?st1 = "\<lparr>heap = [0 \<mapsto> ?task\<lparr>tm_handle := INVALID_POLLABLE_HANDLE\<rparr>], next_ref = Suc 0, tasks = [],
      pollables = [], engine = (0 :: nat)\<rparr>"
  have set: "setTimeout_or_interval ?h False False [7, 5] (init_loop 0) = Inr (1, ?st)"
    by (simp add: setTimeout_or_interval_def demo_host_def TimerTask_new_def queue_async_task_def
        MonotonicClock_subscribe_def MonotonicClock_now_def init_loop_def Let_def task_id_def)
  have inv: "loop_inv ?st"
    by (simp add: loop_inv_def task_ids_def task_id_def INVALID_POLLABLE_HANDLE_def)
  have sel: "AsyncTask_select ?h ?st = Inr (0, ?st)"
    by (simp add: AsyncTask_select_def task_id_def demo_host_def)
  have clear: "clearTimeout_or_interval (demo_host call) False False [1] ?st = Inr (Inr ?st1)" for call
    by (simp add: clearTimeout_or_interval_def demo_host_def cancel_async_task_def task_id_def
        TimerTask_cancel_def MonotonicClock_unsubscribe_def erase_at_def)
  have call: "call_js ?h 7 [] ?st = (True, ?st1)"
    using clear [of quiet_call] by (simp add: demo_host_def self_clearing_call_def)
  have "process_task ?h ?st = Inl Trap"
    by (rule clearing_own_timer_traps [OF demo_fresh_ok inv sel, where v = 1 and w = 1 and b = False
          and task = ?task and ?st1.0 = ?st1])
      (use call clear [of self_clearing_call] in \<open>simp_all add: demo_host_def\<close>)
  with set show ?thesis by blast
qed

text \<open>
  A callback that clears a timer queued before its own makes the loop erase the wrong task:
  the index was taken before the callback ran.  The task after the running one leaves the queue
  without having run, the finished task stays in it with a dead handle, and the next selection
  traps; if there is no task after it the erase is out of range.
\<close>

theorem clearing_earlier_timer_loses_task:
  assumes "fresh_ok h" and "loop_inv st" and "AsyncTask_select h st = Inr (i, st0)"
    and "i < length (tasks st0)" and "heap st0 (tasks st0 ! i) = Some task" and "\<not> tm_repeat task"
    and "call_js h (tm_callback task) (tm_arguments task) st0 = (True, st1)"
    and "clearTimeout_or_interval h b False [v] st0 = Inr (Inr st1)"
    and "to_int32 h v = Some w" and "j < i" and "task_ids st0 ! j = sint w"
  shows "if Suc i < length (tasks st0)
    then \<exists>st'. process_task h st = Inr (True, st') \<and> tasks st0 ! i \<in> set (tasks st')
      \<and> tasks st0 ! Suc i \<notin> set (tasks st') \<and> AsyncTask_select h st' = Inl Trap
    else process_task h st = Inl OutOfRange"
proof -
  let ?t = "tasks st0 ! i"
  have inv0: "loop_inv st0" by (rule select_inv [OF assms(3,2)])
  have j: "j < length (tasks st0)" using assms(4,10) by simp
  have "find_task st0 (sint w) (tasks st0) = Some j"
    using find_task_nth [of st0, OF _ j] loop_invD(2) [OF inv0] assms(11) j by (simp add: task_ids_def)
  moreover from assms(8,9) obtain ok where "cancel_async_task (sint w) st0 = Inr (ok, st1)"
    by (auto simp: clearTimeout_cancel)
  ultimately have "cancel_at j st0 = Inr st1"
    by (auto simp: cancel_async_task_cancel_at rbind_eq_Inr)
  with cancel_at_inv [OF inv0 j] have inv1: "loop_inv st1" and ts1: "tasks st1 = erase_at j (tasks st0)"
    by (metis Inr_inject)+
  have k: "i - 1 < length (tasks st1)" and nth: "tasks st1 ! (i - 1) = ?t"
    using assms(4,10) by (auto simp: ts1 erase_at_def nth_append min_def Suc_diff_Suc)
  from cancel_at_inv [OF inv1 k] obtain st2 where "cancel_at (i - 1) st1 = Inr st2" by blast
  then obtain st3 where st3: "TimerTask_cancel ?t st1 = Inr st3" by (auto simp: cancel_at_def rbind_eq_Inr nth [simplified])
  have ts3: "tasks st3 = tasks st1" and dead: "task_id st3 ?t = INVALID_POLLABLE_HANDLE"
    and pol: "set (pollables st3) \<subseteq> set (pollables st1)"
    using st3 loop_invD(6) [OF inv1 nth_mem [OF k]]
    by (auto simp: TimerTask_cancel_def MonotonicClock_unsubscribe_def rbind_eq_Inr task_id_def nth
        split: if_splits option.splits)
  have run: "TimerTask_run h ?t st0 = Inr (True, st3)"
    using assms(6) st3 by (simp add: TimerTask_run_eq [OF assms(5,7)] after_repeat_def)
  have len: "length (tasks st3) = length (tasks st0) - 1"
    using j by (simp add: ts3 ts1 length_erase_at)
  show ?thesis
  proof (cases "Suc i < length (tasks st0)")
    case False
    with assms(4) len have "length (tasks st3) \<le> i" by simp
    with False assms(4) show ?thesis by (simp add: process_task_def assms(3) run)
  next
    case True
    let ?st' = "st3\<lparr>tasks := erase_at i (tasks st3)\<rparr>"
    from True len have i3: "i < length (tasks st3)" by simp
    have d3: "distinct (tasks st3)" using loop_invD(1) [OF inv1] by (simp add: ts3)
    have nth_i: "tasks st3 ! i = tasks st0 ! Suc i"
      using True assms(10) by (simp add: ts3 ts1 erase_at_def nth_append)
    have set': "set (tasks ?st') = set (tasks st3) - {tasks st0 ! Suc i}"
      using set_erase_at_distinct [OF d3 i3] by (simp add: nth_i)
    have "?t \<noteq> tasks st0 ! Suc i"
      using loop_invD(1) [OF inv0] True by (simp add: nth_eq_iff_index_eq)
    moreover have "?t \<in> set (tasks st3)" using nth_mem [OF k] nth by (simp add: ts3)
    ultimately have t': "?t \<in> set (tasks ?st')" unfolding set' by simp
    have "task_id ?st' ?t \<notin> fst ` set (pollables ?st')"
      using dead pol loop_invD(4) [OF inv1] by (auto simp: task_id_def)
    with t' have "\<not> task_id ?st' ` set (tasks ?st') \<subseteq> fst ` set (pollables ?st')" by blast
    then have "AsyncTask_select h ?st' = Inl Trap"
      unfolding AsyncTask_select_def Let_def set_map by (rule if_P)
    moreover have "tasks st0 ! Suc i \<notin> set (tasks ?st')" unfolding set' by simp
    moreover have "process_task h st = Inr (True, ?st')"
      using i3 assms(4) by (simp add: process_task_def assms(3) run)
    ultimately have "\<exists>st'. process_task h st = Inr (True, st') \<and> tasks st0 ! i \<in> set (tasks st')
        \<and> tasks st0 ! Suc i \<notin> set (tasks st') \<and> AsyncTask_select h st' = Inl Trap"
      using t' by (intro exI [of _ ?st'] conjI) assumption+
    with True show ?thesis by (simp only: if_True)
  qed
qed

definition first_clearing_call :: "int \<Rightarrow> int list \<Rightarrow> (int, nat) loop_state \<Rightarrow> bool \<times> (int, nat) loop_state" where
  "first_clearing_call c args st =
     (case clearTimeout_or_interval (demo_host quiet_call) False False [1] st of
        Inr (Inr st') \<Rightarrow> (True, st') | _ \<Rightarrow> (False, st))"

theorem clearing_earlier_timer_loses_task_witness:
  "\<exists>st st'. tasks st = [0, 1, 2] \<and> loop_inv (st :: (int, nat) loop_state)
    \<and> process_task ((demo_host first_clearing_call)\<lparr>poll := \<lambda>hs e. ([1], e)\<rparr>) st = Inr (True, st')
    \<and> 1 \<in> set (tasks st') \<and> 2 \<notin> set (tasks st')"
proof -
  let ?h = "(demo_host first_clearing_call)\<lparr>poll := \<lambda>hs e. ([1], e)\<rparr>"
  let ?task = "\<lambda>i. \<lparr>tm_handle = i, tm_delay = 0, tm_deadline = 0, tm_repeat = False,
      tm_callback = 7 :: int, tm_arguments = []\<rparr>"
  let ?st = "\<lparr>heap = [0 \<mapsto> ?task 1, 1 \<mapsto> ?task 2, 2 \<mapsto> ?task 3], next_ref = 3, tasks = [0, 1, 2],
      pollables = [(1, 0), (2, 0), (3, 0)], engine = (0 :: nat)\<rparr>"
  let ?st1 = "\<lparr>heap = [0 \<mapsto> ?task INVALID_POLLABLE_HANDLE, 1 \<mapsto> ?task 2, 2 \<mapsto> ?task 3], next_ref = 3,
      tasks = [1, 2], pollables = [(2, 0), (3, 0)], engine = (0 :: nat)\<rparr>"
  have fresh: "fresh_ok ?h" using demo_fresh_ok by (simp add: fresh_ok_def)
  have inv: "loop_inv ?st"
    by (auto simp: loop_inv_def task_ids_def task_id_def INVALID_POLLABLE_HANDLE_def)
  have sel: "AsyncTask_select ?h ?st = Inr (1, ?st)"
    by (simp add: AsyncTask_select_def task_id_def demo_host_def)
  have "(heap ?st)(0 \<mapsto> ?task INVALID_POLLABLE_HANDLE) = heap ?st1" by (auto simp: fun_eq_iff)
  then have clear: "clearTimeout_or_interval h False False [1] ?st = Inr (Inr ?st1)"
    if "to_int32 h 1 = Some 1" for h :: "(int, nat) host"
    by (simp add: clearTimeout_or_interval_def cancel_async_task_def task_id_def that
        TimerTask_cancel_def MonotonicClock_unsubscribe_def erase_at_def)
  have call: "call_js ?h 7 [] ?st = (True, ?st1)"
    using clear [of "demo_host quiet_call"] by (simp add: demo_host_def first_clearing_call_def)
  have conv: "to_int32 ?h 1 = Some 1" by (simp add: demo_host_def)
  have "\<exists>st'. process_task ?h ?st = Inr (True, st') \<and> 1 \<in> set (tasks st') \<and> 2 \<notin> set (tasks st')"
    using clearing_earlier_timer_loses_task [OF fresh inv sel, where v = 1 and w = 1 and b = False
        and task = "?task 2" and ?st1.0 = ?st1 and j = 0] call clear [OF conv] conv
    by (auto simp: task_ids_def task_id_def)
  then obtain st' where "process_task ?h ?st = Inr (True, st')" "1 \<in> set (tasks st')" "2 \<notin> set (tasks st')"
    by (elim exE conjE)
  moreover have "tasks ?st = [0, 1, 2]" by simp
  ultimately show ?thesis using inv by (intro exI conjI)
qed

text \<open>
  An interval that has fired once cannot be cleared any more: the repeated task is a new one
  with a new id, and \<open>clearInterval\<close> with the id that \<open>setInterval\<close> returned finds no task and
  changes nothing, while a repeating task with the same callback stays queued.
\<close>

theorem fired_interval_cannot_be_cleared:
  assumes "fresh_ok h" and "loop_inv st" and "AsyncTask_select h st = Inr (i, st0)"
    and "i < length (tasks st0)" and "heap st0 (tasks st0 ! i) = Some task" and "tm_repeat task"
    and "call_js h (tm_callback task) (tm_arguments task) st0 = (True, st0)"
  shows "\<exists>st'. process_task h st = Inr (True, st')
    \<and> cancel_async_task (tm_handle task) st' = Inr (False, st')
    \<and> (\<exists>t\<in>set (tasks st'). \<exists>task'. heap st' t = Some task' \<and> tm_repeat task'
          \<and> tm_callback task' = tm_callback task \<and> tm_arguments task' = tm_arguments task)"
proof -
  let ?t = "tasks st0 ! i"
  have inv0: "loop_inv st0" by (rule select_inv [OF assms(3,2)])
  have disc: "disciplined h i task st0 st0" using assms(7) by (simp add: disciplined_def)
  obtain st' where run: "process_task h st = Inr (True, st')" and inv': "loop_inv st'"
    and ts: "tasks st' = erase_at i (tasks (after_repeat h task st0))"
    and ids: "task_ids st' = erase_at i (task_ids (after_repeat h task st0))"
    using process_task_disciplined [OF assms(1-5) disc] by blast
  obtain tid st1 where add: "add_timer h (tm_delay task) True (tm_callback task) (tm_arguments task) st0 = (tid, st1)"
    by fastforce
  with assms(6) have st1: "after_repeat h task st0 = st1" by (simp add: after_repeat_def)
  note new = add_timer_inv [OF assms(1) inv0 add]
  have own: "task_ids st0 ! i = tm_handle task" using assms(4,5) by (simp add: task_ids_def task_id_def)
  have i: "i < length (task_ids st1)" using assms(4) new(2) by (simp add: task_ids_def)
  have "task_ids st1 ! i = tm_handle task" using assms(4) own unfolding new(2) by (simp add: nth_append task_ids_def)
  then have gone: "tm_handle task \<notin> set (task_ids st')"
    using set_erase_at_distinct [OF loop_invD(2) [OF new(1)] i] by (simp add: ids st1)
  have heap': "heap st' t = heap st1 t" if "t \<noteq> ?t" for t
    using run that assms(4) by (auto simp: process_task_def assms(3) TimerTask_run_eq [OF assms(5,7)] st1
      TimerTask_cancel_def MonotonicClock_unsubscribe_def rbind_eq_Inr split: if_splits option.splits)
  have "?t \<noteq> next_ref st0" using loop_invD(5) [OF inv0, of ?t] assms(5) by auto
  moreover have "heap st1 (next_ref st0) = Some task' \<Longrightarrow> tm_repeat task'
      \<and> tm_callback task' = tm_callback task \<and> tm_arguments task' = tm_arguments task" for task'
    using add by (auto simp: add_timer_def TimerTask_new_def MonotonicClock_subscribe_def
        queue_async_task_def Let_def)
  moreover have "next_ref st0 \<in> set (tasks st')"
    using assms(4) by (auto simp: ts st1 new(5) erase_at_def)
  moreover obtain task' where "heap st' (next_ref st0) = Some task'"
    using loop_invD(6) [OF inv' \<open>next_ref st0 \<in> set (tasks st')\<close>] by blast
  ultimately show ?thesis
    using run cancel_absent_unchanged [OF gone] heap' [of "next_ref st0"] by force
qed

theorem fired_interval_cannot_be_cleared_witness:
  "\<exists>st i st'. setTimeout_or_interval (demo_host quiet_call) True False [7, 5] (init_loop 0) = Inr (i, st)
    \<and> process_task (demo_host quiet_call) st = Inr (True, st')
    \<and> cancel_async_task i st' = Inr (False, st')"
proof -
  let ?h = "demo_host quiet_call"
  let ?task = "\<lparr>tm_handle = 1, tm_delay = timer_delay 5, tm_deadline = timer_delay 5, tm_repeat = True,
      tm_callback = 7, tm_arguments = []\<rparr>"
  let ?st = "\<lparr>heap = [0 \<mapsto> ?task], next_ref = Suc 0, tasks = [0], pollables = [(1, timer_delay 5)],
      engine = (0 :: nat)\<rparr>"
  have set: "setTimeout_or_interval ?h True False [7, 5] (init_loop 0) = Inr (1, ?st)"
    by (simp add: setTimeout_or_interval_def demo_host_def TimerTask_new_def queue_async_task_def
        MonotonicClock_subscribe_def MonotonicClock_now_def init_loop_def Let_def task_id_def)
  have inv: "loop_inv ?st"
    by (simp add: loop_inv_def task_ids_def task_id_def INVALID_POLLABLE_HANDLE_def)
  have sel: "AsyncTask_select ?h ?st = Inr (0, ?st)"
    by (simp add: AsyncTask_select_def task_id_def demo_host_def)
  have call: "call_js ?h 7 [] ?st = (True, ?st)" by (simp add: demo_host_def quiet_call_def)
  show ?thesis
    using set fired_interval_cannot_be_cleared [OF demo_fresh_ok inv sel, where task = ?task] call by auto
qed

text \<open>
  \<open>setTimeout\<close> and \<open>setInterval\<close> queue one task behind the others whose deadline is the
  current time plus the delay in nanoseconds; the delay is the converted argument, with negative
  values and a missing argument taken as zero, and its product does not overflow 64 bits.
\<close>

theorem setTimeout_deadline:
  assumes "setTimeout_or_interval h r w args st = Inr (i, st')"
  shows "\<exists>task ms. heap st' (next_ref st) = Some task \<and> tasks st' = tasks st @ [next_ref st]
    \<and> (if length args > 1 then to_int32 h (args ! 1) else Some 0) = Some ms
    \<and> tm_handle task = i \<and> (i, tm_deadline task) \<in> set (pollables st')
    \<and> tm_deadline task = clock_now h (engine st) + tm_delay task
    \<and> unat (tm_delay task) = nat (max 0 (sint ms)) * 1000000
    \<and> tm_repeat task = r \<and> tm_callback task = args ! 0 \<and> tm_arguments task = drop 2 args"
  using assms
  by (auto simp: setTimeout_add_timer add_timer_def TimerTask_new_def MonotonicClock_subscribe_def
      MonotonicClock_now_def queue_async_task_def Let_def task_id_def timer_delay_value
      split: if_splits)

theorem setTimeout_deadline_witness:
  "\<exists>st' task. setTimeout_or_interval (demo_host quiet_call) False False [7, 5] (init_loop 0) = Inr (1, st')
    \<and> heap st' 0 = Some task \<and> unat (tm_delay task) = 5000000"
proof -
  obtain st' where "setTimeout_or_interval (demo_host quiet_call) False False [7, 5] (init_loop 0) = Inr (1, st')"
    by (simp add: setTimeout_or_interval_def demo_host_def TimerTask_new_def queue_async_task_def
        MonotonicClock_subscribe_def init_loop_def Let_def task_id_def)
  from this setTimeout_deadline [OF this] show ?thesis
    by (auto simp: demo_host_def init_loop_def)
qed

text \<open>
  \<open>clearTimeout\<close> with the id that \<open>setTimeout\<close> has just returned succeeds and undoes it: the
  queue holds the same ids as before, and clearing the id again changes nothing.
\<close>

theorem clearTimeout_undoes_setTimeout:
  assumes "fresh_ok h" and "loop_inv st" and "setTimeout_or_interval h r w args st = Inr (i, st')"
    and "to_int32 h v = Some iw" and "sint iw = i"
  shows "\<exists>st''. clearTimeout_or_interval h b False [v] st' = Inr (Inr st'') \<and> loop_inv st''
    \<and> task_ids st'' = task_ids st
    \<and> clearTimeout_or_interval h b False [v] st'' = Inr (Inr st'')"
proof -
  from assms(3) obtain ms where add: "add_timer h (timer_delay ms) r (args ! 0) (drop 2 args) st = (i, st')"
    by (auto simp: setTimeout_add_timer)
  then obtain st'' where c: "cancel_queued i st' = Some st''" and "loop_inv st''" "task_ids st'' = task_ids st"
    using timers.cancel_added [of h st "(timer_delay ms, r, args ! 0, drop 2 args)" i st'] assms(1,2) by auto
  moreover from c have "cancel_async_task i st' = Inr (True, st'')"
    by (auto simp: cancel_queued_def split: sum.splits prod.splits bool.splits)
  moreover have "i \<notin> set (task_ids st'')"
    using timers.add_new [of h st "(timer_delay ms, r, args ! 0, drop 2 args)" i st'] assms(1,2) add
      \<open>task_ids st'' = task_ids st\<close> by simp
  ultimately show ?thesis
    using assms(4,5) cancel_absent_unchanged [of i st''] by (force simp: clearTimeout_cancel)
qed

theorem clearTimeout_undoes_setTimeout_witness:
  "\<exists>st' st''. setTimeout_or_interval (demo_host quiet_call) False False [7, 5] (init_loop 0) = Inr (1, st')
    \<and> clearTimeout_or_interval (demo_host quiet_call) False False [1] st' = Inr (Inr st'')
    \<and> task_ids st'' = []"
proof -
  obtain st' where set: "setTimeout_or_interval (demo_host quiet_call) False False [7, 5] (init_loop 0) = Inr (1, st')"
    by (simp add: setTimeout_or_interval_def demo_host_def TimerTask_new_def queue_async_task_def
        MonotonicClock_subscribe_def init_loop_def Let_def task_id_def)
  have "to_int32 (demo_host quiet_call) 1 = Some 1" "sint (1 :: 32 word) = 1"
    by (simp_all add: demo_host_def)
  from set clearTimeout_undoes_setTimeout [OF demo_fresh_ok loop_inv_init set this]
  show ?thesis by (fastforce simp: task_ids_def init_loop_def)
qed

definition one_shot :: "('v, 'e) loop_state \<Rightarrow> bool" where
  "one_shot st \<longleftrightarrow> (\<forall>t\<in>set (tasks st). \<forall>task. heap st t = Some task \<longrightarrow> \<not> tm_repeat task)"

definition poll_ok :: "('v, 'e) host \<Rightarrow> bool" where
  "poll_ok h \<longleftrightarrow> (\<forall>hs e. hs \<noteq> [] \<longrightarrow> (\<exists>i is e'. poll h hs e = (i # is, e') \<and> i < length hs))"



end
