(* ===== verification/Sequence.thy ===== *)
theory Sequence
  imports Prelude
begin

section \<open>Extracting key-value pairs from a sequence or a record\<close>

text \<open>
  Models \<open>runtime/sequence.hpp\<close>: \<open>maybe_consume_sequence_or_record\<close>, which the constructors of
  \<open>Headers\<close> and \<open>URLSearchParams\<close> use to read their first argument.  The iteration protocol runs
  user code, so what the engine reports of the argument is data of the model: \<open>iteration\<close> is the
  list of the items that \<open>next\<close> yields and whether it throws instead of being done after them.
\<close>

record 'a iteration =
  items :: "'a list"
  throws_after :: bool

datatype 'a next_result = NextThrow | NextDone | NextItem 'a

definition iter_next :: "'a iteration \<Rightarrow> 'a next_result \<times> 'a iteration" where
  "iter_next it =
     (case items it of
        [] \<Rightarrow> (if throws_after it then NextThrow else NextDone, it)
      | x # xs \<Rightarrow> (NextItem x, it\<lparr>items := xs\<rparr>))"

text \<open>An entry of the outer sequence, as \<open>isObject\<close>, \<open>init\<close> and \<open>valueIsIterable\<close> see it.\<close>

datatype 'v seq_entry =
    EntryPrimitive
  | EntryInitThrows
  | EntryNotIterable
  | EntryIterable "'v iteration"

text \<open>
  The argument: undefined, a value whose iterator lookup throws, an iterable object, a plain
  object (its own keys with the value or \<open>None\<close> if reading it throws; \<open>None\<close> if listing the keys
  throws), or a primitive.
\<close>

datatype 'v init_value =
    InitUndefined
  | InitIteratorThrows
  | InitIterable "'v seq_entry iteration"
  | InitRecord "('v \<times> 'v option) list option"
  | InitPrimitive

definition sequence_or_record_arg_error :: "string \<Rightarrow> string \<Rightarrow> js_error" where
  "sequence_or_record_arg_error name alt_text =
     ReportError (''Failed to construct '' @ name @ '' object. If defined, the first '' @
       ''argument must be either a [ ['' @ [CHR 0x27] @ ''name'' @ [CHR 0x27] @ '', '' @ [CHR 0x27] @
       ''value'' @ [CHR 0x27] @ ''], ... ] sequence, '' @
       ''or a { '' @ [CHR 0x27] @ ''name'' @ [CHR 0x27] @ '' : '' @ [CHR 0x27] @ ''value'' @ [CHR 0x27] @
       '', ... } record'' @ alt_text @ ''.'')"

text \<open>One entry: exactly a key and a value, then the end of the inner iteration.\<close>

definition consume_entry ::
    "('s \<Rightarrow> 'v \<Rightarrow> 'v \<Rightarrow> js_error + 's) \<Rightarrow> js_error \<Rightarrow> 's \<Rightarrow> 'v seq_entry \<Rightarrow> js_error + 's" where
  "consume_entry app arg_error target entry =
     (case entry of
        EntryPrimitive \<Rightarrow> Inl arg_error
      | EntryInitThrows \<Rightarrow> Inl PendingException
      | EntryNotIterable \<Rightarrow> Inl arg_error
      | EntryIterable it \<Rightarrow>
          (case iter_next it of
             (NextThrow, _) \<Rightarrow> Inl PendingException
           | (NextDone, _) \<Rightarrow> Inl arg_error
           | (NextItem key, it) \<Rightarrow>
               (case iter_next it of
                  (NextThrow, _) \<Rightarrow> Inl PendingException
                | (NextDone, _) \<Rightarrow> Inl arg_error
                | (NextItem value, it) \<Rightarrow>
                    (case iter_next it of
                       (NextThrow, _) \<Rightarrow> Inl PendingException
                     | (NextItem _, _) \<Rightarrow> Inl arg_error
                     | (NextDone, _) \<Rightarrow> app target key value))))"

fun consume_entries ::
    "('s \<Rightarrow> 'v \<Rightarrow> 'v \<Rightarrow> js_error + 's) \<Rightarrow> js_error \<Rightarrow> 's \<Rightarrow> 'v seq_entry list \<Rightarrow> bool \<Rightarrow> js_error + 's" where
  "consume_entries app arg_error target [] throws =
     (if throws then Inl PendingException else Inr target)"
| "consume_entries app arg_error target (entry # entries) throws =
     rbind (consume_entry app arg_error target entry) (\<lambda>target.
       consume_entries app arg_error target entries throws)"

fun consume_properties ::
    "('s \<Rightarrow> 'v \<Rightarrow> 'v \<Rightarrow> js_error + 's) \<Rightarrow> 's \<Rightarrow> ('v \<times> 'v option) list \<Rightarrow> js_error + 's" where
  "consume_properties app target [] = Inr target"
| "consume_properties app target ((key, None) # props) = Inl PendingException"
| "consume_properties app target ((key, Some value) # props) =
     rbind (app target key value) (\<lambda>target. consume_properties app target props)"

text \<open>The result is the target and the \<open>consumed\<close> flag.\<close>

definition maybe_consume_sequence_or_record ::
    "('s \<Rightarrow> 'v \<Rightarrow> 'v \<Rightarrow> js_error + 's) \<Rightarrow> 'v init_value \<Rightarrow> 's \<Rightarrow> string \<Rightarrow> string
       \<Rightarrow> js_error + bool \<times> 's" where
  "maybe_consume_sequence_or_record app initv target ctor_name alt_text =
     (case initv of
        InitUndefined \<Rightarrow> Inr (True, target)
      | InitIteratorThrows \<Rightarrow> Inl PendingException
      | InitIterable it \<Rightarrow>
          rbind (consume_entries app (sequence_or_record_arg_error ctor_name alt_text) target
                   (items it) (throws_after it)) (\<lambda>target. Inr (True, target))
      | InitRecord None \<Rightarrow> Inl PendingException
      | InitRecord (Some props) \<Rightarrow>
          rbind (consume_properties app target props) (\<lambda>target. Inr (True, target))
      | InitPrimitive \<Rightarrow> Inr (False, target))"

subsection \<open>What it applies\<close>

text \<open>
  The pairs a well-formed argument stands for; \<open>None\<close> when the shape is wrong somewhere.
\<close>

fun entry_pair :: "'v seq_entry \<Rightarrow> ('v \<times> 'v) option" where
  "entry_pair (EntryIterable it) =
     (case items it of [k, v] \<Rightarrow> if throws_after it then None else Some (k, v) | _ \<Rightarrow> None)"
| "entry_pair _ = None"

fun init_pairs :: "'v init_value \<Rightarrow> ('v \<times> 'v) list option" where
  "init_pairs InitUndefined = Some []"
| "init_pairs (InitIterable it) = (if throws_after it then None else those (map entry_pair (items it)))"
| "init_pairs (InitRecord (Some props)) = those (map (\<lambda>(k, v). map_option (Pair k) v) props)"
| "init_pairs _ = None"

fun apply_pairs :: "('s \<Rightarrow> 'v \<Rightarrow> 'v \<Rightarrow> js_error + 's) \<Rightarrow> 's \<Rightarrow> ('v \<times> 'v) list \<Rightarrow> js_error + 's" where
  "apply_pairs app target [] = Inr target"
| "apply_pairs app target ((k, v) # ps) = rbind (app target k v) (\<lambda>target. apply_pairs app target ps)"

lemma consume_entry_pair:
  "consume_entry app e target entry =
     (case entry_pair entry of
        Some (k, v) \<Rightarrow> app target k v
      | None \<Rightarrow> consume_entry app e target entry)"
  by (cases entry rule: entry_pair.cases)
    (auto simp: consume_entry_def iter_next_def split: option.splits list.splits if_splits)

lemma consume_entry_no_pair: "entry_pair entry = None \<Longrightarrow> \<exists>err. consume_entry app e target entry = Inl err"
  by (cases entry rule: entry_pair.cases)
    (auto simp: consume_entry_def iter_next_def split: list.splits if_splits)

lemma consume_entries_pairs:
  "those (map entry_pair es) = Some ps \<Longrightarrow>
     consume_entries app e target es False = apply_pairs app target ps"
proof (induction es arbitrary: ps target)
  case (Cons entry es)
  then obtain k v ps' where "entry_pair entry = Some (k, v)" "those (map entry_pair es) = Some ps'"
    "ps = (k, v) # ps'"
    by (auto split: option.splits)
  with Cons.IH show ?case
    by (cases "app target k v") (auto simp: consume_entry_pair [of app e target entry])
qed simp

lemma consume_properties_pairs:
  "those (map (\<lambda>(k, v). map_option (Pair k) v) props) = Some ps \<Longrightarrow>
     consume_properties app target props = apply_pairs app target ps"
proof (induction props arbitrary: ps target)
  case (Cons p props)
  obtain k v where p: "p = (k, v)" by fastforce
  with Cons.prems obtain v' ps' where "v = Some v'" "ps = (k, v') # ps'"
    "those (map (\<lambda>(k, v). map_option (Pair k) v) props) = Some ps'"
    by (auto split: option.splits)
  with Cons.IH p show ?case by (cases "app target k v'") auto
qed simp

lemma consume_entries_bad:
  "those (map entry_pair es) = None \<or> throws \<Longrightarrow> \<exists>err. consume_entries app e target es throws = Inl err"
proof (induction es arbitrary: target)
  case (Cons entry es)
  show ?case
  proof (cases "entry_pair entry")
    case None
    then show ?thesis using consume_entry_no_pair [of entry app e target] by auto
  next
    case (Some kv)
    then have "those (map entry_pair es) = None \<or> throws" using Cons.prems by (auto split: option.splits)
    with Cons.IH show ?thesis by (cases "consume_entry app e target entry") auto
  qed
qed simp

lemma consume_properties_bad:
  "those (map (\<lambda>(k, v). map_option (Pair k) v) props) = None \<Longrightarrow>
     \<exists>err. consume_properties app target props = Inl err"
proof (induction props arbitrary: target)
  case (Cons p props)
  obtain k v where p: "p = (k, v)" by fastforce
  show ?case
  proof (cases v)
    case (Some v')
    then have "those (map (\<lambda>(k, v). map_option (Pair k) v) props) = None"
      using Cons.prems p by (auto split: option.splits)
    with Cons.IH p Some show ?thesis by (cases "app target k v'") auto
  qed (simp add: p)
qed simp

lemma maybe_consume_pairs:
  "init_pairs initv = Some ps \<Longrightarrow>
     maybe_consume_sequence_or_record app initv target name alt =
       rbind (apply_pairs app target ps) (\<lambda>target. Inr (True, target))"
  by (cases initv rule: init_pairs.cases)
    (auto simp: maybe_consume_sequence_or_record_def consume_entries_pairs consume_properties_pairs
      split: if_splits)

lemma maybe_consume_bad:
  "init_pairs initv = None \<Longrightarrow>
     (\<exists>err. maybe_consume_sequence_or_record app initv target name alt = Inl err)
     \<or> initv = InitPrimitive \<and> maybe_consume_sequence_or_record app initv target name alt = Inr (False, target)"
proof (cases initv rule: init_pairs.cases)
  case (2 it)
  assume none: "init_pairs initv = None"
  from none 2 have "those (map entry_pair (items it)) = None \<or> throws_after it"
    by (auto split: if_splits)
  from consume_entries_bad [OF this, of app "sequence_or_record_arg_error name alt" target] 2 show ?thesis
    by (auto simp: maybe_consume_sequence_or_record_def)
next
  case (3 props)
  assume "init_pairs initv = None"
  with 3 consume_properties_bad [of props app target] show ?thesis
    by (auto simp: maybe_consume_sequence_or_record_def)
qed (auto simp: maybe_consume_sequence_or_record_def)

lemma apply_pairs_invariant:
  assumes "apply_pairs app target ps = Inr target'" and "P target"
    and "\<And>t k v t'. P t \<Longrightarrow> app t k v = Inr t' \<Longrightarrow> P t'"
  shows "P target'"
  using assms(1,2)
proof (induction ps arbitrary: target)
  case (Cons kv ps)
  obtain k v where kv: "kv = (k, v)" by fastforce
  with Cons.prems obtain t where "app target k v = Inr t" "apply_pairs app t ps = Inr target'"
    by (auto simp: rbind_eq_Inr)
  with assms(3) [OF Cons.prems(2)] Cons.IH show ?case by blast
qed simp

lemma maybe_consume_invariant:
  assumes "maybe_consume_sequence_or_record app initv target name alt = Inr (c, target')" and "P target"
    and "\<And>t k v t'. P t \<Longrightarrow> app t k v = Inr t' \<Longrightarrow> P t'"
  shows "P target'"
proof (cases "init_pairs initv")
  case None
  then show ?thesis using maybe_consume_bad [OF None, of app target name alt] assms(1,2) by auto
next
  case (Some ps)
  then have "apply_pairs app target ps = Inr target'"
    using assms(1) by (auto simp: maybe_consume_pairs rbind_eq_Inr)
  then show ?thesis using assms(2,3) by (rule apply_pairs_invariant)
qed

subsection \<open>Properties\<close>

text \<open>
  The function applies exactly the key-value pairs of a well-formed argument, in order and
  stopping at the first failing application, and reports that it consumed the argument; an
  argument that is malformed anywhere (an entry with fewer or more than two items, a primitive
  entry, an iteration or a property read that throws) is an error, and a primitive argument is
  left alone and reported as not consumed.
\<close>

theorem maybe_consume_correct:
  "case init_pairs initv of
     Some ps \<Rightarrow> maybe_consume_sequence_or_record app initv target name alt =
       rbind (apply_pairs app target ps) (\<lambda>target. Inr (True, target))
   | None \<Rightarrow> if initv = InitPrimitive
       then maybe_consume_sequence_or_record app initv target name alt = Inr (False, target)
       else \<exists>err. maybe_consume_sequence_or_record app initv target name alt = Inl err"
  using maybe_consume_pairs [of initv _ app target name alt]
    maybe_consume_bad [of initv app target name alt]
  by (auto simp: maybe_consume_sequence_or_record_def split: option.splits)

end
