(* ===== verification/Http_Fields.thy ===== *)
theory Http_Fields
  imports Prelude
begin

section \<open>The host's HTTP fields and host_api::HttpHeaders\<close>

text \<open>
  Models the class \<open>HttpHeaders\<close> of \<open>host-apis/wasi-0.2.0/host_api.cpp\<close>.  The \<open>fields\<close> resource
  behind it belongs to the host: its functions are the record \<open>wasi_fields\<close>.  Each mutating
  function returns whether it succeeded and the resource afterwards; \<open>HttpHeaders\<close> ignores the
  error and always returns an empty \<open>Result\<close>.  The functions \<open>wit_\<dots>\<close> write out the
  documentation of the resource in \<open>host-apis/wasi-0.2.0/wit/deps/http/types.wit\<close>; they are the
  instance the interface below is interpreted on.
\<close>

record 'f wasi_fields =
  f_entries :: "'f \<Rightarrow> (string \<times> string) list"
  f_get :: "'f \<Rightarrow> string \<Rightarrow> string list"
  f_set :: "'f \<Rightarrow> string \<Rightarrow> string list \<Rightarrow> bool \<times> 'f"
  f_append :: "'f \<Rightarrow> string \<Rightarrow> string \<Rightarrow> bool \<times> 'f"
  f_delete :: "'f \<Rightarrow> string \<Rightarrow> bool \<times> 'f"
  f_from_list :: "(string \<times> string) list \<Rightarrow> 'f option"

text \<open>
  \<open>JS_NewStringCopyN\<close> makes a string of Latin-1 characters out of bytes; its UTF-8 encoding, which
  is how this development writes a JavaScript string, has two bytes for those from 128 on.
\<close>

definition utf8_of_latin1 :: "string \<Rightarrow> string" where
  "utf8_of_latin1 s =
     concat (map (\<lambda>c. let b = of_char c :: nat
                       in if b < 128 then [c] else [char_of (192 + b div 64), char_of (128 + b mod 64)]) s)"

definition ascii :: "string \<Rightarrow> bool" where
  "ascii s \<longleftrightarrow> list_all (\<lambda>c. of_char c < (128 :: nat)) s"

lemma utf8_of_latin1_ascii [simp]: "ascii s \<Longrightarrow> utf8_of_latin1 s = s"
  by (induction s) (auto simp: utf8_of_latin1_def ascii_def Let_def)

text \<open>The error type of the host API (\<open>APIError\<close>) and the operations the builtins call.\<close>

type_synonym api_error = nat

record 'f http_headers =
  hh_names :: "'f \<Rightarrow> api_error + string list"
  hh_get :: "'f \<Rightarrow> string \<Rightarrow> api_error + string list option"
  hh_set :: "'f \<Rightarrow> string \<Rightarrow> string \<Rightarrow> api_error + 'f"
  hh_append :: "'f \<Rightarrow> string \<Rightarrow> string \<Rightarrow> api_error + 'f"
  hh_remove :: "'f \<Rightarrow> string \<Rightarrow> api_error + 'f"

definition HttpHeaders_entries :: "'f wasi_fields \<Rightarrow> 'f \<Rightarrow> api_error + (string \<times> string) list" where
  "HttpHeaders_entries F f = Inr (map (\<lambda>e. (fst e, snd e)) (f_entries F f))"

definition HttpHeaders_names :: "'f wasi_fields \<Rightarrow> 'f \<Rightarrow> api_error + string list" where
  "HttpHeaders_names F f = Inr (map fst (f_entries F f))"

definition HttpHeaders_get :: "'f wasi_fields \<Rightarrow> 'f \<Rightarrow> string \<Rightarrow> api_error + string list option" where
  "HttpHeaders_get F f name =
     (let vals = f_get F f name in if length vals > 0 then Inr (Some vals) else Inr None)"

definition HttpHeaders_set :: "'f wasi_fields \<Rightarrow> 'f \<Rightarrow> string \<Rightarrow> string \<Rightarrow> api_error + 'f" where
  "HttpHeaders_set F f name value = (let (ok, f') = f_set F f name [value] in Inr f')"

definition HttpHeaders_append :: "'f wasi_fields \<Rightarrow> 'f \<Rightarrow> string \<Rightarrow> string \<Rightarrow> api_error + 'f" where
  "HttpHeaders_append F f name value = (let (ok, f') = f_append F f name value in Inr f')"

definition HttpHeaders_remove :: "'f wasi_fields \<Rightarrow> 'f \<Rightarrow> string \<Rightarrow> api_error + 'f" where
  "HttpHeaders_remove F f name = (let (ok, f') = f_delete F f name in Inr f')"

definition wasi_http_headers :: "'f wasi_fields \<Rightarrow> 'f http_headers" where
  "wasi_http_headers F =
     \<lparr>hh_names = HttpHeaders_names F, hh_get = HttpHeaders_get F, hh_set = HttpHeaders_set F,
      hh_append = HttpHeaders_append F, hh_remove = HttpHeaders_remove F\<rparr>"

text \<open>
  The constructor from entries flattens each name's values into pairs but passes the number of
  \<^emph>\<open>entries\<close> as the length of the list.  A length beyond the pairs is an out-of-bounds read,
  \<open>None\<close> here.
\<close>

definition HttpHeaders_from_entries ::
    "'f wasi_fields \<Rightarrow> (string \<times> string list) list \<Rightarrow> 'f option" where
  "HttpHeaders_from_entries F entries =
     (let pairs = concat (map (\<lambda>(name, vals). map (Pair name) vals) entries)
      in if length pairs < length entries then None
         else f_from_list F (take (length entries) pairs))"

subsection \<open>The resource as its documentation describes it\<close>

record wit_fields =
  immutable :: bool
  field_list :: "(string \<times> string) list"

definition wit_get :: "wit_fields \<Rightarrow> string \<Rightarrow> string list" where
  "wit_get f name = map snd (filter (\<lambda>e. fst e = name) (field_list f))"

definition wit_set :: "wit_fields \<Rightarrow> string \<Rightarrow> string list \<Rightarrow> bool \<times> wit_fields" where
  "wit_set f name vals =
     (if immutable f then (False, f)
      else (True, f\<lparr>field_list := filter (\<lambda>e. fst e \<noteq> name) (field_list f) @ map (Pair name) vals\<rparr>))"

definition wit_append :: "wit_fields \<Rightarrow> string \<Rightarrow> string \<Rightarrow> bool \<times> wit_fields" where
  "wit_append f name value =
     (if immutable f then (False, f) else (True, f\<lparr>field_list := field_list f @ [(name, value)]\<rparr>))"

definition wit_delete :: "wit_fields \<Rightarrow> string \<Rightarrow> bool \<times> wit_fields" where
  "wit_delete f name =
     (if immutable f then (False, f)
      else (True, f\<lparr>field_list := filter (\<lambda>e. fst e \<noteq> name) (field_list f)\<rparr>))"

definition wit_ops :: "wit_fields wasi_fields" where
  "wit_ops =
     \<lparr>f_entries = field_list, f_get = wit_get, f_set = wit_set, f_append = wit_append,
      f_delete = wit_delete,
      f_from_list = (\<lambda>es. Some \<lparr>immutable = False, field_list = es\<rparr>)\<rparr>"

subsection \<open>The interface the Headers builtin relies on\<close>

text \<open>
  A multimap from names to the list of values: \<open>vals f n\<close>.  The laws hold for fields that the
  predicate \<open>mutable\<close> admits.
\<close>

locale header_store =
  fixes H :: "'f http_headers"
    and vals :: "'f \<Rightarrow> string \<Rightarrow> string list"
    and mutable :: "'f \<Rightarrow> bool"
  assumes names_law: "\<exists>ns. hh_names H f = Inr ns \<and> set ns = {n. vals f n \<noteq> []}"
    and get_law: "hh_get H f n = Inr (if vals f n = [] then None else Some (vals f n))"
    and set_law: "mutable f \<Longrightarrow> \<exists>f'. hh_set H f n v = Inr f' \<and> mutable f' \<and> vals f' = (vals f)(n := [v])"
    and append_law: "mutable f \<Longrightarrow>
      \<exists>f'. hh_append H f n v = Inr f' \<and> mutable f' \<and> vals f' = (vals f)(n := vals f n @ [v])"
    and remove_law: "mutable f \<Longrightarrow>
      \<exists>f'. hh_remove H f n = Inr f' \<and> mutable f' \<and> vals f' = (vals f)(n := [])"

interpretation wit: header_store "wasi_http_headers wit_ops" wit_get "\<lambda>f. \<not> immutable f"
proof (unfold_locales, goal_cases)
  case (1 f)
  show ?case
    by (auto simp: wasi_http_headers_def HttpHeaders_names_def wit_ops_def wit_get_def filter_empty_conv
        image_iff)
next
  case (2 f n)
  show ?case by (auto simp: wasi_http_headers_def HttpHeaders_get_def wit_ops_def)
next
  case (3 f n v)
  then show ?case
    by (auto simp: wasi_http_headers_def HttpHeaders_set_def wit_ops_def wit_set_def wit_get_def
        fun_eq_iff intro!: arg_cong [where f = "map snd"] filter_cong)
next
  case (4 f n v)
  then show ?case
    by (auto simp: wasi_http_headers_def HttpHeaders_append_def wit_ops_def wit_append_def wit_get_def
        fun_eq_iff)
next
  case (5 f n)
  then show ?case
    by (auto simp: wasi_http_headers_def HttpHeaders_remove_def wit_ops_def wit_delete_def wit_get_def
        fun_eq_iff intro!: arg_cong [where f = "map snd"] filter_cong)
qed

subsection \<open>The constructor from entries\<close>

definition flat_pairs :: "(string \<times> string list) list \<Rightarrow> (string \<times> string) list" where
  "flat_pairs entries = concat (map (\<lambda>(name, vals). map (Pair name) vals) entries)"

lemma length_flat_pairs: "length (flat_pairs entries) = sum_list (map (length \<circ> snd) entries)"
  by (induction entries) (auto simp: flat_pairs_def)

lemma flat_pairs_longer:
  "\<forall>e\<in>set entries. snd e \<noteq> [] \<Longrightarrow> length entries \<le> length (flat_pairs entries)"
  unfolding length_flat_pairs by (induction entries) (auto simp: neq_Nil_conv less_Suc_eq_le trans_le_add2)

lemma flat_pairs_same:
  "\<forall>e\<in>set entries. snd e \<noteq> [] \<Longrightarrow>
     length entries = length (flat_pairs entries) \<longleftrightarrow> (\<forall>e\<in>set entries. length (snd e) = 1)"
proof (induction entries)
  case (Cons e entries)
  let ?n = "length (snd e)"
  have l: "length (flat_pairs (e # entries)) = ?n + length (flat_pairs entries)"
    by (simp add: length_flat_pairs)
  have pos: "0 < ?n" and le: "length entries \<le> length (flat_pairs entries)"
    using Cons.prems flat_pairs_longer by auto
  have "Suc (length entries) = ?n + length (flat_pairs entries) \<longleftrightarrow>
      ?n = 1 \<and> length entries = length (flat_pairs entries)"
    using pos le by linarith
  then show ?case unfolding l using Cons by simp
qed (simp add: flat_pairs_def)

text \<open>
  Building fields from entries keeps all of them exactly when every name has one value: the
  constructor tells the host the number of names, not the number of pairs, so with several values
  for a name the last pairs are dropped.
\<close>

theorem from_entries_keeps_all_iff:
  assumes "\<forall>e\<in>set entries. snd e \<noteq> []"
  shows "(HttpHeaders_from_entries wit_ops entries = Some \<lparr>immutable = False, field_list = flat_pairs entries\<rparr>)
    = (\<forall>e\<in>set entries. length (snd e) = 1)"
proof -
  let ?p = "flat_pairs entries"
  have "HttpHeaders_from_entries wit_ops entries =
      Some \<lparr>immutable = False, field_list = take (length entries) ?p\<rparr>"
    using flat_pairs_longer [OF assms]
    by (simp add: HttpHeaders_from_entries_def wit_ops_def Let_def flip: flat_pairs_def)
  moreover have "take (length entries) ?p = ?p \<longleftrightarrow> length entries = length ?p"
    using flat_pairs_longer [OF assms] by auto
  ultimately show ?thesis using flat_pairs_same [OF assms] by simp
qed

theorem from_entries_keeps_all_iff_witness:
  "HttpHeaders_from_entries wit_ops [(''a'', [''1'', ''2''])] \<noteq>
     Some \<lparr>immutable = False, field_list = flat_pairs [(''a'', [''1'', ''2''])]\<rparr>"
  using from_entries_keeps_all_iff [of "[(''a'', [''1'', ''2''])]"] by simp

end
