(* ===== verification/Headers.thy ===== *)
theory Headers
  imports Http_Fields Sequence "HOL-Library.AList"
begin

section \<open>The Headers builtin\<close>

text \<open>
  Models \<open>builtins/web/fetch/headers.cpp\<close>.  A \<open>Headers\<close> object has a JavaScript \<open>Map\<close> from
  normalized names to values (insertion-ordered, so an association list; a value is \<open>None\<close> while
  it is \<open>null\<close>, that is, not yet read from the host), an optional host handle and the flag
  \<open>HasLazyValues\<close>.  A JavaScript string is represented by its UTF-8 encoding.  \<open>enc\<close> is
  \<open>core::encode\<close> on a value: \<open>JS::ToString\<close> followed by the engine's UTF-8 encoding, \<open>None\<close> when
  the conversion throws.  The host side is an \<open>http_headers\<close> record \<open>H\<close>.
\<close>

subsection \<open>Normalization of names and values\<close>

definition VALID_NAME_CHARS :: "nat list" where
  "VALID_NAME_CHARS =
    [0, 0, 0, 0, 0, 0, 0, 0,
     0, 0, 0, 0, 0, 0, 0, 0,
     0, 0, 0, 0, 0, 0, 0, 0,
     0, 0, 0, 0, 0, 0, 0, 0,
     0, 1, 0, 1, 1, 1, 1, 1,
     0, 0, 1, 1, 0, 1, 1, 0,
     1, 1, 1, 1, 1, 1, 1, 1,
     1, 1, 0, 0, 0, 0, 0, 0,
     0, 1, 1, 1, 1, 1, 1, 1,
     1, 1, 1, 1, 1, 1, 1, 1,
     1, 1, 1, 1, 1, 1, 1, 1,
     1, 1, 1, 0, 0, 0, 1, 1,
     1, 1, 1, 1, 1, 1, 1, 1,
     1, 1, 1, 1, 1, 1, 1, 1,
     1, 1, 1, 1, 1, 1, 1, 1,
     1, 1, 1, 0, 1, 0, 1, 0]"

definition valid_name_char :: "char \<Rightarrow> bool" where
  "valid_name_char c \<longleftrightarrow> \<not> (of_char c > (127 :: nat) \<or> VALID_NAME_CHARS ! of_char c = 0)"

definition lower_char :: "char \<Rightarrow> char" where
  "lower_char c =
     (if (65 :: nat) \<le> of_char c \<and> of_char c \<le> (90 :: nat) then char_of (of_char c - 65 + 97 :: nat) else c)"

text \<open>
  The loop over the characters lower-cases in place; an invalid character stops it, and the
  message then prints the buffer as it is at that point (\<open>Inl\<close>).
\<close>

fun normalize_name_loop :: "string \<Rightarrow> string \<Rightarrow> string + string" where
  "normalize_name_loop seen [] = Inr seen"
| "normalize_name_loop seen (c # cs) =
     (if valid_name_char c then normalize_name_loop (seen @ [lower_char c]) cs
      else Inl (seen @ c # cs))"

definition quoted :: "string \<Rightarrow> string" where
  "quoted s = [CHR 0x27] @ c_string s @ [CHR 0x27]"

definition normalize_header_name :: "('v \<Rightarrow> string option) \<Rightarrow> 'v \<Rightarrow> string \<Rightarrow> js_error + string" where
  "normalize_header_name enc name_val fun_name =
     (case enc name_val of
        None \<Rightarrow> Inl PendingException
      | Some name \<Rightarrow>
          if length name = 0
          then Inl (ReportError (fun_name @ '': Header name can'' @ [CHR 0x27] @ ''t be empty''))
          else (case normalize_name_loop [] name of
                  Inl chars \<Rightarrow> Inl (ReportError (fun_name @ '': Invalid header name '' @ quoted chars))
                | Inr chars \<Rightarrow> Inr chars))"

definition is_http_space :: "char \<Rightarrow> bool" where
  "is_http_space c \<longleftrightarrow> c = CHR 0x09 \<or> c = CHR '' '' \<or> c = CHR 0x0D \<or> c = CHR 0x0A"

definition trim :: "string \<Rightarrow> string" where
  "trim s = rev (dropWhile is_http_space (rev (dropWhile is_http_space s)))"

text \<open>
  Returns the encoded value as it was passed, which goes to the host, and the normalized string,
  which goes to the map.
\<close>

definition normalize_header_value ::
    "('v \<Rightarrow> string option) \<Rightarrow> 'v \<Rightarrow> string \<Rightarrow> js_error + string \<times> string" where
  "normalize_header_value enc value_val fun_name =
     (case enc value_val of
        None \<Rightarrow> Inl PendingException
      | Some value \<Rightarrow>
          let stripped = trim value
          in if \<exists>c\<in>set stripped. c = CHR 0x0D \<or> c = CHR 0x0A \<or> c = CHR 0x00
             then Inl (ReportError (fun_name @ '': Invalid header value '' @ quoted value))
             else Inr (value, stripped))"

subsection \<open>The object\<close>

record 'f headers_obj =
  backing_map :: "(string \<times> string option) list"
  handle :: "'f option"
  has_lazy_values :: bool

definition append_header_value_to_map ::
    "string \<Rightarrow> string \<Rightarrow> 'f headers_obj \<Rightarrow> string \<times> 'f headers_obj" where
  "append_header_value_to_map normalized_name normalized_value self =
     (let combined = (case map_of (backing_map self) normalized_name of
                        Some (Some existing) \<Rightarrow> existing @ '', '' @ normalized_value
                      | _ \<Rightarrow> normalized_value)
      in (combined, self\<lparr>backing_map := AList.update normalized_name (Some combined) (backing_map self)\<rparr>))"

definition api_error_exn :: "api_error + 'a \<Rightarrow> js_error + 'a" where
  "api_error_exn r = (case r of Inl e \<Rightarrow> Inl PendingException | Inr x \<Rightarrow> Inr x)"

definition get_header_names_from_handle ::
    "'f http_headers \<Rightarrow> 'f \<Rightarrow> (string \<times> string option) list \<Rightarrow> js_error + (string \<times> string option) list" where
  "get_header_names_from_handle H f m =
     rbind (api_error_exn (hh_names H f)) (\<lambda>names.
       Inr (fold (\<lambda>name m. AList.update (utf8_of_latin1 name) None m) names m))"

text \<open>The outparam \<open>value\<close>: undefined, null or a string.\<close>

datatype map_value = Undefined | Null | Str string

fun append_all_to_map :: "string \<Rightarrow> string list \<Rightarrow> map_value \<Rightarrow> 'f headers_obj \<Rightarrow> map_value \<times> 'f headers_obj" where
  "append_all_to_map name [] value self = (value, self)"
| "append_all_to_map name (v # vs) value self =
     (let (combined, self) = append_header_value_to_map name v self
      in append_all_to_map name vs (Str combined) self)"

text \<open>Only called for a lazy value, of which there is none without a handle.\<close>

definition retrieve_value_for_header_from_handle ::
    "'f http_headers \<Rightarrow> 'f headers_obj \<Rightarrow> string \<Rightarrow> map_value \<Rightarrow> js_error + map_value \<times> 'f headers_obj" where
  "retrieve_value_for_header_from_handle H self name value =
     (case handle self of
        None \<Rightarrow> Inr (value, self)
      | Some f \<Rightarrow>
          rbind (api_error_exn (hh_get H f name)) (\<lambda>vals.
            (case vals of
               None \<Rightarrow> Inr (value, self)
             | Some vs \<Rightarrow> Inr (append_all_to_map name vs value self))))"

definition map_get :: "'f headers_obj \<Rightarrow> string \<Rightarrow> map_value" where
  "map_get self name =
     (case map_of (backing_map self) name of
        None \<Rightarrow> Undefined | Some None \<Rightarrow> Null | Some (Some s) \<Rightarrow> Str s)"

definition ensure_value_for_header ::
    "'f http_headers \<Rightarrow> 'f headers_obj \<Rightarrow> string \<Rightarrow> js_error + map_value \<times> 'f headers_obj" where
  "ensure_value_for_header H self normalized_name =
     (if \<not> has_lazy_values self then Inr (Undefined, self)
      else let v = map_get self normalized_name
           in if v \<noteq> Null then Inr (v, self)
              else retrieve_value_for_header_from_handle H self normalized_name v)"

text \<open>\<open>Null\<close> is the result for a name that is not there.\<close>

definition get_header_value_for_name ::
    "'f http_headers \<Rightarrow> ('v \<Rightarrow> string option) \<Rightarrow> 'f headers_obj \<Rightarrow> 'v \<Rightarrow> string
       \<Rightarrow> js_error + map_value \<times> 'f headers_obj" where
  "get_header_value_for_name H enc self name fun_name =
     rbind (normalize_header_name enc name fun_name) (\<lambda>normalized_name.
       rbind (ensure_value_for_header H self normalized_name) (\<lambda>(rval, self).
         (case rval of
            Str s \<Rightarrow> Inr (Str s, self)
          | _ \<Rightarrow> (case map_get self normalized_name of
                    Undefined \<Rightarrow> Inr (Null, self)
                  | v \<Rightarrow> Inr (v, self)))))"

subsection \<open>Splitting a combined set-cookie value\<close>

text \<open>
  \<open>find_first_of cs s pos\<close> is \<open>std::string_view::find_first_of\<close>, with \<open>None\<close> for \<open>npos\<close>;
  \<open>substr\<close> takes a start and a length.
\<close>

definition find_first_of :: "string \<Rightarrow> string \<Rightarrow> nat \<Rightarrow> nat option" where
  "find_first_of cs s pos =
     (let skipped = length (takeWhile (\<lambda>c. c \<notin> set cs) (drop pos s))
      in if pos + skipped < length s then Some (pos + skipped) else None)"

definition substr :: "string \<Rightarrow> nat \<Rightarrow> nat \<Rightarrow> string" where
  "substr s start len = take len (drop start s)"

definition special_chars :: string where
  "special_chars = ''=,;''"

text \<open>
  The inner loop, from a comma to the next; when no comma is left the rest of the string is the
  last cookie.  The outer loop of the code runs its body once, since the inner loop ends with the
  position at \<open>npos\<close>.
\<close>

lemma find_first_of_bounds:
  "find_first_of cs s pos = Some i \<Longrightarrow> pos \<le> i \<and> i < length s"
  by (auto simp: find_first_of_def Let_def split: if_splits)

function split_cookies_loop :: "string \<Rightarrow> nat \<Rightarrow> nat \<Rightarrow> string list \<Rightarrow> string list" where
  "split_cookies_loop cookiesString start currentPosition cookiesStrings =
     (case find_first_of '','' cookiesString currentPosition of
        None \<Rightarrow> cookiesStrings @ [substr cookiesString start (length cookiesString - start)]
      | Some lastComma \<Rightarrow>
          let nextStart = lastComma + 1
          in if (case find_first_of special_chars cookiesString nextStart of
                   None \<Rightarrow> False | Some i \<Rightarrow> cookiesString ! i = CHR ''='')
             then split_cookies_loop cookiesString nextStart nextStart
                    (cookiesStrings @ [substr cookiesString start (lastComma - start)])
             else split_cookies_loop cookiesString start (lastComma + 1) cookiesStrings)"
  by pat_completeness auto
termination
  by (relation "measure (\<lambda>(s, start, pos, acc). length s - pos)")
    (auto dest!: find_first_of_bounds)

declare split_cookies_loop.simps [simp del]

definition splitCookiesString :: "string \<Rightarrow> string list" where
  "splitCookiesString cookiesString =
     (if 0 < length cookiesString then split_cookies_loop cookiesString 0 0 [] else [])"

subsection \<open>Operations\<close>

fun ensure_all_loop :: "'f http_headers \<Rightarrow> string list \<Rightarrow> 'f headers_obj \<Rightarrow> js_error + 'f headers_obj" where
  "ensure_all_loop H [] self = Inr self"
| "ensure_all_loop H (name # names) self =
     rbind (ensure_value_for_header H self name) (\<lambda>(v, self). ensure_all_loop H names self)"

definition ensure_all_header_values_from_handle ::
    "'f http_headers \<Rightarrow> 'f headers_obj \<Rightarrow> js_error + 'f headers_obj" where
  "ensure_all_header_values_from_handle H self =
     (if \<not> has_lazy_values self then Inr self
      else rbind (ensure_all_loop H (map fst (backing_map self)) self) (\<lambda>self.
             Inr (self\<lparr>has_lazy_values := False\<rparr>)))"

definition Headers_delazify :: "'f http_headers \<Rightarrow> 'f headers_obj \<Rightarrow> js_error + 'f headers_obj" where
  "Headers_delazify H headers = ensure_all_header_values_from_handle H headers"

fun append_cookies ::
    "'f http_headers \<Rightarrow> string \<Rightarrow> string list \<Rightarrow> 'f \<Rightarrow> api_error + 'f" where
  "append_cookies H name [] f = Inr f"
| "append_cookies H name (v # vs) f = rbind (hh_append H f name v) (append_cookies H name vs)"

definition append_to_handle ::
    "'f http_headers \<Rightarrow> string \<Rightarrow> string \<Rightarrow> 'f headers_obj \<Rightarrow> js_error + 'f headers_obj" where
  "append_to_handle H name value self =
     (case handle self of
        None \<Rightarrow> Inr self
      | Some f \<Rightarrow>
          rbind (api_error_exn
                   (if name = ''set-cookie'' then append_cookies H name (splitCookiesString value) f
                    else hh_append H f name value))
            (\<lambda>f'. Inr (self\<lparr>handle := Some f'\<rparr>)))"

definition append_header_value ::
    "'f http_headers \<Rightarrow> ('v \<Rightarrow> string option) \<Rightarrow> string \<Rightarrow> 'f headers_obj \<Rightarrow> 'v \<Rightarrow> 'v
       \<Rightarrow> js_error + 'f headers_obj" where
  "append_header_value H enc fun_name self name value =
     rbind (normalize_header_name enc name fun_name) (\<lambda>name_chars.
     rbind (normalize_header_value enc value fun_name) (\<lambda>(value_chars, normalized_value).
     rbind (ensure_value_for_header H self name_chars) (\<lambda>(v, self).
     rbind (append_to_handle H name_chars value_chars self) (\<lambda>self.
       Inr (snd (append_header_value_to_map name_chars normalized_value self))))))"

definition Headers_create_handle ::
    "'f http_headers \<Rightarrow> 'f option \<Rightarrow> js_error + 'f headers_obj" where
  "Headers_create_handle H hndl =
     (case hndl of
        None \<Rightarrow> Inr \<lparr>backing_map = [], handle = None, has_lazy_values = False\<rparr>
      | Some f \<Rightarrow>
          rbind (get_header_names_from_handle H f []) (\<lambda>m.
            Inr \<lparr>backing_map = m, handle = Some f, has_lazy_values = True\<rparr>))"

text \<open>
  Copying from another object: its entries are strings of the map, and a value that is still
  \<open>null\<close> is converted to the string \<open>null\<close> by \<open>ToString\<close>.
\<close>

definition string_of_entry :: "string option \<Rightarrow> string option" where
  "string_of_entry v = Some (case v of None \<Rightarrow> ''null'' | Some s \<Rightarrow> s)"

fun append_entries ::
    "'f http_headers \<Rightarrow> (string \<times> string option) list \<Rightarrow> 'f headers_obj \<Rightarrow> js_error + 'f headers_obj" where
  "append_entries H [] headers = Inr headers"
| "append_entries H ((n, v) # es) headers =
     rbind (append_header_value H string_of_entry ''Headers constructor'' headers (Some n) v)
       (append_entries H es)"

definition Headers_create_from_headers ::
    "'f http_headers \<Rightarrow> 'f option \<Rightarrow> 'f headers_obj option
       \<Rightarrow> js_error + 'f headers_obj \<times> 'f headers_obj option" where
  "Headers_create_from_headers H hndl init_headers =
     rbind (Headers_create_handle H hndl) (\<lambda>headers.
       (case init_headers of
          None \<Rightarrow> Inr (headers, None)
        | Some init \<Rightarrow>
            rbind (Headers_delazify H init) (\<lambda>init.
            rbind (append_entries H (backing_map init) headers) (\<lambda>headers.
              Inr (headers, Some init)))))"

definition Headers_create_from_init ::
    "'f http_headers \<Rightarrow> ('v \<Rightarrow> string option) \<Rightarrow> 'f option \<Rightarrow> 'v init_value \<Rightarrow> js_error + 'f headers_obj" where
  "Headers_create_from_init H enc hndl initv =
     rbind (Headers_create_handle H hndl) (\<lambda>headers.
     rbind (maybe_consume_sequence_or_record (append_header_value H enc ''Headers'') initv headers
              ''Headers'' []) (\<lambda>(consumed, headers).
       if consumed then Inr headers
       else Inl (sequence_or_record_arg_error ''Headers'' [])))"

definition Headers_constructor ::
    "'f http_headers \<Rightarrow> ('v \<Rightarrow> string option) \<Rightarrow> 'v init_value \<Rightarrow> js_error + 'f headers_obj" where
  "Headers_constructor H enc initv = Headers_create_from_init H enc None initv"

definition Headers_get ::
    "'f http_headers \<Rightarrow> ('v \<Rightarrow> string option) \<Rightarrow> 'f headers_obj \<Rightarrow> 'v list
       \<Rightarrow> js_error + map_value \<times> 'f headers_obj" where
  "Headers_get H enc self args =
     (if length args < 1 then Inl (NotEnoughArgs 1)
      else rbind (normalize_header_name enc (args ! 0) ''Headers.get'') (\<lambda>normalized_name.
             get_header_value_for_name H Some self normalized_name ''Headers.get''))"

definition Headers_set ::
    "'f http_headers \<Rightarrow> ('v \<Rightarrow> string option) \<Rightarrow> 'f headers_obj \<Rightarrow> 'v list \<Rightarrow> js_error + 'f headers_obj" where
  "Headers_set H enc self args =
     (if length args < 2 then Inl (NotEnoughArgs 2)
      else rbind (normalize_header_name enc (args ! 0) ''Headers.set'') (\<lambda>name_chars.
           rbind (normalize_header_value enc (args ! 1) ''Headers.set'') (\<lambda>(value_chars, normalized_value).
           rbind (case handle self of
                    None \<Rightarrow> Inr self
                  | Some f \<Rightarrow> rbind (api_error_exn (hh_set H f name_chars value_chars)) (\<lambda>f'.
                                Inr (self\<lparr>handle := Some f'\<rparr>))) (\<lambda>self.
             Inr (self\<lparr>backing_map :=
                         AList.update name_chars (Some normalized_value) (backing_map self)\<rparr>)))))"

definition Headers_has ::
    "('v \<Rightarrow> string option) \<Rightarrow> 'f headers_obj \<Rightarrow> 'v list \<Rightarrow> js_error + bool" where
  "Headers_has enc self args =
     (if length args < 1 then Inl (NotEnoughArgs 1)
      else rbind (normalize_header_name enc (args ! 0) ''Headers.has'') (\<lambda>normalized_name.
             Inr (map_of (backing_map self) normalized_name \<noteq> None)))"

definition Headers_append ::
    "'f http_headers \<Rightarrow> ('v \<Rightarrow> string option) \<Rightarrow> 'f headers_obj \<Rightarrow> 'v list \<Rightarrow> js_error + 'f headers_obj" where
  "Headers_append H enc self args =
     (if length args < 2 then Inl (NotEnoughArgs 2)
      else append_header_value H enc ''Headers.append'' self (args ! 0) (args ! 1))"

definition Headers_maybe_add ::
    "'f http_headers \<Rightarrow> 'f headers_obj \<Rightarrow> string \<Rightarrow> string \<Rightarrow> js_error + 'f headers_obj" where
  "Headers_maybe_add H self name value =
     (if map_of (backing_map self) (utf8_of_latin1 name) \<noteq> None then Inr self
      else append_header_value H (Some \<circ> utf8_of_latin1) ''internal_maybe_add'' self name value)"

definition Headers_delete ::
    "'f http_headers \<Rightarrow> ('v \<Rightarrow> string option) \<Rightarrow> 'f headers_obj \<Rightarrow> 'v list \<Rightarrow> js_error + 'f headers_obj" where
  "Headers_delete H enc self args =
     (if length args < 1 then Inl (NotEnoughArgs 1)
      else rbind (normalize_header_name enc (args ! 0) ''Headers.delete'') (\<lambda>name_chars.
             if map_of (backing_map self) name_chars = None then Inr self
             else let self = self\<lparr>backing_map := AList.delete name_chars (backing_map self)\<rparr>
                  in (case handle self of
                        None \<Rightarrow> Inr self
                      | Some f \<Rightarrow> rbind (api_error_exn (hh_remove H f name_chars)) (\<lambda>f'.
                                    Inr (self\<lparr>handle := Some f'\<rparr>)))))"

text \<open>
  Iteration.  \<open>call_back\<close> is the callback of \<open>forEach\<close> on a state \<open>'s\<close> of the caller; it returns
  \<open>None\<close> when it throws.  A callback that changes the headers object while it is iterated is not
  modelled.
\<close>

definition Headers_entries ::
    "'f http_headers \<Rightarrow> 'f headers_obj \<Rightarrow> js_error + (string \<times> string option) list \<times> 'f headers_obj" where
  "Headers_entries H self =
     rbind (ensure_all_header_values_from_handle H self) (\<lambda>self. Inr (backing_map self, self))"

definition Headers_keys ::
    "'f http_headers \<Rightarrow> 'f headers_obj \<Rightarrow> js_error + string list \<times> 'f headers_obj" where
  "Headers_keys H self =
     rbind (ensure_all_header_values_from_handle H self) (\<lambda>self. Inr (map fst (backing_map self), self))"

definition Headers_values ::
    "'f http_headers \<Rightarrow> 'f headers_obj \<Rightarrow> js_error + string option list \<times> 'f headers_obj" where
  "Headers_values H self =
     rbind (ensure_all_header_values_from_handle H self) (\<lambda>self. Inr (map snd (backing_map self), self))"

fun for_each_loop ::
    "('s \<Rightarrow> string option \<Rightarrow> string \<Rightarrow> 's option) \<Rightarrow> (string \<times> string option) list \<Rightarrow> 's \<Rightarrow> js_error + 's" where
  "for_each_loop call_back [] s = Inr s"
| "for_each_loop call_back ((n, v) # es) s =
     (case call_back s v n of None \<Rightarrow> Inl PendingException | Some s \<Rightarrow> for_each_loop call_back es s)"

definition Headers_forEach ::
    "'f http_headers \<Rightarrow> 'f headers_obj \<Rightarrow> ('s \<Rightarrow> string option \<Rightarrow> string \<Rightarrow> 's option) option list \<Rightarrow> 's
       \<Rightarrow> js_error + 's \<times> 'f headers_obj" where
  "Headers_forEach H self args s =
     (if length args < 1 then Inl (NotEnoughArgs 1)
      else rbind (ensure_all_header_values_from_handle H self) (\<lambda>self.
             (case args ! 0 of
                None \<Rightarrow> Inl (ReportError (''Failed to execute '' @ quoted ''forEach'' @ '' on '' @
                  quoted ''Headers'' @ '': parameter 1 is not of type '' @ quoted ''Function''))
              | Some call_back \<Rightarrow>
                  rbind (for_each_loop call_back (backing_map self) s) (\<lambda>s. Inr (s, self)))))"

subsection \<open>Names and values\<close>

definition is_tchar :: "char \<Rightarrow> bool" where
  "is_tchar c \<longleftrightarrow>
     c \<in> set (''!#$%&*+-.^_|~'' @ [CHR 0x27, CHR 0x60] @ ''0123456789''
       @ ''abcdefghijklmnopqrstuvwxyz'' @ ''ABCDEFGHIJKLMNOPQRSTUVWXYZ'')"

definition tchar_code :: "nat \<Rightarrow> bool" where
  "tchar_code n \<longleftrightarrow> n \<in> {33, 35, 36, 37, 38, 39, 42, 43, 45, 46, 124, 126}
     \<or> 48 \<le> n \<and> n \<le> 57 \<or> 65 \<le> n \<and> n \<le> 90 \<or> 94 \<le> n \<and> n \<le> 122"

lemma valid_codes: "n < 128 \<Longrightarrow> (VALID_NAME_CHARS ! n \<noteq> 0) = tchar_code n"
proof -
  have "check_from (\<lambda>n b. (b \<noteq> 0) = tchar_code n) 0 VALID_NAME_CHARS"
    by (simp add: VALID_NAME_CHARS_def tchar_code_def)
  from check_from_nth [OF this, of n] show "n < 128 \<Longrightarrow> (VALID_NAME_CHARS ! n \<noteq> 0) = tchar_code n"
    by (simp add: VALID_NAME_CHARS_def)
qed

lemma valid_name_char_code: "valid_name_char c = tchar_code (of_char c)"
proof (cases "of_char c < (128 :: nat)")
  case True
  then show ?thesis using valid_codes [of "of_char c"] by (auto simp: valid_name_char_def)
qed (auto simp: valid_name_char_def tchar_code_def)

lemma lower_char_code: "(of_char (lower_char c) :: nat) =
    (if (65 :: nat) \<le> of_char c \<and> of_char c \<le> (90 :: nat) then of_char c + 32 else of_char c)"
  by (simp add: lower_char_def)

lemma is_tchar_code: "is_tchar c = tchar_code (of_char c)"
proof -
  let ?t = "''!#$%&*+-.^_|~'' @ [CHR 0x27, CHR 0x60] @ ''0123456789''
       @ ''abcdefghijklmnopqrstuvwxyz'' @ ''ABCDEFGHIJKLMNOPQRSTUVWXYZ''"
  have "is_tchar c \<longleftrightarrow> (of_char c :: nat) \<in> of_char ` set ?t"
    unfolding is_tchar_def by (simp only: inj_image_mem_iff [OF inj_of_char])
  also have "\<dots> \<longleftrightarrow> of_char c \<in> set (map of_char ?t :: nat list)" by (simp only: list.set_map)
  also have "\<dots> = tchar_code (of_char c)"
  proof (cases "of_char c < (128 :: nat)")
    case True
    have "check_from (\<lambda>n b. (b \<noteq> 0) = (n \<in> set (map of_char ?t))) 0 VALID_NAME_CHARS"
      by (simp add: VALID_NAME_CHARS_def)
    from check_from_nth [OF this, of "of_char c"] True valid_codes [OF True] show ?thesis
      by (simp only: add_0) (simp add: VALID_NAME_CHARS_def)
  next
    case False
    moreover have "list_all (\<lambda>n. n < 128) (map of_char ?t :: nat list)" by simp
    ultimately have "of_char c \<notin> set (map of_char ?t :: nat list)" by (simp only: list_all_iff) blast
    with False show ?thesis by (simp only:) (simp add: tchar_code_def)
  qed
  finally show ?thesis .
qed

lemma valid_name_char_facts:
  "valid_name_char c = is_tchar c" "valid_name_char (lower_char c) = valid_name_char c"
  "lower_char (lower_char c) = lower_char c" "valid_name_char c \<Longrightarrow> of_char c < (128 :: nat)"
proof -
  show "valid_name_char c = is_tchar c" by (simp add: valid_name_char_code is_tchar_code)
  show "valid_name_char (lower_char c) = valid_name_char c"
  proof (cases "(65 :: nat) \<le> of_char c \<and> of_char c \<le> (90 :: nat)")
    case True
    then have "tchar_code (of_char c)" "tchar_code (of_char c + 32)" by (simp_all add: tchar_code_def)
    then show ?thesis using True by (simp add: valid_name_char_code lower_char_code)
  qed (auto simp: lower_char_def)
  have "(of_char (lower_char (lower_char c)) :: nat) = of_char (lower_char c)"
    unfolding lower_char_code by auto
  then show "lower_char (lower_char c) = lower_char c" by simp
  show "valid_name_char c \<Longrightarrow> of_char c < (128 :: nat)" by (simp add: valid_name_char_def)
qed

lemma normalize_name_loop_eq:
  "normalize_name_loop seen cs =
     (if list_all valid_name_char cs then Inr (seen @ map lower_char cs)
      else Inl (seen @ map lower_char (takeWhile valid_name_char cs) @ dropWhile valid_name_char cs))"
  by (induction cs arbitrary: seen) auto

lemma normalize_header_name_iff:
  "normalize_header_name enc v fn = Inr n \<longleftrightarrow>
     (\<exists>s. enc v = Some s \<and> s \<noteq> [] \<and> list_all valid_name_char s \<and> n = map lower_char s)"
  by (auto simp: normalize_header_name_def normalize_name_loop_eq split: option.splits)

lemma normalized_ascii: "normalize_header_name enc v fn = Inr n \<Longrightarrow> ascii n"
  by (auto simp: normalize_header_name_iff ascii_def list_all_iff intro!: valid_name_char_facts(4)
      simp: valid_name_char_facts(2))

lemma normalize_normalized:
  "normalize_header_name enc v fn = Inr n \<Longrightarrow> normalize_header_name Some n fn' = Inr n"
  by (auto simp: normalize_header_name_iff list.pred_map comp_def valid_name_char_facts(2,3))

lemma trim_parts: "\<exists>l r. s = l @ trim s @ r \<and> list_all is_http_space l \<and> list_all is_http_space r"
proof -
  let ?d = "dropWhile is_http_space s"
  have "?d = rev (dropWhile is_http_space (rev ?d)) @ rev (takeWhile is_http_space (rev ?d))"
    by (metis rev_append rev_rev_ident takeWhile_dropWhile_id)
  then have "s = takeWhile is_http_space s @ trim s @ rev (takeWhile is_http_space (rev ?d))"
    unfolding trim_def by (metis takeWhile_dropWhile_id)
  moreover have "list_all is_http_space (takeWhile is_http_space xs)" for xs
    by (auto simp: list_all_iff dest: set_takeWhileD)
  ultimately show ?thesis by (metis list_all_rev)
qed

lemma trim_ends:
  "trim s = [] \<or> \<not> is_http_space (hd (trim s)) \<and> \<not> is_http_space (last (trim s))"
proof (cases "trim s = []")
  case False
  let ?d = "dropWhile is_http_space s" and ?e = "dropWhile is_http_space (rev (dropWhile is_http_space s))"
  have e: "trim s = rev ?e" "?e \<noteq> []" using False by (auto simp: trim_def)
  then have "?d \<noteq> []" by (metis dropWhile.simps(1) rev.simps(1))
  then have "\<not> is_http_space (hd ?d)" by (rule hd_dropWhile)
  moreover have "hd ?d = last (rev ?d)" using \<open>?d \<noteq> []\<close> by (simp add: last_rev)
  moreover have "last (rev ?d) = last ?e"
    using e by (metis last_append takeWhile_dropWhile_id)
  ultimately have "\<not> is_http_space (last ?e)" by simp
  moreover have "\<not> is_http_space (hd ?e)" by (rule hd_dropWhile [OF e(2)])
  ultimately show ?thesis using e by (simp add: hd_rev last_rev)
qed simp

lemma dropWhile_hd: "xs = [] \<or> \<not> P (hd xs) \<Longrightarrow> dropWhile P xs = xs"
  by (cases xs) auto

lemma trim_id: "s = [] \<or> \<not> is_http_space (hd s) \<and> \<not> is_http_space (last s) \<Longrightarrow> trim s = s"
  unfolding trim_def by (auto simp: dropWhile_hd hd_rev)

lemma trim_trim [simp]: "trim (trim s) = trim s"
  using trim_ends [of s] by (intro trim_id) auto

lemma normalize_header_value_iff:
  "normalize_header_value enc v fn = Inr (raw, w) \<longleftrightarrow>
     enc v = Some raw \<and> w = trim raw \<and> (\<forall>c\<in>set w. c \<noteq> CHR 0x0D \<and> c \<noteq> CHR 0x0A \<and> c \<noteq> CHR 0x00)"
  by (auto simp: normalize_header_value_def Let_def split: option.splits)

subsection \<open>The map and the host agree\<close>

fun join_values :: "string list \<Rightarrow> string" where
  "join_values [] = []"
| "join_values [v] = v"
| "join_values (v # vs) = v @ '', '' @ join_values vs"

lemma join_values_snoc: "vs \<noteq> [] \<Longrightarrow> join_values (vs @ [v]) = join_values vs @ '', '' @ v"
  by (induction vs rule: join_values.induct) auto

lemma join_values_merge:
  "join_values ((s @ CHR '','' # CHR '' '' # v) # vs) = s @ CHR '','' # CHR '' '' # join_values (v # vs)"
  by (cases vs) auto

text \<open>
  What the invariant says of one name: the values \<open>vs\<close> the host has for it and the entry of the
  map.  A lazy entry stands for values of the host, which the host has stripped; an entry with a
  value is the values of the host, stripped and joined by a comma.  Only \<open>set-cookie\<close> departs from
  it, since its value is split on the way to the host.
\<close>

fun entry_ok :: "string \<Rightarrow> string list \<Rightarrow> string option option \<Rightarrow> bool" where
  "entry_ok n vs None = (vs = [])"
| "entry_ok n vs (Some None) = (vs \<noteq> [] \<and> (\<forall>v\<in>set vs. trim v = v))"
| "entry_ok n vs (Some (Some s)) = (n \<noteq> ''set-cookie'' \<longrightarrow> vs \<noteq> [] \<and> s = join_values (map trim vs))"

definition no_lazy :: "'f headers_obj \<Rightarrow> bool" where
  "no_lazy self \<longleftrightarrow> (\<forall>n. map_of (backing_map self) n \<noteq> Some None)"

definition headers_inv :: "('f \<Rightarrow> string \<Rightarrow> string list) \<Rightarrow> ('f \<Rightarrow> bool) \<Rightarrow> 'f headers_obj \<Rightarrow> bool" where
  "headers_inv vals mutable self \<longleftrightarrow>
     distinct (map fst (backing_map self)) \<and> (\<not> has_lazy_values self \<longrightarrow> no_lazy self)
     \<and> (case handle self of
          None \<Rightarrow> \<not> has_lazy_values self
        | Some f \<Rightarrow> mutable f \<and> (\<forall>n. entry_ok n (vals f n) (map_of (backing_map self) n)))"

lemma append_header_value_to_map_facts:
  assumes "append_header_value_to_map n v self = (c, self')"
  shows "c = (case map_of (backing_map self) n of Some (Some s) \<Rightarrow> s @ '', '' @ v | _ \<Rightarrow> v)"
    and "map_of (backing_map self') = (map_of (backing_map self))(n \<mapsto> Some c)"
    and "handle self' = handle self" and "has_lazy_values self' = has_lazy_values self"
    and "distinct (map fst (backing_map self)) \<Longrightarrow> distinct (map fst (backing_map self'))"
  using assms
  by (auto simp: append_header_value_to_map_def Let_def update_conv' distinct_update
      split: option.splits)

lemma append_all_to_map_facts:
  assumes "append_all_to_map n vs v self = (v', self')" and "vs \<noteq> []"
    and "map_of (backing_map self) n = Some e"
  shows "map_of (backing_map self') =
           (map_of (backing_map self))(n \<mapsto> Some (join_values (case e of Some s \<Rightarrow> s # vs | None \<Rightarrow> vs)))
    \<and> v' = Str (join_values (case e of Some s \<Rightarrow> s # vs | None \<Rightarrow> vs))
    \<and> handle self' = handle self \<and> has_lazy_values self' = has_lazy_values self
    \<and> map fst (backing_map self') = map fst (backing_map self)"
  using assms
proof (induction vs arbitrary: v self e)
  case (Cons x xs)
  let ?c = "case e of Some s \<Rightarrow> s @ '', '' @ x | None \<Rightarrow> x"
  obtain self1 where c: "append_header_value_to_map n x self = (?c, self1)"
    using Cons.prems(3) by (auto simp: append_header_value_to_map_def Let_def split: option.splits)
  note facts = append_header_value_to_map_facts(2-4) [OF c]
  have mem: "n \<in> set (map fst (backing_map self))"
    using Cons.prems(3) by (metis map_of_eq_None_iff list.set_map option.discI)
  have keys: "map fst (backing_map self1) = map fst (backing_map self)"
    using c by (auto simp: append_header_value_to_map_def Let_def update_keys simp del: set_map) (use mem in simp)
  have rest: "append_all_to_map n xs (Str ?c) self1 = (v', self')"
    using Cons.prems(1) unfolding append_all_to_map.simps c by simp
  show ?case
  proof (cases "xs = []")
    case True
    with rest keys facts show ?thesis by (cases e) auto
  next
    case False
    have "map_of (backing_map self1) n = Some (Some ?c)" using facts by simp
    from Cons.IH [OF rest False this] keys facts show ?thesis
      by (cases e) (auto simp: join_values_merge fun_eq_iff)
  qed
qed simp

text \<open>The entry for a name once a lazy one has been read from the host.\<close>

definition forced :: "('f \<Rightarrow> string \<Rightarrow> string list) \<Rightarrow> 'f headers_obj \<Rightarrow> string \<Rightarrow> string option option" where
  "forced vals self n =
     (case map_of (backing_map self) n of
        Some None \<Rightarrow> (case handle self of
                        Some f \<Rightarrow> Some (Some (join_values (vals f n)))
                      | None \<Rightarrow> Some None)
      | e \<Rightarrow> e)"

fun entry_value :: "string option option \<Rightarrow> map_value" where
  "entry_value None = Undefined"
| "entry_value (Some None) = Null"
| "entry_value (Some (Some s)) = Str s"

lemma map_get_entry: "map_get self n = entry_value (map_of (backing_map self) n)"
  by (auto simp: map_get_def split: option.splits)

lemma entry_value_Null: "entry_value e = Null \<longleftrightarrow> e = Some None"
  by (cases e rule: entry_value.cases) auto

lemma entry_ok_forced:
  "entry_ok n vs (Some None) \<Longrightarrow> entry_ok n vs (Some (Some (join_values vs)))"
  by (simp add: map_idI)

context header_store
begin

lemma inv_handle:
  "headers_inv vals mutable self \<Longrightarrow> handle self = Some f \<Longrightarrow>
     mutable f \<and> entry_ok n (vals f n) (map_of (backing_map self) n)"
  by (simp add: headers_inv_def)

lemma ensure_value:
  assumes "headers_inv vals mutable self"
  obtains v self' where "ensure_value_for_header H self n = Inr (v, self')"
    and "headers_inv vals mutable self'" and "handle self' = handle self"
    and "has_lazy_values self' = has_lazy_values self"
    and "map_of (backing_map self') = (map_of (backing_map self))(n := forced vals self n)"
    and "map fst (backing_map self') = map fst (backing_map self)"
    and "has_lazy_values self \<Longrightarrow> v = entry_value (forced vals self n)"
    and "\<not> has_lazy_values self \<Longrightarrow> v = Undefined"
proof (cases "has_lazy_values self \<and> map_of (backing_map self) n = Some None")
  case True
  with assms obtain f where f: "handle self = Some f" "entry_ok n (vals f n) (Some None)"
    by (auto simp: headers_inv_def split: option.splits dest: spec [of _ n])
  then have ne: "vals f n \<noteq> []" by simp
  obtain v self' where app: "append_all_to_map n (vals f n) Null self = (v, self')" by fastforce
  have e: "map_of (backing_map self) n = Some None" using True by simp
  note facts = append_all_to_map_facts [OF app ne e]
  have "ensure_value_for_header H self n = Inr (v, self')"
    using True f ne app get_law [of f n]
    by (simp add: ensure_value_for_header_def map_get_entry retrieve_value_for_header_from_handle_def
        api_error_exn_def)
  moreover have "headers_inv vals mutable self'"
    using assms facts f entry_ok_forced [OF f(2)] True
    by (auto simp: headers_inv_def simp del: entry_ok.simps(2,3))
  ultimately show ?thesis
    using that [of v self'] facts f True by (simp add: forced_def)
next
  case False
  have "ensure_value_for_header H self n =
      Inr (if has_lazy_values self then entry_value (map_of (backing_map self) n) else Undefined, self)"
    using False by (simp add: ensure_value_for_header_def map_get_entry entry_value_Null)
  moreover have "forced vals self n = map_of (backing_map self) n"
    using False assms by (auto simp: forced_def headers_inv_def no_lazy_def split: option.splits)
  ultimately show ?thesis using that [OF _ assms] by (auto simp: fun_upd_idem)
qed

end

text \<open>
  What reaches the host of an appended value: the value as it was passed, or its cookies.
\<close>

definition host_pieces :: "string \<Rightarrow> string \<Rightarrow> string list" where
  "host_pieces n v = (if n = ''set-cookie'' then splitCookiesString v else [v])"

text \<open>The combined value after an append.\<close>

definition combined :: "string option option \<Rightarrow> string \<Rightarrow> string" where
  "combined e v = (case e of Some (Some s) \<Rightarrow> s @ '', '' @ v | _ \<Rightarrow> v)"

context header_store
begin

lemma append_cookies_law:
  "mutable f \<Longrightarrow> \<exists>f'. append_cookies H n vs f = Inr f' \<and> mutable f' \<and> vals f' = (vals f)(n := vals f n @ vs)"
proof (induction vs arbitrary: f)
  case (Cons v vs)
  from append_law [OF Cons.prems, of n v] obtain f1 where
    f1: "hh_append H f n v = Inr f1" "mutable f1" "vals f1 = (vals f)(n := vals f n @ [v])" by blast
  from Cons.IH [OF f1(2)] f1 show ?case by (auto simp: fun_eq_iff)
qed (auto simp: fun_upd_idem)

lemma append_to_handle_law:
  assumes "headers_inv vals mutable self"
  obtains self' where "append_to_handle H n v self = Inr self'"
    and "backing_map self' = backing_map self" and "has_lazy_values self' = has_lazy_values self"
    and "handle self = None \<Longrightarrow> self' = self"
    and "\<And>f. handle self = Some f \<Longrightarrow> \<exists>f'. handle self' = Some f' \<and> mutable f'
           \<and> vals f' = (vals f)(n := vals f n @ host_pieces n v)"
proof (cases "handle self")
  case (Some f)
  then have m: "mutable f" using inv_handle [OF assms] by blast
  have "\<exists>f'. (if n = ''set-cookie'' then append_cookies H n (splitCookiesString v) f
                 else hh_append H f n v) = Inr f'
      \<and> mutable f' \<and> vals f' = (vals f)(n := vals f n @ host_pieces n v)"
    using append_cookies_law [OF m, of n "splitCookiesString v"] append_law [OF m, of n v]
    by (auto simp: host_pieces_def)
  with Some that show ?thesis
    by (auto simp: append_to_handle_def api_error_exn_def)
qed (use that in \<open>simp add: append_to_handle_def\<close>)

lemma entry_ok_append:
  "entry_ok n vs e \<Longrightarrow> e \<noteq> Some None \<Longrightarrow>
     entry_ok n (vs @ host_pieces n raw) (Some (Some (combined e (trim raw))))"
  by (cases "(n, vs, e)" rule: entry_ok.cases)
    (auto simp: combined_def host_pieces_def join_values_snoc)

lemma forced_no_lazy:
  "headers_inv vals mutable self \<Longrightarrow> forced vals self n \<noteq> Some None"
  by (auto simp: forced_def headers_inv_def no_lazy_def split: option.splits)

lemma append_value_law:
  assumes inv: "headers_inv vals mutable self"
    and name: "normalize_header_name enc name fn = Inr n"
    and val: "normalize_header_value enc v fn = Inr (raw, w)"
  obtains self' where "append_header_value H enc fn self name v = Inr self'"
    and "headers_inv vals mutable self'"
    and "map_of (backing_map self') = (map_of (backing_map self))(n \<mapsto> Some (combined (forced vals self n) w))"
    and "has_lazy_values self' = has_lazy_values self"
    and "handle self = None \<Longrightarrow> handle self' = None"
    and "\<And>f. handle self = Some f \<Longrightarrow> \<exists>f'. handle self' = Some f'
           \<and> vals f' = (vals f)(n := vals f n @ host_pieces n raw)"
proof -
  obtain v0 self1 where e: "ensure_value_for_header H self n = Inr (v0, self1)"
    "headers_inv vals mutable self1" "handle self1 = handle self"
    "has_lazy_values self1 = has_lazy_values self"
    "map_of (backing_map self1) = (map_of (backing_map self))(n := forced vals self n)"
    using ensure_value [OF inv, of n thesis] by blast
  obtain self2 where a: "append_to_handle H n raw self1 = Inr self2"
    "backing_map self2 = backing_map self1" "has_lazy_values self2 = has_lazy_values self1"
    "handle self1 = None \<Longrightarrow> self2 = self1"
    "\<And>f. handle self1 = Some f \<Longrightarrow> \<exists>f'. handle self2 = Some f' \<and> mutable f'
       \<and> vals f' = (vals f)(n := vals f n @ host_pieces n raw)"
    using append_to_handle_law [OF e(2), of n raw thesis] by blast
  obtain c self' where m: "append_header_value_to_map n w self2 = (c, self')" by fastforce
  note facts = append_header_value_to_map_facts [OF m]
  have w: "w = trim raw" using val by (simp add: normalize_header_value_iff)
  have c: "c = combined (forced vals self n) w"
    using facts(1) a(2) e(5) by (simp add: combined_def)
  have "headers_inv vals mutable self'"
  proof (cases "handle self")
    case None
    then show ?thesis using e a facts inv
      by (auto simp: headers_inv_def no_lazy_def)
  next
    case (Some f)
    then obtain f' where f': "handle self2 = Some f'" "mutable f'"
      "vals f' = (vals f)(n := vals f n @ host_pieces n raw)"
      using a(5) e(3) by auto
    have "entry_ok n (vals f n) (forced vals self n)"
      using inv_handle [OF e(2), of f n] Some e(3,5) by simp
    then have "entry_ok n (vals f' n) (Some (Some c))"
      using entry_ok_append forced_no_lazy [OF inv] f' c w by simp
    moreover have "entry_ok k (vals f k) (map_of (backing_map self1) k)" for k
      using inv_handle [OF e(2), of f k] Some e(3) by simp
    ultimately have "entry_ok k (vals f' k) (map_of (backing_map self') k)" for k
      using facts(2) a(2) f' by (cases "k = n") auto
    then show ?thesis using f' facts e(2) a(2,3)
      by (auto simp: headers_inv_def no_lazy_def)
  qed
  moreover have "append_header_value H enc fn self name v = Inr self'"
    using name val e(1) a(1) m by (simp add: append_header_value_def)
  moreover have "map_of (backing_map self') = (map_of (backing_map self))(n \<mapsto> Some (combined (forced vals self n) w))"
    using facts(2) a(2) e(5) c by simp
  moreover have "has_lazy_values self' = has_lazy_values self" "handle self' = handle self2"
    using facts(3,4) a(3) e(4) by simp_all
  ultimately show thesis using that [of self'] a(4,5) e(3) by metis
qed

end

text \<open>What \<open>get\<close> answers for an entry: a name that is not there is \<open>null\<close>.\<close>

definition get_answer :: "string option option \<Rightarrow> map_value" where
  "get_answer e = (case e of Some (Some s) \<Rightarrow> Str s | _ \<Rightarrow> Null)"

context header_store
begin

lemma Headers_get_law:
  assumes inv: "headers_inv vals mutable self"
    and name: "normalize_header_name enc (args ! 0) ''Headers.get'' = Inr n" and args: "args \<noteq> []"
  obtains self' where "Headers_get H enc self args = Inr (get_answer (forced vals self n), self')"
    and "headers_inv vals mutable self'"
proof -
  obtain v self1 where e: "ensure_value_for_header H self n = Inr (v, self1)"
    "headers_inv vals mutable self1"
    "map_of (backing_map self1) = (map_of (backing_map self))(n := forced vals self n)"
    "has_lazy_values self \<Longrightarrow> v = entry_value (forced vals self n)"
    "\<not> has_lazy_values self \<Longrightarrow> v = Undefined"
    using ensure_value [OF inv, of n thesis] by blast
  have "v = entry_value (forced vals self n) \<or> v = Undefined" using e(4,5) by blast
  then have "Headers_get H enc self args = Inr (get_answer (forced vals self n), self1)"
    using args name e(1,3) forced_no_lazy [OF inv, of n]
    by (cases "forced vals self n" rule: entry_value.cases)
      (auto simp: Headers_get_def get_header_value_for_name_def normalize_normalized [OF name]
        map_get_entry get_answer_def Suc_le_eq)
  with e(2) that show thesis by blast
qed

lemma Headers_set_law:
  assumes inv: "headers_inv vals mutable self"
    and name: "normalize_header_name enc (args ! 0) ''Headers.set'' = Inr n" and args: "2 \<le> length args"
    and val: "normalize_header_value enc (args ! 1) ''Headers.set'' = Inr (raw, w)"
  obtains self' where "Headers_set H enc self args = Inr self'"
    and "headers_inv vals mutable self'"
    and "map_of (backing_map self') = (map_of (backing_map self))(n \<mapsto> Some w)"
    and "handle self = None \<Longrightarrow> handle self' = None"
    and "\<And>f. handle self = Some f \<Longrightarrow> \<exists>f'. handle self' = Some f' \<and> vals f' = (vals f)(n := [raw])"
proof (cases "handle self")
  case None
  let ?self = "self\<lparr>backing_map := AList.update n (Some w) (backing_map self)\<rparr>"
  have "Headers_set H enc self args = Inr ?self" using None name val args by (simp add: Headers_set_def)
  moreover have "headers_inv vals mutable ?self"
    using inv None by (auto simp: headers_inv_def no_lazy_def update_conv' distinct_update)
  ultimately show ?thesis using that [of ?self] None by (simp add: update_conv')
next
  case (Some f)
  then obtain f' where f': "hh_set H f n raw = Inr f'" "mutable f'" "vals f' = (vals f)(n := [raw])"
    using inv_handle [OF inv Some] set_law by blast
  let ?self = "self\<lparr>handle := Some f', backing_map := AList.update n (Some w) (backing_map self)\<rparr>"
  have "Headers_set H enc self args = Inr ?self"
    using Some name val args f' by (simp add: Headers_set_def api_error_exn_def)
  moreover have "w = trim raw" using val by (simp add: normalize_header_value_iff)
  then have "entry_ok k (vals f' k) (map_of (backing_map ?self) k)" for k
    using inv_handle [OF inv Some, of k] f'(3) by (cases "k = n") (simp_all add: update_conv')
  then have "headers_inv vals mutable ?self"
    using inv f'(2) by (auto simp: headers_inv_def no_lazy_def update_conv' distinct_update)
  ultimately show ?thesis using that [of ?self] Some f' by (simp add: update_conv')
qed

lemma Headers_delete_law:
  assumes inv: "headers_inv vals mutable self"
    and name: "normalize_header_name enc (args ! 0) ''Headers.delete'' = Inr n" and args: "args \<noteq> []"
  obtains self' where "Headers_delete H enc self args = Inr self'"
    and "headers_inv vals mutable self'"
    and "map_of (backing_map self') = (map_of (backing_map self))(n := None)"
    and "\<And>f. handle self = Some f \<Longrightarrow> \<exists>f'. handle self' = Some f' \<and> vals f' = (vals f)(n := [])"
proof (cases "map_of (backing_map self) n")
  case None
  then have "Headers_delete H enc self args = Inr self"
    using name args by (simp add: Headers_delete_def Suc_le_eq)
  moreover have "\<exists>f'. handle self = Some f' \<and> vals f' = (vals f)(n := [])" if "handle self = Some f" for f
    using inv_handle [OF inv that, of n] None that by (auto simp: fun_upd_idem)
  ultimately show ?thesis using that [OF _ inv] None by (auto simp: fun_upd_idem)
next
  case (Some e)
  let ?self = "self\<lparr>backing_map := AList.delete n (backing_map self)\<rparr>"
  have inv1: "distinct (map fst (backing_map ?self))" using inv
    by (simp add: headers_inv_def distinct_delete)
  show ?thesis
  proof (cases "handle self")
    case None
    then have "Headers_delete H enc self args = Inr ?self"
      using name args Some by (simp add: Headers_delete_def Suc_le_eq)
    moreover have "headers_inv vals mutable ?self"
      using inv inv1 None by (auto simp: headers_inv_def no_lazy_def delete_conv')
    ultimately show ?thesis using that [of ?self] None by (simp add: delete_conv')
  next
    case (Some f)
    then obtain f' where f': "hh_remove H f n = Inr f'" "mutable f'" "vals f' = (vals f)(n := [])"
      using inv_handle [OF inv Some] remove_law by blast
    have "Headers_delete H enc self args = Inr (?self\<lparr>handle := Some f'\<rparr>)"
      using name args Some \<open>map_of (backing_map self) n = Some e\<close> f'
      by (simp add: Headers_delete_def Suc_le_eq api_error_exn_def)
    moreover have "headers_inv vals mutable (?self\<lparr>handle := Some f'\<rparr>)"
      using inv inv1 Some f' by (auto simp: headers_inv_def no_lazy_def delete_conv')
    ultimately show ?thesis
      using that [of "?self\<lparr>handle := Some f'\<rparr>"] Some f' by (simp add: delete_conv')
  qed
qed

end

text \<open>The host's fields as they are when a request or a response arrives.\<close>

definition clean_fields :: "('f \<Rightarrow> string \<Rightarrow> string list) \<Rightarrow> ('f \<Rightarrow> bool) \<Rightarrow> 'f \<Rightarrow> bool" where
  "clean_fields vals mutable f \<longleftrightarrow> mutable f \<and> (\<forall>n. vals f n \<noteq> [] \<longrightarrow> ascii n \<and> (\<forall>v\<in>set (vals f n). trim v = v))"

context header_store
begin

lemma ensure_all_loop_law:
  assumes "headers_inv vals mutable self"
  shows "\<exists>self'. ensure_all_loop H ns self = Inr self' \<and> headers_inv vals mutable self'
    \<and> handle self' = handle self \<and> has_lazy_values self' = has_lazy_values self
    \<and> map fst (backing_map self') = map fst (backing_map self)
    \<and> (\<forall>k. map_of (backing_map self') k = (if k \<in> set ns then forced vals self k else map_of (backing_map self) k))"
  using assms
proof (induction ns arbitrary: self)
  case (Cons n ns)
  obtain v self1 where e: "ensure_value_for_header H self n = Inr (v, self1)"
    "headers_inv vals mutable self1" "handle self1 = handle self"
    "has_lazy_values self1 = has_lazy_values self"
    "map_of (backing_map self1) = (map_of (backing_map self))(n := forced vals self n)"
    "map fst (backing_map self1) = map fst (backing_map self)"
    using ensure_value [OF Cons.prems, of n thesis] by blast
  have f: "forced vals self1 k = forced vals self k" for k
    using e(3,5) forced_no_lazy [OF Cons.prems, of n]
    by (cases "k = n") (auto simp: forced_def split: option.splits)
  from Cons.IH [OF e(2)] e f show ?case by (auto simp: fun_eq_iff)
qed simp

lemma ensure_all_law:
  assumes inv: "headers_inv vals mutable self"
  obtains self' where "ensure_all_header_values_from_handle H self = Inr self'"
    and "headers_inv vals mutable self'" and "no_lazy self'" and "handle self' = handle self"
    and "map fst (backing_map self') = map fst (backing_map self)"
    and "\<And>k. map_of (backing_map self') k = forced vals self k"
proof (cases "has_lazy_values self")
  case True
  obtain self1 where l: "ensure_all_loop H (map fst (backing_map self)) self = Inr self1"
    "headers_inv vals mutable self1" "handle self1 = handle self"
    "map fst (backing_map self1) = map fst (backing_map self)"
    "\<And>k. map_of (backing_map self1) k =
       (if k \<in> set (map fst (backing_map self)) then forced vals self k else map_of (backing_map self) k)"
    using ensure_all_loop_law [OF inv] by blast
  have m: "map_of (backing_map self1) k = forced vals self k" for k
    using l(5) [of k] by (auto simp: forced_def map_of_eq_None_iff [symmetric] split: option.splits)
  let ?self = "self1\<lparr>has_lazy_values := False\<rparr>"
  have n: "no_lazy ?self" using forced_no_lazy [OF inv] m by (simp add: no_lazy_def)
  have "headers_inv vals mutable ?self"
    using l(2) n True l(3) inv by (auto simp: headers_inv_def no_lazy_def split: option.splits)
  then show ?thesis
    using that [of ?self] n True l m by (simp add: ensure_all_header_values_from_handle_def)
next
  case False
  then have "forced vals self k = map_of (backing_map self) k" for k
    using inv by (auto simp: forced_def headers_inv_def no_lazy_def split: option.splits)
  then show ?thesis
    using that [OF _ inv] False inv
    by (auto simp: ensure_all_header_values_from_handle_def headers_inv_def)
qed

lemma names_fold:
  "map_of (fold (\<lambda>n m. AList.update (f n) None m) ns m) k =
     (if k \<in> f ` set ns then Some None else map_of m k)"
  "distinct (map fst m) \<Longrightarrow> distinct (map fst (fold (\<lambda>n m. AList.update (f n) None m) ns m))"
  by (induction ns arbitrary: m) (auto simp: update_conv' distinct_update)

lemma create_handle_law:
  assumes "\<And>f. hndl = Some f \<Longrightarrow> clean_fields vals mutable f"
  shows "\<exists>self. Headers_create_handle H hndl = Inr self \<and> headers_inv vals mutable self"
proof (cases hndl)
  case None
  then show ?thesis by (simp add: Headers_create_handle_def headers_inv_def no_lazy_def)
next
  case (Some f)
  from names_law [of f] obtain ns where ns: "hh_names H f = Inr ns" "set ns = {n. vals f n \<noteq> []}" by blast
  have c: "clean_fields vals mutable f" using assms Some by blast
  then have "utf8_of_latin1 ` set ns = set ns" using ns by (force simp: clean_fields_def)
  moreover define m :: "(string \<times> string option) list"
    where "m = fold (\<lambda>n m. AList.update (utf8_of_latin1 n) None m) ns []"
  ultimately have "map_of m k = (if vals f k \<noteq> [] then Some None else None)" for k
    unfolding m_def names_fold using ns by auto
  then have "entry_ok k (vals f k) (map_of m k)" for k
    using c by (simp add: clean_fields_def)
  moreover have "distinct (map fst m)" unfolding m_def by (rule names_fold(2)) simp
  ultimately show ?thesis
    using Some ns c by (simp add: Headers_create_handle_def get_header_names_from_handle_def
        api_error_exn_def headers_inv_def clean_fields_def m_def [symmetric])
qed

end

text \<open>
  The objects a program can come to hold: created for the fields of an arriving request or
  response, constructed, copied from another object, and changed by the operations.
\<close>

inductive headers_reachable ::
    "'f http_headers \<Rightarrow> ('v \<Rightarrow> string option) \<Rightarrow> ('f \<Rightarrow> bool) \<Rightarrow> 'f headers_obj \<Rightarrow> bool"
  for H enc clean where
  created: "\<lbrakk>\<forall>f. hndl = Some f \<longrightarrow> clean f; Headers_create_handle H hndl = Inr self\<rbrakk>
    \<Longrightarrow> headers_reachable H enc clean self"
| from_init: "\<lbrakk>\<forall>f. hndl = Some f \<longrightarrow> clean f; Headers_create_from_init H enc hndl initv = Inr self\<rbrakk>
    \<Longrightarrow> headers_reachable H enc clean self"
| copied: "\<lbrakk>\<forall>f. hndl = Some f \<longrightarrow> clean f; headers_reachable H enc clean other;
      Headers_create_from_headers H hndl (Some other) = Inr (self, other')\<rbrakk>
    \<Longrightarrow> headers_reachable H enc clean self"
| got: "\<lbrakk>headers_reachable H enc clean self; Headers_get H enc self args = Inr (v, self')\<rbrakk>
    \<Longrightarrow> headers_reachable H enc clean self'"
| was_set: "\<lbrakk>headers_reachable H enc clean self; Headers_set H enc self args = Inr self'\<rbrakk>
    \<Longrightarrow> headers_reachable H enc clean self'"
| appended: "\<lbrakk>headers_reachable H enc clean self; Headers_append H enc self args = Inr self'\<rbrakk>
    \<Longrightarrow> headers_reachable H enc clean self'"
| added: "\<lbrakk>headers_reachable H enc clean self; Headers_maybe_add H self n v = Inr self'\<rbrakk>
    \<Longrightarrow> headers_reachable H enc clean self'"
| deleted: "\<lbrakk>headers_reachable H enc clean self; Headers_delete H enc self args = Inr self'\<rbrakk>
    \<Longrightarrow> headers_reachable H enc clean self'"
| iterated: "\<lbrakk>headers_reachable H enc clean self; Headers_entries H self = Inr (es, self')\<rbrakk>
    \<Longrightarrow> headers_reachable H enc clean self'"

context header_store
begin

lemma append_value_inv:
  assumes "headers_inv vals mutable self" and "append_header_value H enc fn self name v = Inr self'"
  shows "headers_inv vals mutable self'"
proof -
  obtain n raw w where "normalize_header_name enc name fn = Inr n"
    "normalize_header_value enc v fn = Inr (raw, w)"
    using assms(2) by (auto simp: append_header_value_def rbind_eq_Inr)
  from append_value_law [OF assms(1) this] assms(2) show ?thesis by fastforce
qed

lemma append_entries_inv:
  "headers_inv vals mutable self \<Longrightarrow> append_entries H es self = Inr self' \<Longrightarrow> headers_inv vals mutable self'"
proof (induction es arbitrary: self)
  case (Cons e es)
  obtain n v where e: "e = (n, v)" by fastforce
  with Cons.prems obtain self1 where a:
    "append_header_value H string_of_entry ''Headers constructor'' self (Some n) v = Inr self1"
    and b: "append_entries H es self1 = Inr self'"
    by (auto simp: rbind_eq_Inr)
  show ?case by (rule Cons.IH [OF append_value_inv [OF Cons.prems(1) a] b])
qed simp

lemma reachable_inv:
  "headers_reachable H enc (clean_fields vals mutable) self \<Longrightarrow> headers_inv vals mutable self"
proof (induction rule: headers_reachable.induct)
  case (created hndl self)
  then show ?case using create_handle_law [of hndl] by auto
next
  case (from_init hndl initv self)
  then obtain self0 c where s: "Headers_create_handle H hndl = Inr self0"
    and m: "maybe_consume_sequence_or_record (append_header_value H enc ''Headers'') initv self0
              ''Headers'' [] = Inr (c, self)"
    by (auto simp: Headers_create_from_init_def rbind_eq_Inr split: if_splits)
  have "headers_inv vals mutable self0" using create_handle_law [of hndl] s from_init by auto
  then show ?case
    by (rule maybe_consume_invariant [OF m, where P = "headers_inv vals mutable"])
      (rule append_value_inv)
next
  case (copied hndl other self other')
  then obtain self0 where s: "Headers_create_handle H hndl = Inr self0"
    and a: "\<exists>m. append_entries H m self0 = Inr self"
    by (auto simp: Headers_create_from_headers_def rbind_eq_Inr)
  have "headers_inv vals mutable self0" using create_handle_law [of hndl] s copied by auto
  with a show ?case using append_entries_inv by blast
next
  case (got self args v self')
  then obtain n where "normalize_header_name enc (args ! 0) ''Headers.get'' = Inr n" "args \<noteq> []"
    by (auto simp: Headers_get_def rbind_eq_Inr split: if_splits)
  from Headers_get_law [OF got.IH this] got show ?case by fastforce
next
  case (was_set self args self')
  then obtain n raw w where "normalize_header_name enc (args ! 0) ''Headers.set'' = Inr n"
    "2 \<le> length args" "normalize_header_value enc (args ! 1) ''Headers.set'' = Inr (raw, w)"
    by (auto simp: Headers_set_def rbind_eq_Inr not_less split: if_splits)
  from Headers_set_law [OF was_set.IH this] was_set show ?case by fastforce
next
  case (appended self args self')
  then show ?case by (auto simp: Headers_append_def dest: append_value_inv split: if_splits)
next
  case (added self n v self')
  then show ?case by (auto simp: Headers_maybe_add_def dest: append_value_inv split: if_splits)
next
  case (deleted self args self')
  then obtain n where "normalize_header_name enc (args ! 0) ''Headers.delete'' = Inr n" "args \<noteq> []"
    by (auto simp: Headers_delete_def rbind_eq_Inr split: if_splits)
  from Headers_delete_law [OF deleted.IH this] deleted show ?case by fastforce
next
  case (iterated self es self')
  from ensure_all_law [OF iterated.IH] iterated show ?case
    by (fastforce simp: Headers_entries_def)
qed

end

subsection \<open>Splitting, declaratively\<close>

text \<open>
  A comma separates two cookies when the next of \<open>=\<close>, \<open>,\<close> and \<open>;\<close> after it is \<open>=\<close>.
\<close>

definition starts_cookie :: "string \<Rightarrow> bool" where
  "starts_cookie s \<longleftrightarrow> (case dropWhile (\<lambda>c. c \<notin> set special_chars) s of c # _ \<Rightarrow> c = CHR ''='' | [] \<Rightarrow> False)"

fun cookies_of :: "string \<Rightarrow> string \<Rightarrow> string list" where
  "cookies_of cur [] = [cur]"
| "cookies_of cur (c # cs) =
     (if c = CHR '','' \<and> starts_cookie cs then cur # cookies_of [] cs else cookies_of (cur @ [c]) cs)"

fun join_commas :: "string list \<Rightarrow> string" where
  "join_commas [] = []"
| "join_commas [v] = v"
| "join_commas (v # vs) = v @ '','' @ join_commas vs"

lemma join_commas_Cons: "vs \<noteq> [] \<Longrightarrow> join_commas (v # vs) = v @ '','' @ join_commas vs"
  by (cases vs) auto

lemma cookies_of_not_Nil [simp]: "cookies_of cur s \<noteq> []"
  by (induction cur s rule: cookies_of.induct) auto

lemma join_cookies_of: "join_commas (cookies_of cur s) = cur @ s"
  by (induction cur s rule: cookies_of.induct) (auto simp: join_commas_Cons)

lemma find_first_of_None: "find_first_of cs s pos = None \<longleftrightarrow> (\<forall>c\<in>set (drop pos s). c \<notin> set cs)"
proof -
  let ?t = "takeWhile (\<lambda>c. c \<notin> set cs) (drop pos s)"
  have le: "length ?t \<le> length s - pos" using length_takeWhile_le [of "\<lambda>c. c \<notin> set cs" "drop pos s"] by simp
  have "length ?t = length s - pos \<longleftrightarrow> ?t = drop pos s"
    by (metis length_drop takeWhile_eq_take take_all_iff order_refl)
  then have "?t = drop pos s \<longleftrightarrow> \<not> pos + length ?t < length s" using le by auto
  then show ?thesis by (auto simp: find_first_of_def Let_def takeWhile_eq_all_conv)
qed

lemma find_first_of_Some:
  assumes "find_first_of cs s pos = Some i"
  shows "drop pos s = take (i - pos) (drop pos s) @ s ! i # drop (Suc i) s"
    and "\<forall>c\<in>set (take (i - pos) (drop pos s)). c \<notin> set cs" and "s ! i \<in> set cs"
proof -
  let ?P = "\<lambda>c. c \<notin> set cs"
  from assms have i: "i = pos + length (takeWhile ?P (drop pos s))" "i < length s"
    by (auto simp: find_first_of_def Let_def split: if_splits)
  then have t: "take (i - pos) (drop pos s) = takeWhile ?P (drop pos s)"
    by (simp add: takeWhile_eq_take [symmetric])
  have l: "length (takeWhile ?P (drop pos s)) < length (drop pos s)" using i by simp
  show "drop pos s = take (i - pos) (drop pos s) @ s ! i # drop (Suc i) s"
    using i id_take_nth_drop [of "i - pos" "drop pos s"] by (simp add: add.commute)
  show "\<forall>c\<in>set (take (i - pos) (drop pos s)). c \<notin> set cs"
    unfolding t by (auto dest: set_takeWhileD)
  show "s ! i \<in> set cs" using nth_length_takeWhile [OF l] i by simp
qed

lemma starts_cookie_find:
  "starts_cookie (drop pos s) \<longleftrightarrow>
     (case find_first_of special_chars s pos of None \<Rightarrow> False | Some i \<Rightarrow> s ! i = CHR ''='')"
proof (cases "find_first_of special_chars s pos")
  case None
  then have d: "dropWhile (\<lambda>c. c \<notin> set special_chars) (drop pos s) = []"
    by (simp add: find_first_of_None dropWhile_eq_Nil_conv)
  show ?thesis unfolding starts_cookie_def d None by simp
next
  case (Some i)
  note f = find_first_of_Some [OF Some]
  have "dropWhile (\<lambda>c. c \<notin> set special_chars) (drop pos s) = s ! i # drop (Suc i) s"
    by (subst f(1)) (use f(2,3) in \<open>simp add: dropWhile_append2\<close>)
  with Some show ?thesis by (simp add: starts_cookie_def)
qed

lemma cookies_of_no_comma: "CHR '','' \<notin> set xs \<Longrightarrow> cookies_of cur (xs @ ys) = cookies_of (cur @ xs) ys"
  by (induction xs arbitrary: cur) auto

lemma split_cookies_loop_eq:
  assumes "start \<le> pos" and "pos \<le> length s"
  shows "split_cookies_loop s start pos acc = acc @ cookies_of (substr s start (pos - start)) (drop pos s)"
  using assms
proof (induction s start pos acc rule: split_cookies_loop.induct)
  case (1 s start pos acc)
  show ?case
  proof (cases "find_first_of '','' s pos")
    case None
    then have "CHR '','' \<notin> set (drop pos s)" by (auto simp: find_first_of_None)
    from cookies_of_no_comma [OF this, of _ "[]"] show ?thesis
      using None 1 append_take_drop_id [of "pos - start" "drop start s", symmetric]
      by (subst split_cookies_loop.simps) (simp add: substr_def)
  next
    case (Some i)
    note f = find_first_of_Some [OF Some] and b = find_first_of_bounds [OF Some]
    have no: "CHR '','' \<notin> set (take (i - pos) (drop pos s))" using f(2) by auto
    have c: "s ! i = CHR '',''" using f(3) by simp
    have cur: "substr s start (pos - start) @ take (i - pos) (drop pos s) = substr s start (i - start)"
      using 1 b take_add [of "pos - start" "i - pos" "drop start s"] by (simp add: substr_def)
    have "cookies_of (substr s start (pos - start)) (drop pos s) =
        cookies_of (substr s start (i - start)) (CHR '','' # drop (Suc i) s)"
      by (subst f(1), subst cookies_of_no_comma [OF no]) (simp only: cur c)
    moreover have "substr s start (i - start) @ '','' = substr s start (Suc i - start)"
      using b 1 c take_Suc_conv_app_nth [of "i - start" "drop start s"]
      by (simp add: substr_def Suc_diff_le diff_less_mono)
    ultimately show ?thesis
      using "1.IH"(1) [OF Some refl] "1.IH"(2) [OF Some refl] Some b "1.prems"
      by (subst split_cookies_loop.simps) (auto simp: starts_cookie_find [symmetric] substr_def)
  qed
qed

subsection \<open>Properties\<close>

text \<open>
  A header name is accepted exactly when its conversion succeeds and gives a non-empty string
  of RFC 7230 token characters, and the result is that string in lower case; normalizing the
  result again gives the result.
\<close>

theorem header_name_normalization:
  "(normalize_header_name enc v fun_name = Inr n) =
     (\<exists>s. enc v = Some s \<and> s \<noteq> [] \<and> list_all is_tchar s \<and> n = map lower_char s)
   \<and> (case normalize_header_name enc v fun_name of
        Inr m \<Rightarrow> normalize_header_name Some m fun_name = Inr m | Inl e \<Rightarrow> True)"
proof -
  have v: "valid_name_char = is_tchar" using valid_name_char_facts(1) by blast
  have "case normalize_header_name enc v fun_name of
      Inr m \<Rightarrow> normalize_header_name Some m fun_name = Inr m | Inl e \<Rightarrow> True"
    by (cases "normalize_header_name enc v fun_name") (simp_all add: normalize_normalized)
  then show ?thesis using normalize_header_name_iff [of enc v fun_name n] unfolding v by simp
qed

text \<open>
  A header value is accepted exactly when its conversion succeeds and the stripped string has
  no line break and no NUL in it; the stripped string is the converted one without its leading
  and trailing tabs, spaces, carriage returns and line feeds.
\<close>

theorem header_value_normalization:
  "(normalize_header_value enc v fun_name = Inr (raw, w)) =
     (enc v = Some raw \<and> set w \<inter> {CHR 0x0D, CHR 0x0A, CHR 0x00} = {}
      \<and> (\<exists>l r. raw = l @ w @ r \<and> list_all is_http_space (l @ r))
      \<and> (w = [] \<or> \<not> is_http_space (hd w) \<and> \<not> is_http_space (last w)))"
proof -
  have "w = trim raw" if "raw = l @ w @ r" "list_all is_http_space (l @ r)"
    "w = [] \<or> \<not> is_http_space (hd w) \<and> \<not> is_http_space (last w)" for l r
  proof (cases "w = []")
    case True
    then show ?thesis using that(1,2)
      by (auto simp: trim_def dropWhile_eq_Nil_conv list_all_iff dest: set_dropWhileD)
  next
    case False
    have d: "dropWhile is_http_space (xs @ ys) = dropWhile is_http_space ys"
      if "list_all is_http_space xs" for xs ys
      using that by (simp add: list_all_iff dropWhile_append2)
    have "dropWhile is_http_space (l @ w @ r) = w @ r"
      using that(2,3) False by (simp add: d dropWhile_hd)
    moreover have "dropWhile is_http_space (rev r @ rev w) = rev w"
      using that(2,3) False by (simp add: d dropWhile_hd hd_rev)
    ultimately show ?thesis using that(1) by (simp add: trim_def)
  qed
  then show ?thesis
    using trim_parts [of raw] trim_ends [of raw]
    by (auto simp: normalize_header_value_iff)
qed

text \<open>
  C8. Splitting a combined \<open>set-cookie\<close> value loses nothing: the pieces are the ones the
  declarative rule gives (a comma separates when the next special character after it is \<open>=\<close>), and
  joined with commas they are the value again.  An empty value has no piece at all.
\<close>

theorem splitCookiesString_correct:
  "splitCookiesString s = (if s = [] then [] else cookies_of [] s)
   \<and> join_commas (splitCookiesString s) = s"
  using split_cookies_loop_eq [of 0 0 s "[]"] join_cookies_of [of "[]" s]
  by (auto simp: splitCookiesString_def substr_def)


definition demo_fields :: wit_fields where
  "demo_fields = \<lparr>immutable = False, field_list = [(''accept'', ''a''), (''accept'', ''b'')]\<rparr>"

lemma demo_clean: "clean_fields wit_get (\<lambda>f. \<not> immutable f) demo_fields"
  by (auto simp: clean_fields_def demo_fields_def wit_get_def ascii_def trim_def is_http_space_def
      split: if_splits)

definition demo_headers :: "wit_fields headers_obj" where
  "demo_headers = \<lparr>backing_map = [(''accept'', None)], handle = Some demo_fields, has_lazy_values = True\<rparr>"

lemma demo_reachable:
  "headers_reachable (wasi_http_headers wit_ops) Some (clean_fields wit_get (\<lambda>f. \<not> immutable f)) demo_headers"
proof (rule headers_reachable.created [of "Some demo_fields"])
  show "Headers_create_handle (wasi_http_headers wit_ops) (Some demo_fields) = Inr demo_headers"
    by (simp add: Headers_create_handle_def get_header_names_from_handle_def api_error_exn_def
        wasi_http_headers_def HttpHeaders_names_def wit_ops_def demo_fields_def demo_headers_def
        utf8_of_latin1_def)
qed (simp add: demo_clean)


text \<open>The string a \<open>get\<close> gives after one more value.\<close>

fun appended_value :: "map_value \<Rightarrow> string \<Rightarrow> string" where
  "appended_value (Str s) w = s @ '', '' @ w"
| "appended_value _ w = w"

lemma combined_answer: "e \<noteq> Some None \<Longrightarrow> combined e w = appended_value (get_answer e) w"
  by (cases e rule: entry_value.cases) (auto simp: combined_def get_answer_def)

lemma normalize_header_name_any:
  "normalize_header_name enc v fn = Inr n \<Longrightarrow> normalize_header_name enc v fn' = Inr n"
  by (auto simp: normalize_header_name_iff)

lemma normalize_header_value_any:
  "normalize_header_value enc v fn = Inr n \<Longrightarrow> normalize_header_value enc v fn' = Inr n"
  by (cases n) (auto simp: normalize_header_value_iff)

lemma forced_known:
  "map_of (backing_map self) n = Some (Some s) \<Longrightarrow> forced vals self n = Some (Some s)"
  "map_of (backing_map self) n = None \<Longrightarrow> forced vals self n = None"
  by (simp_all add: forced_def)



text \<open>
  The host does not get the stripped value.  Setting or appending on an object with a mutable
  handle sends the converted string as it is, leading and trailing whitespace and line breaks
  included (for \<open>set-cookie\<close>, its pieces), while a reader of the object sees the stripped one.
\<close>

theorem host_gets_raw_value:
  fixes enc :: "'v \<Rightarrow> string option"
  defines "H \<equiv> wasi_http_headers wit_ops"
  assumes "headers_reachable H enc (clean_fields wit_get (\<lambda>f. \<not> immutable f)) self"
    and hndl: "handle self = Some f"
    and name: "normalize_header_name enc nm fn = Inr n" and val: "normalize_header_value enc v fn = Inr (raw, w)"
  shows "(\<exists>self1 f1. Headers_set H enc self [nm, v] = Inr self1 \<and> handle self1 = Some f1
      \<and> wit_get f1 n = [raw])
    \<and> (\<exists>self1 f1. Headers_append H enc self [nm, v] = Inr self1 \<and> handle self1 = Some f1
      \<and> wit_get f1 n = wit_get f n @ (if n = ''set-cookie'' then splitCookiesString raw else [raw]))"
proof -
  have inv: "headers_inv wit_get (\<lambda>f. \<not> immutable f) self"
    using assms(2) unfolding H_def by (rule wit.reachable_inv)
  note n = normalize_header_name_any [OF name] and v = normalize_header_value_any [OF val]
  obtain s1 f1 where "Headers_set H enc self [nm, v] = Inr s1" "handle s1 = Some f1"
    "wit_get f1 = (wit_get f)(n := [raw])"
    using wit.Headers_set_law [OF inv, of enc "[nm, v]" n raw w thesis] n v hndl unfolding H_def by fastforce
  moreover obtain s2 f2 where "append_header_value H enc ''Headers.append'' self nm v = Inr s2"
    "handle s2 = Some f2" "wit_get f2 = (wit_get f)(n := wit_get f n @ host_pieces n raw)"
    by (rule wit.append_value_law [OF inv n v]) (use that hndl in \<open>auto simp: H_def\<close>)
  ultimately show ?thesis by (auto simp: Headers_append_def host_pieces_def)
qed

theorem host_gets_raw_value_witness:
  "\<exists>self1 f1. Headers_set (wasi_http_headers wit_ops) Some demo_headers [''x'', '' c''] = Inr self1
     \<and> handle self1 = Some f1 \<and> wit_get f1 ''x'' = ['' c'']"
proof -
  have "normalize_header_name Some ''x'' [] = Inr ''x''"
    by (simp add: normalize_header_name_def valid_name_char_def VALID_NAME_CHARS_def lower_char_def)
  moreover have "normalize_header_value Some '' c'' [] = Inr ('' c'', ''c'')"
    by (simp add: normalize_header_value_def trim_def is_http_space_def Let_def)
  moreover have "handle demo_headers = Some demo_fields" by (simp add: demo_headers_def)
  ultimately show ?thesis using host_gets_raw_value [OF demo_reachable] by blast
qed

text \<open>
  On fields the host has made immutable (those of an incoming request), the host refuses every
  change, \<open>HttpHeaders\<close> drops the error, and the map changes all the same: \<open>set\<close> and \<open>delete\<close>
  succeed, the program sees their effect, and the host's fields are what they were.
\<close>

theorem immutable_fields_diverge:
  assumes "handle self = Some f" and "immutable f"
    and name: "normalize_header_name enc nm fn = Inr n" and val: "normalize_header_value enc v fn = Inr (raw, w)"
  shows "(\<exists>self1. Headers_set (wasi_http_headers wit_ops) enc self [nm, v] = Inr self1
      \<and> handle self1 = Some f \<and> map_get self1 n = Str w)
    \<and> (\<exists>self1. Headers_delete (wasi_http_headers wit_ops) enc self [nm] = Inr self1
      \<and> handle self1 = Some f \<and> Headers_has enc self1 [nm] = Inr False)"
proof -
  note n = normalize_header_name_any [OF name] and v = normalize_header_value_any [OF val]
  have "Headers_set (wasi_http_headers wit_ops) enc self [nm, v] =
      Inr (self\<lparr>backing_map := AList.update n (Some w) (backing_map self), handle := Some f\<rparr>)"
    using assms(1,2) n v by (simp add: Headers_set_def wasi_http_headers_def HttpHeaders_set_def wit_ops_def
        wit_set_def api_error_exn_def)
  moreover have "Headers_delete (wasi_http_headers wit_ops) enc self [nm] =
      Inr (self\<lparr>backing_map := AList.delete n (backing_map self), handle := Some f\<rparr>)"
    using assms(1,2) n by (cases self) (simp add: Headers_delete_def wasi_http_headers_def HttpHeaders_remove_def
        wit_ops_def wit_delete_def api_error_exn_def map_of_eq_None_iff delete_id)
  ultimately show ?thesis using n by (simp add: map_get_def update_conv' delete_conv' Headers_has_def)
qed

theorem immutable_fields_diverge_witness:
  "\<exists>self1. Headers_set (wasi_http_headers wit_ops) Some
       (demo_headers\<lparr>handle := Some (demo_fields\<lparr>immutable := True\<rparr>)\<rparr>) [''x'', ''c''] = Inr self1
     \<and> handle self1 = Some (demo_fields\<lparr>immutable := True\<rparr>) \<and> map_get self1 ''x'' = Str ''c''"
proof -
  have a: "normalize_header_name Some ''x'' [] = Inr ''x''"
    by (simp add: normalize_header_name_def valid_name_char_def VALID_NAME_CHARS_def lower_char_def)
  have b: "normalize_header_value Some ''c'' [] = Inr (''c'', ''c'')"
    by (simp add: normalize_header_value_def trim_def is_http_space_def Let_def)
  have c: "handle (demo_headers\<lparr>handle := Some (demo_fields\<lparr>immutable := True\<rparr>)\<rparr>) =
      Some (demo_fields\<lparr>immutable := True\<rparr>)" "immutable (demo_fields\<lparr>immutable := True\<rparr>)"
    by simp_all
  from immutable_fields_diverge [OF c a b] show ?thesis by blast
qed

end
