(* ===== verification/Console.thy ===== *)
theory Console
  imports Prelude
begin

section \<open>The console builtin\<close>

text \<open>
  Models \<open>builtins/web/console.cpp\<close>: the printer \<open>ToSource\<close> with its functions for arrays, sets,
  maps, promises and objects, and the operations of \<open>console\<close> on the count table, the timer table
  and the standard output.  Objects live in a heap, a list that a reference indexes; an entry holds
  what the engine reports of the object.  The heap does not change while it is printed: getters
  that run user code are outside the model.  A text is \<open>None\<close> where the conversion to it throws.
\<close>

subsection \<open>Values and objects\<close>

datatype cval =
    CUndefined
  | CNull
  | CString "string option"
  | CObject nat
  | COther "string option"

record cprop =
  key_symbol :: bool
  key_text :: "string option"
  accessor :: bool
  prop_value :: "cval option"
  own :: "bool option"

datatype promise_state = Pending | Fulfilled cval | Rejected cval

text \<open>
  The property \<open>name\<close> of an object's constructor: missing or not a string, or a string with its
  encoding.
\<close>

datatype ctor_name = NoName | CtorName "string option"

datatype cobject =
    FunctionObj "string option option"
  | TypedArrayObj ctor_name "string option list"
  | TextObj "string option"
  | ArrayObj "cval list"
  | SetObj "cval list"
  | MapObj "(cval \<times> cval) list"
  | PromiseObj promise_state
  | WeakMapObj
  | WeakSetObj
  | OtherObj ctor_name "cprop list option"

text \<open>
  Results: \<open>None\<close> when the fuel runs out, \<open>Some (Inl e)\<close> for an error, \<open>Some (Inr x)\<close> otherwise.
\<close>

definition obind :: "(js_error + 'a) option \<Rightarrow> ('a \<Rightarrow> (js_error + 'b) option) \<Rightarrow> (js_error + 'b) option" where
  "obind r k = (case r of None \<Rightarrow> None | Some (Inl e) \<Rightarrow> Some (Inl e) | Some (Inr x) \<Rightarrow> k x)"

lemma obind_simps [simp]:
  "obind None k = None" "obind (Some (Inl e)) k = Some (Inl e)" "obind (Some (Inr x)) k = k x"
  by (simp_all add: obind_def)

lemma obind_cong [fundef_cong]:
  "r = r' \<Longrightarrow> (\<And>x. r' = Some (Inr x) \<Longrightarrow> k x = k' x) \<Longrightarrow> obind r k = obind r' k'"
  by (auto simp: obind_def split: option.splits sum.splits)

lemma obind_eq_Some:
  "obind r k = Some y \<longleftrightarrow> (\<exists>e. r = Some (Inl e) \<and> y = Inl e) \<or> (\<exists>x. r = Some (Inr x) \<and> k x = Some y)"
  by (auto simp: obind_def split: option.splits sum.splits)

definition append_text :: "string \<Rightarrow> string option \<Rightarrow> (js_error + string) option" where
  "append_text out t = (case t of None \<Rightarrow> Some (Inl Failure) | Some s \<Rightarrow> Some (Inr (out @ s)))"

definition get_class_name :: "ctor_name \<Rightarrow> string option" where
  "get_class_name c = (case c of CtorName (Some s) \<Rightarrow> Some s | _ \<Rightarrow> None)"

subsection \<open>The printer\<close>

text \<open>
  The printer appends to \<open>out\<close> and extends \<open>vis\<close>, the objects visited so far; an object is never
  taken off that list again.  The fuel counts nested objects.
\<close>

function (sequential)
      ToSource :: "nat \<Rightarrow> cobject list \<Rightarrow> string \<Rightarrow> cval \<Rightarrow> nat list \<Rightarrow> (js_error + string \<times> nat list) option"
  and ClassToSource :: "nat \<Rightarrow> cobject list \<Rightarrow> string \<Rightarrow> cobject \<Rightarrow> nat list \<Rightarrow> (js_error + string \<times> nat list) option"
  and PromiseToSource :: "nat \<Rightarrow> cobject list \<Rightarrow> string \<Rightarrow> promise_state \<Rightarrow> nat list \<Rightarrow> (js_error + string \<times> nat list) option"
  and ArrayToSource :: "nat \<Rightarrow> cobject list \<Rightarrow> string \<Rightarrow> cval list \<Rightarrow> nat list \<Rightarrow> (js_error + string \<times> nat list) option"
  and array_loop :: "nat \<Rightarrow> cobject list \<Rightarrow> string \<Rightarrow> nat \<Rightarrow> cval list \<Rightarrow> nat list \<Rightarrow> (js_error + string \<times> nat list) option"
  and set_loop :: "nat \<Rightarrow> cobject list \<Rightarrow> string \<Rightarrow> bool \<Rightarrow> cval list \<Rightarrow> nat list \<Rightarrow> (js_error + string \<times> nat list) option"
  and map_loop :: "nat \<Rightarrow> cobject list \<Rightarrow> string \<Rightarrow> bool \<Rightarrow> (cval \<times> cval) list \<Rightarrow> nat list \<Rightarrow> (js_error + string \<times> nat list) option"
  and object_loop :: "nat \<Rightarrow> cobject list \<Rightarrow> string \<Rightarrow> bool \<Rightarrow> cprop list \<Rightarrow> nat list \<Rightarrow> (js_error + (string \<times> bool) \<times> nat list) option"
where
  "ToSource n h out CUndefined vis = Some (Inr (out @ ''undefined'', vis))"
| "ToSource n h out CNull vis = Some (Inr (out @ ''null'', vis))"
| "ToSource n h out (CString t) vis =
     obind (append_text (out @ [CHR 0x22]) t) (\<lambda>out. Some (Inr (out @ [CHR 0x22], vis)))"
| "ToSource n h out (COther t) vis = obind (append_text out t) (\<lambda>out. Some (Inr (out, vis)))"
| "ToSource 0 h out (CObject r) vis = None"
| "ToSource (Suc n) h out (CObject r) vis =
     (if length h \<le> r then Some (Inl Failure)
      else (case h ! r of
              FunctionObj fname \<Rightarrow>
                (case fname of
                   None \<Rightarrow> Some (Inr (out @ ''[Function'' @ '']'', vis))
                 | Some t \<Rightarrow> obind (append_text (out @ ''[Function'' @ '' '') t) (\<lambda>out. Some (Inr (out @ '']'', vis))))
            | TypedArrayObj c es \<Rightarrow>
                ArrayToSource n h (case get_class_name c of None \<Rightarrow> out | Some s \<Rightarrow> out @ s @ '' '') (map COther es) vis
            | obj \<Rightarrow>
                if r \<in> set vis then Some (Inr (out @ ''<Circular>'', vis))
                else ClassToSource n h out obj (vis @ [r])))"
| "ClassToSource n h out obj vis =
     (case obj of
        TextObj t \<Rightarrow> obind (append_text out t) (\<lambda>out. Some (Inr (out, vis)))
      | ArrayObj vs \<Rightarrow> ArrayToSource n h out vs vis
      | SetObj vs \<Rightarrow>
          obind (set_loop n h (out @ ''Set('' @ decimal (length vs) @ '') { '') True vs vis) (\<lambda>(out, vis).
            Some (Inr (out @ '' }'', vis)))
      | MapObj es \<Rightarrow>
          obind (map_loop n h (out @ ''Map('' @ decimal (length es) @ '') { '') True es vis) (\<lambda>(out, vis).
            Some (Inr (out @ '' }'', vis)))
      | PromiseObj state \<Rightarrow> PromiseToSource n h out state vis
      | WeakMapObj \<Rightarrow> Some (Inr (out @ ''WeakMap { <items unknown> }'', vis))
      | WeakSetObj \<Rightarrow> Some (Inr (out @ ''WeakSet { <items unknown> }'', vis))
      | OtherObj c ids \<Rightarrow>
          let out = (case get_class_name c of
                       None \<Rightarrow> out | Some s \<Rightarrow> if s \<noteq> ''Object'' then out @ s @ '' '' else out)
          in (case ids of
                None \<Rightarrow> Some (Inl Failure)
              | Some props \<Rightarrow>
                  obind (object_loop n h (out @ ''{'') True props vis) (\<lambda>((out, firstValue), vis).
                    Some (Inr ((if \<not> firstValue then out @ '' '' else out) @ ''}'', vis))))
      | _ \<Rightarrow> Some (Inl Failure))"
| "PromiseToSource n h out Pending vis = Some (Inr (out @ ''Promise { '' @ ''<pending> }'', vis))"
| "PromiseToSource n h out (Fulfilled v) vis =
     obind (ToSource n h (out @ ''Promise { '') v vis) (\<lambda>(out, vis). Some (Inr (out @ '' }'', vis)))"
| "PromiseToSource n h out (Rejected v) vis =
     obind (ToSource n h (out @ ''Promise { '' @ ''<rejected> '') v vis) (\<lambda>(out, vis). Some (Inr (out @ '' }'', vis)))"
| "ArrayToSource n h out vs vis =
     obind (array_loop n h (out @ ''['') 0 vs vis) (\<lambda>(out, vis). Some (Inr (out @ '']'', vis)))"
| "array_loop n h out i [] vis = Some (Inr (out, vis))"
| "array_loop n h out i (v # vs) vis =
     obind (ToSource n h (if i > 0 then out @ '', '' else out) v vis) (\<lambda>(out, vis).
       array_loop n h out (i + 1) vs vis)"
| "set_loop n h out firstValue [] vis = Some (Inr (out, vis))"
| "set_loop n h out firstValue (v # vs) vis =
     obind (ToSource n h (if firstValue then out else out @ '', '') v vis) (\<lambda>(out, vis).
       set_loop n h out False vs vis)"
| "map_loop n h out firstValue [] vis = Some (Inr (out, vis))"
| "map_loop n h out firstValue ((k, v) # es) vis =
     obind (ToSource n h (if firstValue then out else out @ '', '') k vis) (\<lambda>(out, vis).
     obind (ToSource n h (out @ '' => '') v vis) (\<lambda>(out, vis).
       map_loop n h out False es vis))"
| "object_loop n h out firstValue [] vis = Some (Inr ((out, firstValue), vis))"
| "object_loop n h out firstValue (p # ps) vis =
     obind (if accessor p then Some (Inr CUndefined)
            else (case prop_value p of None \<Rightarrow> Some (Inl Failure) | Some v \<Rightarrow> Some (Inr v))) (\<lambda>v.
     let is_function = (case v of CObject r \<Rightarrow> r < length h \<and> (case h ! r of FunctionObj _ \<Rightarrow> True | _ \<Rightarrow> False)
                                | _ \<Rightarrow> False)
     in if (accessor p \<or> is_function) \<and> own p = None then Some (Inl Failure)
        else if (accessor p \<or> is_function) \<and> own p = Some False then object_loop n h out firstValue ps vis
        else
          obind (if key_symbol p then ToSource n h (if firstValue then out @ '' '' else out @ '', '') (COther (key_text p)) vis
                 else obind (append_text (if firstValue then out @ '' '' else out @ '', '') (key_text p)) (\<lambda>out.
                        Some (Inr (out, vis)))) (\<lambda>(out, vis).
          obind (if accessor p then Some (Inr (out @ '': '' @ ''[Getter]'', vis))
                 else ToSource n h (out @ '': '') v vis) (\<lambda>(out, vis).
            object_loop n h out False ps vis)))"
  by pat_completeness auto
termination
  by (relation "measures
      [case_sum (case_sum (case_sum (\<lambda>(n, _). n) (\<lambda>(n, _). n)) (case_sum (\<lambda>(n, _). n) (\<lambda>(n, _). n)))
         (case_sum (case_sum (\<lambda>(n, _). n) (\<lambda>(n, _). n)) (case_sum (\<lambda>(n, _). n) (\<lambda>(n, _). n))),
       case_sum (case_sum (case_sum (\<lambda>_. 0) (\<lambda>_. 3)) (case_sum (\<lambda>_. 2) (\<lambda>_. 2)))
         (case_sum (case_sum (\<lambda>_. 1) (\<lambda>_. 1)) (case_sum (\<lambda>_. 1) (\<lambda>_. 1))),
       case_sum (case_sum (case_sum (\<lambda>_. 0) (\<lambda>_. 0)) (case_sum (\<lambda>_. 0) (\<lambda>_. 0)))
         (case_sum (case_sum (\<lambda>(n, h, out, i, vs, vis). length vs) (\<lambda>(n, h, out, i, vs, vis). length vs))
            (case_sum (\<lambda>(n, h, out, i, vs, vis). length vs) (\<lambda>(n, h, out, i, vs, vis). length vs)))]")
    auto

subsection \<open>The operations\<close>

datatype log_type = Log | Debug | Info | Warn | Error

definition log_prefix :: "log_type \<Rightarrow> string" where
  "log_prefix ty =
     (case ty of Log \<Rightarrow> ''Log'' | Debug \<Rightarrow> ''Debug'' | Info \<Rightarrow> ''Info'' | Warn \<Rightarrow> ''Warn'' | Error \<Rightarrow> ''Error'')"

text \<open>
  The two tables of the file and what was written to the standard output.  \<open>size_t\<close> has 32 bits on
  the target.
\<close>

record 't console =
  count_map :: "string \<Rightarrow> 32 word option"
  timer_map :: "string \<Rightarrow> 't option"
  printed :: string

definition builtin_impl_console_log :: "log_type \<Rightarrow> string \<Rightarrow> 't console \<Rightarrow> 't console" where
  "builtin_impl_console_log ty msg st =
     st\<lparr>printed := printed st @ log_prefix ty @ '': '' @ c_string msg @ [CHR 0x0A]\<rparr>"

text \<open>
  What the engine does for the arguments: the heap, the encoding of a label (\<open>ToString\<close>, \<open>None\<close>
  when it throws), the low bit that \<open>toBoolean\<close> reads, the clock and the text of a duration in
  milliseconds, and the captured stack (\<open>None\<close> when capturing throws).
\<close>

record 't console_env =
  heap :: "cobject list"
  encode :: "cval \<Rightarrow> string option"
  to_boolean :: "cval \<Rightarrow> bool"
  now :: 't
  duration_text :: "'t \<Rightarrow> 't \<Rightarrow> string"
  stack_text :: "string option"

definition print_fuel :: "cobject list \<Rightarrow> nat" where
  "print_fuel h = length h + 1"

definition strip_quotes :: "string \<Rightarrow> string" where
  "strip_quotes source =
     (if source \<noteq> [] \<and> hd source = CHR 0x22 \<and> last source = CHR 0x22
      then take (length source - 2) (drop 1 source) else source)"

fun args_loop :: "nat \<Rightarrow> cobject list \<Rightarrow> string \<Rightarrow> cval list \<Rightarrow> nat list \<Rightarrow> (js_error + string) option" where
  "args_loop n h line [] vis = Some (Inr line)"
| "args_loop n h line (arg # args) vis =
     obind (ToSource n h [] arg vis) (\<lambda>(source, vis).
       let source = strip_quotes source
       in args_loop n h (if length line > 0 then line @ '' '' @ source else line @ source) args vis)"

definition console_out ::
    "log_type \<Rightarrow> 't console_env \<Rightarrow> cval list \<Rightarrow> 't console \<Rightarrow> (js_error + 't console) option" where
  "console_out ty E args st =
     obind (args_loop (print_fuel (heap E)) (heap E) [] args []) (\<lambda>line.
       Some (Inr (builtin_impl_console_log ty line st)))"

definition arg_get :: "cval list \<Rightarrow> nat \<Rightarrow> cval" where
  "arg_get args i = (if i < length args then args ! i else CUndefined)"

definition console_assert :: "'t console_env \<Rightarrow> cval list \<Rightarrow> 't console \<Rightarrow> (js_error + 't console) option" where
  "console_assert E args st =
     (if \<not> to_boolean E (arg_get args 0) then Some (Inr st)
      else
        obind (if length args > 1
               then args_loop (print_fuel (heap E)) (heap E) (''Assertion failed'' @ '': '') args []
               else Some (Inr ''Assertion failed'')) (\<lambda>message.
          Some (Inr (builtin_impl_console_log Error message st))))"

definition label_of :: "'t console_env \<Rightarrow> cval list \<Rightarrow> js_error + string" where
  "label_of E args =
     (if length args > 0 \<and> args ! 0 \<noteq> CUndefined
      then (case encode E (args ! 0) of None \<Rightarrow> Inl PendingException | Some s \<Rightarrow> Inr s)
      else Inr ''default'')"

definition console_count :: "'t console_env \<Rightarrow> cval list \<Rightarrow> 't console \<Rightarrow> js_error + 't console" where
  "console_count E args st =
     rbind (label_of E args) (\<lambda>label.
       let count = (case count_map st label of Some c \<Rightarrow> c | None \<Rightarrow> 0) + 1
       in Inr (builtin_impl_console_log Log (label @ '': '' @ decimal (unat count))
                 (st\<lparr>count_map := (count_map st)(label \<mapsto> count)\<rparr>)))"

definition console_countReset :: "'t console_env \<Rightarrow> cval list \<Rightarrow> 't console \<Rightarrow> js_error + 't console" where
  "console_countReset E args st =
     rbind (label_of E args) (\<lambda>label.
       Inr (if count_map st label \<noteq> None then st\<lparr>count_map := (count_map st)(label \<mapsto> 0)\<rparr>
            else builtin_impl_console_log Warn
                   (''Count for '' @ [CHR 0x27] @ label @ [CHR 0x27] @ '' does not exist'') st))"

definition no_op :: "cval list \<Rightarrow> 't console \<Rightarrow> js_error + 't console" where
  "no_op args st = Inr st"

definition console_time :: "'t console_env \<Rightarrow> cval list \<Rightarrow> 't console \<Rightarrow> js_error + 't console" where
  "console_time E args st =
     rbind (label_of E args) (\<lambda>label.
       Inr (if timer_map st label = None then st\<lparr>timer_map := (timer_map st)(label \<mapsto> now E)\<rparr> else st))"

definition no_label :: "string \<Rightarrow> string \<Rightarrow> string" where
  "no_label label fn = ''No such label '' @ [CHR 0x27] @ label @ [CHR 0x27] @ '' for console.'' @ fn @ ''()''"

definition console_timeLog :: "'t console_env \<Rightarrow> cval list \<Rightarrow> 't console \<Rightarrow> (js_error + 't console) option" where
  "console_timeLog E args st =
     obind (Some (label_of E args)) (\<lambda>label.
       (case timer_map st label of
          None \<Rightarrow> Some (Inr (builtin_impl_console_log Warn (no_label label ''timeLog'') st))
        | Some startTime \<Rightarrow>
            let concat = label @ '': '' @ duration_text E startTime (now E) @ ''ms''
            in obind (if length args > 1
                      then args_loop (print_fuel (heap E)) (heap E) [] (drop 1 args) []
                      else Some (Inr [])) (\<lambda>data.
                 Some (Inr (builtin_impl_console_log Log (concat @ '' '' @ data) st)))))"

definition console_timeEnd :: "'t console_env \<Rightarrow> cval list \<Rightarrow> 't console \<Rightarrow> js_error + 't console" where
  "console_timeEnd E args st =
     rbind (label_of E args) (\<lambda>label.
       (case timer_map st label of
          None \<Rightarrow> Inr (builtin_impl_console_log Warn (no_label label ''timeEnd'') st)
        | Some startTime \<Rightarrow>
            Inr (builtin_impl_console_log Info
                   (label @ '': '' @ duration_text E startTime (now E) @ ''ms'')
                   (st\<lparr>timer_map := (timer_map st)(label := None)\<rparr>))))"

definition console_dir :: "'t console_env \<Rightarrow> cval list \<Rightarrow> 't console \<Rightarrow> (js_error + 't console) option" where
  "console_dir E args st =
     obind (ToSource (print_fuel (heap E)) (heap E) [] (arg_get args 0) []) (\<lambda>(source, vis).
       Some (Inr (builtin_impl_console_log Log (strip_quotes source) st)))"

definition console_trace :: "'t console_env \<Rightarrow> cval list \<Rightarrow> 't console \<Rightarrow> (js_error + 't console) option" where
  "console_trace E args st =
     (case stack_text E of
        None \<Rightarrow> Some (Inl PendingException)
      | Some stack_string \<Rightarrow>
          obind (args_loop (print_fuel (heap E)) (heap E) [] args []) (\<lambda>line.
            Some (Inr (builtin_impl_console_log Log (line @ [CHR 0x0A] @ c_string stack_string) st))))"

subsection \<open>The printer returns\<close>

text \<open>
  \<open>visits_ok\<close>: the visited list has no duplicates and holds references of the heap only, so it is
  never longer than the heap.  \<open>returns\<close>: a result that extends the text and the visited list.
\<close>

definition visits_ok :: "cobject list \<Rightarrow> nat list \<Rightarrow> bool" where
  "visits_ok h vis \<longleftrightarrow> distinct vis \<and> set vis \<subseteq> {..<length h}"

definition returns :: "cobject list \<Rightarrow> nat list \<Rightarrow> (js_error + 'a \<times> nat list) option \<Rightarrow> bool" where
  "returns h vis r \<longleftrightarrow>
     (case r of None \<Rightarrow> False | Some (Inl e) \<Rightarrow> True
      | Some (Inr (out, vis')) \<Rightarrow> visits_ok h vis' \<and> (\<exists>w. vis' = vis @ w))"

definition enough :: "cobject list \<Rightarrow> nat list \<Rightarrow> nat \<Rightarrow> bool" where
  "enough h vis n \<longleftrightarrow> length h < n + length vis"

lemma visits_ok_length: "visits_ok h vis \<Longrightarrow> length vis \<le> length h"
  unfolding visits_ok_def by (metis card_lessThan card_mono distinct_card finite_lessThan)

lemma visits_ok_snoc:
  "visits_ok h vis \<Longrightarrow> r < length h \<Longrightarrow> r \<notin> set vis \<Longrightarrow> visits_ok h (vis @ [r])"
  by (auto simp: visits_ok_def)

lemma returns_simps [simp]:
  "\<not> returns h vis None" "returns h vis (Some (Inl e))"
  "returns h vis (Some (Inr (out, vis'))) \<longleftrightarrow> visits_ok h vis' \<and> (\<exists>w. vis' = vis @ w)"
  by (simp_all add: returns_def)

lemma returns_obind:
  assumes "returns h vis r"
    and "\<And>x vis' w. r = Some (Inr (x, vis')) \<Longrightarrow> visits_ok h vis' \<Longrightarrow> vis' = vis @ w \<Longrightarrow> returns h vis' (k (x, vis'))"
  shows "returns h vis (obind r k)"
proof (cases r)
  case (Some s)
  then show ?thesis
  proof (cases s)
    case (Inr p)
    obtain x vis' where p: "p = (x, vis')" by fastforce
    with assms(1) Some Inr obtain w where "visits_ok h vis'" "vis' = vis @ w" by auto
    with assms(2) Some Inr p have "returns h vis' (k (x, vis'))" by blast
    then show ?thesis using Some Inr p \<open>vis' = vis @ w\<close>
      by (auto simp: returns_def split: option.splits sum.splits)
  qed simp
qed (use assms(1) in simp)

lemma enough_more: "enough h vis n \<Longrightarrow> enough h (vis @ w) n"
  by (simp add: enough_def)

lemma enough_visit: "enough h vis (Suc n) \<Longrightarrow> enough h (vis @ [r]) n"
  by (simp add: enough_def)

lemma enough_Suc: "enough h vis n \<Longrightarrow> visits_ok h vis \<Longrightarrow> \<exists>m. n = Suc m"
  using visits_ok_length [of h vis] by (cases n) (auto simp: enough_def)

lemma returns_text: "visits_ok h vis \<Longrightarrow> returns h vis (obind (append_text out t) (\<lambda>out. Some (Inr (f out, vis))))"
  by (cases t) (auto simp: append_text_def)

lemma array_loop_texts:
  "visits_ok h vis \<Longrightarrow> returns h vis (array_loop n h out i (map COther es) vis)"
proof (induction es arbitrary: out i)
  case (Cons t es)
  then show ?case by (cases t) (simp_all add: append_text_def)
qed simp

definition prints :: "cobject list \<Rightarrow> nat \<Rightarrow> bool" where
  "prints h n \<longleftrightarrow> (\<forall>out v vis. visits_ok h vis \<longrightarrow> enough h vis n \<longrightarrow> returns h vis (ToSource n h out v vis))"

lemma printsD:
  "prints h n \<Longrightarrow> visits_ok h vis \<Longrightarrow> enough h vis n \<Longrightarrow> returns h vis (ToSource n h out v vis)"
  by (simp add: prints_def)

lemma array_loop_returns:
  "prints h n \<Longrightarrow> visits_ok h vis \<Longrightarrow> enough h vis n \<Longrightarrow> returns h vis (array_loop n h out i vs vis)"
  by (induction vs arbitrary: out i vis) (auto intro!: returns_obind printsD dest: enough_more)

lemma set_loop_returns:
  "prints h n \<Longrightarrow> visits_ok h vis \<Longrightarrow> enough h vis n \<Longrightarrow> returns h vis (set_loop n h out fv vs vis)"
  by (induction vs arbitrary: out fv vis) (auto intro!: returns_obind printsD dest: enough_more)

lemma map_loop_returns:
  "prints h n \<Longrightarrow> visits_ok h vis \<Longrightarrow> enough h vis n \<Longrightarrow> returns h vis (map_loop n h out fv es vis)"
proof (induction es arbitrary: out fv vis)
  case (Cons e es)
  obtain k v where e: "e = (k, v)" by fastforce
  show ?case unfolding e map_loop.simps
    using Cons by (auto intro!: returns_obind printsD simp: enough_more)
qed simp

lemma object_loop_returns:
  "prints h n \<Longrightarrow> visits_ok h vis \<Longrightarrow> enough h vis n \<Longrightarrow> returns h vis (object_loop n h out fv ps vis)"
proof (induction ps arbitrary: out fv vis)
  case (Cons p ps)
  have skip: "returns h vis (obind (append_text o1 t) (\<lambda>out. Some (Inr (out, vis))))" for o1 t
    using Cons.prems(2) returns_text [of h vis o1 t "\<lambda>x. x"] by simp
  have lit: "returns h vis' (Some (Inr (x, vis')))" if "visits_ok h vis'" for x :: string and vis'
    using that by simp
  have val: "returns h vis (obind (if accessor p then Some (Inr CUndefined)
      else (case prop_value p of None \<Rightarrow> Some (Inl Failure) | Some v \<Rightarrow> Some (Inr v))) k)"
    if "\<And>v. returns h vis (k v)" for k :: "cval \<Rightarrow> (js_error + (string \<times> bool) \<times> nat list) option"
    using that by (auto split: option.splits)
  show ?case unfolding object_loop.simps Let_def
    by (rule val) (use Cons in \<open>auto intro!: returns_obind printsD skip lit simp: enough_more\<close>)
qed simp

lemma ClassToSource_returns:
  assumes "prints h n" "visits_ok h vis" "enough h vis n"
  shows "returns h vis (ClassToSource n h out obj vis)"
proof (cases obj)
  case (PromiseObj p)
  then show ?thesis using assms by (cases p) (auto intro!: returns_obind printsD)
next
  case (TextObj t)
  then show ?thesis using returns_text [OF assms(2), of out t "\<lambda>x. x"] by simp
qed (use assms in \<open>auto simp: Let_def split: option.splits
    intro!: returns_obind array_loop_returns set_loop_returns map_loop_returns object_loop_returns\<close>)

lemma ToSource_returns: "prints h n"
proof (induction n)
  case 0
  then show ?case using enough_Suc [of h _ 0] by (auto simp: prints_def)
next
  case (Suc n)
  have "returns h vis (ToSource (Suc n) h out v vis)"
    if ok: "visits_ok h vis" and en: "enough h vis (Suc n)" for out v vis
  proof (cases v)
    case (CObject r)
    have new: "returns h vis (if r \<in> set vis then Some (Inr (out @ ''<Circular>'', vis))
        else ClassToSource n h out obj (vis @ [r]))" if "r < length h" for obj
    proof (cases "r \<in> set vis")
      case False
      have ok': "visits_ok h (vis @ [r])" using ok that False by (rule visits_ok_snoc)
      have "returns h (vis @ [r]) (ClassToSource n h out obj (vis @ [r]))"
        by (rule ClassToSource_returns [OF Suc.IH ok' enough_visit [OF en]])
      then show ?thesis using False by (auto simp: returns_def split: option.splits sum.splits)
    qed (use ok in simp)
    have arr: "returns h vis (ArrayToSource n h o1 (map COther es) vis)" for o1 es
      using ok by (auto intro!: returns_obind array_loop_texts)
    have fun_name: "returns h vis (obind (append_text o1 t) (\<lambda>out. Some (Inr (out @ '']'', vis))))" for o1 t
      using ok by (rule returns_text)
    show ?thesis
      using new arr fun_name ok CObject
      by (cases "h ! r") (auto split: option.splits simp del: ClassToSource.simps ArrayToSource.simps)
  qed (use ok returns_text [OF ok, of _ _ "\<lambda>x. x"] returns_text [OF ok, of _ _ "\<lambda>x. x @ [CHR 0x22]"] in auto)
  then show ?case by (simp add: prints_def)
qed

subsection \<open>More fuel changes nothing\<close>

definition stable :: "cobject list \<Rightarrow> nat \<Rightarrow> bool" where
  "stable h n \<longleftrightarrow> (\<forall>out v vis r. ToSource n h out v vis = Some r \<longrightarrow> ToSource (Suc n) h out v vis = Some r)"

lemma stableD: "stable h n \<Longrightarrow> ToSource n h out v vis = Some r \<Longrightarrow> ToSource (Suc n) h out v vis = Some r"
  by (simp add: stable_def)

lemma obind_mono:
  assumes "obind r k = Some y" and "\<And>z. r = Some z \<Longrightarrow> r' = Some z"
    and "\<And>x. r = Some (Inr x) \<Longrightarrow> k x = Some y \<Longrightarrow> k' x = Some y"
  shows "obind r' k' = Some y"
  using assms by (auto simp: obind_eq_Some)

lemma if_mono:
  assumes "(if A then X else if B then Y else Z) = Some r"
    and "\<not> A \<Longrightarrow> B \<Longrightarrow> Y = Some r \<Longrightarrow> Y' = Some r"
    and "\<not> A \<Longrightarrow> \<not> B \<Longrightarrow> Z = Some r \<Longrightarrow> Z' = Some r"
  shows "(if A then X else if B then Y' else Z') = Some r"
  using assms by (auto split: if_splits)

lemma array_loop_stable:
  "stable h n \<Longrightarrow> array_loop n h out i vs vis = Some r \<Longrightarrow> array_loop (Suc n) h out i vs vis = Some r"
proof (induction vs arbitrary: out i vis)
  case (Cons v vs)
  from Cons.prems(2) show ?case unfolding array_loop.simps
    by (rule obind_mono) (use Cons in \<open>auto intro: stableD simp del: ToSource.simps\<close>)
qed simp

lemma set_loop_stable:
  "stable h n \<Longrightarrow> set_loop n h out fv vs vis = Some r \<Longrightarrow> set_loop (Suc n) h out fv vs vis = Some r"
proof (induction vs arbitrary: out fv vis)
  case (Cons v vs)
  from Cons.prems(2) show ?case unfolding set_loop.simps
    by (rule obind_mono) (use Cons in \<open>auto intro: stableD simp del: ToSource.simps\<close>)
qed simp

lemma map_loop_stable:
  "stable h n \<Longrightarrow> map_loop n h out fv es vis = Some r \<Longrightarrow> map_loop (Suc n) h out fv es vis = Some r"
proof (induction es arbitrary: out fv vis)
  case (Cons e es)
  obtain k v where e: "e = (k, v)" by fastforce
  have inner: "obind (ToSource (Suc n) h o1 v vis1) (\<lambda>(out, vis). map_loop (Suc n) h out False es vis) = Some r"
    if "obind (ToSource n h o1 v vis1) (\<lambda>(out, vis). map_loop n h out False es vis) = Some r" for o1 vis1
    using that by (rule obind_mono) (use Cons in \<open>auto intro: stableD simp del: ToSource.simps\<close>)
  from Cons.prems(2) show ?case unfolding e map_loop.simps
    by (rule obind_mono) (use Cons.prems(1) inner in \<open>auto intro: stableD simp del: ToSource.simps\<close>)
qed simp

lemma object_loop_stable:
  "stable h n \<Longrightarrow> object_loop n h out fv ps vis = Some r \<Longrightarrow> object_loop (Suc n) h out fv ps vis = Some r"
proof (induction ps arbitrary: out fv vis)
  case (Cons p ps)
  have rest: "obind (if accessor p then Some (Inr (o1 @ '': '' @ ''[Getter]'', vis1)) else ToSource (Suc n) h (o1 @ '': '') v vis1)
      (\<lambda>(out, vis). object_loop (Suc n) h out False ps vis) = Some r"
    if "obind (if accessor p then Some (Inr (o1 @ '': '' @ ''[Getter]'', vis1)) else ToSource n h (o1 @ '': '') v vis1)
      (\<lambda>(out, vis). object_loop n h out False ps vis) = Some r" for o1 v vis1
    using that by (rule obind_mono)
      (use Cons in \<open>auto intro: stableD simp del: ToSource.simps split: if_splits\<close>)
  from Cons.prems(2) show ?case unfolding object_loop.simps Let_def
  proof (rule obind_mono, goal_cases)
    case (2 v)
    from 2(2) show ?case
    proof (rule if_mono, goal_cases)
      case 1
      then show ?case using Cons.IH [OF Cons.prems(1)] by blast
    next
      case 2
      from 2(3) show ?case
        by (rule obind_mono) (simp_all only: ToSource.simps(4) split_paired_all prod.case rest split: if_splits)
    qed
  qed
qed simp

lemma ClassToSource_stable:
  assumes s: "stable h n" and c: "ClassToSource n h out obj vis = Some r"
  shows "ClassToSource (Suc n) h out obj vis = Some r"
proof (cases obj)
  case (PromiseObj p)
  show ?thesis
  proof (cases p)
    case (Fulfilled v)
    show ?thesis using c unfolding PromiseObj Fulfilled ClassToSource.simps cobject.case PromiseToSource.simps
      by (rule obind_mono) (use s in \<open>auto intro: stableD simp del: ToSource.simps\<close>)
  next
    case (Rejected v)
    show ?thesis using c unfolding PromiseObj Rejected ClassToSource.simps cobject.case PromiseToSource.simps
      by (rule obind_mono) (use s in \<open>auto intro: stableD simp del: ToSource.simps\<close>)
  qed (use c PromiseObj in simp)
qed (use c s in \<open>auto simp: Let_def split: option.splits elim!: obind_mono
      intro: array_loop_stable set_loop_stable map_loop_stable object_loop_stable\<close>)

lemma ToSource_stable: "stable h n"
proof (induction n)
  case 0
  have "ToSource (Suc 0) h out v vis = Some r" if "ToSource 0 h out v vis = Some r" for out v vis r
    using that by (cases v) simp_all
  then show ?case by (simp add: stable_def)
next
  case (Suc n)
  have "ToSource (Suc (Suc n)) h out v vis = Some r" if t: "ToSource (Suc n) h out v vis = Some r" for out v vis r
  proof (cases v)
    case (CObject q)
    have arr: "ArrayToSource (Suc n) h o1 vs vis = Some r" if "ArrayToSource n h o1 vs vis = Some r" for o1 vs
      using that unfolding ArrayToSource.simps by (rule obind_mono) (auto intro: array_loop_stable [OF Suc.IH])
    show ?thesis
      using t arr ClassToSource_stable [OF Suc.IH] CObject
      by (cases "h ! q") (auto simp del: ClassToSource.simps ArrayToSource.simps split: if_splits)
  qed (use t in simp_all)
  then show ?case by (simp add: stable_def)
qed

lemma args_loop_stable: "args_loop n h line args vis = Some r \<Longrightarrow> args_loop (n + k) h line args vis = Some r"
proof (induction args arbitrary: line vis)
  case (Cons arg args)
  have s: "ToSource n h [] arg vis = Some z \<Longrightarrow> ToSource (n + k) h [] arg vis = Some z" for z
    by (induction k) (auto intro: stableD [OF ToSource_stable])
  from Cons.prems show ?case unfolding args_loop.simps
    by (rule obind_mono) (use s Cons.IH in \<open>auto simp: Let_def\<close>)
qed simp

lemma args_loop_returns:
  "visits_ok h vis \<Longrightarrow> enough h vis n \<Longrightarrow> \<exists>r. args_loop n h line args vis = Some r"
proof (induction args arbitrary: line vis)
  case (Cons arg args)
  have r: "returns h vis (ToSource n h [] arg vis)" using ToSource_returns Cons.prems by (rule printsD)
  show ?case
  proof (cases "ToSource n h [] arg vis")
    case (Some s)
    then show ?thesis using r Cons.IH enough_more [OF Cons.prems(2)]
      by (cases s) (auto simp: Let_def)
  qed (use r in simp)
qed simp

lemma start_ok: "visits_ok h []" "enough h [] (print_fuel h)"
  by (simp_all add: visits_ok_def enough_def print_fuel_def)

subsection \<open>Properties\<close>

text \<open>
  C9. Printing returns on every heap, cyclic ones included: with one unit of fuel more than the
  heap has objects, the arguments of a console function are printed or an error is raised, no
  function of the console is stuck, and more fuel gives the same result.
\<close>

theorem console_printing_returns:
  "(\<exists>r. \<forall>k. args_loop (print_fuel h + k) h line args [] = Some r)
   \<and> console_out ty E args st \<noteq> None \<and> console_assert E args st \<noteq> None
   \<and> console_timeLog E args st \<noteq> None \<and> console_dir E args st \<noteq> None \<and> console_trace E args st \<noteq> None"
proof -
  have a: "\<exists>r. args_loop (print_fuel h) h line args [] = Some r" for h line args
    using start_ok by (rule args_loop_returns)
  then obtain r where "args_loop (print_fuel h) h line args [] = Some r" by blast
  then have "\<exists>r. \<forall>k. args_loop (print_fuel h + k) h line args [] = Some r"
    using args_loop_stable by blast
  moreover have o: "obind (Some z) (\<lambda>x. Some (k x)) \<noteq> None" for z and k :: "'x \<Rightarrow> js_error + 'y"
    by (cases z) simp_all
  have a': "args_loop (print_fuel h) h line args [] \<noteq> None" for h line args using a by fastforce
  have t: "ToSource (print_fuel h) h [] v [] \<noteq> None" for h v
    using printsD [OF ToSource_returns start_ok] by (metis returns_simps(1))
  have n: "obind z (\<lambda>x. Some (k x)) \<noteq> None" if "z \<noteq> None" for z and k :: "'x \<Rightarrow> js_error + 'y"
    using that o by auto
  ultimately show ?thesis
    using t [of "heap E" "arg_get args 0"]
    by (auto simp: console_out_def console_assert_def console_timeLog_def console_dir_def console_trace_def
        Let_def obind_def a' split: option.splits sum.splits)
qed

text \<open>
  An object is marked as circular whenever it was printed before in the same call, whether or
  not it contains itself: logging an array, set, map, promise or plain object twice prints the
  second one as \<open><Circular>\<close>.
\<close>

theorem shared_object_marked_circular:
  assumes "r < length (heap E)" and "\<forall>f. heap E ! r \<noteq> FunctionObj f" and "\<forall>c es. heap E ! r \<noteq> TypedArrayObj c es"
    and first: "args_loop (print_fuel (heap E)) (heap E) [] [CObject r] [] = Some (Inr line)" and "line \<noteq> []"
  shows "console_out ty E [CObject r, CObject r] st =
    Some (Inr (builtin_impl_console_log ty (line @ '' <Circular>'') st))"
proof -
  let ?h = "heap E" and ?n = "print_fuel (heap E)"
  obtain m where m: "?n = Suc m" by (simp add: print_fuel_def)
  have step: "ToSource ?n ?h out (CObject r) vis =
      (if r \<in> set vis then Some (Inr (out @ ''<Circular>'', vis))
       else ClassToSource m ?h out (?h ! r) (vis @ [r]))" for out vis
    using assms(1-3) unfolding m by (cases "?h ! r") simp_all
  obtain source vis where s: "ToSource ?n ?h [] (CObject r) [] = Some (Inr (source, vis))"
    and line: "line = strip_quotes source"
    using first by (auto simp: obind_eq_Some Let_def simp del: ToSource.simps)
  have ok: "visits_ok ?h [r]" using assms(1) by (simp add: visits_ok_def)
  have "enough ?h [r] m" using m by (simp add: enough_def print_fuel_def)
  with ClassToSource_returns [OF ToSource_returns ok] have
    "returns ?h [r] (ClassToSource m ?h [] (?h ! r) [r])" by blast
  then have "r \<in> set vis" using s step [of "[]" "[]"] by auto
  then have "ToSource ?n ?h [] (CObject r) vis = Some (Inr (''<Circular>'', vis))" using step by simp
  moreover have "strip_quotes ''<Circular>'' = ''<Circular>''" by (simp add: strip_quotes_def)
  ultimately show ?thesis using s line \<open>line \<noteq> []\<close>
    by (simp add: console_out_def Let_def del: ToSource.simps)
qed

definition demo_env :: "nat console_env" where
  "demo_env = \<lparr>heap = [ArrayObj [COther (Some ''1'')]], encode = (\<lambda>v. Some ''x''), to_boolean = (\<lambda>_. True),
     now = 0, duration_text = (\<lambda>_ _. ''0''), stack_text = None\<rparr>"

theorem shared_object_marked_circular_witness:
  "console_out Log demo_env [CObject 0, CObject 0]
       \<lparr>count_map = Map.empty, timer_map = Map.empty, printed = []\<rparr> =
     Some (Inr (builtin_impl_console_log Log (''[1]'' @ '' <Circular>'')
       \<lparr>count_map = Map.empty, timer_map = Map.empty, printed = []\<rparr>))"
proof (rule shared_object_marked_circular)
  show "args_loop (print_fuel (heap demo_env)) (heap demo_env) [] [CObject 0] [] = Some (Inr ''[1]'')"
    by (simp add: demo_env_def print_fuel_def append_text_def strip_quotes_def eval_nat_numeral)
qed (simp_all add: demo_env_def)

text \<open>
  \<open>console.assert\<close> does the opposite of what its comments say: it prints nothing when the
  condition is false and reports a failed assertion when the condition is true.
\<close>

theorem console_assert_inverted:
  "console_assert E [c] st =
     Some (Inr (if to_boolean E c then st\<lparr>printed := printed st @ ''Error: Assertion failed'' @ [CHR 0x0A]\<rparr> else st))"
  by (simp add: console_assert_def arg_get_def builtin_impl_console_log_def log_prefix_def c_string_def)

text \<open>\<open>k\<close> calls of \<open>console.count\<close> with the same arguments.\<close>

fun count_calls :: "'t console_env \<Rightarrow> cval list \<Rightarrow> nat \<Rightarrow> 't console \<Rightarrow> js_error + 't console" where
  "count_calls E args 0 st = Inr st"
| "count_calls E args (Suc k) st = rbind (count_calls E args k st) (console_count E args)"

lemma count_calls_value:
  assumes "label_of E args = Inr l" and "count_map st l = Some c"
  shows "\<exists>st'. count_calls E args k st = Inr st' \<and> count_map st' = (count_map st)(l \<mapsto> c + of_nat k)
    \<and> timer_map st' = timer_map st
    \<and> printed st' = printed st @ concat (map (\<lambda>i. ''Log: '' @ c_string (l @ '': '' @ decimal (unat (c + of_nat i))) @ [CHR 0x0A])
                                       [1..<Suc k])"
proof (induction k)
  case (Suc k)
  then obtain st' where st': "count_calls E args k st = Inr st'"
    "count_map st' = (count_map st)(l \<mapsto> c + of_nat k)" "timer_map st' = timer_map st"
    "printed st' = printed st @ concat (map (\<lambda>i. ''Log: '' @ c_string (l @ '': '' @ decimal (unat (c + of_nat i))) @ [CHR 0x0A])
                                       [1..<Suc k])" by blast
  have e: "c + of_nat k + 1 = c + of_nat (Suc k)" by simp
  have "count_calls E args (Suc k) st =
      Inr (builtin_impl_console_log Log (l @ '': '' @ decimal (unat (c + of_nat (Suc k))))
             (st'\<lparr>count_map := (count_map st')(l \<mapsto> c + of_nat (Suc k))\<rparr>))"
    using st'(1,2) assms(1) by (simp only: count_calls.simps rbind_Inr) (simp add: console_count_def e Let_def del: of_nat_Suc)
  then show ?case using st'
    by (simp add: builtin_impl_console_log_def log_prefix_def fun_eq_iff del: of_nat_Suc count_calls.simps)
qed (use assms in \<open>auto simp: fun_eq_iff\<close>)

text \<open>
  The counters: a first call of \<open>count\<close> with a label prints \<open>label: 1\<close>; after \<open>countReset\<close> of a
  label in use, \<open>k\<close> calls print \<open>label: 1\<close> to \<open>label: k\<close> (modulo \<open>2^32\<close>), one line each, and touch
  no other label; \<open>countReset\<close> of an unknown label only warns.
\<close>

theorem console_counters:
  assumes "label_of E args = Inr l"
  shows "case count_map st l of
      None \<Rightarrow>
        console_count E args st = Inr (builtin_impl_console_log Log (l @ '': 1'') (st\<lparr>count_map := (count_map st)(l \<mapsto> 1)\<rparr>))
        \<and> (\<exists>msg. console_countReset E args st = Inr (builtin_impl_console_log Warn msg st))
    | Some c \<Rightarrow>
        \<exists>st'. rbind (console_countReset E args st) (count_calls E args k) = Inr st'
          \<and> count_map st' = (count_map st)(l \<mapsto> of_nat k)
          \<and> printed st' = printed st @ concat (map (\<lambda>i. ''Log: '' @ c_string (l @ '': '' @ decimal (i mod 2 ^ 32)) @ [CHR 0x0A])
                                              [1..<Suc k])"
proof (cases "count_map st l")
  case None
  have "decimal (Suc 0) = ''1''" by (subst decimal.simps) (simp add: char_of_def bit_iff_odd)
  with None assms show ?thesis by (auto simp: console_count_def console_countReset_def)
next
  case (Some c)
  let ?st = "st\<lparr>count_map := (count_map st)(l \<mapsto> 0)\<rparr>"
  have "console_countReset E args st = Inr ?st" using assms Some by (simp add: console_countReset_def)
  moreover obtain st' where "count_calls E args k ?st = Inr st'"
    "count_map st' = (count_map ?st)(l \<mapsto> 0 + of_nat k)"
    "printed st' = printed ?st @ concat (map (\<lambda>i. ''Log: '' @ c_string (l @ '': '' @ decimal (unat (0 + of_nat i :: 32 word))) @ [CHR 0x0A])
       [1..<Suc k])"
    using count_calls_value [OF assms, of ?st 0 k] by auto
  ultimately show ?thesis using Some by (simp add: unat_of_nat)
qed

theorem console_counters_witness:
  "\<exists>st'. rbind (console_countReset demo_env [CNull] \<lparr>count_map = [''x'' \<mapsto> 7], timer_map = Map.empty, printed = []\<rparr>)
       (count_calls demo_env [CNull] 2) = Inr st' \<and> count_map st' ''x'' = Some 2"
proof -
  have "label_of demo_env [CNull] = Inr ''x''" by (simp add: label_of_def demo_env_def)
  from console_counters [OF this,
      of "\<lparr>count_map = [''x'' \<mapsto> 7], timer_map = Map.empty, printed = []\<rparr>" 2]
  show ?thesis by auto
qed

text \<open>
  The timers: \<open>time\<close> starts a timer and a second \<open>time\<close> does not restart it; \<open>timeEnd\<close> prints the
  duration since the start and removes the timer, after which \<open>timeEnd\<close> and \<open>timeLog\<close> only warn.
  The environments of the calls differ in their clock.
\<close>

theorem console_timers:
  assumes "label_of E1 args = Inr l" and "label_of E2 args = Inr l" and "label_of E3 args = Inr l"
    and "timer_map st l = None"
  defines "started \<equiv> st\<lparr>timer_map := (timer_map st)(l \<mapsto> now E1)\<rparr>"
    and "stopped \<equiv> builtin_impl_console_log Info (l @ '': '' @ duration_text E3 (now E1) (now E3) @ ''ms'') st"
  shows "console_time E1 args st = Inr started \<and> console_time E2 args started = Inr started
    \<and> console_timeEnd E3 args started = Inr stopped
    \<and> console_timeEnd E2 args stopped = Inr (builtin_impl_console_log Warn (no_label l ''timeEnd'') stopped)
    \<and> console_timeLog E2 args stopped = Some (Inr (builtin_impl_console_log Warn (no_label l ''timeLog'') stopped))"
proof -
  have "timer_map st = (timer_map st)(l := None)" using assms(4) by auto
  then have "stopped = builtin_impl_console_log Info (l @ '': '' @ duration_text E3 (now E1) (now E3) @ ''ms'')
      (st\<lparr>timer_map := (timer_map st)(l := None)\<rparr>)"
    unfolding stopped_def by (simp add: builtin_impl_console_log_def)
  then have "console_timeEnd E3 args started = Inr stopped"
    using assms(3) by (simp add: console_timeEnd_def started_def)
  then show ?thesis using assms(1-4)
    by (simp add: console_time_def console_timeEnd_def console_timeLog_def started_def
        stopped_def builtin_impl_console_log_def)
qed

theorem console_timers_witness:
  "console_time demo_env [] \<lparr>count_map = Map.empty, timer_map = Map.empty, printed = []\<rparr> =
     Inr \<lparr>count_map = Map.empty, timer_map = [''default'' \<mapsto> 0], printed = []\<rparr>"
proof -
  have "label_of demo_env [] = Inr ''default''" by (simp add: label_of_def)
  from console_timers [OF this this this, of "\<lparr>count_map = Map.empty, timer_map = Map.empty, printed = []\<rparr>"]
  show ?thesis by (simp add: demo_env_def)
qed

end
