(* ===== verification/Fetch_Event.thy ===== *)
theory Fetch_Event
  imports Prelude "HOL-Library.Sublist"
begin

section \<open>The fetch event\<close>

text \<open>
  Models \<open>builtins/web/fetch/fetch_event.cpp\<close>: the one \<open>FetchEvent\<close> instance with its state, its
  count of pending promises and its dispatch flag, \<open>addEventListener\<close>, \<open>respondWith\<close>, \<open>waitUntil\<close>,
  the promise reactions they install, and the exported handler of an incoming request.

  The engine's promises are numbers.  \<open>reactions\<close> holds, in order, the reactions that the event has
  put on promises and that have not run yet; the engine runs one when its promise is settled.
  \<open>sent\<close> is the log of the calls of \<open>HttpOutgoingResponse::send\<close>.  A failed \<open>MOZ_RELEASE_ASSERT\<close>
  ends the process: the result \<open>Inl ReleaseAssert\<close>.  \<open>MOZ_ASSERT\<close> is only compiled into debug builds.
\<close>

subsection \<open>The event\<close>

datatype state = unhandled | waitToRespond | responseStreaming | responseDone | respondedWithError

fun state_rank :: "state \<Rightarrow> nat" where
  "state_rank unhandled = 0"
| "state_rank waitToRespond = 1"
| "state_rank responseStreaming = 2"
| "state_rank responseDone = 3"
| "state_rank respondedWithError = 4"

datatype reaction = DecPending | Respond

datatype 'r sent_response = SentResponse 'r | Sent500

record 'r event =
  dispatch :: bool
  ev_state :: state
  pending_count :: int
  reactions :: "(nat \<times> reaction) list"
  sent :: "'r sent_response list"
  streaming_body :: bool
  req_method :: "string option"
  req_has_body :: bool
  req_url :: string

datatype crash = ReleaseAssert

text \<open>
  The rest of the runtime, as the event sees it: \<open>maybe_stream_body\<close> (\<open>None\<close> when it throws,
  otherwise whether the body is streamed), whether a response is one received from upstream, what
  the host answers when the body is appended, the response is sent or a body is asked for, and
  whether a response has a body.
\<close>

record 'r fetch_host =
  maybe_stream_body :: "'r \<Rightarrow> bool option"
  is_incoming :: "'r \<Rightarrow> bool"
  append_ok :: "'r \<Rightarrow> bool"
  mark_body_used_ok :: "'r \<Rightarrow> bool"
  has_body :: "'r \<Rightarrow> bool"
  send_ok :: "'r sent_response \<Rightarrow> bool"
  error_body_ok :: bool

definition inc_pending_promise_count :: "'r event \<Rightarrow> 'r event" where
  "inc_pending_promise_count ev = ev\<lparr>pending_count := pending_count ev + 1\<rparr>"

definition dec_pending_promise_count :: "'r event \<Rightarrow> 'r event" where
  "dec_pending_promise_count ev = ev\<lparr>pending_count := pending_count ev - 1\<rparr>"

definition add_pending_promise :: "nat \<Rightarrow> 'r event \<Rightarrow> 'r event" where
  "add_pending_promise promise ev =
     inc_pending_promise_count (ev\<lparr>reactions := reactions ev @ [(promise, DecPending)]\<rparr>)"

definition set_state :: "state \<Rightarrow> 'r event \<Rightarrow> 'r event" where
  "set_state new_state ev = ev\<lparr>ev_state := new_state\<rparr>"

definition response_started :: "'r event \<Rightarrow> bool" where
  "response_started ev \<longleftrightarrow> ev_state ev \<noteq> unhandled \<and> ev_state ev \<noteq> waitToRespond"

definition is_active :: "'r event \<Rightarrow> bool" where
  "is_active ev \<longleftrightarrow> dispatch ev \<or> ev_state ev = responseStreaming \<or> pending_count ev > 0"

definition start_dispatching :: "'r event \<Rightarrow> 'r event" where
  "start_dispatching ev = ev\<lparr>dispatch := True\<rparr>"

definition stop_dispatching :: "'r event \<Rightarrow> 'r event" where
  "stop_dispatching ev = ev\<lparr>dispatch := False\<rparr>"

definition FetchEvent_create :: "'r event" where
  "FetchEvent_create =
     \<lparr>dispatch = False, ev_state = unhandled, pending_count = 0, reactions = [], sent = [],
      streaming_body = False, req_method = None, req_has_body = False, req_url = []\<rparr>"

text \<open>
  \<open>url_ok\<close>: whether a URL object can be created for \<open>globalThis.location\<close>.  The method slot stays
  at its default for GET.
\<close>

definition init_incoming_request :: "string \<Rightarrow> string \<Rightarrow> bool \<Rightarrow> 'r event \<Rightarrow> bool \<times> 'r event" where
  "init_incoming_request method_str uri_str url_ok ev =
     (let is_get = method_str = ''GET'';
          is_head = \<not> is_get \<and> method_str = ''HEAD'';
          ev = (if \<not> is_get then ev\<lparr>req_method := Some method_str\<rparr> else ev);
          ev = (if \<not> is_get \<and> \<not> is_head then ev\<lparr>req_has_body := True\<rparr> else ev)
      in (url_ok, ev\<lparr>req_url := uri_str\<rparr>))"

subsection \<open>Responding\<close>

definition send_response :: "'r fetch_host \<Rightarrow> 'r sent_response \<Rightarrow> state \<Rightarrow> 'r event \<Rightarrow> bool \<times> 'r event" where
  "send_response h response new_state ev =
     (send_ok h response, set_state new_state (ev\<lparr>sent := sent ev @ [response]\<rparr>))"

definition start_response :: "'r fetch_host \<Rightarrow> 'r \<Rightarrow> bool \<Rightarrow> 'r event \<Rightarrow> crash + bool \<times> 'r event" where
  "start_response h response_obj streaming ev =
     (if is_incoming h response_obj \<and> \<not> append_ok h response_obj then Inr (False, ev)
      else if is_incoming h response_obj \<and> \<not> mark_body_used_ok h response_obj then Inl ReleaseAssert
      else
        let ev = (if streaming \<and> (is_incoming h response_obj \<or> has_body h response_obj)
                  then ev\<lparr>streaming_body := True\<rparr> else ev)
        in Inr (send_response h (SentResponse response_obj)
                  (if streaming then responseStreaming else responseDone) ev))"

definition respondWithError :: "'r fetch_host \<Rightarrow> 'r event \<Rightarrow> crash + bool \<times> 'r event" where
  "respondWithError h ev =
     (if ev_state ev \<noteq> unhandled \<and> ev_state ev \<noteq> waitToRespond then Inl ReleaseAssert
      else if \<not> error_body_ok h then Inr (False, ev)
      else Inr (send_response h Sent500 respondedWithError ev))"

text \<open>What a promise is fulfilled with: a \<open>Response\<close> or something else.\<close>

datatype 'r resolution = NotAResponse | AResponse 'r

definition response_promise_then_handler ::
    "'r fetch_host \<Rightarrow> 'r resolution \<Rightarrow> 'r event \<Rightarrow> crash + bool \<times> 'r event" where
  "response_promise_then_handler h arg ev =
     (case arg of
        NotAResponse \<Rightarrow> respondWithError h ev
      | AResponse response_obj \<Rightarrow>
          (case maybe_stream_body h response_obj of
             None \<Rightarrow> Inr (False, ev)
           | Some streaming \<Rightarrow> start_response h response_obj streaming ev))"

definition response_promise_catch_handler :: "'r fetch_host \<Rightarrow> 'r event \<Rightarrow> crash + bool \<times> 'r event" where
  "response_promise_catch_handler h ev = respondWithError h ev"

text \<open>
  The argument of \<open>respondWith\<close> and \<open>waitUntil\<close> as a promise, \<open>None\<close> when the coercion throws.
\<close>

definition respondWith :: "nat option \<Rightarrow> 'r event \<Rightarrow> js_error + 'r event" where
  "respondWith arg ev =
     (case arg of
        None \<Rightarrow> Inl PendingException
      | Some response_promise \<Rightarrow>
          if \<not> dispatch ev then
            Inl (ReportError (''FetchEvent#respondWith must be called synchronously from '' @
                   ''within a FetchEvent handler''))
          else if ev_state ev \<noteq> unhandled then
            Inl (ReportError (''FetchEvent#respondWith can'' @ [CHR 0x27] @ ''t be called twice on the same event''))
          else
            let ev = add_pending_promise response_promise ev;
                ev = set_state waitToRespond ev
            in Inr (ev\<lparr>reactions := reactions ev @ [(response_promise, Respond)]\<rparr>))"

definition waitUntil :: "nat option \<Rightarrow> 'r event \<Rightarrow> js_error + 'r event" where
  "waitUntil arg ev =
     (case arg of
        None \<Rightarrow> Inl PendingException
      | Some promise \<Rightarrow>
          if \<not> is_active ev then Inl (ReportError ''FetchEvent#waitUntil called on inactive event'')
          else Inr (add_pending_promise promise ev))"

text \<open>
  One reaction job: the reaction at position \<open>i\<close> runs.  \<open>outcome\<close> is what its promise was
  fulfilled with, \<open>None\<close> when it was rejected.
\<close>

definition run_reaction ::
    "'r fetch_host \<Rightarrow> nat \<Rightarrow> 'r resolution option \<Rightarrow> 'r event \<Rightarrow> (crash + bool \<times> 'r event) option" where
  "run_reaction h i outcome ev =
     (if i < length (reactions ev)
      then let ev' = ev\<lparr>reactions := take i (reactions ev) @ drop (Suc i) (reactions ev)\<rparr>
           in Some (case snd (reactions ev ! i) of
                      DecPending \<Rightarrow> Inr (True, dec_pending_promise_count ev')
                    | Respond \<Rightarrow>
                        (case outcome of
                           None \<Rightarrow> response_promise_catch_handler h ev'
                         | Some v \<Rightarrow> response_promise_then_handler h v ev'))
      else None)"

subsection \<open>Registering and running handlers\<close>

text \<open>\<open>strncmp\<close> of two C strings over at most \<open>n\<close> characters: 0 exactly when they agree.\<close>

fun strncmp_eq :: "string \<Rightarrow> string \<Rightarrow> nat \<Rightarrow> bool" where
  "strncmp_eq s t 0 = True"
| "strncmp_eq [] [] (Suc n) = True"
| "strncmp_eq (c # s) (d # t) (Suc n) = (c = d \<and> strncmp_eq s t n)"
| "strncmp_eq _ _ (Suc n) = False"

datatype 'h listener_result = Exits | ListenerError js_error | Registered "'h list"

definition addEventListener ::
    "string option \<Rightarrow> 'h option \<Rightarrow> nat \<Rightarrow> 'h list \<Rightarrow> 'h listener_result" where
  "addEventListener event_chars handler argc handlers =
     (if argc < 2 then ListenerError (NotEnoughArgs 2)
      else (case event_chars of
              None \<Rightarrow> ListenerError PendingException
            | Some chars \<Rightarrow>
                if \<not> strncmp_eq (c_string chars) ''fetch'' (length chars) then Exits
                else (case handler of None \<Rightarrow> Exits | Some f \<Rightarrow> Registered (handlers @ [f]))))"

text \<open>
  A registered handler is user code on the event; it returns whether it returned normally.
\<close>

fun dispatch_loop :: "('r event \<Rightarrow> bool \<times> 'r event) list \<Rightarrow> 'r event \<Rightarrow> 'r event" where
  "dispatch_loop [] ev = ev"
| "dispatch_loop (f # fs) ev =
     (let (ok, ev) = f ev
      in if \<not> ok then ev else if ev_state ev \<noteq> unhandled then ev else dispatch_loop fs ev)"

definition dispatch_fetch_event :: "('r event \<Rightarrow> bool \<times> 'r event) list \<Rightarrow> 'r event \<Rightarrow> 'r event" where
  "dispatch_fetch_event handlers ev = stop_dispatching (dispatch_loop handlers (start_dispatching ev))"

text \<open>
  The exported handler.  \<open>run_loop\<close> is the event loop with everything it runs: jobs, tasks and user
  code.
\<close>

definition incoming_handler ::
    "'r fetch_host \<Rightarrow> string \<Rightarrow> string \<Rightarrow> bool \<Rightarrow> ('r event \<Rightarrow> bool \<times> 'r event) list
       \<Rightarrow> ('r event \<Rightarrow> crash + bool \<times> 'r event) \<Rightarrow> 'r event \<Rightarrow> crash + 'r event" where
  "incoming_handler h method_str uri_str url_ok handlers run_loop ev =
     (let (ok, ev) = init_incoming_request method_str uri_str url_ok ev
      in if \<not> ok then Inr ev
         else
           rbind (run_loop (dispatch_fetch_event handlers ev)) (\<lambda>(ok, ev).
             if \<not> ok then Inr ev
             else if \<not> response_started ev then rbind (respondWithError h ev) (\<lambda>(ok, ev). Inr ev)
             else Inr (if streaming_body ev then ev\<lparr>streaming_body := False\<rparr> else ev)))"

subsection \<open>Steps and invariant\<close>

text \<open>
  What can happen to the event: user code calls \<open>respondWith\<close> and \<open>waitUntil\<close>, a reaction runs, and
  the pump of a streamed body comes to its end (\<open>body_reader_then_handler\<close> in
  \<open>request-response.cpp\<close>).
\<close>

inductive fe_step :: "'r fetch_host \<Rightarrow> 'r event \<Rightarrow> 'r event \<Rightarrow> bool" for h where
  responded: "respondWith arg ev = Inr ev' \<Longrightarrow> fe_step h ev ev'"
| waited: "waitUntil arg ev = Inr ev' \<Longrightarrow> fe_step h ev ev'"
| reacted: "run_reaction h i outcome ev = Some (Inr (ok, ev')) \<Longrightarrow> fe_step h ev ev'"
| streamed: "ev_state ev = responseStreaming \<Longrightarrow> fe_step h ev (set_state responseDone ev)"

inductive_cases fe_step_cases: "fe_step h ev ev'"

definition kinds :: "'r event \<Rightarrow> reaction list" where
  "kinds ev = map snd (reactions ev)"

definition event_inv :: "'r event \<Rightarrow> bool" where
  "event_inv ev \<longleftrightarrow>
     pending_count ev = int (count_list (kinds ev) DecPending)
     \<and> count_list (kinds ev) Respond \<le> 1
     \<and> (Respond \<in> set (kinds ev) \<longrightarrow> ev_state ev = waitToRespond)
     \<and> length (sent ev) = (if response_started ev then 1 else 0)"

definition host_ok :: "'r fetch_host \<Rightarrow> bool" where
  "host_ok h \<longleftrightarrow> (\<forall>r. is_incoming h r \<longrightarrow> append_ok h r \<longrightarrow> mark_body_used_ok h r)"

lemma count_list_erase:
  "i < length xs \<Longrightarrow> count_list xs x = count_list (take i xs @ drop (Suc i) xs) x + (if xs ! i = x then 1 else 0)"
proof -
  assume i: "i < length xs"
  have "count_list xs x = count_list (take i xs @ xs ! i # drop (Suc i) xs) x"
    using id_take_nth_drop [OF i] by (rule arg_cong)
  then show ?thesis by simp
qed

lemma count_list_mem: "x \<in> set xs \<longleftrightarrow> 0 < count_list xs x"
  by (metis count_list_0_iff gr0I less_numeral_extra(3))

lemma respondWith_cases:
  "respondWith arg ev = Inr ev' \<longleftrightarrow>
     (\<exists>p. arg = Some p \<and> dispatch ev \<and> ev_state ev = unhandled
       \<and> ev' = ev\<lparr>reactions := reactions ev @ [(p, DecPending), (p, Respond)],
                  pending_count := pending_count ev + 1, ev_state := waitToRespond\<rparr>)"
  by (auto simp: respondWith_def add_pending_promise_def inc_pending_promise_count_def set_state_def Let_def
      split: option.splits)

lemma waitUntil_cases:
  "waitUntil arg ev = Inr ev' \<longleftrightarrow>
     (\<exists>p. arg = Some p \<and> is_active ev
       \<and> ev' = ev\<lparr>reactions := reactions ev @ [(p, DecPending)], pending_count := pending_count ev + 1\<rparr>)"
  by (auto simp: waitUntil_def add_pending_promise_def inc_pending_promise_count_def split: option.splits)

text \<open>
  What handling a promise of \<open>respondWith\<close> can do to an event that waits for it: nothing but failing,
  or one send that leaves the waiting state.
\<close>

definition sends_once :: "'r event \<Rightarrow> 'r event \<Rightarrow> bool" where
  "sends_once ev ev' \<longleftrightarrow> ev' = ev
     \<or> (\<exists>r new b. ev' = ev\<lparr>sent := sent ev @ [r], ev_state := new, streaming_body := b\<rparr> \<and> 2 \<le> state_rank new)"

lemma respondWithError_once:
  assumes "\<not> response_started ev"
  shows "\<exists>ok ev'. respondWithError h ev = Inr (ok, ev') \<and> sends_once ev ev'
    \<and> (error_body_ok h \<longrightarrow> response_started ev' \<and> sent ev' = sent ev @ [Sent500])"
proof (cases "error_body_ok h")
  case True
  have "sends_once ev (ev\<lparr>sent := sent ev @ [Sent500], ev_state := respondedWithError\<rparr>)"
    unfolding sends_once_def
    by (intro disjI2 exI [of _ Sent500] exI [of _ respondedWithError] exI [of _ "streaming_body ev"]) (cases ev, simp)
  with True assms show ?thesis
    by (auto simp: respondWithError_def response_started_def send_response_def set_state_def)
qed (use assms in \<open>auto simp: respondWithError_def response_started_def sends_once_def\<close>)

lemma then_handler_once:
  assumes "\<not> response_started ev" and "host_ok h"
  shows "\<exists>ok ev'. response_promise_then_handler h v ev = Inr (ok, ev') \<and> sends_once ev ev'"
proof (cases v)
  case NotAResponse
  then show ?thesis using respondWithError_once [OF assms(1), of h]
    by (auto simp: response_promise_then_handler_def)
next
  case (AResponse r)
  show ?thesis
  proof (cases "maybe_stream_body h r")
    case (Some streaming)
    let ?new = "if streaming then responseStreaming else responseDone"
    have a: "sends_once ev (ev\<lparr>streaming_body := b, sent := sent ev @ [SentResponse r], ev_state := ?new\<rparr>)" for b
      unfolding sends_once_def
      by (intro disjI2 exI [of _ "SentResponse r"] exI [of _ ?new] exI [of _ b]) (cases ev, simp)
    have b: "sends_once ev (ev\<lparr>sent := sent ev @ [SentResponse r], ev_state := ?new\<rparr>)"
      unfolding sends_once_def
      by (intro disjI2 exI [of _ "SentResponse r"] exI [of _ ?new] exI [of _ "streaming_body ev"]) (cases ev, simp)
    have r: "sends_once ev ev" by (simp add: sends_once_def)
    show ?thesis using a [of True] b r assms(2) AResponse Some
      by (auto simp: response_promise_then_handler_def start_response_def send_response_def set_state_def
          host_ok_def Let_def)
  qed (use AResponse in \<open>auto simp: response_promise_then_handler_def sends_once_def\<close>)
qed

lemma run_reaction_ok:
  assumes "event_inv ev" and "host_ok h" and "i < length (reactions ev)"
  shows "\<exists>ok ev'. run_reaction h i outcome ev = Some (Inr (ok, ev')) \<and> event_inv ev'
    \<and> state_rank (ev_state ev) \<le> state_rank (ev_state ev')"
proof -
  let ?rs = "take i (reactions ev) @ drop (Suc i) (reactions ev)"
  let ?ev = "ev\<lparr>reactions := ?rs\<rparr>"
  have i: "i < length (kinds ev)" using assms(3) by (simp add: kinds_def)
  have k: "kinds ?ev = take i (kinds ev) @ drop (Suc i) (kinds ev)" by (simp add: kinds_def take_map drop_map)
  note c = count_list_erase [OF i, folded k]
  have ki: "kinds ev ! i = snd (reactions ev ! i)" using assms(3) by (simp add: kinds_def)
  show ?thesis
  proof (cases "snd (reactions ev ! i)")
    case DecPending
    let ?ev' = "dec_pending_promise_count ?ev"
    have k': "kinds ?ev' = kinds ?ev" by (simp add: dec_pending_promise_count_def kinds_def)
    have "event_inv ?ev'"
      using assms(1) c [of DecPending] c [of Respond] ki DecPending k'
      by (auto simp: event_inv_def dec_pending_promise_count_def response_started_def count_list_mem)
    then show ?thesis using assms(3) DecPending
      by (auto simp: run_reaction_def dec_pending_promise_count_def)
  next
    case Respond
    have mem: "Respond \<in> set (kinds ev)" using i ki Respond by (metis nth_mem)
    then have w: "ev_state ev = waitToRespond" using assms(1) by (simp add: event_inv_def)
    have none: "count_list (kinds ?ev) Respond = 0" "count_list (kinds ?ev) DecPending = count_list (kinds ev) DecPending"
      using assms(1) c [of Respond] c [of DecPending] ki Respond by (auto simp: event_inv_def)
    have ns: "\<not> response_started ?ev" using w by (simp add: response_started_def)
    have "\<exists>ok ev'. (case outcome of None \<Rightarrow> response_promise_catch_handler h ?ev
        | Some v \<Rightarrow> response_promise_then_handler h v ?ev) = Inr (ok, ev') \<and> sends_once ?ev ev'"
      using then_handler_once [OF ns assms(2)] respondWithError_once [OF ns, of h]
      by (cases outcome) (auto simp: response_promise_catch_handler_def)
    then obtain ok ev' where r: "run_reaction h i outcome ev = Some (Inr (ok, ev'))" and s: "sends_once ?ev ev'"
      using assms(3) Respond by (auto simp: run_reaction_def)
    have e0: "event_inv ?ev"
      using assms(1) none w by (auto simp: event_inv_def response_started_def count_list_mem)
    from s show ?thesis unfolding sends_once_def
    proof (elim disjE exE conjE)
      assume "ev' = ?ev"
      with r e0 show ?thesis by simp
    next
      fix x new b
      assume ev': "ev' = ?ev\<lparr>sent := sent ?ev @ [x], ev_state := new, streaming_body := b\<rparr>" and n: "2 \<le> state_rank new"
      have "kinds ev' = kinds ?ev" "sent ?ev = []" using ev' e0 ns by (simp_all add: kinds_def event_inv_def)
      moreover have "response_started ev'" using ev' n by (cases new) (auto simp: response_started_def)
      ultimately have "event_inv ev'"
        using e0 ev' none by (auto simp: event_inv_def count_list_mem)
      with r ev' w n show ?thesis by auto
    qed
  qed
qed

lemma fe_step_inv:
  assumes "fe_step h ev ev'" and "event_inv ev" and "host_ok h"
  shows "event_inv ev' \<and> state_rank (ev_state ev) \<le> state_rank (ev_state ev')"
  using assms(1)
proof (cases rule: fe_step.cases)
  case (responded arg)
  then show ?thesis using assms(2)
    by (auto simp: respondWith_cases event_inv_def kinds_def response_started_def)
next
  case (waited arg)
  then show ?thesis using assms(2)
    by (auto simp: waitUntil_cases event_inv_def kinds_def response_started_def)
next
  case (reacted i outcome ok)
  then have "i < length (reactions ev)" by (auto simp: run_reaction_def split: if_splits)
  from run_reaction_ok [OF assms(2,3) this, of outcome] reacted show ?thesis by auto
next
  case streamed
  then show ?thesis using assms(2)
    by (auto simp: event_inv_def kinds_def response_started_def set_state_def)
qed

lemma fe_steps_inv:
  "rtranclp (fe_step h) ev ev' \<Longrightarrow> event_inv ev \<Longrightarrow> host_ok h \<Longrightarrow>
     event_inv ev' \<and> state_rank (ev_state ev) \<le> state_rank (ev_state ev')"
  by (induction rule: rtranclp_induct) (auto dest: fe_step_inv order_trans)

lemma init_event_inv:
  "init_incoming_request m u ok FetchEvent_create = (ok', ev) \<Longrightarrow> ok' = ok \<and> event_inv ev \<and> ev_state ev = unhandled"
  by (cases "m = ''GET''"; cases "m = ''HEAD''")
    (auto simp: init_incoming_request_def FetchEvent_create_def event_inv_def kinds_def response_started_def Let_def)

lemma create_event_inv: "event_inv FetchEvent_create"
  by (simp add: event_inv_def FetchEvent_create_def kinds_def response_started_def)

text \<open>User code: whatever it does to the event, it does by the steps.\<close>

definition handler_ok :: "'r fetch_host \<Rightarrow> ('r event \<Rightarrow> bool \<times> 'r event) \<Rightarrow> bool" where
  "handler_ok h f \<longleftrightarrow> (\<forall>ev. rtranclp (fe_step h) ev (snd (f ev)))"

definition loop_ok :: "'r fetch_host \<Rightarrow> ('r event \<Rightarrow> crash + bool \<times> 'r event) \<Rightarrow> bool" where
  "loop_ok h run_loop \<longleftrightarrow>
     (\<forall>ev. event_inv ev \<longrightarrow> (\<exists>ok ev'. run_loop ev = Inr (ok, ev') \<and> rtranclp (fe_step h) ev ev'))"

lemma dispatch_loop_steps:
  "\<forall>f\<in>set fs. handler_ok h f \<Longrightarrow> rtranclp (fe_step h) ev (dispatch_loop fs ev)"
proof (induction fs arbitrary: ev)
  case (Cons f fs)
  obtain ok ev1 where f: "f ev = (ok, ev1)" by fastforce
  have "rtranclp (fe_step h) ev ev1" using Cons.prems f unfolding handler_ok_def by (metis list.set_intros(1) snd_conv)
  with Cons f show ?case by (auto intro: rtranclp_trans)
qed simp

lemma dispatch_flag_inv [simp]:
  "event_inv (start_dispatching ev) = event_inv ev" "event_inv (stop_dispatching ev) = event_inv ev"
  by (simp_all add: event_inv_def start_dispatching_def stop_dispatching_def kinds_def response_started_def)

subsection \<open>Properties\<close>


definition demo_host :: "nat fetch_host" where
  "demo_host = \<lparr>maybe_stream_body = (\<lambda>r. Some (r = 1)), is_incoming = (\<lambda>r. r = 2), append_ok = (\<lambda>_. True),
     mark_body_used_ok = (\<lambda>_. True), has_body = (\<lambda>_. True), send_ok = (\<lambda>_. True), error_body_ok = True\<rparr>"

lemma demo_host_ok: "host_ok demo_host"
  by (simp add: host_ok_def demo_host_def)



definition demo_handler :: "nat event \<Rightarrow> bool \<times> nat event" where
  "demo_handler ev = (True, case respondWith (Some 7) ev of Inr ev' \<Rightarrow> ev' | Inl e \<Rightarrow> ev)"

definition demo_loop :: "nat event \<Rightarrow> crash + bool \<times> nat event" where
  "demo_loop ev =
     (case run_reaction demo_host 1 (Some (AResponse 0)) ev of
        Some (Inr (ok, ev')) \<Rightarrow> Inr (True, ev') | _ \<Rightarrow> Inr (True, ev))"

lemma demo_handler_ok: "handler_ok demo_host demo_handler"
  unfolding handler_ok_def demo_handler_def by (auto split: sum.splits intro: fe_step.responded)

lemma demo_loop_ok: "loop_ok demo_host demo_loop"
proof -
  have "rtranclp (fe_step demo_host) ev (snd (case demo_loop ev of Inr r \<Rightarrow> r | Inl e \<Rightarrow> (True, ev)))" for ev
    unfolding demo_loop_def by (auto split: option.splits sum.splits intro: fe_step.reacted)
  moreover have "\<exists>ev'. demo_loop ev = Inr (True, ev')" for ev
    unfolding demo_loop_def by (auto split: option.splits sum.splits)
  ultimately show ?thesis unfolding loop_ok_def by (metis sum.case(2) snd_conv)
qed


text \<open>
  \<open>respondWith\<close> takes effect once: it succeeds exactly when the event is being dispatched and
  unhandled, and after it has succeeded every later call fails, whatever has happened to the event
  in between.
\<close>

theorem respondWith_once:
  assumes "event_inv ev" and "host_ok h"
  shows "((\<exists>ev1. respondWith (Some p) ev = Inr ev1) = (dispatch ev \<and> ev_state ev = unhandled))
    \<and> (\<forall>ev1 ev2 q. respondWith (Some p) ev = Inr ev1 \<longrightarrow> rtranclp (fe_step h) ev1 ev2 \<longrightarrow>
         (\<exists>e. respondWith q ev2 = Inl e))"
proof (intro conjI allI impI)
  fix ev1 ev2 q
  assume r: "respondWith (Some p) ev = Inr ev1" and s: "rtranclp (fe_step h) ev1 ev2"
  have "event_inv ev1" using fe_step_inv [OF fe_step.responded [OF r]] assms by blast
  then have "state_rank (ev_state ev1) \<le> state_rank (ev_state ev2)" using fe_steps_inv [OF s] assms(2) by blast
  moreover have "ev_state ev1 = waitToRespond" using r by (auto simp: respondWith_cases)
  ultimately have "ev_state ev2 \<noteq> unhandled" by auto
  then show "\<exists>e. respondWith q ev2 = Inl e" by (auto simp: respondWith_def split: option.splits)
qed (auto simp: respondWith_cases)

theorem respondWith_once_witness:
  "\<exists>ev1. respondWith (Some 3) (start_dispatching FetchEvent_create :: nat event) = Inr ev1"
proof -
  have "event_inv (start_dispatching FetchEvent_create :: nat event)"
    by (simp add: create_event_inv)
  from respondWith_once [OF this demo_host_ok, of 3] show ?thesis
    by (simp add: start_dispatching_def FetchEvent_create_def)
qed

lemma strncmp_eq_prefix: "CHR 0x00 \<notin> set t \<Longrightarrow> strncmp_eq s t (length s) = prefix s t"
  by (induction s t "length s" rule: strncmp_eq.induct) auto

text \<open>
  \<open>addEventListener\<close> compares only as many characters as its argument has, so it registers a
  function for every prefix of \<open>fetch\<close>, the empty string included.
\<close>

theorem addEventListener_accepts_prefixes:
  assumes "CHR 0x00 \<notin> set chars"
  shows "(addEventListener (Some chars) (Some f) 2 handlers = Registered (handlers @ [f])) = prefix chars ''fetch''"
proof -
  have "c_string chars = chars" using assms by (auto simp: c_string_def takeWhile_eq_all_conv)
  then show ?thesis using strncmp_eq_prefix [of "''fetch''" chars]
    by (simp add: addEventListener_def)
qed

theorem addEventListener_accepts_prefixes_witness:
  "addEventListener (Some ''fe'') (Some (0 :: nat)) 2 [] = Registered [0]"
  using addEventListener_accepts_prefixes [of "''fe''" "0 :: nat" "[]"] by simp

end
