(* ===== verification/Url.thy ===== *)
theory Url
  imports Sequence "HOL-Library.List_Lexorder"
begin

section \<open>URL and URLSearchParams\<close>

text \<open>
  Models \<open>builtins/web/url.cpp\<close> together with the wrapper \<open>crates/rust-url/src/lib.rs\<close> it calls.  The
  Rust crate \<open>url\<close> behind the wrapper is the record \<open>url_crate\<close>.  A URL of the wrapper and its
  parameters point at each other, so both live in a heap and a pointer is an index.  The reserved
  slots of the JavaScript objects are kept with what they point to: \<open>params_slot\<close> is the slot
  \<open>Params\<close> of the URL object, and a \<open>URLSearchParams\<close> object is its \<open>Params\<close> pointer.  Strings are
  UTF-8.  Memory is never freed.
\<close>

type_synonym pairs = "(string \<times> string) list"

datatype field =
    Hash | Host | Hostname | Href | Password | Pathname | Port | Protocol | Search | Username

record 'u url_crate =
  parse :: "string \<Rightarrow> 'u option"
  join :: "'u \<Rightarrow> string \<Rightarrow> 'u option"
  quirk_get :: "field \<Rightarrow> 'u \<Rightarrow> string"
  quirk_set :: "field \<Rightarrow> 'u \<Rightarrow> string \<Rightarrow> 'u"
  quirk_origin :: "'u \<Rightarrow> string"
  query :: "'u \<Rightarrow> string option"
  query_pairs :: "'u \<Rightarrow> pairs"
  clear_query :: "'u \<Rightarrow> 'u"
  extend_query :: "'u \<Rightarrow> pairs \<Rightarrow> 'u"
  form_parse :: "string \<Rightarrow> pairs"
  form_serialize :: "pairs \<Rightarrow> string"

datatype url_or_str = OfUrl nat | OfStr string

record search_params =
  plist :: pairs
  url_or_str :: url_or_str

record 'u jsurl =
  crate_url :: 'u
  params_ptr :: "nat option"
  params_slot :: "nat option"

record 'u heap =
  urls :: "'u jsurl list"
  params_objs :: "search_params list"

subsection \<open>The wrapper\<close>

definition upd_url :: "nat \<Rightarrow> ('u jsurl \<Rightarrow> 'u jsurl) \<Rightarrow> 'u heap \<Rightarrow> 'u heap" where
  "upd_url u f h = h\<lparr>urls := (urls h)[u := f (urls h ! u)]\<rparr>"

definition upd_params :: "nat \<Rightarrow> (search_params \<Rightarrow> search_params) \<Rightarrow> 'u heap \<Rightarrow> 'u heap" where
  "upd_params p f h = h\<lparr>params_objs := (params_objs h)[p := f (params_objs h ! p)]\<rparr>"

definition update_params :: "'u url_crate \<Rightarrow> nat \<Rightarrow> 'u heap \<Rightarrow> 'u heap" where
  "update_params U u h =
     (case params_ptr (urls h ! u) of
        None \<Rightarrow> h
      | Some p \<Rightarrow> upd_params p (\<lambda>ps. ps\<lparr>plist := query_pairs U (crate_url (urls h ! u))\<rparr>) h)"

definition update_url_or_str :: "'u url_crate \<Rightarrow> nat \<Rightarrow> 'u heap \<Rightarrow> 'u heap" where
  "update_url_or_str U p h =
     (let ps = params_objs h ! p
      in (case url_or_str ps of
            OfUrl u \<Rightarrow>
              upd_url u (\<lambda>url. url\<lparr>crate_url := (if plist ps = [] then clear_query U (crate_url url)
                                               else extend_query U (crate_url url) (plist ps))\<rparr>) h
          | OfStr _ \<Rightarrow>
              upd_params p (\<lambda>ps. ps\<lparr>url_or_str := OfStr (if plist ps = [] then form_serialize U []
                                                        else form_serialize U (plist ps))\<rparr>) h))"

definition alloc_url :: "'u \<Rightarrow> 'u heap \<Rightarrow> nat \<times> 'u heap" where
  "alloc_url x h =
     (length (urls h), h\<lparr>urls := urls h @ [\<lparr>crate_url = x, params_ptr = None, params_slot = None\<rparr>]\<rparr>)"

definition new_jsurl :: "'u url_crate \<Rightarrow> string \<Rightarrow> 'u heap \<Rightarrow> (nat \<times> 'u heap) option" where
  "new_jsurl U spec h = (case parse U spec of Some x \<Rightarrow> Some (alloc_url x h) | None \<Rightarrow> None)"

definition new_jsurl_with_base :: "'u url_crate \<Rightarrow> string \<Rightarrow> nat \<Rightarrow> 'u heap \<Rightarrow> (nat \<times> 'u heap) option" where
  "new_jsurl_with_base U spec base h =
     (case join U (crate_url (urls h ! base)) spec of Some x \<Rightarrow> Some (alloc_url x h) | None \<Rightarrow> None)"

definition get_field :: "'u url_crate \<Rightarrow> field \<Rightarrow> nat \<Rightarrow> 'u heap \<Rightarrow> string" where
  "get_field U f u h = quirk_get U f (crate_url (urls h ! u))"

definition set_field :: "'u url_crate \<Rightarrow> field \<Rightarrow> nat \<Rightarrow> string \<Rightarrow> 'u heap \<Rightarrow> 'u heap" where
  "set_field U f u v h =
     (let h = upd_url u (\<lambda>url. url\<lparr>crate_url := quirk_set U f (crate_url url) v\<rparr>) h
      in if f = Href \<or> f = Search then update_params U u h else h)"

definition url_search_params :: "'u url_crate \<Rightarrow> nat \<Rightarrow> 'u heap \<Rightarrow> nat \<times> 'u heap" where
  "url_search_params U u h =
     (case params_ptr (urls h ! u) of
        Some p \<Rightarrow> (p, h)
      | None \<Rightarrow>
          let p = length (params_objs h)
          in (p, upd_url u (\<lambda>url. url\<lparr>params_ptr := Some p\<rparr>)
                   (h\<lparr>params_objs := params_objs h
                        @ [\<lparr>plist = query_pairs U (crate_url (urls h ! u)), url_or_str = OfUrl u\<rparr>]\<rparr>)))"

definition new_params :: "'u heap \<Rightarrow> nat \<times> 'u heap" where
  "new_params h =
     (length (params_objs h), h\<lparr>params_objs := params_objs h @ [\<lparr>plist = [], url_or_str = OfStr []\<rparr>]\<rparr>)"

definition change_list :: "'u url_crate \<Rightarrow> nat \<Rightarrow> (pairs \<Rightarrow> pairs) \<Rightarrow> 'u heap \<Rightarrow> 'u heap" where
  "change_list U p f h = update_url_or_str U p (upd_params p (\<lambda>ps. ps\<lparr>plist := f (plist ps)\<rparr>) h)"

definition params_init :: "'u url_crate \<Rightarrow> nat \<Rightarrow> string \<Rightarrow> 'u heap \<Rightarrow> 'u heap" where
  "params_init U p init_str h =
     (let init_str = (if length init_str > 0 \<and> init_str ! 0 = CHR ''?'' then drop 1 init_str else init_str)
      in change_list U p (\<lambda>_. form_parse U init_str) h)"

definition params_append :: "'u url_crate \<Rightarrow> nat \<Rightarrow> string \<Rightarrow> string \<Rightarrow> 'u heap \<Rightarrow> 'u heap" where
  "params_append U p name value h = change_list U p (\<lambda>l. l @ [(name, value)]) h"

definition params_delete :: "'u url_crate \<Rightarrow> nat \<Rightarrow> string \<Rightarrow> 'u heap \<Rightarrow> 'u heap" where
  "params_delete U p name h = change_list U p (filter (\<lambda>kv. fst kv \<noteq> name)) h"

definition params_has :: "nat \<Rightarrow> string \<Rightarrow> 'u heap \<Rightarrow> bool" where
  "params_has p name h \<longleftrightarrow> find (\<lambda>kv. fst kv = name) (plist (params_objs h ! p)) \<noteq> None"

text \<open>
  A slice over an empty string has a null pointer (\<open>None\<close>), and so has the slice for no string.
\<close>

definition slice_of :: "string \<Rightarrow> string option" where
  "slice_of s = (if length s > 0 then Some s else None)"

definition params_get :: "nat \<Rightarrow> string \<Rightarrow> 'u heap \<Rightarrow> string option" where
  "params_get p name h =
     (case find (\<lambda>kv. fst kv = name) (plist (params_objs h ! p)) of
        Some kv \<Rightarrow> slice_of (snd kv)
      | None \<Rightarrow> None)"

definition params_at :: "nat \<Rightarrow> nat \<Rightarrow> 'u heap \<Rightarrow> (string \<times> string) option" where
  "params_at p i h =
     (let l = plist (params_objs h ! p) in if i < length l then Some (l ! i) else None)"

definition params_get_all :: "nat \<Rightarrow> string \<Rightarrow> 'u heap \<Rightarrow> string list" where
  "params_get_all p name h =
     map snd (filter (\<lambda>kv. fst kv = name) (plist (params_objs h ! p)))"

text \<open>The closure of \<open>retain\<close>, with its \<open>index\<close> and \<open>i\<close>.\<close>

fun retain_loop :: "string \<Rightarrow> nat option \<Rightarrow> nat \<Rightarrow> pairs \<Rightarrow> pairs \<times> nat option" where
  "retain_loop name index i [] = ([], index)"
| "retain_loop name index i (kv # l) =
     (case index of
        None \<Rightarrow>
          let (index', i') = (if fst kv = name then (Some i, i) else (None, i + 1));
              (l', r) = retain_loop name index' i' l
          in (kv # l', r)
      | Some _ \<Rightarrow>
          let (l', r) = retain_loop name index i l
          in (if fst kv \<noteq> name then kv # l' else l', r))"

definition set_list :: "string \<Rightarrow> string \<Rightarrow> pairs \<Rightarrow> pairs" where
  "set_list name value l =
     (case retain_loop name None 0 l of
        (l, Some index) \<Rightarrow> l[index := (fst (l ! index), value)]
      | (l, None) \<Rightarrow> l @ [(name, value)])"

definition params_set :: "'u url_crate \<Rightarrow> nat \<Rightarrow> string \<Rightarrow> string \<Rightarrow> 'u heap \<Rightarrow> 'u heap" where
  "params_set U p name value h = change_list U p (set_list name value) h"

text \<open>\<open>str::encode_utf16\<close> of a UTF-8 string.\<close>

fun code_points :: "nat list \<Rightarrow> nat list" where
  "code_points (a # b # c # d # s) =
     (if a < 128 then a # code_points (b # c # d # s)
      else if a < 224 then ((a mod 32) * 64 + b mod 64) # code_points (c # d # s)
      else if a < 240 then ((a mod 16) * 4096 + (b mod 64) * 64 + c mod 64) # code_points (d # s)
      else ((a mod 8) * 262144 + (b mod 64) * 4096 + (c mod 64) * 64 + d mod 64) # code_points s)"
| "code_points [a, b, c] =
     (if a < 128 then a # code_points [b, c]
      else if a < 224 then ((a mod 32) * 64 + b mod 64) # code_points [c]
      else [(a mod 16) * 4096 + (b mod 64) * 64 + c mod 64])"
| "code_points [a, b] = (if a < 128 then a # code_points [b] else [(a mod 32) * 64 + b mod 64])"
| "code_points [a] = [a]"
| "code_points [] = []"

definition utf16_units :: "nat \<Rightarrow> nat list" where
  "utf16_units c =
     (if c < 65536 then [c] else [55296 + (c - 65536) div 1024, 56320 + (c - 65536) mod 1024])"

definition encode_utf16 :: "string \<Rightarrow> nat list" where
  "encode_utf16 s = concat (map utf16_units (code_points (map of_char s)))"

definition params_sort :: "'u url_crate \<Rightarrow> nat \<Rightarrow> 'u heap \<Rightarrow> 'u heap" where
  "params_sort U p h = change_list U p (sort_key (\<lambda>kv. encode_utf16 (fst kv))) h"

definition params_to_string :: "'u url_crate \<Rightarrow> nat \<Rightarrow> 'u heap \<Rightarrow> string" where
  "params_to_string U p h =
     (case url_or_str (params_objs h ! p) of
        OfUrl u \<Rightarrow> (case query U (crate_url (urls h ! u)) of Some q \<Rightarrow> q | None \<Rightarrow> [])
      | OfStr s \<Rightarrow> s)"


subsection \<open>The JavaScript objects\<close>

text \<open>
  What a method leaves in \<open>args.rval()\<close>; before the method writes it, that is the callee.
\<close>

datatype 'v rval =
    RCallee
  | RUndefined
  | RNull
  | RBool bool
  | RStr string
  | RArray "string list"
  | RParams nat
  | RArg 'v

definition require_at_least :: "nat \<Rightarrow> 'v list \<Rightarrow> (unit \<Rightarrow> js_error + 'b) \<Rightarrow> js_error + 'b" where
  "require_at_least n args k = (if length args < n then Inl (NotEnoughArgs n) else k ())"

definition encode_spec_string :: "('v \<Rightarrow> string option) \<Rightarrow> 'v \<Rightarrow> js_error + string" where
  "encode_spec_string enc v = (case enc v of Some s \<Rightarrow> Inr s | None \<Rightarrow> Inl PendingException)"

definition append_impl ::
    "'u url_crate \<Rightarrow> ('v \<Rightarrow> string option) \<Rightarrow> nat \<Rightarrow> 'u heap \<Rightarrow> 'v \<Rightarrow> 'v \<Rightarrow> js_error + 'u heap" where
  "append_impl U enc params h key val =
     rbind (encode_spec_string enc key) (\<lambda>name.
     rbind (encode_spec_string enc val) (\<lambda>v.
       Inr (params_append U params name v h)))"

definition URLSearchParams_append ::
    "'u url_crate \<Rightarrow> ('v \<Rightarrow> string option) \<Rightarrow> nat \<Rightarrow> 'v list \<Rightarrow> 'u heap \<Rightarrow> js_error + 'v rval \<times> 'u heap" where
  "URLSearchParams_append U enc self args h =
     require_at_least 2 args (\<lambda>_.
       rbind (append_impl U enc self h (args ! 0) (args ! 1)) (\<lambda>h. Inr (RUndefined, h)))"

definition URLSearchParams_delete ::
    "'u url_crate \<Rightarrow> ('v \<Rightarrow> string option) \<Rightarrow> nat \<Rightarrow> 'v list \<Rightarrow> 'u heap \<Rightarrow> js_error + 'v rval \<times> 'u heap" where
  "URLSearchParams_delete U enc self args h =
     require_at_least 1 args (\<lambda>_.
     rbind (encode_spec_string enc (args ! 0)) (\<lambda>name.
       Inr (RUndefined, params_delete U self name h)))"

definition URLSearchParams_has ::
    "('v \<Rightarrow> string option) \<Rightarrow> nat \<Rightarrow> 'v list \<Rightarrow> 'u heap \<Rightarrow> js_error + 'v rval" where
  "URLSearchParams_has enc self args h =
     require_at_least 1 args (\<lambda>_.
     rbind (encode_spec_string enc (args ! 0)) (\<lambda>name. Inr (RBool (params_has self name h))))"

definition URLSearchParams_get ::
    "('v \<Rightarrow> string option) \<Rightarrow> nat \<Rightarrow> 'v list \<Rightarrow> 'u heap \<Rightarrow> js_error + 'v rval" where
  "URLSearchParams_get enc self args h =
     require_at_least 1 args (\<lambda>_.
     rbind (encode_spec_string enc (args ! 0)) (\<lambda>name.
       (case params_get self name h of
          None \<Rightarrow> Inr RNull
        | Some s \<Rightarrow> Inr (RStr s))))"

definition URLSearchParams_getAll ::
    "('v \<Rightarrow> string option) \<Rightarrow> nat \<Rightarrow> 'v list \<Rightarrow> 'u heap \<Rightarrow> js_error + 'v rval" where
  "URLSearchParams_getAll enc self args h =
     require_at_least 1 args (\<lambda>_.
     rbind (encode_spec_string enc (args ! 0)) (\<lambda>name. Inr (RArray (params_get_all self name h))))"

definition URLSearchParams_set ::
    "'u url_crate \<Rightarrow> ('v \<Rightarrow> string option) \<Rightarrow> nat \<Rightarrow> 'v list \<Rightarrow> 'u heap \<Rightarrow> js_error + 'v rval \<times> 'u heap" where
  "URLSearchParams_set U enc self args h =
     require_at_least 2 args (\<lambda>_.
     rbind (encode_spec_string enc (args ! 0)) (\<lambda>name.
     rbind (encode_spec_string enc (args ! 1)) (\<lambda>v.
       Inr (RCallee, params_set U self name v h))))"

definition URLSearchParams_sort :: "'u url_crate \<Rightarrow> nat \<Rightarrow> 'u heap \<Rightarrow> js_error + 'v rval \<times> 'u heap" where
  "URLSearchParams_sort U self h = Inr (RUndefined, params_sort U self h)"

definition URLSearchParams_toString :: "'u url_crate \<Rightarrow> nat \<Rightarrow> 'u heap \<Rightarrow> js_error + 'v rval" where
  "URLSearchParams_toString U self h = Inr (RStr (params_to_string U self h))"

text \<open>
  \<open>forEach\<close>: the callback gets the value and the name and may change anything the program can
  reach, which is the heap here and the \<open>'s\<close>.  The loop reads the parameter of the current index
  afresh in every round, and so need not end.
\<close>

partial_function (option) forEach_loop ::
    "(string \<Rightarrow> string \<Rightarrow> 's \<times> 'u heap \<Rightarrow> js_error + 's \<times> 'u heap) \<Rightarrow> nat \<Rightarrow> nat \<Rightarrow> 's \<times> 'u heap
       \<Rightarrow> (js_error + 's \<times> 'u heap) option" where
  "forEach_loop callback params index st =
     (case params_at params index (snd st) of
        None \<Rightarrow> Some (Inr st)
      | Some (name, v) \<Rightarrow>
          (case callback v name st of
             Inl e \<Rightarrow> Some (Inl e)
           | Inr st \<Rightarrow> forEach_loop callback params (index + 1) st))"

definition URLSearchParams_forEach ::
    "('v \<Rightarrow> (string \<Rightarrow> string \<Rightarrow> 's \<times> 'u heap \<Rightarrow> js_error + 's \<times> 'u heap) option) \<Rightarrow> nat \<Rightarrow> 'v list
       \<Rightarrow> 's \<times> 'u heap \<Rightarrow> (js_error + 's \<times> 'u heap) option" where
  "URLSearchParams_forEach callable self args st =
     (if length args < 1 then Some (Inl (NotEnoughArgs 1))
      else (case callable (args ! 0) of
              None \<Rightarrow> Some (Inl (ReportError (''Failed to execute '' @ [CHR 0x27] @ ''forEach'' @ [CHR 0x27]
                        @ '' on '' @ [CHR 0x27] @ ''URLSearchParams'' @ [CHR 0x27]
                        @ '': parameter 1 is not of type '' @ [CHR 0x27] @ ''Function'' @ [CHR 0x27])))
            | Some callback \<Rightarrow> forEach_loop callback self 0 st))"

subsection \<open>Iterators\<close>

datatype iter_type = ITERTYPE_ENTRIES | ITERTYPE_KEYS | ITERTYPE_VALUES

record params_iter =
  iter_params :: nat
  iter_type :: iter_type
  iter_index :: nat

datatype iter_result = IterDone | IterPair string string | IterString string

definition URLSearchParamsIterator_create :: "nat \<Rightarrow> iter_type \<Rightarrow> params_iter" where
  "URLSearchParamsIterator_create params ty = \<lparr>iter_params = params, iter_type = ty, iter_index = 0\<rparr>"

definition URLSearchParamsIterator_next :: "params_iter \<Rightarrow> 'u heap \<Rightarrow> iter_result \<times> params_iter" where
  "URLSearchParamsIterator_next self h =
     (case params_at (iter_params self) (iter_index self) h of
        None \<Rightarrow> (IterDone, self)
      | Some (name, v) \<Rightarrow>
          ((case iter_type self of
              ITERTYPE_ENTRIES \<Rightarrow> IterPair name v
            | ITERTYPE_KEYS \<Rightarrow> IterString name
            | ITERTYPE_VALUES \<Rightarrow> IterString v),
           self\<lparr>iter_index := iter_index self + 1\<rparr>))"

definition URLSearchParams_entries :: "nat \<Rightarrow> params_iter" where
  "URLSearchParams_entries self = URLSearchParamsIterator_create self ITERTYPE_ENTRIES"

definition URLSearchParams_keys :: "nat \<Rightarrow> params_iter" where
  "URLSearchParams_keys self = URLSearchParamsIterator_create self ITERTYPE_KEYS"

definition URLSearchParams_values :: "nat \<Rightarrow> params_iter" where
  "URLSearchParams_values self = URLSearchParamsIterator_create self ITERTYPE_VALUES"

subsection \<open>Constructors and accessors\<close>

text \<open>
  The argument of the constructor is \<open>params_val\<close>; \<open>initv\<close> is what the engine reports of it when
  it is looked at as a sequence or record.
\<close>

definition URLSearchParams_create ::
    "'u url_crate \<Rightarrow> ('v \<Rightarrow> string option) \<Rightarrow> 'v \<Rightarrow> 'v init_value \<Rightarrow> 'u heap \<Rightarrow> js_error + nat \<times> 'u heap" where
  "URLSearchParams_create U enc params_val initv h =
     (let (params, h) = new_params h
      in rbind (maybe_consume_sequence_or_record (append_impl U enc params) initv h
                  ''URLSearchParams'' '', or a value that can be stringified'') (\<lambda>(consumed, h).
           if \<not> consumed
           then rbind (encode_spec_string enc params_val) (\<lambda>init_str.
                  Inr (params, params_init U params init_str h))
           else Inr (params, h)))"

definition URLSearchParams_constructor ::
    "'u url_crate \<Rightarrow> ('v \<Rightarrow> string option) \<Rightarrow> 'v \<Rightarrow> 'v init_value \<Rightarrow> 'u heap \<Rightarrow> js_error + 'v rval \<times> 'u heap" where
  "URLSearchParams_constructor U enc params_val initv h =
     rbind (URLSearchParams_create U enc params_val initv h) (\<lambda>(self, h). Inr (RParams self, h))"

definition URLSearchParams_create_from_url :: "'u url_crate \<Rightarrow> nat \<Rightarrow> 'u heap \<Rightarrow> nat \<times> 'u heap" where
  "URLSearchParams_create_from_url U url h = url_search_params U url h"

definition URL_field_get :: "'u url_crate \<Rightarrow> field \<Rightarrow> nat \<Rightarrow> 'u heap \<Rightarrow> js_error + 'v rval" where
  "URL_field_get U f self h = Inr (RStr (get_field U f self h))"

definition URL_field_set ::
    "'u url_crate \<Rightarrow> ('v \<Rightarrow> string option) \<Rightarrow> field \<Rightarrow> nat \<Rightarrow> 'v list \<Rightarrow> 'u heap \<Rightarrow> js_error + 'v rval \<times> 'u heap" where
  "URL_field_set U enc f self args h =
     require_at_least 1 args (\<lambda>_.
     rbind (encode_spec_string enc (args ! 0)) (\<lambda>str.
       Inr (RArg (args ! 0), set_field U f self str h)))"

definition URL_origin :: "'u url_crate \<Rightarrow> nat \<Rightarrow> 'u heap \<Rightarrow> js_error + 'v rval" where
  "URL_origin U self h = Inr (RStr (quirk_origin U (crate_url (urls h ! self))))"

definition URL_searchParams_get :: "'u url_crate \<Rightarrow> nat \<Rightarrow> 'u heap \<Rightarrow> js_error + 'v rval \<times> 'u heap" where
  "URL_searchParams_get U self h =
     (case params_slot (urls h ! self) of
        None \<Rightarrow>
          let (params, h) = URLSearchParams_create_from_url U self h
          in Inr (RParams params, upd_url self (\<lambda>url. url\<lparr>params_slot := Some params\<rparr>) h)
      | Some params \<Rightarrow> Inr (RParams params, h))"

definition URL_toString :: "'u url_crate \<Rightarrow> nat \<Rightarrow> 'u heap \<Rightarrow> js_error + 'v rval" where
  "URL_toString U self h = URL_field_get U Href self h"

definition URL_toJSON :: "'u url_crate \<Rightarrow> nat \<Rightarrow> 'u heap \<Rightarrow> js_error + 'v rval" where
  "URL_toJSON U self h = URL_field_get U Href self h"

definition not_a_valid_url :: "string \<Rightarrow> js_error" where
  "not_a_valid_url s = ReportError (''URL constructor: '' @ c_string s @ '' is not a valid URL.'')"

definition URL_create_str ::
    "'u url_crate \<Rightarrow> string \<Rightarrow> nat option \<Rightarrow> 'u heap \<Rightarrow> js_error + nat \<times> 'u heap" where
  "URL_create_str U url_str base h =
     (case (case base of
              Some b \<Rightarrow> new_jsurl_with_base U url_str b h
            | None \<Rightarrow> new_jsurl U url_str h) of
        None \<Rightarrow> Inl (not_a_valid_url url_str)
      | Some (url, h) \<Rightarrow> Inr (url, h))"

definition URL_create_base ::
    "'u url_crate \<Rightarrow> ('v \<Rightarrow> string option) \<Rightarrow> 'v \<Rightarrow> nat option \<Rightarrow> 'u heap \<Rightarrow> js_error + nat \<times> 'u heap" where
  "URL_create_base U enc url_val base h =
     rbind (encode_spec_string enc url_val) (\<lambda>str. URL_create_str U str base h)"

definition URL_create_base_obj ::
    "'u url_crate \<Rightarrow> ('v \<Rightarrow> string option) \<Rightarrow> 'v \<Rightarrow> nat \<Rightarrow> 'u heap \<Rightarrow> js_error + nat \<times> 'u heap" where
  "URL_create_base_obj U enc url_val base_obj h = URL_create_base U enc url_val (Some base_obj) h"

datatype 'v base_value = BaseUndefined | BaseURL nat | BaseValue 'v

definition URL_create ::
    "'u url_crate \<Rightarrow> ('v \<Rightarrow> string option) \<Rightarrow> 'v \<Rightarrow> 'v base_value \<Rightarrow> 'u heap \<Rightarrow> js_error + nat \<times> 'u heap" where
  "URL_create U enc url_val base_val h =
     (case base_val of
        BaseURL base_obj \<Rightarrow> URL_create_base_obj U enc url_val base_obj h
      | BaseUndefined \<Rightarrow> URL_create_base U enc url_val None h
      | BaseValue v \<Rightarrow>
          rbind (encode_spec_string enc v) (\<lambda>str.
            (case new_jsurl U str h of
               None \<Rightarrow> Inl (not_a_valid_url str)
             | Some (base, h) \<Rightarrow> URL_create_base U enc url_val (Some base) h)))"

definition URL_constructor ::
    "'u url_crate \<Rightarrow> ('v \<Rightarrow> string option) \<Rightarrow> 'v list \<Rightarrow> 'v base_value \<Rightarrow> 'u heap \<Rightarrow> js_error + nat \<times> 'u heap" where
  "URL_constructor U enc args base_val h =
     require_at_least 1 args (\<lambda>_. URL_create U enc (args ! 0) base_val h)"


subsection \<open>What is relied on of the crate\<close>

text \<open>
  Clearing the query leaves no pairs, the serialization of a query's pairs replaces the query, and
  parsing it gives the pairs back; only the setters of \<open>href\<close> and \<open>search\<close> touch the query.  A
  serialization never starts with a question mark, which it percent-encodes.
\<close>

definition url_laws :: "'u url_crate \<Rightarrow> bool" where
  "url_laws U \<longleftrightarrow>
     (\<forall>u. query U (clear_query U u) = None \<and> query_pairs U (clear_query U u) = []) \<and>
     (\<forall>u ps. ps \<noteq> [] \<longrightarrow> query U (extend_query U u ps) = Some (form_serialize U ps)
                        \<and> query_pairs U (extend_query U u ps) = ps) \<and>
     (\<forall>f u s. f \<noteq> Href \<and> f \<noteq> Search \<longrightarrow> query_pairs U (quirk_set U f u s) = query_pairs U u) \<and>
     form_serialize U [] = [] \<and>
     (\<forall>ps. form_parse U (form_serialize U ps) = ps) \<and>
     (\<forall>ps s. form_serialize U ps \<noteq> CHR ''?'' # s)"

lemma url_lawsD:
  assumes "url_laws U"
  shows "query U (clear_query U u) = None" "query_pairs U (clear_query U u) = []"
    "ps \<noteq> [] \<Longrightarrow> query U (extend_query U u ps) = Some (form_serialize U ps)"
    "ps \<noteq> [] \<Longrightarrow> query_pairs U (extend_query U u ps) = ps"
    "f \<noteq> Href \<Longrightarrow> f \<noteq> Search \<Longrightarrow> query_pairs U (quirk_set U f u s) = query_pairs U u"
    "form_serialize U [] = []" "form_parse U (form_serialize U ps) = ps"
    "form_serialize U ps \<noteq> CHR ''?'' # s"
  using assms by (simp_all add: url_laws_def)

subsection \<open>The heap invariant\<close>

text \<open>
  A URL and its parameters point at each other and agree on the pairs; parameters without a URL
  keep the serialization of their list; a cached \<open>searchParams\<close> object is the URL's.
\<close>

definition url_ok :: "'u heap \<Rightarrow> nat \<Rightarrow> bool" where
  "url_ok h u \<longleftrightarrow>
     (case params_ptr (urls h ! u) of
        None \<Rightarrow> params_slot (urls h ! u) = None
      | Some p \<Rightarrow> p < length (params_objs h) \<and> url_or_str (params_objs h ! p) = OfUrl u
                  \<and> params_slot (urls h ! u) \<in> {None, Some p})"

definition params_ok :: "'u url_crate \<Rightarrow> 'u heap \<Rightarrow> nat \<Rightarrow> bool" where
  "params_ok U h p \<longleftrightarrow>
     (case url_or_str (params_objs h ! p) of
        OfUrl u \<Rightarrow> u < length (urls h) \<and> params_ptr (urls h ! u) = Some p
                   \<and> plist (params_objs h ! p) = query_pairs U (crate_url (urls h ! u))
      | OfStr s \<Rightarrow> s = form_serialize U (plist (params_objs h ! p)))"

definition heap_ok :: "'u url_crate \<Rightarrow> 'u heap \<Rightarrow> bool" where
  "heap_ok U h \<longleftrightarrow> (\<forall>u<length (urls h). url_ok h u) \<and> (\<forall>p<length (params_objs h). params_ok U h p)"

lemma upd_url_sel [simp]:
  "urls (upd_url u f h) = (urls h)[u := f (urls h ! u)]" "params_objs (upd_url u f h) = params_objs h"
  by (simp_all add: upd_url_def)

lemma upd_params_sel [simp]:
  "urls (upd_params p f h) = urls h"
  "params_objs (upd_params p f h) = (params_objs h)[p := f (params_objs h ! p)]"
  by (simp_all add: upd_params_def)

lemma nth_update_cond: "i < length xs \<Longrightarrow> xs[j := y] ! i = (if i = j then y else xs ! i)"
  by (simp add: nth_list_update)

lemma change_list_ok:
  assumes "url_laws U" and "heap_ok U h" and "p < length (params_objs h)"
  shows "heap_ok U (change_list U p f h)"
proof (cases "url_or_str (params_objs h ! p)")
  case (OfUrl u)
  then have p: "u < length (urls h)" "params_ptr (urls h ! u) = Some p"
    using assms(2,3) by (auto simp: heap_ok_def params_ok_def)
  have other: "params_ok U h q \<Longrightarrow> q \<noteq> p \<Longrightarrow> url_or_str (params_objs h ! q) \<noteq> OfUrl u" for q
    using p by (auto simp: params_ok_def)
  show ?thesis
    unfolding heap_ok_def
  proof (intro conjI allI impI)
    fix v assume "v < length (urls (change_list U p f h))"
    then have "v < length (urls h)" using OfUrl by (simp add: change_list_def update_url_or_str_def assms(3))
    with assms(2) have "url_ok h v" by (simp add: heap_ok_def)
    then show "url_ok (change_list U p f h) v"
      using OfUrl p assms(3) \<open>v < length (urls h)\<close>
      by (auto simp: change_list_def update_url_or_str_def url_ok_def nth_update_cond Let_def
          split: option.splits)
  next
    fix q assume "q < length (params_objs (change_list U p f h))"
    then have q: "q < length (params_objs h)" using OfUrl by (simp add: change_list_def update_url_or_str_def assms(3))
    with assms(2) have "params_ok U h q" by (simp add: heap_ok_def)
    then show "params_ok U (change_list U p f h) q"
      using OfUrl p q assms(3) other [of q]
      by (auto simp: change_list_def update_url_or_str_def params_ok_def nth_update_cond Let_def
          url_lawsD [OF assms(1)] split: url_or_str.splits)
  qed
next
  case (OfStr s)
  show ?thesis
    unfolding heap_ok_def
  proof (intro conjI allI impI)
    fix v assume "v < length (urls (change_list U p f h))"
    then have v: "v < length (urls h)" using OfStr by (simp add: change_list_def update_url_or_str_def assms(3))
    with assms(2) have "url_ok h v" by (simp add: heap_ok_def)
    then show "url_ok (change_list U p f h) v"
      using OfStr assms(3) v
      by (auto simp: change_list_def update_url_or_str_def url_ok_def nth_update_cond Let_def
          split: option.splits)
  next
    fix q assume "q < length (params_objs (change_list U p f h))"
    then have q: "q < length (params_objs h)" using OfStr by (simp add: change_list_def update_url_or_str_def assms(3))
    with assms(2) have "params_ok U h q" by (simp add: heap_ok_def)
    then show "params_ok U (change_list U p f h) q"
      using OfStr q assms(3)
      by (auto simp: change_list_def update_url_or_str_def params_ok_def nth_update_cond Let_def
          split: url_or_str.splits)
  qed
qed

lemma change_list_length [simp]:
  "length (params_objs (change_list U p f h)) = length (params_objs h)"
  "length (urls (change_list U p f h)) = length (urls h)"
  by (auto simp: change_list_def update_url_or_str_def Let_def split: url_or_str.splits)

lemma change_list_plist:
  assumes "p < length (params_objs h)"
  shows "plist (params_objs (change_list U p f h) ! p) = f (plist (params_objs h ! p))"
  using assms by (auto simp: change_list_def update_url_or_str_def Let_def split: url_or_str.splits)

lemma change_list_str:
  assumes "url_laws U" and "heap_ok U h" and "p < length (params_objs h)"
  shows "params_to_string U p (change_list U p f h) = form_serialize U (f (plist (params_objs h ! p)))"
  using assms
  by (auto simp: change_list_def update_url_or_str_def Let_def params_to_string_def url_lawsD heap_ok_def
      params_ok_def split: url_or_str.splits)

lemma heap_okI:
  "(\<And>u. u < length (urls h) \<Longrightarrow> url_ok h u) \<Longrightarrow> (\<And>p. p < length (params_objs h) \<Longrightarrow> params_ok U h p)
     \<Longrightarrow> heap_ok U h"
  by (simp add: heap_ok_def)

lemma heap_okD:
  assumes "heap_ok U h"
  shows "u < length (urls h) \<Longrightarrow> url_ok h u" "p < length (params_objs h) \<Longrightarrow> params_ok U h p"
  using assms by (simp_all add: heap_ok_def)

lemma nth_snoc_cond: "i < length xs + 1 \<Longrightarrow> (xs @ [y]) ! i = (if i = length xs then y else xs ! i)"
  by (auto simp: nth_append)

lemma new_params_ok:
  assumes "url_laws U" "heap_ok U h"
  shows "heap_ok U (snd (new_params h))"
proof (rule heap_okI)
  fix u assume "u < length (urls (snd (new_params h)))"
  then have "url_ok h u" using heap_okD(1) [OF assms(2)] by (simp add: new_params_def)
  then show "url_ok (snd (new_params h)) u"
    by (auto simp: new_params_def url_ok_def nth_append split: option.splits)
next
  fix p assume p: "p < length (params_objs (snd (new_params h)))"
  show "params_ok U (snd (new_params h)) p"
  proof (cases "p = length (params_objs h)")
    case True
    then show ?thesis by (simp add: new_params_def params_ok_def url_lawsD(6) [OF assms(1)])
  next
    case False
    with p have "p < length (params_objs h)" by (simp add: new_params_def)
    with heap_okD(2) [OF assms(2) this] show ?thesis
      by (simp add: new_params_def params_ok_def nth_append split: url_or_str.splits)
  qed
qed

lemma alloc_url_ok:
  assumes "heap_ok U h"
  shows "heap_ok U (snd (alloc_url x h))"
proof (rule heap_okI)
  fix u assume u: "u < length (urls (snd (alloc_url x h)))"
  show "url_ok (snd (alloc_url x h)) u"
  proof (cases "u = length (urls h)")
    case True
    then show ?thesis by (simp add: alloc_url_def url_ok_def)
  next
    case False
    with u have "u < length (urls h)" by (simp add: alloc_url_def)
    with heap_okD(1) [OF assms this] show ?thesis
      by (simp add: alloc_url_def url_ok_def nth_append split: option.splits)
  qed
next
  fix p assume "p < length (params_objs (snd (alloc_url x h)))"
  then have "params_ok U h p" using heap_okD(2) [OF assms] by (simp add: alloc_url_def)
  then show "params_ok U (snd (alloc_url x h)) p"
    by (auto simp: alloc_url_def params_ok_def nth_append split: url_or_str.splits)
qed

lemma search_params_ok:
  assumes "heap_ok U h" "u < length (urls h)"
  shows "heap_ok U (snd (url_search_params U u h))"
proof (cases "params_ptr (urls h ! u)")
  case (Some p)
  then show ?thesis using assms by (simp add: url_search_params_def)
next
  case None
  let ?h = "snd (url_search_params U u h)"
  have slot: "params_slot (urls h ! u) = None"
    using heap_okD(1) [OF assms] None by (simp add: url_ok_def)
  show ?thesis
  proof (rule heap_okI)
    fix v assume v: "v < length (urls ?h)"
    then have "v < length (urls h)" using None by (simp add: url_search_params_def Let_def)
    with heap_okD(1) [OF assms(1) this] slot None show "url_ok ?h v"
      by (cases "v = u") (auto simp: url_search_params_def Let_def url_ok_def nth_append split: option.splits)
  next
    fix p assume p: "p < length (params_objs ?h)"
    show "params_ok U ?h p"
    proof (cases "p = length (params_objs h)")
      case True
      then show ?thesis using None assms(2) by (simp add: url_search_params_def Let_def params_ok_def)
    next
      case False
      with p None have "p < length (params_objs h)" by (simp add: url_search_params_def Let_def)
      with heap_okD(2) [OF assms(1) this] None assms(2) show ?thesis
        by (auto simp: url_search_params_def Let_def params_ok_def nth_append nth_update_cond
            split: url_or_str.splits)
    qed
  qed
qed

lemma set_field_ok:
  assumes "url_laws U" "heap_ok U h" "u < length (urls h)"
  shows "heap_ok U (set_field U f u s h)"
proof (rule heap_okI)
  fix v assume "v < length (urls (set_field U f u s h))"
  then have "v < length (urls h)"
    by (auto simp: set_field_def update_params_def Let_def split: if_splits option.splits)
  with heap_okD(1) [OF assms(2) this] heap_okD(1) [OF assms(2,3)] show "url_ok (set_field U f u s h) v"
    by (cases "v = u")
      (auto simp: set_field_def update_params_def Let_def url_ok_def nth_update_cond split: option.splits)
next
  fix p assume "p < length (params_objs (set_field U f u s h))"
  then have "p < length (params_objs h)"
    by (auto simp: set_field_def update_params_def Let_def split: if_splits option.splits)
  moreover have "params_ptr (urls h ! u) = Some p \<Longrightarrow> url_or_str (params_objs h ! p) = OfUrl u"
    using heap_okD(1) [OF assms(2,3)] by (simp add: url_ok_def)
  ultimately show "params_ok U (set_field U f u s h) p"
    using heap_okD(2) [OF assms(2), of p] assms(3)
    by (auto simp: set_field_def update_params_def Let_def params_ok_def nth_update_cond url_lawsD(5) [OF assms(1)]
        split: option.splits url_or_str.splits)
qed

text \<open>The operations of JavaScript code; the objects it holds exist.\<close>

inductive url_step :: "'u url_crate \<Rightarrow> ('v \<Rightarrow> string option) \<Rightarrow> 'u heap \<Rightarrow> 'u heap \<Rightarrow> bool"
  for U :: "'u url_crate" and enc :: "'v \<Rightarrow> string option" where
  new_url: "URL_constructor U enc args base h = Inr (u, h') \<Longrightarrow> (\<And>b. base = BaseURL b \<Longrightarrow> b < length (urls h))
     \<Longrightarrow> url_step U enc h h'"
| new_search_params: "URLSearchParams_constructor U enc v initv h = Inr (r, h') \<Longrightarrow> url_step U enc h h'"
| set_accessor: "u < length (urls h) \<Longrightarrow> URL_field_set U enc f u args h = Inr (r, h') \<Longrightarrow> url_step U enc h h'"
| get_search_params:
    "u < length (urls h) \<Longrightarrow> URL_searchParams_get U u h = Inr (r :: 'v rval, h') \<Longrightarrow> url_step U enc h h'"
| append: "p < length (params_objs h) \<Longrightarrow> URLSearchParams_append U enc p args h = Inr (r, h')
     \<Longrightarrow> url_step U enc h h'"
| delete: "p < length (params_objs h) \<Longrightarrow> URLSearchParams_delete U enc p args h = Inr (r, h')
     \<Longrightarrow> url_step U enc h h'"
| set: "p < length (params_objs h) \<Longrightarrow> URLSearchParams_set U enc p args h = Inr (r, h')
     \<Longrightarrow> url_step U enc h h'"
| sort: "p < length (params_objs h) \<Longrightarrow> URLSearchParams_sort U p h = Inr (r :: 'v rval, h')
     \<Longrightarrow> url_step U enc h h'"

lemmas method_defs = require_at_least_def URLSearchParams_append_def URLSearchParams_delete_def
  URLSearchParams_set_def URLSearchParams_sort_def append_impl_def params_append_def params_delete_def
  params_set_def params_sort_def encode_spec_string_def

lemma append_impl_ok:
  assumes "append_impl U enc p h k v = Inr h'" "url_laws U" "heap_ok U h" "p < length (params_objs h)"
  shows "heap_ok U h' \<and> p < length (params_objs h')"
  using assms by (auto simp: method_defs rbind_eq_Inr change_list_ok split: option.splits)

lemma params_create_ok:
  assumes "URLSearchParams_create U enc v initv h = Inr (p, h')" "url_laws U" "heap_ok U h"
  shows "heap_ok U h' \<and> p < length (params_objs h')"
proof -
  let ?p = "length (params_objs h)"
  let ?P = "\<lambda>h. heap_ok U h \<and> ?p < length (params_objs h)"
  from assms(1) obtain c h1 where
    m: "maybe_consume_sequence_or_record (append_impl U enc ?p) initv (snd (new_params h))
          ''URLSearchParams'' '', or a value that can be stringified'' = Inr (c, h1)"
    and c: "p = ?p" "c \<and> h' = h1 \<or> (\<exists>s. h' = params_init U ?p s h1)"
    by (auto simp: URLSearchParams_create_def new_params_def rbind_eq_Inr split: if_splits)
  have "?P (snd (new_params h))" using new_params_ok [OF assms(2,3)] by (simp add: new_params_def)
  with m have "?P h1"
    by (rule maybe_consume_invariant [where P = ?P]) (simp_all add: append_impl_ok [OF _ assms(2)])
  with c show ?thesis by (auto simp: params_init_def Let_def change_list_ok assms(2))
qed

lemma new_jsurl_ok: "new_jsurl U s h = Some (u, h') \<Longrightarrow> heap_ok U h \<Longrightarrow> heap_ok U h' \<and> u < length (urls h')"
  using alloc_url_ok [of U h] by (auto simp: new_jsurl_def alloc_url_def split: option.splits)

lemma new_jsurl_with_base_ok:
  "new_jsurl_with_base U s b h = Some (u, h') \<Longrightarrow> heap_ok U h \<Longrightarrow> heap_ok U h' \<and> u < length (urls h')"
  using alloc_url_ok [of U h] by (auto simp: new_jsurl_with_base_def alloc_url_def split: option.splits)

lemma URL_create_base_ok:
  "URL_create_base U enc v base h = Inr (u, h') \<Longrightarrow> heap_ok U h \<Longrightarrow> heap_ok U h'"
  by (auto simp: URL_create_base_def URL_create_str_def rbind_eq_Inr split: option.splits
      dest: new_jsurl_ok new_jsurl_with_base_ok)

lemma URL_constructor_ok:
  "URL_constructor U enc args base h = Inr (u, h') \<Longrightarrow> heap_ok U h \<Longrightarrow> heap_ok U h'"
  by (auto simp: URL_constructor_def require_at_least_def URL_create_def URL_create_base_obj_def rbind_eq_Inr
      split: base_value.splits option.splits if_splits dest: URL_create_base_ok new_jsurl_ok)

lemma searchParams_get_ok:
  assumes "URL_searchParams_get U u h = Inr (r, h')" "heap_ok U h" "u < length (urls h)"
  shows "heap_ok U h'"
proof (cases "params_slot (urls h ! u)")
  case (Some p)
  then show ?thesis using assms by (simp add: URL_searchParams_get_def)
next
  case None
  let ?h = "snd (url_search_params U u h)" and ?p = "fst (url_search_params U u h)"
  have ok: "heap_ok U ?h" using search_params_ok [OF assms(2,3)] .
  have len: "length (urls ?h) = length (urls h)" and ptr: "params_ptr (urls ?h ! u) = Some ?p"
    using assms(3) by (auto simp: url_search_params_def Let_def split: option.splits)
  have h': "h' = upd_url u (\<lambda>url. url\<lparr>params_slot := Some ?p\<rparr>) ?h"
    using assms(1) None
    by (auto simp: URL_searchParams_get_def URLSearchParams_create_from_url_def split: prod.splits)
  show ?thesis
  proof (rule heap_okI)
    fix v assume "v < length (urls h')"
    then have "url_ok ?h v" using heap_okD(1) [OF ok] h' len by simp
    with h' ptr len assms(3) \<open>v < length (urls h')\<close> show "url_ok h' v"
      by (cases "v = u") (auto simp: url_ok_def split: option.splits)
  next
    fix p assume "p < length (params_objs h')"
    then have "params_ok U ?h p" using heap_okD(2) [OF ok] h' by simp
    with h' len assms(3) show "params_ok U h' p"
      by (auto simp: params_ok_def nth_list_update split: url_or_str.splits)
  qed
qed

lemma url_step_ok: "url_step U enc h h' \<Longrightarrow> url_laws U \<Longrightarrow> heap_ok U h \<Longrightarrow> heap_ok U h'"
proof (induction rule: url_step.induct)
  case (new_search_params v initv h r h')
  then show ?case
    by (auto simp: URLSearchParams_constructor_def rbind_eq_Inr dest: params_create_ok)
qed (auto simp: method_defs rbind_eq_Inr change_list_ok URL_field_set_def set_field_ok URL_constructor_ok
    searchParams_get_ok split: option.splits if_splits)

definition empty_heap :: "'u heap" where
  "empty_heap = \<lparr>urls = [], params_objs = []\<rparr>"

lemma reachable_heap_ok:
  assumes "(url_step U enc)\<^sup>*\<^sup>* empty_heap h" "url_laws U"
  shows "heap_ok U h"
  using assms(1)
proof (induction rule: rtranclp_induct)
  case base
  then show ?case by (simp add: heap_ok_def empty_heap_def)
next
  case (step y z)
  with assms(2) show ?case by (auto intro: url_step_ok)
qed

subsection \<open>The operations on the list\<close>

lemma retain_loop_found: "retain_loop name (Some i) j l = (filter (\<lambda>kv. fst kv \<noteq> name) l, Some i)"
  by (induction l) auto

lemma retain_loop_none:
  "retain_loop name None i l =
     (case dropWhile (\<lambda>kv. fst kv \<noteq> name) l of
        [] \<Rightarrow> (l, None)
      | kv # r \<Rightarrow> (takeWhile (\<lambda>kv. fst kv \<noteq> name) l @ kv # filter (\<lambda>kv. fst kv \<noteq> name) r,
                   Some (i + length (takeWhile (\<lambda>kv. fst kv \<noteq> name) l))))"
proof (induction l arbitrary: i)
  case (Cons kv l)
  then show ?case
    by (cases "dropWhile (\<lambda>kv. fst kv \<noteq> name) l"; cases "fst kv = name")
      (simp_all add: retain_loop_found del: dropWhile_eq_Nil_conv)
qed simp

lemma set_list_eq:
  "set_list name v l =
     takeWhile (\<lambda>kv. fst kv \<noteq> name) l @ (name, v) # filter (\<lambda>kv. fst kv \<noteq> name) (dropWhile (\<lambda>kv. fst kv \<noteq> name) l)"
proof (cases "dropWhile (\<lambda>kv. fst kv \<noteq> name) l")
  case Nil
  then have "takeWhile (\<lambda>kv. fst kv \<noteq> name) l = l" by (simp add: takeWhile_eq_all_conv)
  then show ?thesis by (simp only: set_list_def retain_loop_none Nil) simp
next
  case (Cons kv r)
  then have k: "fst kv = name" using hd_dropWhile [of "\<lambda>kv. fst kv \<noteq> name" l] by simp
  show ?thesis
    unfolding set_list_def retain_loop_none Cons using k by (simp add: nth_append list_update_append)
qed

lemma set_list_filter:
  "filter (\<lambda>kv. fst kv = name) (set_list name v l) = [(name, v)]"
  "other \<noteq> name \<Longrightarrow> filter (\<lambda>kv. fst kv = other) (set_list name v l) = filter (\<lambda>kv. fst kv = other) l"
proof -
  let ?P = "\<lambda>kv. fst kv \<noteq> name"
  have n: "filter (\<lambda>kv. fst kv = name) (takeWhile ?P l) = []"
    by (auto simp: filter_empty_conv dest: set_takeWhileD)
  show "filter (\<lambda>kv. fst kv = name) (set_list name v l) = [(name, v)]"
    unfolding set_list_eq filter_append n by (auto simp: filter_empty_conv)
  assume "other \<noteq> name"
  then have f: "(\<lambda>kv. fst kv \<noteq> name \<and> fst kv = other) = (\<lambda>kv :: string \<times> string. fst kv = other)" by auto
  have "filter (\<lambda>kv. fst kv = other) l
      = filter (\<lambda>kv. fst kv = other) (takeWhile ?P l @ dropWhile ?P l)" by simp
  with \<open>other \<noteq> name\<close> show "filter (\<lambda>kv. fst kv = other) (set_list name v l) = filter (\<lambda>kv. fst kv = other) l"
    unfolding set_list_eq filter_append by (simp add: f)
qed

text \<open>Iterating over parameters that do not change.\<close>

fun each_pair :: "(string \<Rightarrow> string \<Rightarrow> 's \<times> 'u heap \<Rightarrow> js_error + 's \<times> 'u heap) \<Rightarrow> pairs \<Rightarrow> 's \<times> 'u heap
    \<Rightarrow> js_error + 's \<times> 'u heap" where
  "each_pair callback [] st = Inr st"
| "each_pair callback ((name, v) # l) st = rbind (callback v name st) (each_pair callback l)"

lemma forEach_loop_each:
  assumes "\<And>v name st st'. callback v name st = Inr st' \<Longrightarrow>
      plist (params_objs (snd st') ! p) = plist (params_objs (snd st) ! p)"
  shows "forEach_loop callback p i st = Some (each_pair callback (drop i (plist (params_objs (snd st) ! p))) st)"
proof (induction "length (plist (params_objs (snd st) ! p)) - i" arbitrary: i st)
  case 0
  then show ?case by (subst forEach_loop.simps) (simp add: params_at_def Let_def)
next
  case (Suc n)
  let ?l = "plist (params_objs (snd st) ! p)"
  obtain name v where nv: "?l ! i = (name, v)" by fastforce
  from Suc(2) have i: "i < length ?l" by simp
  then have d: "drop i ?l = (name, v) # drop (i + 1) ?l" using nv Cons_nth_drop_Suc [of i ?l] by simp
  show ?case
  proof (cases "callback v name st")
    case (Inl e)
    then show ?thesis using i nv d by (subst forEach_loop.simps) (simp add: params_at_def Let_def)
  next
    case (Inr st')
    then have l: "plist (params_objs (snd st') ! p) = ?l" by (rule assms)
    then have "forEach_loop callback p (i + 1) st' = Some (each_pair callback (drop (i + 1) ?l) st')"
      using Suc(1) [of st' "i + 1"] Suc(2) by simp
    then show ?thesis using i nv d Inr by (subst forEach_loop.simps) (simp add: params_at_def Let_def)
  qed
qed


lemma sort_names_stable:
  "filter (\<lambda>kv. fst kv = n) (sort_key (\<lambda>kv. encode_utf16 (fst kv)) l) = filter (\<lambda>kv. fst kv = n) (l :: pairs)"
proof -
  let ?f = "\<lambda>kv :: string \<times> string. encode_utf16 (fst kv)"
  have "filter (\<lambda>kv. fst kv = n) m = filter (\<lambda>kv. fst kv = n) (filter (\<lambda>kv. ?f kv = encode_utf16 n) m)" for m
    by (auto intro: filter_cong)
  from this [of "sort_key ?f l"] this [of l] sort_key_stable [of ?f "encode_utf16 n" l] show ?thesis by simp
qed

subsection \<open>A concrete crate\<close>

text \<open>
  An instance for the witnesses: a URL is its list of pairs; a character is serialized as an
  escape of two characters.
\<close>

definition demo_escape :: "string \<Rightarrow> string" where
  "demo_escape s = concat (map (\<lambda>c. [CHR ''%'', c]) s)"

definition demo_serialize :: "pairs \<Rightarrow> string" where
  "demo_serialize ps = concat (map (\<lambda>(k, v). demo_escape k @ ''='' @ demo_escape v @ ''&'') ps)"

fun demo_parse :: "bool \<Rightarrow> string \<Rightarrow> string \<Rightarrow> string \<Rightarrow> pairs" where
  "demo_parse b k v (c # d # s) =
     (if c = CHR ''='' then demo_parse True k v (d # s)
      else if c = CHR ''&'' then (k, v) # demo_parse False [] [] (d # s)
      else if b then demo_parse b k (v @ [d]) s else demo_parse b (k @ [d]) v s)"
| "demo_parse b k v [c] = (if c = CHR ''&'' then [(k, v)] else [])"
| "demo_parse b k v [] = []"

definition demo_crate :: "pairs url_crate" where
  "demo_crate =
    \<lparr>parse = (\<lambda>s. if s = [] then None else Some [(s, [])]),
     join = (\<lambda>u s. Some u),
     quirk_get = (\<lambda>f u. demo_serialize u),
     quirk_set = (\<lambda>f u s. if f = Href \<or> f = Search then [(s, [])] else u),
     quirk_origin = (\<lambda>u. []),
     query = (\<lambda>u. if u = [] then None else Some (demo_serialize u)),
     query_pairs = (\<lambda>u. u),
     clear_query = (\<lambda>u. []),
     extend_query = (\<lambda>u ps. ps),
     form_parse = demo_parse False [] [],
     form_serialize = demo_serialize\<rparr>"

lemma demo_parse_key: "r \<noteq> [] \<Longrightarrow> demo_parse False k v (demo_escape s @ r) = demo_parse False (k @ s) v r"
  by (induction s arbitrary: k) (auto simp: demo_escape_def)

lemma demo_parse_value: "r \<noteq> [] \<Longrightarrow> demo_parse True k v (demo_escape s @ r) = demo_parse True k (v @ s) r"
  by (induction s arbitrary: v) (auto simp: demo_escape_def)

lemma demo_parse_and: "demo_parse b k v (CHR ''&'' # r) = (k, v) # demo_parse False [] [] r"
  by (cases r) auto

lemma demo_parse_eq: "r \<noteq> [] \<Longrightarrow> demo_parse b k v (CHR ''='' # r) = demo_parse True k v r"
  by (cases r) auto

lemma demo_round_trip: "demo_parse False [] [] (demo_serialize ps) = ps"
proof (induction ps)
  case (Cons kv ps)
  obtain k v where kv: "kv = (k, v)" by fastforce
  have "demo_serialize (kv # ps) = demo_escape k @ CHR ''='' # demo_escape v @ CHR ''&'' # demo_serialize ps"
    by (simp add: demo_serialize_def kv)
  with Cons show ?case
    by (simp add: kv demo_parse_key demo_parse_eq demo_parse_value demo_parse_and)
qed (simp add: demo_serialize_def)

lemma demo_laws: "url_laws demo_crate"
proof -
  have "demo_serialize ps \<noteq> CHR ''?'' # s" for ps s
  proof (cases ps)
    case (Cons kv ps')
    then show ?thesis by (cases kv; cases "fst kv") (auto simp: demo_serialize_def demo_escape_def)
  qed (simp add: demo_serialize_def)
  then show ?thesis by (simp add: url_laws_def demo_crate_def demo_round_trip) (simp add: demo_serialize_def)
qed

text \<open>A URL whose \<open>searchParams\<close> have been asked for.\<close>

definition demo_heap :: "pairs heap" where
  "demo_heap =
    \<lparr>urls = [\<lparr>crate_url = [(''q'', [])], params_ptr = Some 0, params_slot = Some 0\<rparr>],
     params_objs = [\<lparr>plist = [(''q'', [])], url_or_str = OfUrl 0\<rparr>]\<rparr>"

lemma demo_heap_reachable: "(url_step demo_crate Some)\<^sup>*\<^sup>* empty_heap demo_heap"
proof -
  let ?h = "\<lparr>urls = [\<lparr>crate_url = [(''q'', [])], params_ptr = None, params_slot = None\<rparr>], params_objs = []\<rparr>"
  have "URL_constructor demo_crate Some [''q''] BaseUndefined empty_heap = Inr (0, ?h)"
    by (simp add: URL_constructor_def require_at_least_def URL_create_def URL_create_base_def
        encode_spec_string_def URL_create_str_def new_jsurl_def alloc_url_def demo_crate_def empty_heap_def)
  then have 1: "url_step demo_crate Some empty_heap ?h" by (rule new_url) simp
  have "URL_searchParams_get demo_crate 0 ?h = Inr (RParams 0 :: string rval, demo_heap)"
    by (simp add: URL_searchParams_get_def URLSearchParams_create_from_url_def url_search_params_def Let_def
        upd_url_def demo_crate_def demo_heap_def)
  then have 2: "url_step demo_crate Some ?h demo_heap" by (rule get_search_params [rotated]) simp
  from 1 2 show ?thesis by (meson r_into_rtranclp rtranclp_trans)
qed

text \<open>The parameters have the list \<open>l\<close>, and \<open>toString\<close> is its serialization.\<close>

definition holds_list :: "'u url_crate \<Rightarrow> nat \<Rightarrow> 'u heap \<Rightarrow> pairs \<Rightarrow> bool" where
  "holds_list U p h l \<longleftrightarrow> plist (params_objs h ! p) = l \<and> params_to_string U p h = form_serialize U l"

primrec run_iterator :: "nat \<Rightarrow> params_iter \<Rightarrow> 'u heap \<Rightarrow> iter_result list" where
  "run_iterator 0 it h = []"
| "run_iterator (Suc n) it h =
     (let (r, it) = URLSearchParamsIterator_next it h in r # run_iterator n it h)"

fun iter_item :: "iter_type \<Rightarrow> string \<times> string \<Rightarrow> iter_result" where
  "iter_item ITERTYPE_ENTRIES (name, v) = IterPair name v"
| "iter_item ITERTYPE_KEYS (name, v) = IterString name"
| "iter_item ITERTYPE_VALUES (name, v) = IterString v"

lemma run_iterator_from:
  "i \<le> length l \<Longrightarrow> l = plist (params_objs h ! p) \<Longrightarrow>
     run_iterator (length l - i + k) \<lparr>iter_params = p, iter_type = ty, iter_index = i\<rparr> h
       = map (iter_item ty) (drop i l) @ replicate k IterDone"
proof (induction "length l - i" arbitrary: i)
  case 0
  then have "run_iterator k \<lparr>iter_params = p, iter_type = ty, iter_index = i\<rparr> h = replicate k IterDone"
    by (induction k) (simp_all add: URLSearchParamsIterator_next_def params_at_def Let_def)
  with 0 show ?case by simp
next
  case (Suc n)
  obtain name v where nv: "l ! i = (name, v)" by fastforce
  have d: "drop i l = (name, v) # drop (i + 1) l" using nv Suc(2) Cons_nth_drop_Suc [of i l] by simp
  have "length l - i = Suc (length l - (i + 1))" using Suc(2) by simp
  moreover have "URLSearchParamsIterator_next \<lparr>iter_params = p, iter_type = ty, iter_index = i\<rparr> h
      = (iter_item ty (name, v), \<lparr>iter_params = p, iter_type = ty, iter_index = i + 1\<rparr>)"
    using Suc(2,4) nv
    by (cases ty) (simp_all add: URLSearchParamsIterator_next_def params_at_def Let_def)
  ultimately show ?case using Suc(1) [of "i + 1"] Suc(2,4) d by simp
qed

subsection \<open>Properties\<close>

text \<open>
  C12. In every heap that JavaScript code can reach through constructors, accessors and
  \<open>URLSearchParams\<close> methods, a URL and its \<open>searchParams\<close> point at each other and agree on the
  query pairs, parameters without a URL keep the serialization of their list, and the cached
  \<open>searchParams\<close> object of a URL is the one its URL points to.
\<close>

theorem url_heap_invariant:
  assumes "url_laws U" and "(url_step U enc)\<^sup>*\<^sup>* empty_heap h"
  shows "(\<forall>u<length (urls h). url_ok h u) \<and> (\<forall>p<length (params_objs h). params_ok U h p)"
  using reachable_heap_ok [OF assms(2,1)] by (simp add: heap_ok_def)

theorem url_heap_invariant_witness:
  "length (urls demo_heap) = 1 \<and> url_ok demo_heap 0 \<and> params_ok demo_crate demo_heap 0"
  using url_heap_invariant [OF demo_laws demo_heap_reachable] by (simp add: demo_heap_def)

text \<open>
  C13. The mutating methods of \<open>URLSearchParams\<close> on reachable objects: \<open>append\<close> adds the pair at
  the end; \<open>delete\<close> removes exactly the pairs of the name; \<open>set\<close> leaves one pair of the name, in
  the place of the first one, and all pairs of other names in their order; \<open>sort\<close> orders by the
  UTF-16 code units of the names and keeps the order of pairs with equal names.  Afterwards
  \<open>toString\<close> is the serialization of the new list.
\<close>

theorem search_params_methods:
  assumes "url_laws U" and "(url_step U enc)\<^sup>*\<^sup>* empty_heap h" and "p < length (params_objs h)"
    and "enc a = Some name" and "enc b = Some v" and "l = plist (params_objs h ! p)"
  shows "(\<exists>h'. URLSearchParams_append U enc p [a, b] h = Inr (RUndefined, h') \<and> holds_list U p h' (l @ [(name, v)])) \<and>
    (\<exists>h'. URLSearchParams_delete U enc p [a] h = Inr (RUndefined, h')
        \<and> holds_list U p h' (filter (\<lambda>kv. fst kv \<noteq> name) l)) \<and>
    (\<exists>h'. URLSearchParams_set U enc p [a, b] h = Inr (RCallee, h')
        \<and> holds_list U p h' (takeWhile (\<lambda>kv. fst kv \<noteq> name) l @ (name, v)
            # filter (\<lambda>kv. fst kv \<noteq> name) (dropWhile (\<lambda>kv. fst kv \<noteq> name) l))) \<and>
    (\<exists>h' l'. URLSearchParams_sort U p h = Inr (RUndefined :: 'v rval, h') \<and> holds_list U p h' l'
        \<and> sorted (map (\<lambda>kv. encode_utf16 (fst kv)) l')
        \<and> (\<forall>n. filter (\<lambda>kv. fst kv = n) l' = filter (\<lambda>kv. fst kv = n) l))"
proof -
  have ok: "heap_ok U h" using assms(1,2) by (simp add: reachable_heap_ok)
  have *: "holds_list U p (change_list U p f h) (f l)" for f
    using assms(3,6) change_list_plist change_list_str [OF assms(1) ok assms(3)] by (simp add: holds_list_def)
  show ?thesis
    using assms(4,5) * [of "\<lambda>l. l @ [(name, v)]"] * [of "filter (\<lambda>kv. fst kv \<noteq> name)"] * [of "set_list name v"]
      * [of "sort_key (\<lambda>kv. encode_utf16 (fst kv))"]
    by (auto simp: method_defs set_list_eq sort_names_stable)
qed

theorem search_params_methods_witness:
  "\<exists>h'. URLSearchParams_append demo_crate Some 0 [''a'', ''b''] demo_heap = Inr (RUndefined, h')
      \<and> plist (params_objs h' ! 0) = [(''q'', []), (''a'', ''b'')]"
proof -
  have p: "0 < length (params_objs demo_heap)" by (simp add: demo_heap_def)
  from search_params_methods [OF demo_laws demo_heap_reachable p, of "''a''" "''a''" "''b''" "''b''"]
  show ?thesis by (simp add: demo_heap_def holds_list_def) blast
qed

text \<open>
  \<open>get\<close> returns the value of the first pair of the name unless that value is empty: then it
  returns \<open>null\<close>, as for a missing name, although \<open>has\<close> is true and \<open>getAll\<close> has the empty string.
\<close>

theorem get_empty_value_is_null:
  assumes "enc a = Some name"
  shows "URLSearchParams_get enc p [a] h =
      (case map_of (plist (params_objs h ! p)) name of
         None \<Rightarrow> Inr RNull
       | Some v \<Rightarrow> Inr (if v = [] then RNull else RStr v))
    \<and> URLSearchParams_has enc p [a] h = Inr (RBool (map_of (plist (params_objs h ! p)) name \<noteq> None))
    \<and> URLSearchParams_getAll enc p [a] h =
      Inr (RArray (map snd (filter (\<lambda>kv. fst kv = name) (plist (params_objs h ! p)))))"
proof -
  have f: "find (\<lambda>kv. fst kv = name) l = map_option (Pair name) (map_of l name)" for l :: pairs
    by (induction l) auto
  show ?thesis
    using assms
    by (auto simp: URLSearchParams_get_def URLSearchParams_has_def URLSearchParams_getAll_def require_at_least_def
        encode_spec_string_def params_get_def params_has_def params_get_all_def slice_of_def f split: option.splits)
qed

theorem get_empty_value_is_null_witness:
  "URLSearchParams_get Some 0 [''q''] demo_heap = Inr RNull
    \<and> URLSearchParams_has Some 0 [''q''] demo_heap = Inr (RBool True)
    \<and> URLSearchParams_getAll Some 0 [''q''] demo_heap = Inr (RArray [''''])"
  using get_empty_value_is_null [where enc = Some and a = "''q''" and name = "''q''" and p = 0 and h = demo_heap]
  by (simp add: demo_heap_def)

text \<open>
  C14. Constructing parameters from the serialization of a list, with or without a leading question
  mark, gives a new object with exactly that list, whose \<open>toString\<close> is the serialization again.
\<close>

theorem search_params_round_trip:
  assumes "url_laws U" and "heap_ok U h"
    and "enc x = Some (form_serialize U l) \<or> enc x = Some (CHR ''?'' # form_serialize U l)"
  shows "\<exists>h'. URLSearchParams_constructor U enc x InitPrimitive h = Inr (RParams (length (params_objs h)), h')
      \<and> length (params_objs h') = length (params_objs h) + 1
      \<and> plist (params_objs h' ! length (params_objs h)) = l
      \<and> params_to_string U (length (params_objs h)) h' = form_serialize U l"
proof -
  let ?p = "length (params_objs h)" and ?h = "snd (new_params h)"
  from assms(3) obtain s where s: "enc x = Some s" "s = form_serialize U l \<or> s = CHR ''?'' # form_serialize U l"
    by auto
  have "(if length s > 0 \<and> s ! 0 = CHR ''?'' then drop 1 s else s) = form_serialize U l"
    using s(2) url_lawsD(8) [OF assms(1), of l] by (cases s) (auto dest: sym)
  then have i: "params_init U ?p s ?h = change_list U ?p (\<lambda>_. l) ?h"
    by (simp only: params_init_def Let_def url_lawsD(7) [OF assms(1)])
  have p: "?p < length (params_objs ?h)" by (simp add: new_params_def)
  have "URLSearchParams_constructor U enc x InitPrimitive h = Inr (RParams ?p, change_list U ?p (\<lambda>_. l) ?h)"
    using s(1) i by (simp add: URLSearchParams_constructor_def URLSearchParams_create_def new_params_def
        maybe_consume_sequence_or_record_def encode_spec_string_def)
  with change_list_plist [OF p, of U "\<lambda>_. l"] change_list_str [OF assms(1) new_params_ok [OF assms(1,2)] p, of "\<lambda>_. l"]
  show ?thesis by (simp add: new_params_def)
qed

theorem search_params_round_trip_witness:
  "\<exists>h'. URLSearchParams_constructor demo_crate Some ''?%a=%b&'' InitPrimitive demo_heap = Inr (RParams 1, h')
      \<and> plist (params_objs h' ! 1) = [(''a'', ''b'')]"
proof -
  have "form_serialize demo_crate [(''a'', ''b'')] = ''%a=%b&''"
    by (simp add: demo_crate_def demo_serialize_def demo_escape_def)
  with search_params_round_trip [OF demo_laws reachable_heap_ok [OF demo_heap_reachable demo_laws],
      of Some "''?%a=%b&''" "[(''a'', ''b'')]"]
  show ?thesis by (simp add: demo_heap_def) blast
qed


text \<open>
  \<open>forEach\<close> returns if its callback leaves the list alone: it calls the callback once for each
  pair in order, with the value first, and stops at the first exception.  The iterators of
  \<open>entries\<close>, \<open>keys\<close> and \<open>values\<close> yield the same pairs in the same order, and are done ever after.
\<close>

theorem search_params_iteration:
  assumes "callable f = Some callback"
    and "\<And>v name st st'. callback v name st = Inr st' \<Longrightarrow>
      plist (params_objs (snd st') ! p) = plist (params_objs (snd st) ! p)"
    and "l = plist (params_objs (snd st) ! p)"
  shows "URLSearchParams_forEach callable p (f # args) st = Some (each_pair callback l st) \<and>
    run_iterator (length l + k) (URLSearchParams_entries p) (snd st)
      = map (\<lambda>kv. IterPair (fst kv) (snd kv)) l @ replicate k IterDone \<and>
    run_iterator (length l + k) (URLSearchParams_keys p) (snd st)
      = map (\<lambda>kv. IterString (fst kv)) l @ replicate k IterDone \<and>
    run_iterator (length l + k) (URLSearchParams_values p) (snd st)
      = map (\<lambda>kv. IterString (snd kv)) l @ replicate k IterDone"
proof -
  have items: "iter_item ITERTYPE_ENTRIES = (\<lambda>kv. IterPair (fst kv) (snd kv))"
    "iter_item ITERTYPE_KEYS = (\<lambda>kv. IterString (fst kv))" "iter_item ITERTYPE_VALUES = (\<lambda>kv. IterString (snd kv))"
    by auto
  have "forEach_loop callback p 0 st = Some (each_pair callback l st)"
    using forEach_loop_each [of callback p 0 st] assms(2,3) by simp
  with assms(1) run_iterator_from [of 0 l "snd st" p k] assms(3) items show ?thesis
    by (simp add: URLSearchParams_forEach_def URLSearchParams_entries_def URLSearchParams_keys_def
        URLSearchParams_values_def URLSearchParamsIterator_create_def)
qed

text \<open>A callback that counts its calls.\<close>

definition count_calls :: "string \<Rightarrow> string \<Rightarrow> nat \<times> pairs heap \<Rightarrow> js_error + nat \<times> pairs heap" where
  "count_calls v name st = Inr (fst st + 1, snd st)"

theorem search_params_iteration_witness:
  "URLSearchParams_forEach Some 0 [count_calls] (0, demo_heap) = Some (Inr (1, demo_heap))
    \<and> run_iterator 2 (URLSearchParams_keys 0) demo_heap = [IterString ''q'', IterDone]"
proof -
  have "\<And>v name st st'. count_calls v name st = Inr st' \<Longrightarrow>
      plist (params_objs (snd st') ! 0) = plist (params_objs (snd st) ! 0)"
    by (auto simp: count_calls_def)
  note t = search_params_iteration [of Some count_calls count_calls 0 "[(''q'', [])]" "(0, demo_heap)" "[]" 1,
      OF refl this]
  show ?thesis using t by (simp add: demo_heap_def count_calls_def numeral_2_eq_2)
qed

end
