(* ===== verification/Canonical_Abi.thy ===== *)
theory Canonical_Abi
  imports Prelude
begin

section \<open>The canonical ABI of the WebAssembly component model\<close>

text \<open>
  The reference against which the generated bindings of the host API are checked: how a value of an
  interface type lies in linear memory (\<open>abi_load\<close>) and how it is read back from flat core values
  (\<open>abi_lift\<close>), as the component-model explainer defines them in \<open>CanonicalABI.md\<close>.  Only the
  types of the functions that StarlingMonkey calls are there: integers, strings and lists (a
  \<open>Span\<close>: pointer and length), resource handles, records and variants.  An \<open>option\<close>, a \<open>result\<close>
  and an \<open>enum\<close> are variants.  This theory models no code of the repository.
\<close>

subsection \<open>Types and values\<close>

datatype wit =
    U8 | U16 | U32 | U64
  | Span
  | Handle
  | Rec "wit list"
  | Variant "wit option list"

abbreviation wit_option :: "wit \<Rightarrow> wit" where
  "wit_option t \<equiv> Variant [None, Some t]"

abbreviation wit_result :: "wit option \<Rightarrow> wit option \<Rightarrow> wit" where
  "wit_result ok err \<equiv> Variant [ok, err]"

datatype wval =
    WU8 byte | WU16 "16 word" | WU32 "32 word" | WU64 "64 word"
  | WSpan "32 word" "32 word"
  | WHandle "32 word"
  | WRec "wval list"
  | WVariant nat "wval option"

fun wval_option :: "('a \<Rightarrow> wval) \<Rightarrow> 'a option \<Rightarrow> wval" where
  "wval_option f None = WVariant 0 None"
| "wval_option f (Some x) = WVariant 1 (Some (f x))"

subsection \<open>Linear memory\<close>

type_synonym addr = "32 word"
type_synonym mem = "addr \<Rightarrow> byte"

definition load_u8 :: "mem \<Rightarrow> addr \<Rightarrow> byte" where
  "load_u8 m a = m a"

definition load_u16 :: "mem \<Rightarrow> addr \<Rightarrow> 16 word" where
  "load_u16 m a = word_rcat [m (a + 1), m a]"

definition load_i32 :: "mem \<Rightarrow> addr \<Rightarrow> 32 word" where
  "load_i32 m a = word_rcat [m (a + 3), m (a + 2), m (a + 1), m a]"

definition load_i64 :: "mem \<Rightarrow> addr \<Rightarrow> 64 word" where
  "load_i64 m a = word_rcat (map (\<lambda>i. m (a + of_nat i)) [7, 6, 5, 4, 3, 2, 1, 0])"

text \<open>A discriminant: \<open>(int32_t) (*((uint8_t*) a))\<close>.\<close>

definition disc :: "mem \<Rightarrow> addr \<Rightarrow> nat" where
  "disc m a = unat (load_u8 m a)"

subsection \<open>Layout\<close>

definition align_to :: "nat \<Rightarrow> nat \<Rightarrow> nat" where
  "align_to p a = (p + a - 1) div a * a"

fun abi_align :: "wit \<Rightarrow> nat" where
  "abi_align U8 = 1"
| "abi_align U16 = 2"
| "abi_align U32 = 4"
| "abi_align U64 = 8"
| "abi_align Span = 4"
| "abi_align Handle = 4"
| "abi_align (Rec ts) = foldr max (map abi_align ts) 1"
| "abi_align (Variant cs) = foldr max (map (\<lambda>c. case c of None \<Rightarrow> 1 | Some t \<Rightarrow> abi_align t) cs) 1"

text \<open>The offset of the payload of a variant, after its one-byte discriminant.\<close>

definition payload_offset :: "wit option list \<Rightarrow> nat" where
  "payload_offset cs = align_to 1 (foldr max (map (\<lambda>c. case c of None \<Rightarrow> 1 | Some t \<Rightarrow> abi_align t) cs) 1)"

fun abi_size :: "wit \<Rightarrow> nat" where
  "abi_size U8 = 1"
| "abi_size U16 = 2"
| "abi_size U32 = 4"
| "abi_size U64 = 8"
| "abi_size Span = 8"
| "abi_size Handle = 4"
| "abi_size (Rec ts) =
     align_to (foldl (\<lambda>s (a, z). align_to s a + z) 0 (map (\<lambda>t. (abi_align t, abi_size t)) ts)) (abi_align (Rec ts))"
| "abi_size (Variant cs) =
     align_to (payload_offset cs + foldr max (map (\<lambda>c. case c of None \<Rightarrow> 0 | Some t \<Rightarrow> abi_size t) cs) 0)
       (abi_align (Variant cs))"

text \<open>
  Loading from offset \<open>n\<close> of the area at the aligned address \<open>b\<close>; \<open>None\<close> is the trap on a
  discriminant out of range.
\<close>

function abi_load :: "mem \<Rightarrow> addr \<Rightarrow> nat \<Rightarrow> wit \<Rightarrow> wval option"
  and abi_loads :: "mem \<Rightarrow> addr \<Rightarrow> nat \<Rightarrow> wit list \<Rightarrow> wval list option" where
  "abi_load m b n U8 = Some (WU8 (load_u8 m (b + of_nat n)))"
| "abi_load m b n U16 = Some (WU16 (load_u16 m (b + of_nat n)))"
| "abi_load m b n U32 = Some (WU32 (load_i32 m (b + of_nat n)))"
| "abi_load m b n U64 = Some (WU64 (load_i64 m (b + of_nat n)))"
| "abi_load m b n Span = Some (WSpan (load_i32 m (b + of_nat n)) (load_i32 m (b + of_nat (n + 4))))"
| "abi_load m b n Handle = Some (WHandle (load_i32 m (b + of_nat n)))"
| "abi_load m b n (Rec ts) = map_option WRec (abi_loads m b n ts)"
| "abi_load m b n (Variant cs) =
     (let i = disc m (b + of_nat n)
      in if i < length cs
         then (case cs ! i of
                 None \<Rightarrow> Some (WVariant i None)
               | Some t \<Rightarrow> map_option (\<lambda>v. WVariant i (Some v)) (abi_load m b (n + payload_offset cs) t))
         else None)"
| "abi_loads m b n [] = Some []"
| "abi_loads m b n (t # ts) =
     Option.bind (abi_load m b (align_to n (abi_align t)) t) (\<lambda>v.
       map_option ((#) v) (abi_loads m b (align_to n (abi_align t) + abi_size t) ts))"
  by pat_completeness auto
termination
proof (relation "measure (\<lambda>x. case x of Inl (m, b, n, t) \<Rightarrow> size t | Inr (m, b, n, ts) \<Rightarrow> size_list size ts)",
    goal_cases)
  case (3 m b n cs x t)
  then have "size t < size (Variant cs)"
    using size_list_estimation [of "Some t" cs "size t" "size_option size"] nth_mem [of "disc m (b + of_nat n)" cs]
    by (simp add: le_imp_less_Suc less_imp_le)
  then show ?case by simp
qed simp_all

subsection \<open>Flat values\<close>

datatype core = I32 | I64

datatype core_val = CI32 "32 word" | CI64 "64 word"

fun has_core :: "core \<Rightarrow> core_val \<Rightarrow> bool" where
  "has_core I32 (CI32 w) = True"
| "has_core I64 (CI64 w) = True"
| "has_core _ _ = False"

fun join_flat :: "core list \<Rightarrow> core list \<Rightarrow> core list" where
  "join_flat [] ys = ys"
| "join_flat xs [] = xs"
| "join_flat (x # xs) (y # ys) = (if x = y then x else I64) # join_flat xs ys"

fun abi_flat :: "wit \<Rightarrow> core list" where
  "abi_flat U8 = [I32]"
| "abi_flat U16 = [I32]"
| "abi_flat U32 = [I32]"
| "abi_flat U64 = [I64]"
| "abi_flat Span = [I32, I32]"
| "abi_flat Handle = [I32]"
| "abi_flat (Rec ts) = concat (map abi_flat ts)"
| "abi_flat (Variant cs) =
     I32 # foldl join_flat [] (map (\<lambda>c. case c of None \<Rightarrow> [] | Some t \<Rightarrow> abi_flat t) cs)"

text \<open>A value passed in a joined slot is wrapped to the wanted width.\<close>

fun coerce :: "core \<Rightarrow> core_val \<Rightarrow> core_val" where
  "coerce I32 (CI64 w) = CI32 (ucast w)"
| "coerce _ v = v"

function abi_lift :: "wit \<Rightarrow> core_val list \<Rightarrow> (wval \<times> core_val list) option"
  and abi_lifts :: "wit list \<Rightarrow> core_val list \<Rightarrow> (wval list \<times> core_val list) option" where
  "abi_lift U8 vs = (case vs of CI32 w # vs \<Rightarrow> Some (WU8 (ucast w), vs) | _ \<Rightarrow> None)"
| "abi_lift U16 vs = (case vs of CI32 w # vs \<Rightarrow> Some (WU16 (ucast w), vs) | _ \<Rightarrow> None)"
| "abi_lift U32 vs = (case vs of CI32 w # vs \<Rightarrow> Some (WU32 w, vs) | _ \<Rightarrow> None)"
| "abi_lift U64 vs = (case vs of CI64 w # vs \<Rightarrow> Some (WU64 w, vs) | _ \<Rightarrow> None)"
| "abi_lift Span vs = (case vs of CI32 p # CI32 l # vs \<Rightarrow> Some (WSpan p l, vs) | _ \<Rightarrow> None)"
| "abi_lift Handle vs = (case vs of CI32 w # vs \<Rightarrow> Some (WHandle w, vs) | _ \<Rightarrow> None)"
| "abi_lift (Rec ts) vs = map_option (\<lambda>(xs, vs). (WRec xs, vs)) (abi_lifts ts vs)"
| "abi_lift (Variant cs) vs =
     (case vs of
        CI32 d # vs \<Rightarrow>
          let i = unat d; flat = tl (abi_flat (Variant cs)); now = take (length flat) vs
          in if i < length cs \<and> list_all2 has_core flat now
             then (case cs ! i of
                     None \<Rightarrow> Some (WVariant i None, drop (length flat) vs)
                   | Some t \<Rightarrow>
                       (case abi_lift t (map2 coerce (abi_flat t) now) of
                          Some (v, []) \<Rightarrow> Some (WVariant i (Some v), drop (length flat) vs)
                        | _ \<Rightarrow> None))
             else None
      | _ \<Rightarrow> None)"
| "abi_lifts [] vs = Some ([], vs)"
| "abi_lifts (t # ts) vs =
     Option.bind (abi_lift t vs) (\<lambda>(v, vs). map_option (\<lambda>(xs, vs). (v # xs, vs)) (abi_lifts ts vs))"
  by pat_completeness auto
termination
proof (relation "measure (\<lambda>x. case x of Inl (t, vs) \<Rightarrow> size t | Inr (ts, vs) \<Rightarrow> size_list size ts)", goal_cases)
  case (3 cs vs d r w x flat now t)
  then have "size t < size (Variant cs)"
    using size_list_estimation [of "Some t" cs "size t" "size_option size"] nth_mem [of "unat w" cs]
    by (simp add: le_imp_less_Suc less_imp_le)
  then show ?case by simp
qed simp_all

end
