(* ===== verification/Wasi_Error_Code.thy ===== *)
theory Wasi_Error_Code
  imports Canonical_Abi
begin

section \<open>The generated bindings: error codes\<close>

text \<open>
  Models the functions of \<open>host-apis/wasi-0.2.0/bindings/bindings.c\<close> that take an \<open>error-code\<close> of
  \<open>wasi:http\<close> out of linear memory or hand one to the host: \<open>http_error_code\<close>,
  \<open>future_trailers_get\<close>, \<open>outgoing_body_finish\<close>, \<open>future_incoming_response_get\<close>,
  \<open>outgoing_handler_handle\<close>, \<open>response_outparam_set\<close> and the \<open>free\<close> functions.  The generator
  writes the layout of the type out as numeric offsets again in each of them; here each is
  translated with its own offsets and compared with the canonical ABI.

  An imported function is a parameter that gets the address of the return area and changes the
  memory; the address \<open>ptr\<close> is where the stack has the area.  \<open>None\<close> as the value of a function
  stands for a value that the C code leaves indeterminate, which happens only on a discriminant
  out of range.
\<close>

subsection \<open>Data\<close>

type_synonym handle = "32 word"

text \<open>\<open>bindings_string_t\<close>: pointer and length.\<close>

type_synonym bindings_string = "addr \<times> 32 word"

record dns_error_payload =
  rcode :: "bindings_string option"
  info_code :: "16 word option"

record tls_alert_received_payload =
  alert_id :: "byte option"
  alert_message :: "bindings_string option"

record field_size_payload =
  field_name :: "bindings_string option"
  field_size :: "32 word option"

text \<open>The union of an error code, by the type of the member that is set.\<close>

datatype error_code_val =
    NoVal
  | DnsErrorVal dns_error_payload
  | TlsAlertVal tls_alert_received_payload
  | OptU64Val "64 word option"
  | OptU32Val "32 word option"
  | OptFieldSizeVal "field_size_payload option"
  | FieldSizeVal field_size_payload
  | OptStringVal "bindings_string option"

record error_code =
  err_tag :: byte
  err_val :: error_code_val

text \<open>
  The \<open>switch\<close> over the discriminant of an option and of a result.
\<close>

definition switch_option :: "nat \<Rightarrow> 'a option \<Rightarrow> 'a option option" where
  "switch_option d val = (if d = 0 then Some None else if d = 1 then map_option Some val else None)"

definition switch_result :: "nat \<Rightarrow> 'a option \<Rightarrow> 'e option \<Rightarrow> ('e + 'a) option" where
  "switch_result d ok err =
     (if d = 0 then map_option Inr ok else if d = 1 then map_option Inl err else None)"

definition with_tag :: "byte \<Rightarrow> error_code_val option \<Rightarrow> error_code option" where
  "with_tag tag val = map_option (\<lambda>v. \<lparr>err_tag = tag, err_val = v\<rparr>) val"

subsection \<open>Reading error codes\<close>

definition http_error_code_cases_0_21 :: "mem \<Rightarrow> addr \<Rightarrow> nat \<Rightarrow> error_code_val option" where
  "http_error_code_cases_0_21 m ptr tag =
     (if tag = 0 then Some NoVal
      else if tag = 1 then
        Option.bind (switch_option (disc m (ptr + 16)) (Some (load_i32 m (ptr + 20), load_i32 m (ptr + 24)))) (\<lambda>option.
        Option.bind (switch_option (disc m (ptr + 28)) (Some (load_u16 m (ptr + 30)))) (\<lambda>option0.
        Some (DnsErrorVal \<lparr>rcode = option, info_code = option0\<rparr>)))
      else if 2 \<le> tag \<and> tag \<le> 13 then Some NoVal
      else if tag = 14 then
        Option.bind (switch_option (disc m (ptr + 16)) (Some (load_u8 m (ptr + 17)))) (\<lambda>option1.
        Option.bind (switch_option (disc m (ptr + 20)) (Some (load_i32 m (ptr + 24), load_i32 m (ptr + 28)))) (\<lambda>option2.
        Some (TlsAlertVal \<lparr>alert_id = option1, alert_message = option2\<rparr>)))
      else if 15 \<le> tag \<and> tag \<le> 16 then Some NoVal
      else if tag = 17 then
        Option.bind (switch_option (disc m (ptr + 16)) (Some (load_i64 m (ptr + 24)))) (\<lambda>option3.
        Some (OptU64Val option3))
      else if 18 \<le> tag \<and> tag \<le> 20 then Some NoVal
      else if tag = 21 then
        Option.bind (switch_option (disc m (ptr + 16)) (Some (load_i32 m (ptr + 20)))) (\<lambda>option4.
        Some (OptU32Val option4))
      else None)"

definition http_error_code_cases_22_27 :: "mem \<Rightarrow> addr \<Rightarrow> nat \<Rightarrow> error_code_val option" where
  "http_error_code_cases_22_27 m ptr tag =
     (if tag = 22 then
        Option.bind (switch_option (disc m (ptr + 16)) (Option.bind (switch_option (disc m (ptr + 20)) (Some (load_i32 m (ptr + 24), load_i32 m (ptr + 28)))) (\<lambda>option5.
            Option.bind (switch_option (disc m (ptr + 32)) (Some (load_i32 m (ptr + 36)))) (\<lambda>option6.
            Some \<lparr>field_name = option5, field_size = option6\<rparr>)))) (\<lambda>option7.
        Some (OptFieldSizeVal option7))
      else if tag = 23 then
        Option.bind (switch_option (disc m (ptr + 16)) (Some (load_i32 m (ptr + 20)))) (\<lambda>option8.
        Some (OptU32Val option8))
      else if tag = 24 then
        Option.bind (switch_option (disc m (ptr + 16)) (Some (load_i32 m (ptr + 20), load_i32 m (ptr + 24)))) (\<lambda>option9.
        Option.bind (switch_option (disc m (ptr + 28)) (Some (load_i32 m (ptr + 32)))) (\<lambda>option10.
        Some (FieldSizeVal \<lparr>field_name = option9, field_size = option10\<rparr>)))
      else if tag = 25 then Some NoVal
      else if tag = 26 then
        Option.bind (switch_option (disc m (ptr + 16)) (Some (load_i32 m (ptr + 20)))) (\<lambda>option11.
        Some (OptU32Val option11))
      else if tag = 27 then
        Option.bind (switch_option (disc m (ptr + 16)) (Some (load_i32 m (ptr + 20), load_i32 m (ptr + 24)))) (\<lambda>option12.
        Option.bind (switch_option (disc m (ptr + 28)) (Some (load_i32 m (ptr + 32)))) (\<lambda>option13.
        Some (FieldSizeVal \<lparr>field_name = option12, field_size = option13\<rparr>)))
      else None)"

definition http_error_code_cases_28_38 :: "mem \<Rightarrow> addr \<Rightarrow> nat \<Rightarrow> error_code_val option" where
  "http_error_code_cases_28_38 m ptr tag =
     (if tag = 28 then
        Option.bind (switch_option (disc m (ptr + 16)) (Some (load_i64 m (ptr + 24)))) (\<lambda>option14.
        Some (OptU64Val option14))
      else if tag = 29 then
        Option.bind (switch_option (disc m (ptr + 16)) (Some (load_i32 m (ptr + 20)))) (\<lambda>option15.
        Some (OptU32Val option15))
      else if tag = 30 then
        Option.bind (switch_option (disc m (ptr + 16)) (Some (load_i32 m (ptr + 20), load_i32 m (ptr + 24)))) (\<lambda>option16.
        Option.bind (switch_option (disc m (ptr + 28)) (Some (load_i32 m (ptr + 32)))) (\<lambda>option17.
        Some (FieldSizeVal \<lparr>field_name = option16, field_size = option17\<rparr>)))
      else if tag = 31 then
        Option.bind (switch_option (disc m (ptr + 16)) (Some (load_i32 m (ptr + 20), load_i32 m (ptr + 24)))) (\<lambda>option18.
        Some (OptStringVal option18))
      else if tag = 32 then
        Option.bind (switch_option (disc m (ptr + 16)) (Some (load_i32 m (ptr + 20), load_i32 m (ptr + 24)))) (\<lambda>option19.
        Some (OptStringVal option19))
      else if 33 \<le> tag \<and> tag \<le> 37 then Some NoVal
      else if tag = 38 then
        Option.bind (switch_option (disc m (ptr + 16)) (Some (load_i32 m (ptr + 20), load_i32 m (ptr + 24)))) (\<lambda>option20.
        Some (OptStringVal option20))
      else None)"

definition http_error_code ::
    "(handle \<Rightarrow> addr \<Rightarrow> mem \<Rightarrow> mem) \<Rightarrow> handle \<Rightarrow> addr \<Rightarrow> mem \<Rightarrow> error_code option option \<times> mem" where
  "http_error_code imp err ptr m =
     (let m = imp err ptr m
      in (switch_option (disc m ptr)
            (let tag = load_u8 m (ptr + 8)
             in with_tag tag
            (if unat tag \<le> 21 then http_error_code_cases_0_21 m ptr (unat tag)
             else if unat tag \<le> 27 then http_error_code_cases_22_27 m ptr (unat tag)
             else http_error_code_cases_28_38 m ptr (unat tag))), m))"

definition future_trailers_get_cases_0_21 :: "mem \<Rightarrow> addr \<Rightarrow> nat \<Rightarrow> error_code_val option" where
  "future_trailers_get_cases_0_21 m ptr tag =
     (if tag = 0 then Some NoVal
      else if tag = 1 then
        Option.bind (switch_option (disc m (ptr + 32)) (Some (load_i32 m (ptr + 36), load_i32 m (ptr + 40)))) (\<lambda>option0.
        Option.bind (switch_option (disc m (ptr + 44)) (Some (load_u16 m (ptr + 46)))) (\<lambda>option1.
        Some (DnsErrorVal \<lparr>rcode = option0, info_code = option1\<rparr>)))
      else if 2 \<le> tag \<and> tag \<le> 13 then Some NoVal
      else if tag = 14 then
        Option.bind (switch_option (disc m (ptr + 32)) (Some (load_u8 m (ptr + 33)))) (\<lambda>option2.
        Option.bind (switch_option (disc m (ptr + 36)) (Some (load_i32 m (ptr + 40), load_i32 m (ptr + 44)))) (\<lambda>option3.
        Some (TlsAlertVal \<lparr>alert_id = option2, alert_message = option3\<rparr>)))
      else if 15 \<le> tag \<and> tag \<le> 16 then Some NoVal
      else if tag = 17 then
        Option.bind (switch_option (disc m (ptr + 32)) (Some (load_i64 m (ptr + 40)))) (\<lambda>option4.
        Some (OptU64Val option4))
      else if 18 \<le> tag \<and> tag \<le> 20 then Some NoVal
      else if tag = 21 then
        Option.bind (switch_option (disc m (ptr + 32)) (Some (load_i32 m (ptr + 36)))) (\<lambda>option5.
        Some (OptU32Val option5))
      else None)"

definition future_trailers_get_cases_22_27 :: "mem \<Rightarrow> addr \<Rightarrow> nat \<Rightarrow> error_code_val option" where
  "future_trailers_get_cases_22_27 m ptr tag =
     (if tag = 22 then
        Option.bind (switch_option (disc m (ptr + 32)) (Option.bind (switch_option (disc m (ptr + 36)) (Some (load_i32 m (ptr + 40), load_i32 m (ptr + 44)))) (\<lambda>option6.
            Option.bind (switch_option (disc m (ptr + 48)) (Some (load_i32 m (ptr + 52)))) (\<lambda>option7.
            Some \<lparr>field_name = option6, field_size = option7\<rparr>)))) (\<lambda>option8.
        Some (OptFieldSizeVal option8))
      else if tag = 23 then
        Option.bind (switch_option (disc m (ptr + 32)) (Some (load_i32 m (ptr + 36)))) (\<lambda>option9.
        Some (OptU32Val option9))
      else if tag = 24 then
        Option.bind (switch_option (disc m (ptr + 32)) (Some (load_i32 m (ptr + 36), load_i32 m (ptr + 40)))) (\<lambda>option10.
        Option.bind (switch_option (disc m (ptr + 44)) (Some (load_i32 m (ptr + 48)))) (\<lambda>option11.
        Some (FieldSizeVal \<lparr>field_name = option10, field_size = option11\<rparr>)))
      else if tag = 25 then Some NoVal
      else if tag = 26 then
        Option.bind (switch_option (disc m (ptr + 32)) (Some (load_i32 m (ptr + 36)))) (\<lambda>option12.
        Some (OptU32Val option12))
      else if tag = 27 then
        Option.bind (switch_option (disc m (ptr + 32)) (Some (load_i32 m (ptr + 36), load_i32 m (ptr + 40)))) (\<lambda>option13.
        Option.bind (switch_option (disc m (ptr + 44)) (Some (load_i32 m (ptr + 48)))) (\<lambda>option14.
        Some (FieldSizeVal \<lparr>field_name = option13, field_size = option14\<rparr>)))
      else None)"

definition future_trailers_get_cases_28_38 :: "mem \<Rightarrow> addr \<Rightarrow> nat \<Rightarrow> error_code_val option" where
  "future_trailers_get_cases_28_38 m ptr tag =
     (if tag = 28 then
        Option.bind (switch_option (disc m (ptr + 32)) (Some (load_i64 m (ptr + 40)))) (\<lambda>option15.
        Some (OptU64Val option15))
      else if tag = 29 then
        Option.bind (switch_option (disc m (ptr + 32)) (Some (load_i32 m (ptr + 36)))) (\<lambda>option16.
        Some (OptU32Val option16))
      else if tag = 30 then
        Option.bind (switch_option (disc m (ptr + 32)) (Some (load_i32 m (ptr + 36), load_i32 m (ptr + 40)))) (\<lambda>option17.
        Option.bind (switch_option (disc m (ptr + 44)) (Some (load_i32 m (ptr + 48)))) (\<lambda>option18.
        Some (FieldSizeVal \<lparr>field_name = option17, field_size = option18\<rparr>)))
      else if tag = 31 then
        Option.bind (switch_option (disc m (ptr + 32)) (Some (load_i32 m (ptr + 36), load_i32 m (ptr + 40)))) (\<lambda>option19.
        Some (OptStringVal option19))
      else if tag = 32 then
        Option.bind (switch_option (disc m (ptr + 32)) (Some (load_i32 m (ptr + 36), load_i32 m (ptr + 40)))) (\<lambda>option20.
        Some (OptStringVal option20))
      else if 33 \<le> tag \<and> tag \<le> 37 then Some NoVal
      else if tag = 38 then
        Option.bind (switch_option (disc m (ptr + 32)) (Some (load_i32 m (ptr + 36), load_i32 m (ptr + 40)))) (\<lambda>option21.
        Some (OptStringVal option21))
      else None)"

definition future_trailers_get ::
    "(handle \<Rightarrow> addr \<Rightarrow> mem \<Rightarrow> mem) \<Rightarrow> handle \<Rightarrow> addr \<Rightarrow> mem
       \<Rightarrow> (unit + error_code + handle option) option option \<times> mem" where
  "future_trailers_get imp self ptr m =
     (let m = imp self ptr m
      in (switch_option (disc m ptr)
            (switch_result (disc m (ptr + 8))
              (switch_result (disc m (ptr + 16))
                (switch_option (disc m (ptr + 24)) (Some (load_i32 m (ptr + 28))))
                (let tag = load_u8 m (ptr + 24)
                 in with_tag tag
            (if unat tag \<le> 21 then future_trailers_get_cases_0_21 m ptr (unat tag)
             else if unat tag \<le> 27 then future_trailers_get_cases_22_27 m ptr (unat tag)
             else future_trailers_get_cases_28_38 m ptr (unat tag))))
              (Some ())), m))"

definition outgoing_body_finish_cases_0_21 :: "mem \<Rightarrow> addr \<Rightarrow> nat \<Rightarrow> error_code_val option" where
  "outgoing_body_finish_cases_0_21 m ptr tag =
     (if tag = 0 then Some NoVal
      else if tag = 1 then
        Option.bind (switch_option (disc m (ptr + 16)) (Some (load_i32 m (ptr + 20), load_i32 m (ptr + 24)))) (\<lambda>option2.
        Option.bind (switch_option (disc m (ptr + 28)) (Some (load_u16 m (ptr + 30)))) (\<lambda>option3.
        Some (DnsErrorVal \<lparr>rcode = option2, info_code = option3\<rparr>)))
      else if 2 \<le> tag \<and> tag \<le> 13 then Some NoVal
      else if tag = 14 then
        Option.bind (switch_option (disc m (ptr + 16)) (Some (load_u8 m (ptr + 17)))) (\<lambda>option4.
        Option.bind (switch_option (disc m (ptr + 20)) (Some (load_i32 m (ptr + 24), load_i32 m (ptr + 28)))) (\<lambda>option5.
        Some (TlsAlertVal \<lparr>alert_id = option4, alert_message = option5\<rparr>)))
      else if 15 \<le> tag \<and> tag \<le> 16 then Some NoVal
      else if tag = 17 then
        Option.bind (switch_option (disc m (ptr + 16)) (Some (load_i64 m (ptr + 24)))) (\<lambda>option6.
        Some (OptU64Val option6))
      else if 18 \<le> tag \<and> tag \<le> 20 then Some NoVal
      else if tag = 21 then
        Option.bind (switch_option (disc m (ptr + 16)) (Some (load_i32 m (ptr + 20)))) (\<lambda>option7.
        Some (OptU32Val option7))
      else None)"

definition outgoing_body_finish_cases_22_27 :: "mem \<Rightarrow> addr \<Rightarrow> nat \<Rightarrow> error_code_val option" where
  "outgoing_body_finish_cases_22_27 m ptr tag =
     (if tag = 22 then
        Option.bind (switch_option (disc m (ptr + 16)) (Option.bind (switch_option (disc m (ptr + 20)) (Some (load_i32 m (ptr + 24), load_i32 m (ptr + 28)))) (\<lambda>option8.
            Option.bind (switch_option (disc m (ptr + 32)) (Some (load_i32 m (ptr + 36)))) (\<lambda>option9.
            Some \<lparr>field_name = option8, field_size = option9\<rparr>)))) (\<lambda>option10.
        Some (OptFieldSizeVal option10))
      else if tag = 23 then
        Option.bind (switch_option (disc m (ptr + 16)) (Some (load_i32 m (ptr + 20)))) (\<lambda>option11.
        Some (OptU32Val option11))
      else if tag = 24 then
        Option.bind (switch_option (disc m (ptr + 16)) (Some (load_i32 m (ptr + 20), load_i32 m (ptr + 24)))) (\<lambda>option12.
        Option.bind (switch_option (disc m (ptr + 28)) (Some (load_i32 m (ptr + 32)))) (\<lambda>option13.
        Some (FieldSizeVal \<lparr>field_name = option12, field_size = option13\<rparr>)))
      else if tag = 25 then Some NoVal
      else if tag = 26 then
        Option.bind (switch_option (disc m (ptr + 16)) (Some (load_i32 m (ptr + 20)))) (\<lambda>option14.
        Some (OptU32Val option14))
      else if tag = 27 then
        Option.bind (switch_option (disc m (ptr + 16)) (Some (load_i32 m (ptr + 20), load_i32 m (ptr + 24)))) (\<lambda>option15.
        Option.bind (switch_option (disc m (ptr + 28)) (Some (load_i32 m (ptr + 32)))) (\<lambda>option16.
        Some (FieldSizeVal \<lparr>field_name = option15, field_size = option16\<rparr>)))
      else None)"

definition outgoing_body_finish_cases_28_38 :: "mem \<Rightarrow> addr \<Rightarrow> nat \<Rightarrow> error_code_val option" where
  "outgoing_body_finish_cases_28_38 m ptr tag =
     (if tag = 28 then
        Option.bind (switch_option (disc m (ptr + 16)) (Some (load_i64 m (ptr + 24)))) (\<lambda>option17.
        Some (OptU64Val option17))
      else if tag = 29 then
        Option.bind (switch_option (disc m (ptr + 16)) (Some (load_i32 m (ptr + 20)))) (\<lambda>option18.
        Some (OptU32Val option18))
      else if tag = 30 then
        Option.bind (switch_option (disc m (ptr + 16)) (Some (load_i32 m (ptr + 20), load_i32 m (ptr + 24)))) (\<lambda>option19.
        Option.bind (switch_option (disc m (ptr + 28)) (Some (load_i32 m (ptr + 32)))) (\<lambda>option20.
        Some (FieldSizeVal \<lparr>field_name = option19, field_size = option20\<rparr>)))
      else if tag = 31 then
        Option.bind (switch_option (disc m (ptr + 16)) (Some (load_i32 m (ptr + 20), load_i32 m (ptr + 24)))) (\<lambda>option21.
        Some (OptStringVal option21))
      else if tag = 32 then
        Option.bind (switch_option (disc m (ptr + 16)) (Some (load_i32 m (ptr + 20), load_i32 m (ptr + 24)))) (\<lambda>option22.
        Some (OptStringVal option22))
      else if 33 \<le> tag \<and> tag \<le> 37 then Some NoVal
      else if tag = 38 then
        Option.bind (switch_option (disc m (ptr + 16)) (Some (load_i32 m (ptr + 20), load_i32 m (ptr + 24)))) (\<lambda>option23.
        Some (OptStringVal option23))
      else None)"

definition outgoing_body_finish ::
    "(handle \<Rightarrow> 32 word \<Rightarrow> 32 word \<Rightarrow> addr \<Rightarrow> mem \<Rightarrow> mem) \<Rightarrow> handle \<Rightarrow> handle option \<Rightarrow> addr \<Rightarrow> mem
       \<Rightarrow> (error_code + unit) option \<times> mem" where
  "outgoing_body_finish imp self maybe_trailers ptr m =
     (let (option, option1) = (case maybe_trailers of Some payload0 \<Rightarrow> (1, payload0) | None \<Rightarrow> (0, 0));
          m = imp self option option1 ptr m
      in (switch_result (disc m ptr) (Some ())
            (let tag = load_u8 m (ptr + 8)
             in with_tag tag
            (if unat tag \<le> 21 then outgoing_body_finish_cases_0_21 m ptr (unat tag)
             else if unat tag \<le> 27 then outgoing_body_finish_cases_22_27 m ptr (unat tag)
             else outgoing_body_finish_cases_28_38 m ptr (unat tag))), m))"

definition future_incoming_response_get_cases_0_21 :: "mem \<Rightarrow> addr \<Rightarrow> nat \<Rightarrow> error_code_val option" where
  "future_incoming_response_get_cases_0_21 m ptr tag =
     (if tag = 0 then Some NoVal
      else if tag = 1 then
        Option.bind (switch_option (disc m (ptr + 32)) (Some (load_i32 m (ptr + 36), load_i32 m (ptr + 40)))) (\<lambda>option.
        Option.bind (switch_option (disc m (ptr + 44)) (Some (load_u16 m (ptr + 46)))) (\<lambda>option0.
        Some (DnsErrorVal \<lparr>rcode = option, info_code = option0\<rparr>)))
      else if 2 \<le> tag \<and> tag \<le> 13 then Some NoVal
      else if tag = 14 then
        Option.bind (switch_option (disc m (ptr + 32)) (Some (load_u8 m (ptr + 33)))) (\<lambda>option1.
        Option.bind (switch_option (disc m (ptr + 36)) (Some (load_i32 m (ptr + 40), load_i32 m (ptr + 44)))) (\<lambda>option2.
        Some (TlsAlertVal \<lparr>alert_id = option1, alert_message = option2\<rparr>)))
      else if 15 \<le> tag \<and> tag \<le> 16 then Some NoVal
      else if tag = 17 then
        Option.bind (switch_option (disc m (ptr + 32)) (Some (load_i64 m (ptr + 40)))) (\<lambda>option3.
        Some (OptU64Val option3))
      else if 18 \<le> tag \<and> tag \<le> 20 then Some NoVal
      else if tag = 21 then
        Option.bind (switch_option (disc m (ptr + 32)) (Some (load_i32 m (ptr + 36)))) (\<lambda>option4.
        Some (OptU32Val option4))
      else None)"

definition future_incoming_response_get_cases_22_27 :: "mem \<Rightarrow> addr \<Rightarrow> nat \<Rightarrow> error_code_val option" where
  "future_incoming_response_get_cases_22_27 m ptr tag =
     (if tag = 22 then
        Option.bind (switch_option (disc m (ptr + 32)) (Option.bind (switch_option (disc m (ptr + 36)) (Some (load_i32 m (ptr + 40), load_i32 m (ptr + 44)))) (\<lambda>option5.
            Option.bind (switch_option (disc m (ptr + 48)) (Some (load_i32 m (ptr + 52)))) (\<lambda>option6.
            Some \<lparr>field_name = option5, field_size = option6\<rparr>)))) (\<lambda>option7.
        Some (OptFieldSizeVal option7))
      else if tag = 23 then
        Option.bind (switch_option (disc m (ptr + 32)) (Some (load_i32 m (ptr + 36)))) (\<lambda>option8.
        Some (OptU32Val option8))
      else if tag = 24 then
        Option.bind (switch_option (disc m (ptr + 32)) (Some (load_i32 m (ptr + 36), load_i32 m (ptr + 40)))) (\<lambda>option9.
        Option.bind (switch_option (disc m (ptr + 44)) (Some (load_i32 m (ptr + 48)))) (\<lambda>option10.
        Some (FieldSizeVal \<lparr>field_name = option9, field_size = option10\<rparr>)))
      else if tag = 25 then Some NoVal
      else if tag = 26 then
        Option.bind (switch_option (disc m (ptr + 32)) (Some (load_i32 m (ptr + 36)))) (\<lambda>option11.
        Some (OptU32Val option11))
      else if tag = 27 then
        Option.bind (switch_option (disc m (ptr + 32)) (Some (load_i32 m (ptr + 36), load_i32 m (ptr + 40)))) (\<lambda>option12.
        Option.bind (switch_option (disc m (ptr + 44)) (Some (load_i32 m (ptr + 48)))) (\<lambda>option13.
        Some (FieldSizeVal \<lparr>field_name = option12, field_size = option13\<rparr>)))
      else None)"

definition future_incoming_response_get_cases_28_38 :: "mem \<Rightarrow> addr \<Rightarrow> nat \<Rightarrow> error_code_val option" where
  "future_incoming_response_get_cases_28_38 m ptr tag =
     (if tag = 28 then
        Option.bind (switch_option (disc m (ptr + 32)) (Some (load_i64 m (ptr + 40)))) (\<lambda>option14.
        Some (OptU64Val option14))
      else if tag = 29 then
        Option.bind (switch_option (disc m (ptr + 32)) (Some (load_i32 m (ptr + 36)))) (\<lambda>option15.
        Some (OptU32Val option15))
      else if tag = 30 then
        Option.bind (switch_option (disc m (ptr + 32)) (Some (load_i32 m (ptr + 36), load_i32 m (ptr + 40)))) (\<lambda>option16.
        Option.bind (switch_option (disc m (ptr + 44)) (Some (load_i32 m (ptr + 48)))) (\<lambda>option17.
        Some (FieldSizeVal \<lparr>field_name = option16, field_size = option17\<rparr>)))
      else if tag = 31 then
        Option.bind (switch_option (disc m (ptr + 32)) (Some (load_i32 m (ptr + 36), load_i32 m (ptr + 40)))) (\<lambda>option18.
        Some (OptStringVal option18))
      else if tag = 32 then
        Option.bind (switch_option (disc m (ptr + 32)) (Some (load_i32 m (ptr + 36), load_i32 m (ptr + 40)))) (\<lambda>option19.
        Some (OptStringVal option19))
      else if 33 \<le> tag \<and> tag \<le> 37 then Some NoVal
      else if tag = 38 then
        Option.bind (switch_option (disc m (ptr + 32)) (Some (load_i32 m (ptr + 36), load_i32 m (ptr + 40)))) (\<lambda>option20.
        Some (OptStringVal option20))
      else None)"

definition future_incoming_response_get ::
    "(handle \<Rightarrow> addr \<Rightarrow> mem \<Rightarrow> mem) \<Rightarrow> handle \<Rightarrow> addr \<Rightarrow> mem
       \<Rightarrow> (unit + error_code + handle) option option \<times> mem" where
  "future_incoming_response_get imp self ptr m =
     (let m = imp self ptr m
      in (switch_option (disc m ptr)
            (switch_result (disc m (ptr + 8))
              (switch_result (disc m (ptr + 16))
                (Some (load_i32 m (ptr + 24)))
                (let tag = load_u8 m (ptr + 24)
                 in with_tag tag
            (if unat tag \<le> 21 then future_incoming_response_get_cases_0_21 m ptr (unat tag)
             else if unat tag \<le> 27 then future_incoming_response_get_cases_22_27 m ptr (unat tag)
             else future_incoming_response_get_cases_28_38 m ptr (unat tag))))
              (Some ())), m))"

definition outgoing_handler_handle_cases_0_21 :: "mem \<Rightarrow> addr \<Rightarrow> nat \<Rightarrow> error_code_val option" where
  "outgoing_handler_handle_cases_0_21 m ptr tag =
     (if tag = 0 then Some NoVal
      else if tag = 1 then
        Option.bind (switch_option (disc m (ptr + 16)) (Some (load_i32 m (ptr + 20), load_i32 m (ptr + 24)))) (\<lambda>option2.
        Option.bind (switch_option (disc m (ptr + 28)) (Some (load_u16 m (ptr + 30)))) (\<lambda>option3.
        Some (DnsErrorVal \<lparr>rcode = option2, info_code = option3\<rparr>)))
      else if 2 \<le> tag \<and> tag \<le> 13 then Some NoVal
      else if tag = 14 then
        Option.bind (switch_option (disc m (ptr + 16)) (Some (load_u8 m (ptr + 17)))) (\<lambda>option4.
        Option.bind (switch_option (disc m (ptr + 20)) (Some (load_i32 m (ptr + 24), load_i32 m (ptr + 28)))) (\<lambda>option5.
        Some (TlsAlertVal \<lparr>alert_id = option4, alert_message = option5\<rparr>)))
      else if 15 \<le> tag \<and> tag \<le> 16 then Some NoVal
      else if tag = 17 then
        Option.bind (switch_option (disc m (ptr + 16)) (Some (load_i64 m (ptr + 24)))) (\<lambda>option6.
        Some (OptU64Val option6))
      else if 18 \<le> tag \<and> tag \<le> 20 then Some NoVal
      else if tag = 21 then
        Option.bind (switch_option (disc m (ptr + 16)) (Some (load_i32 m (ptr + 20)))) (\<lambda>option7.
        Some (OptU32Val option7))
      else None)"

definition outgoing_handler_handle_cases_22_27 :: "mem \<Rightarrow> addr \<Rightarrow> nat \<Rightarrow> error_code_val option" where
  "outgoing_handler_handle_cases_22_27 m ptr tag =
     (if tag = 22 then
        Option.bind (switch_option (disc m (ptr + 16)) (Option.bind (switch_option (disc m (ptr + 20)) (Some (load_i32 m (ptr + 24), load_i32 m (ptr + 28)))) (\<lambda>option8.
            Option.bind (switch_option (disc m (ptr + 32)) (Some (load_i32 m (ptr + 36)))) (\<lambda>option9.
            Some \<lparr>field_name = option8, field_size = option9\<rparr>)))) (\<lambda>option10.
        Some (OptFieldSizeVal option10))
      else if tag = 23 then
        Option.bind (switch_option (disc m (ptr + 16)) (Some (load_i32 m (ptr + 20)))) (\<lambda>option11.
        Some (OptU32Val option11))
      else if tag = 24 then
        Option.bind (switch_option (disc m (ptr + 16)) (Some (load_i32 m (ptr + 20), load_i32 m (ptr + 24)))) (\<lambda>option12.
        Option.bind (switch_option (disc m (ptr + 28)) (Some (load_i32 m (ptr + 32)))) (\<lambda>option13.
        Some (FieldSizeVal \<lparr>field_name = option12, field_size = option13\<rparr>)))
      else if tag = 25 then Some NoVal
      else if tag = 26 then
        Option.bind (switch_option (disc m (ptr + 16)) (Some (load_i32 m (ptr + 20)))) (\<lambda>option14.
        Some (OptU32Val option14))
      else if tag = 27 then
        Option.bind (switch_option (disc m (ptr + 16)) (Some (load_i32 m (ptr + 20), load_i32 m (ptr + 24)))) (\<lambda>option15.
        Option.bind (switch_option (disc m (ptr + 28)) (Some (load_i32 m (ptr + 32)))) (\<lambda>option16.
        Some (FieldSizeVal \<lparr>field_name = option15, field_size = option16\<rparr>)))
      else None)"

definition outgoing_handler_handle_cases_28_38 :: "mem \<Rightarrow> addr \<Rightarrow> nat \<Rightarrow> error_code_val option" where
  "outgoing_handler_handle_cases_28_38 m ptr tag =
     (if tag = 28 then
        Option.bind (switch_option (disc m (ptr + 16)) (Some (load_i64 m (ptr + 24)))) (\<lambda>option17.
        Some (OptU64Val option17))
      else if tag = 29 then
        Option.bind (switch_option (disc m (ptr + 16)) (Some (load_i32 m (ptr + 20)))) (\<lambda>option18.
        Some (OptU32Val option18))
      else if tag = 30 then
        Option.bind (switch_option (disc m (ptr + 16)) (Some (load_i32 m (ptr + 20), load_i32 m (ptr + 24)))) (\<lambda>option19.
        Option.bind (switch_option (disc m (ptr + 28)) (Some (load_i32 m (ptr + 32)))) (\<lambda>option20.
        Some (FieldSizeVal \<lparr>field_name = option19, field_size = option20\<rparr>)))
      else if tag = 31 then
        Option.bind (switch_option (disc m (ptr + 16)) (Some (load_i32 m (ptr + 20), load_i32 m (ptr + 24)))) (\<lambda>option21.
        Some (OptStringVal option21))
      else if tag = 32 then
        Option.bind (switch_option (disc m (ptr + 16)) (Some (load_i32 m (ptr + 20), load_i32 m (ptr + 24)))) (\<lambda>option22.
        Some (OptStringVal option22))
      else if 33 \<le> tag \<and> tag \<le> 37 then Some NoVal
      else if tag = 38 then
        Option.bind (switch_option (disc m (ptr + 16)) (Some (load_i32 m (ptr + 20), load_i32 m (ptr + 24)))) (\<lambda>option23.
        Some (OptStringVal option23))
      else None)"

definition outgoing_handler_handle ::
    "(handle \<Rightarrow> 32 word \<Rightarrow> 32 word \<Rightarrow> addr \<Rightarrow> mem \<Rightarrow> mem) \<Rightarrow> handle \<Rightarrow> handle option \<Rightarrow> addr \<Rightarrow> mem
       \<Rightarrow> (error_code + handle) option \<times> mem" where
  "outgoing_handler_handle imp request maybe_options ptr m =
     (let (option, option1) = (case maybe_options of Some payload0 \<Rightarrow> (1, payload0) | None \<Rightarrow> (0, 0));
          m = imp request option option1 ptr m
      in (switch_result (disc m ptr) (Some (load_i32 m (ptr + 8)))
            (let tag = load_u8 m (ptr + 8)
             in with_tag tag
            (if unat tag \<le> 21 then outgoing_handler_handle_cases_0_21 m ptr (unat tag)
             else if unat tag \<le> 27 then outgoing_handler_handle_cases_22_27 m ptr (unat tag)
             else outgoing_handler_handle_cases_28_38 m ptr (unat tag))), m))"

subsection \<open>Handing an error code to the host\<close>

type_synonym flat_error = "32 word \<times> 32 word \<times> 64 word \<times> 32 word \<times> 32 word \<times> 32 word \<times> 32 word"

definition response_outparam_cases_0_11 :: "error_code \<Rightarrow> flat_error option" where
  "response_outparam_cases_0_11 payload0 =
     (let tag = unat (err_tag payload0)
      in if tag = 0 then Some (0, 0, 0, 0, 0, 0, 0)
      else if tag = 1 then
        (case err_val payload0 of
           DnsErrorVal payload2 \<Rightarrow>
             Some (let (option, option5, option6) = (case rcode payload2 of Some payload4 \<Rightarrow> (1, fst payload4, snd payload4) | None \<Rightarrow> (0, 0, 0));
                  (option9, option10) = (case info_code payload2 of Some payload8 \<Rightarrow> (1, ucast payload8) | None \<Rightarrow> (0, 0))
              in (1, option, scast (option5 :: 32 word), option6, option9, option10, 0))
         | _ \<Rightarrow> None)
      else if 2 \<le> tag \<and> tag \<le> 11 then Some (of_nat tag, 0, 0, 0, 0, 0, 0)
      else None)"

definition response_outparam_cases_12_19 :: "error_code \<Rightarrow> flat_error option" where
  "response_outparam_cases_12_19 payload0 =
     (let tag = unat (err_tag payload0)
      in if 12 \<le> tag \<and> tag \<le> 13 then Some (of_nat tag, 0, 0, 0, 0, 0, 0)
      else if tag = 14 then
        (case err_val payload0 of
           TlsAlertVal payload23 \<Rightarrow>
             Some (let (option26, option27) = (case alert_id payload23 of Some payload25 \<Rightarrow> (1, ucast payload25) | None \<Rightarrow> (0, 0));
                  (option30, option31, option32) = (case alert_message payload23 of Some payload29 \<Rightarrow> (1, fst payload29, snd payload29) | None \<Rightarrow> (0, 0, 0))
              in (14, option26, scast (option27 :: 32 word), option30, option31, option32, 0))
         | _ \<Rightarrow> None)
      else if 15 \<le> tag \<and> tag \<le> 16 then Some (of_nat tag, 0, 0, 0, 0, 0, 0)
      else if tag = 17 then
        (case err_val payload0 of
           OptU64Val payload35 \<Rightarrow>
             Some (let (option38, option39) = (case payload35 of Some payload37 \<Rightarrow> (1, payload37) | None \<Rightarrow> (0, 0))
              in (17, option38, option39, 0, 0, 0, 0))
         | _ \<Rightarrow> None)
      else if 18 \<le> tag \<and> tag \<le> 19 then Some (of_nat tag, 0, 0, 0, 0, 0, 0)
      else None)"

definition response_outparam_cases_20_24 :: "error_code \<Rightarrow> flat_error option" where
  "response_outparam_cases_20_24 payload0 =
     (let tag = unat (err_tag payload0)
      in if tag = 20 then Some (20, 0, 0, 0, 0, 0, 0)
      else if tag = 21 then
        (case err_val payload0 of
           OptU32Val payload43 \<Rightarrow>
             Some (let (option46, option47) = (case payload43 of Some payload45 \<Rightarrow> (1, payload45) | None \<Rightarrow> (0, 0))
              in (21, option46, scast (option47 :: 32 word), 0, 0, 0, 0))
         | _ \<Rightarrow> None)
      else if tag = 22 then
        (case err_val payload0 of
           OptFieldSizeVal payload48 \<Rightarrow>
             Some (let (option60, option61, option62, option63, option64, option65) = (case payload48 of Some payload50 \<Rightarrow> (let (option53, option54, option55) = (case field_name payload50 of Some payload52 \<Rightarrow> (1, fst payload52, snd payload52) | None \<Rightarrow> (0, 0, 0)); (option58, option59) = (case field_size payload50 of Some payload57 \<Rightarrow> (1, payload57) | None \<Rightarrow> (0, 0)) in (1, option53, option54, option55, option58, option59)) | None \<Rightarrow> (0, 0, 0, 0, 0, 0))
              in (22, option60, scast (option61 :: 32 word), option62, option63, option64, option65))
         | _ \<Rightarrow> None)
      else if tag = 23 then
        (case err_val payload0 of
           OptU32Val payload66 \<Rightarrow>
             Some (let (option69, option70) = (case payload66 of Some payload68 \<Rightarrow> (1, payload68) | None \<Rightarrow> (0, 0))
              in (23, option69, scast (option70 :: 32 word), 0, 0, 0, 0))
         | _ \<Rightarrow> None)
      else if tag = 24 then
        (case err_val payload0 of
           FieldSizeVal payload71 \<Rightarrow>
             Some (let (option74, option75, option76) = (case field_name payload71 of Some payload73 \<Rightarrow> (1, fst payload73, snd payload73) | None \<Rightarrow> (0, 0, 0));
                  (option79, option80) = (case field_size payload71 of Some payload78 \<Rightarrow> (1, payload78) | None \<Rightarrow> (0, 0))
              in (24, option74, scast (option75 :: 32 word), option76, option79, option80, 0))
         | _ \<Rightarrow> None)
      else None)"

definition response_outparam_cases_25_30 :: "error_code \<Rightarrow> flat_error option" where
  "response_outparam_cases_25_30 payload0 =
     (let tag = unat (err_tag payload0)
      in if tag = 25 then Some (25, 0, 0, 0, 0, 0, 0)
      else if tag = 26 then
        (case err_val payload0 of
           OptU32Val payload82 \<Rightarrow>
             Some (let (option85, option86) = (case payload82 of Some payload84 \<Rightarrow> (1, payload84) | None \<Rightarrow> (0, 0))
              in (26, option85, scast (option86 :: 32 word), 0, 0, 0, 0))
         | _ \<Rightarrow> None)
      else if tag = 27 then
        (case err_val payload0 of
           FieldSizeVal payload87 \<Rightarrow>
             Some (let (option90, option91, option92) = (case field_name payload87 of Some payload89 \<Rightarrow> (1, fst payload89, snd payload89) | None \<Rightarrow> (0, 0, 0));
                  (option95, option96) = (case field_size payload87 of Some payload94 \<Rightarrow> (1, payload94) | None \<Rightarrow> (0, 0))
              in (27, option90, scast (option91 :: 32 word), option92, option95, option96, 0))
         | _ \<Rightarrow> None)
      else if tag = 28 then
        (case err_val payload0 of
           OptU64Val payload97 \<Rightarrow>
             Some (let (option100, option101) = (case payload97 of Some payload99 \<Rightarrow> (1, payload99) | None \<Rightarrow> (0, 0))
              in (28, option100, option101, 0, 0, 0, 0))
         | _ \<Rightarrow> None)
      else if tag = 29 then
        (case err_val payload0 of
           OptU32Val payload102 \<Rightarrow>
             Some (let (option105, option106) = (case payload102 of Some payload104 \<Rightarrow> (1, payload104) | None \<Rightarrow> (0, 0))
              in (29, option105, scast (option106 :: 32 word), 0, 0, 0, 0))
         | _ \<Rightarrow> None)
      else if tag = 30 then
        (case err_val payload0 of
           FieldSizeVal payload107 \<Rightarrow>
             Some (let (option110, option111, option112) = (case field_name payload107 of Some payload109 \<Rightarrow> (1, fst payload109, snd payload109) | None \<Rightarrow> (0, 0, 0));
                  (option115, option116) = (case field_size payload107 of Some payload114 \<Rightarrow> (1, payload114) | None \<Rightarrow> (0, 0))
              in (30, option110, scast (option111 :: 32 word), option112, option115, option116, 0))
         | _ \<Rightarrow> None)
      else None)"

definition response_outparam_cases_31_38 :: "error_code \<Rightarrow> flat_error option" where
  "response_outparam_cases_31_38 payload0 =
     (let tag = unat (err_tag payload0)
      in if tag = 31 then
        (case err_val payload0 of
           OptStringVal payload117 \<Rightarrow>
             Some (let (option120, option121, option122) = (case payload117 of Some payload119 \<Rightarrow> (1, fst payload119, snd payload119) | None \<Rightarrow> (0, 0, 0))
              in (31, option120, scast (option121 :: 32 word), option122, 0, 0, 0))
         | _ \<Rightarrow> None)
      else if tag = 32 then
        (case err_val payload0 of
           OptStringVal payload123 \<Rightarrow>
             Some (let (option126, option127, option128) = (case payload123 of Some payload125 \<Rightarrow> (1, fst payload125, snd payload125) | None \<Rightarrow> (0, 0, 0))
              in (32, option126, scast (option127 :: 32 word), option128, 0, 0, 0))
         | _ \<Rightarrow> None)
      else if 33 \<le> tag \<and> tag \<le> 37 then Some (of_nat tag, 0, 0, 0, 0, 0, 0)
      else if tag = 38 then
        (case err_val payload0 of
           OptStringVal payload134 \<Rightarrow>
             Some (let (option137, option138, option139) = (case payload134 of Some payload136 \<Rightarrow> (1, fst payload136, snd payload136) | None \<Rightarrow> (0, 0, 0))
              in (38, option137, scast (option138 :: 32 word), option139, 0, 0, 0))
         | _ \<Rightarrow> None)
      else None)"

definition response_outparam_flat ::
    "error_code + handle \<Rightarrow> (32 word \<times> flat_error) option" where
  "response_outparam_flat response =
     (case response of
        Inl payload0 \<Rightarrow>
          map_option (Pair 1)
           (if unat (err_tag payload0) \<le> 11 then response_outparam_cases_0_11 payload0
            else if unat (err_tag payload0) \<le> 19 then response_outparam_cases_12_19 payload0
            else if unat (err_tag payload0) \<le> 24 then response_outparam_cases_20_24 payload0
            else if unat (err_tag payload0) \<le> 30 then response_outparam_cases_25_30 payload0
            else response_outparam_cases_31_38 payload0)
      | Inr payload \<Rightarrow> Some (0, payload, 0, 0, 0, 0, 0, 0))"

definition response_outparam_set ::
    "(handle \<Rightarrow> 32 word \<Rightarrow> flat_error \<Rightarrow> mem \<Rightarrow> mem) \<Rightarrow> handle \<Rightarrow> error_code + handle \<Rightarrow> mem
       \<Rightarrow> mem option" where
  "response_outparam_set imp param response m =
     map_option (\<lambda>(result, rest). imp param result rest m) (response_outparam_flat response)"

subsection \<open>Freeing an error code\<close>

text \<open>
  A free function returns the addresses it frees, in order, and what it leaves behind.
\<close>

definition bindings_string_free :: "bindings_string \<Rightarrow> addr list \<times> bindings_string" where
  "bindings_string_free ret = (if snd ret > 0 then [fst ret] else [], (0, 0))"

definition option_string_free :: "bindings_string option \<Rightarrow> addr list \<times> bindings_string option" where
  "option_string_free ptr =
     (case ptr of Some val \<Rightarrow> map_prod (\<lambda>f. f) Some (bindings_string_free val) | None \<Rightarrow> ([], None))"

definition dns_error_payload_free :: "dns_error_payload \<Rightarrow> addr list \<times> dns_error_payload" where
  "dns_error_payload_free ptr = (let (f, s) = option_string_free (rcode ptr) in (f, ptr\<lparr>rcode := s\<rparr>))"

definition tls_alert_received_payload_free ::
    "tls_alert_received_payload \<Rightarrow> addr list \<times> tls_alert_received_payload" where
  "tls_alert_received_payload_free ptr =
     (let (f, s) = option_string_free (alert_message ptr) in (f, ptr\<lparr>alert_message := s\<rparr>))"

definition field_size_payload_free :: "field_size_payload \<Rightarrow> addr list \<times> field_size_payload" where
  "field_size_payload_free ptr = (let (f, s) = option_string_free (field_name ptr) in (f, ptr\<lparr>field_name := s\<rparr>))"

definition option_field_size_payload_free ::
    "field_size_payload option \<Rightarrow> addr list \<times> field_size_payload option" where
  "option_field_size_payload_free ptr =
     (case ptr of Some val \<Rightarrow> map_prod (\<lambda>f. f) Some (field_size_payload_free val) | None \<Rightarrow> ([], None))"

definition freed :: "error_code \<Rightarrow> ('a \<Rightarrow> error_code_val) \<Rightarrow> addr list \<times> 'a \<Rightarrow> (addr list \<times> error_code) option" where
  "freed ptr c r = Some (fst r, ptr\<lparr>err_val := c (snd r)\<rparr>)"

text \<open>\<open>None\<close>: the union member that the tag selects is not the one that is set.\<close>

definition error_code_free :: "error_code \<Rightarrow> (addr list \<times> error_code) option" where
  "error_code_free ptr =
     (let tag = unat (err_tag ptr)
      in if tag = 1 then
           (case err_val ptr of DnsErrorVal p \<Rightarrow> freed ptr DnsErrorVal (dns_error_payload_free p) | _ \<Rightarrow> None)
         else if tag = 14 then
           (case err_val ptr of TlsAlertVal p \<Rightarrow> freed ptr TlsAlertVal (tls_alert_received_payload_free p) | _ \<Rightarrow> None)
         else if tag = 17 \<or> tag = 28 then
           (case err_val ptr of OptU64Val p \<Rightarrow> freed ptr OptU64Val ([], p) | _ \<Rightarrow> None)
         else if tag = 21 \<or> tag = 23 \<or> tag = 26 \<or> tag = 29 then
           (case err_val ptr of OptU32Val p \<Rightarrow> freed ptr OptU32Val ([], p) | _ \<Rightarrow> None)
         else if tag = 22 then
           (case err_val ptr of OptFieldSizeVal p \<Rightarrow> freed ptr OptFieldSizeVal (option_field_size_payload_free p)
            | _ \<Rightarrow> None)
         else if tag = 24 \<or> tag = 27 \<or> tag = 30 then
           (case err_val ptr of FieldSizeVal p \<Rightarrow> freed ptr FieldSizeVal (field_size_payload_free p) | _ \<Rightarrow> None)
         else if tag = 31 \<or> tag = 32 \<or> tag = 38 then
           (case err_val ptr of OptStringVal p \<Rightarrow> freed ptr OptStringVal (option_string_free p) | _ \<Rightarrow> None)
         else Some ([], ptr))"

subsection \<open>The interface types\<close>

text \<open>The types of \<open>wit/deps/http/types.wit\<close>.\<close>

definition dns_error_payload_ty :: wit where
  "dns_error_payload_ty = Rec [wit_option Span, wit_option U16]"

definition tls_alert_received_payload_ty :: wit where
  "tls_alert_received_payload_ty = Rec [wit_option U8, wit_option Span]"

definition field_size_payload_ty :: wit where
  "field_size_payload_ty = Rec [wit_option Span, wit_option U32]"

definition error_code_cases :: "wit option list" where
  "error_code_cases =
    [None,
     Some dns_error_payload_ty,
     None, None, None, None, None, None, None, None, None, None, None, None,
     Some tls_alert_received_payload_ty,
     None, None,
     Some (wit_option U64),
     None, None, None,
     Some (wit_option U32),
     Some (wit_option field_size_payload_ty),
     Some (wit_option U32),
     Some field_size_payload_ty,
     None,
     Some (wit_option U32),
     Some field_size_payload_ty,
     Some (wit_option U64),
     Some (wit_option U32),
     Some field_size_payload_ty,
     Some (wit_option Span),
     Some (wit_option Span),
     None, None, None, None, None,
     Some (wit_option Span)]"

definition error_code_ty :: wit where
  "error_code_ty = Variant error_code_cases"

text \<open>The value that a C value stands for.\<close>

fun wspan :: "bindings_string \<Rightarrow> wval" where
  "wspan (p, l) = WSpan p l"

definition wfield_size :: "field_size_payload \<Rightarrow> wval" where
  "wfield_size p = WRec [wval_option wspan (field_name p), wval_option WU32 (field_size p)]"

fun error_payload :: "error_code_val \<Rightarrow> wval option" where
  "error_payload NoVal = None"
| "error_payload (DnsErrorVal p) = Some (WRec [wval_option wspan (rcode p), wval_option WU16 (info_code p)])"
| "error_payload (TlsAlertVal p) = Some (WRec [wval_option WU8 (alert_id p), wval_option wspan (alert_message p)])"
| "error_payload (OptU64Val v) = Some (wval_option WU64 v)"
| "error_payload (OptU32Val v) = Some (wval_option WU32 v)"
| "error_payload (OptFieldSizeVal v) = Some (wval_option wfield_size v)"
| "error_payload (FieldSizeVal p) = Some (wfield_size p)"
| "error_payload (OptStringVal v) = Some (wval_option wspan v)"

definition werror :: "error_code \<Rightarrow> wval" where
  "werror e = WVariant (unat (err_tag e)) (error_payload (err_val e))"

definition wval_result :: "('a \<Rightarrow> wval option) \<Rightarrow> ('e \<Rightarrow> wval option) \<Rightarrow> 'e + 'a \<Rightarrow> wval" where
  "wval_result f g r = (case r of Inr x \<Rightarrow> WVariant 0 (f x) | Inl e \<Rightarrow> WVariant 1 (g e))"

subsection \<open>Loading by the layout\<close>

named_theorems abi_simps "evaluation of layouts and of the option switch"

lemma payload_offset_simps [abi_simps]:
  "payload_offset [None, Some U8] = 1" "payload_offset [None, Some U16] = 2"
  "payload_offset [None, Some U32] = 4" "payload_offset [None, Some U64] = 8"
  "payload_offset [None, Some Span] = 4" "payload_offset [None, Some Handle] = 4"
  "payload_offset [None, Some field_size_payload_ty] = 4"
  "payload_offset error_code_cases = 8" "abi_align error_code_ty = 8"
  by (simp_all add: payload_offset_def align_to_def field_size_payload_ty_def error_code_cases_def
      error_code_ty_def dns_error_payload_ty_def tls_alert_received_payload_ty_def)

lemma load_option [abi_simps]:
  "abi_load m b n (wit_option t) =
     map_option (wval_option (\<lambda>v. v)) (switch_option (disc m (b + of_nat n))
       (abi_load m b (n + payload_offset [None, Some t]) t))"
  by (simp add: switch_option_def Let_def less_Suc_eq option.map_comp comp_def numeral_2_eq_2)

lemma map_switch_option [abi_simps]:
  "map_option (wval_option f) (switch_option d x) = map_option (wval_option (\<lambda>v. v)) (switch_option d (map_option f x))"
  by (cases x) (auto simp: switch_option_def)

text \<open>The payload of each case, at the offset that the area of the type has it.\<close>

definition load_case :: "mem \<Rightarrow> addr \<Rightarrow> nat \<Rightarrow> nat \<Rightarrow> wval option option" where
  "load_case m b n i =
     (case error_code_cases ! i of None \<Rightarrow> Some None | Some t \<Rightarrow> map_option Some (abi_load m b n t))"

lemma load_error_code:
  "abi_load m b n error_code_ty =
     (let i = disc m (b + of_nat n)
      in if i < 39 then map_option (WVariant i) (load_case m b (n + 8) i) else None)"
  by (simp add: error_code_ty_def load_case_def abi_simps Let_def option.map_comp comp_def
      error_code_cases_def [THEN arg_cong [where f = length]] split: option.splits)

lemma option_layout [abi_simps]:
  "abi_align (wit_option U8) = 1" "abi_align (wit_option U16) = 2" "abi_align (wit_option U32) = 4"
  "abi_align (wit_option Span) = 4" "abi_size (wit_option U8) = 2" "abi_size (wit_option U16) = 4"
  "abi_size (wit_option U32) = 8" "abi_size (wit_option Span) = 12"
  by (simp_all add: align_to_def payload_offset_simps numeral_2_eq_2 [symmetric])

declare abi_align.simps(7,8) [simp del] abi_size.simps(7,8) [simp del] abi_load.simps(8) [simp del]

lemma disj_39:
  "(i :: nat) < 39 \<Longrightarrow>
     i = 38 \<or> i = 37 \<or> i = 36 \<or> i = 35 \<or> i = 34 \<or> i = 33 \<or> i = 32 \<or> i = 31 \<or> i = 30 \<or> i = 29 \<or> i = 28 \<or> i = 27 \<or> i = 26 \<or>
     i = 25 \<or> i = 24 \<or> i = 23 \<or> i = 22 \<or> i = 21 \<or> i = 20 \<or> i = 19 \<or> i = 18 \<or> i = 17 \<or> i = 16 \<or> i = 15 \<or> i = 14 \<or> i = 13 \<or>
     i = 12 \<or> i = 11 \<or> i = 10 \<or> i = 9 \<or> i = 8 \<or> i = 7 \<or> i = 6 \<or> i = 5 \<or> i = 4 \<or> i = 3 \<or> i = 2 \<or> i = 1 \<or> i = 0"
  by presburger

lemma load_option_of [abi_simps]:
  "map_option f (abi_load m b n (wit_option t)) =
     (if disc m (b + of_nat n) = 0 then Some (f (WVariant 0 None))
      else if disc m (b + of_nat n) = 1
      then map_option (\<lambda>v. f (WVariant 1 (Some v))) (abi_load m b (n + payload_offset [None, Some t]) t)
      else None)"
  by (simp add: load_option switch_option_def option.map_comp comp_def)

lemmas payload_types = dns_error_payload_ty_def tls_alert_received_payload_ty_def field_size_payload_ty_def

lemma field_size_offset [abi_simps]: "payload_offset [None, Some (Rec [wit_option Span, wit_option U32])] = 4"
  using payload_offset_simps(7) by (simp add: field_size_payload_ty_def)

lemmas case_defs = load_case_def error_code_cases_def payload_types switch_option_def align_to_def wfield_size_def

lemma http_error_code_cases:
  assumes "i < 39"
  shows "map_option error_payload
      (if i \<le> 21 then http_error_code_cases_0_21 m ptr i
       else if i \<le> 27 then http_error_code_cases_22_27 m ptr i
       else http_error_code_cases_28_38 m ptr i) = load_case m ptr 16 i"
  using disj_39 [OF assms]
  by (elim disjE)
    (simp_all add: case_defs abi_simps http_error_code_cases_0_21_def
      http_error_code_cases_22_27_def http_error_code_cases_28_38_def)

lemma future_trailers_get_cases:
  assumes "i < 39"
  shows "map_option error_payload
      (if i \<le> 21 then future_trailers_get_cases_0_21 m ptr i
       else if i \<le> 27 then future_trailers_get_cases_22_27 m ptr i
       else future_trailers_get_cases_28_38 m ptr i) = load_case m ptr 32 i"
  using disj_39 [OF assms]
  by (elim disjE)
    (simp_all add: case_defs abi_simps future_trailers_get_cases_0_21_def
      future_trailers_get_cases_22_27_def future_trailers_get_cases_28_38_def)

lemma outgoing_body_finish_cases:
  assumes "i < 39"
  shows "map_option error_payload
      (if i \<le> 21 then outgoing_body_finish_cases_0_21 m ptr i
       else if i \<le> 27 then outgoing_body_finish_cases_22_27 m ptr i
       else outgoing_body_finish_cases_28_38 m ptr i) = load_case m ptr 16 i"
  using disj_39 [OF assms]
  by (elim disjE)
    (simp_all add: case_defs abi_simps outgoing_body_finish_cases_0_21_def
      outgoing_body_finish_cases_22_27_def outgoing_body_finish_cases_28_38_def)

lemma future_incoming_response_get_cases:
  assumes "i < 39"
  shows "map_option error_payload
      (if i \<le> 21 then future_incoming_response_get_cases_0_21 m ptr i
       else if i \<le> 27 then future_incoming_response_get_cases_22_27 m ptr i
       else future_incoming_response_get_cases_28_38 m ptr i) = load_case m ptr 32 i"
  using disj_39 [OF assms]
  by (elim disjE)
    (simp_all add: case_defs abi_simps future_incoming_response_get_cases_0_21_def
      future_incoming_response_get_cases_22_27_def future_incoming_response_get_cases_28_38_def)

lemma outgoing_handler_handle_cases:
  assumes "i < 39"
  shows "map_option error_payload
      (if i \<le> 21 then outgoing_handler_handle_cases_0_21 m ptr i
       else if i \<le> 27 then outgoing_handler_handle_cases_22_27 m ptr i
       else outgoing_handler_handle_cases_28_38 m ptr i) = load_case m ptr 16 i"
  using disj_39 [OF assms]
  by (elim disjE)
    (simp_all add: case_defs abi_simps outgoing_handler_handle_cases_0_21_def
      outgoing_handler_handle_cases_22_27_def outgoing_handler_handle_cases_28_38_def)

lemma cases_out_of_range:
  assumes "\<not> i < 39"
  shows "http_error_code_cases_28_38 m ptr i = None" "future_trailers_get_cases_28_38 m ptr i = None"
    "outgoing_body_finish_cases_28_38 m ptr i = None" "future_incoming_response_get_cases_28_38 m ptr i = None"
    "outgoing_handler_handle_cases_28_38 m ptr i = None"
  using assms
  by (simp_all add: http_error_code_cases_28_38_def future_trailers_get_cases_28_38_def
      outgoing_body_finish_cases_28_38_def future_incoming_response_get_cases_28_38_def
      outgoing_handler_handle_cases_28_38_def)

lemma read_error_code:
  assumes "\<And>i. i < 39 \<Longrightarrow> map_option error_payload (f i) = load_case m b (n + 8) i"
    and "\<And>i. \<not> i < 39 \<Longrightarrow> f i = None" and "a = b + of_nat n"
  shows "map_option werror (with_tag (load_u8 m a) (f (unat (load_u8 m a)))) = abi_load m b n error_code_ty"
proof -
  have "map_option werror (with_tag t v) = map_option (WVariant (unat t)) (map_option error_payload v)" for t v
    by (cases v) (simp_all add: with_tag_def werror_def)
  then show ?thesis
    using assms by (cases "unat (load_u8 m a) < 39") (simp_all add: load_error_code disc_def Let_def)
qed

text \<open>Options and results around it.\<close>

definition load_payload :: "mem \<Rightarrow> addr \<Rightarrow> nat \<Rightarrow> wit option \<Rightarrow> wval option option" where
  "load_payload m b n c = (case c of None \<Rightarrow> Some None | Some t \<Rightarrow> map_option Some (abi_load m b n t))"

lemma read_option:
  assumes "map_option f x = abi_load m b (n + payload_offset [None, Some t]) t" and "a = b + of_nat n"
  shows "map_option (wval_option f) (switch_option (disc m a) x) = abi_load m b n (wit_option t)"
  by (simp only: load_option map_switch_option [of f] assms)

lemma load_result:
  "abi_load m b n (wit_result ok err) =
     (if disc m (b + of_nat n) = 0
      then map_option (WVariant 0) (load_payload m b (n + payload_offset [ok, err]) ok)
      else if disc m (b + of_nat n) = 1
      then map_option (WVariant 1) (load_payload m b (n + payload_offset [ok, err]) err)
      else None)"
  by (simp add: load_payload_def abi_load.simps(8) Let_def less_Suc_eq numeral_2_eq_2 option.map_comp comp_def
      split: option.splits)

lemma read_result:
  assumes "map_option f x = load_payload m b (n + payload_offset [ok, err]) ok"
    and "map_option g y = load_payload m b (n + payload_offset [ok, err]) err" and "a = b + of_nat n"
  shows "map_option (wval_result f g) (switch_result (disc m a) x y) = abi_load m b n (wit_result ok err)"
proof -
  have w: "map_option (wval_result f g) (map_option Inr z) = map_option (WVariant 0) (map_option f z)" for z
    by (cases z) (simp_all add: wval_result_def)
  have e: "map_option (wval_result f g) (map_option Inl z) = map_option (WVariant 1) (map_option g z)" for z
    by (cases z) (simp_all add: wval_result_def)
  show ?thesis
    by (simp only: switch_result_def if_distrib [of "map_option (wval_result f g)"] w e assms load_result
        option.map)
qed

lemma read_handle: "map_option WHandle (Some (load_i32 m (b + of_nat n))) = abi_load m b n Handle"
  by simp

lemma payload_offset_error [abi_simps]:
  "payload_offset [None, Some error_code_ty] = 8" "payload_offset [Some Handle, Some error_code_ty] = 8"
  "payload_offset [Some (wit_option Handle), Some error_code_ty] = 8"
  "payload_offset [Some (wit_result (Some Handle) (Some error_code_ty)), None] = 8"
  "payload_offset [None, Some (wit_result (Some (wit_result (Some Handle) (Some error_code_ty))) None)] = 8"
  "payload_offset [Some (wit_result (Some (wit_option Handle)) (Some error_code_ty)), None] = 8"
  "payload_offset [None, Some (wit_result (Some (wit_result (Some (wit_option Handle)) (Some error_code_ty))) None)] = 8"
  using payload_offset_simps(9) by (simp_all add: payload_offset_def align_to_def abi_align.simps(8))

abbreviation some_of :: "('a \<Rightarrow> wval) \<Rightarrow> 'a \<Rightarrow> wval option" where
  "some_of f x \<equiv> Some (f x)"

lemma load_payload_some: "map_option f x = abi_load m b n t \<Longrightarrow> map_option (some_of f) x = load_payload m b n (Some t)"
  by (cases x) (auto simp: load_payload_def dest: sym)

lemma load_payload_none: "map_option (\<lambda>_. None) (Some x) = load_payload m b n None"
  by (simp add: load_payload_def)

text \<open>The five functions that read an error code.\<close>

lemma http_error_code_abi:
  "map_option (wval_option werror) (fst (http_error_code imp err ptr m))
     = abi_load (imp err ptr m) ptr 0 (wit_option error_code_ty)"
  unfolding http_error_code_def Let_def fst_conv
  by (rule read_option)
    (simp_all only: abi_simps, rule read_error_code, simp_all add: http_error_code_cases cases_out_of_range)

lemma outgoing_body_finish_abi:
  "map_option (wval_result (\<lambda>_. None) (some_of werror)) (fst (outgoing_body_finish imp self trailers ptr m))
     = abi_load (snd (outgoing_body_finish imp self trailers ptr m)) ptr 0 (wit_result None (Some error_code_ty))"
  unfolding outgoing_body_finish_def Let_def split_beta fst_conv snd_conv
  by (rule read_result, rule load_payload_none, rule load_payload_some, simp_all only: abi_simps,
      rule read_error_code) (simp_all add: outgoing_body_finish_cases cases_out_of_range)

lemma outgoing_handler_handle_abi:
  "map_option (wval_result (some_of WHandle) (some_of werror)) (fst (outgoing_handler_handle imp request options ptr m))
     = abi_load (snd (outgoing_handler_handle imp request options ptr m)) ptr 0
         (wit_result (Some Handle) (Some error_code_ty))"
  unfolding outgoing_handler_handle_def Let_def split_beta fst_conv snd_conv
  by (rule read_result, rule load_payload_some, simp_all only: abi_simps, simp, rule load_payload_some,
      rule read_error_code) (simp_all add: outgoing_handler_handle_cases cases_out_of_range)

lemma future_incoming_response_get_abi:
  "map_option (wval_option (wval_result (some_of (wval_result (some_of WHandle) (some_of werror))) (\<lambda>_. None)))
       (fst (future_incoming_response_get imp self ptr m))
     = abi_load (snd (future_incoming_response_get imp self ptr m)) ptr 0
         (wit_option (wit_result (Some (wit_result (Some Handle) (Some error_code_ty))) None))"
  unfolding future_incoming_response_get_def Let_def fst_conv snd_conv
  by (rule read_option, rule read_result, rule load_payload_some, rule read_result, rule load_payload_some,
      simp_all only: abi_simps load_payload_none, simp, rule load_payload_some, rule read_error_code)
    (simp_all add: future_incoming_response_get_cases cases_out_of_range)

lemma future_trailers_get_abi:
  "map_option (wval_option (wval_result (some_of (wval_result (some_of (wval_option WHandle)) (some_of werror))) (\<lambda>_. None)))
       (fst (future_trailers_get imp self ptr m))
     = abi_load (snd (future_trailers_get imp self ptr m)) ptr 0
         (wit_option (wit_result (Some (wit_result (Some (wit_option Handle)) (Some error_code_ty))) None))"
proof -
  let ?m = "imp self ptr m"
  have h: "map_option (wval_option WHandle) (switch_option (disc ?m (ptr + 24)) (Some (load_i32 ?m (ptr + 28))))
      = abi_load ?m ptr 24 (wit_option Handle)"
    by (rule read_option) (simp_all add: abi_simps)
  have e: "map_option werror (with_tag (load_u8 ?m (ptr + 24))
        (if unat (load_u8 ?m (ptr + 24)) \<le> 21
         then future_trailers_get_cases_0_21 ?m ptr (unat (load_u8 ?m (ptr + 24)))
         else if unat (load_u8 ?m (ptr + 24)) \<le> 27
         then future_trailers_get_cases_22_27 ?m ptr (unat (load_u8 ?m (ptr + 24)))
         else future_trailers_get_cases_28_38 ?m ptr (unat (load_u8 ?m (ptr + 24)))))
      = abi_load ?m ptr 24 error_code_ty"
    by (rule read_error_code) (simp_all add: future_trailers_get_cases cases_out_of_range)
  show ?thesis
    unfolding future_trailers_get_def Let_def fst_conv snd_conv
    by (rule read_option, rule read_result, rule load_payload_some, rule read_result)
      (simp_all only: abi_simps load_payload_none load_payload_some [OF h] load_payload_some [OF e], simp_all add: h e load_payload_some)
qed

subsection \<open>Lifting what is lowered\<close>

text \<open>The union member that is set is the one of the tag.\<close>

fun val_ty :: "error_code_val \<Rightarrow> wit option" where
  "val_ty NoVal = None"
| "val_ty (DnsErrorVal _) = Some dns_error_payload_ty"
| "val_ty (TlsAlertVal _) = Some tls_alert_received_payload_ty"
| "val_ty (OptU64Val _) = Some (wit_option U64)"
| "val_ty (OptU32Val _) = Some (wit_option U32)"
| "val_ty (OptFieldSizeVal _) = Some (wit_option field_size_payload_ty)"
| "val_ty (FieldSizeVal _) = Some field_size_payload_ty"
| "val_ty (OptStringVal _) = Some (wit_option Span)"

definition union_ok :: "error_code \<Rightarrow> bool" where
  "union_ok e \<longleftrightarrow> unat (err_tag e) < 39 \<and> error_code_cases ! unat (err_tag e) = val_ty (err_val e)"

fun flat_list :: "32 word \<times> flat_error \<Rightarrow> core_val list" where
  "flat_list (r, v, v140, v141, v142, v143, v144, v145) =
     [CI32 r, CI32 v, CI32 v140, CI64 v141, CI32 v142, CI32 v143, CI32 v144, CI32 v145]"

lemma ucast_scast [abi_simps]: "(ucast (scast (w :: 32 word) :: 64 word) :: 32 word) = w"
  by (rule bit_word_eqI) (simp add: bit_simps)

lemma ucast_ucast [abi_simps]:
  "(ucast (ucast (w :: byte) :: 32 word) :: byte) = w" "(ucast (ucast (h :: 16 word) :: 32 word) :: 16 word) = h"
  "(ucast (ucast (w :: byte) :: 64 word) :: byte) = w"
  "(ucast (ucast (scast (ucast (w :: byte) :: 32 word) :: 64 word) :: 32 word) :: byte) = w"
  by (rule bit_word_eqI, simp add: bit_simps)+

lemma flat_error_code: "abi_flat error_code_ty = [I32, I32, I64, I32, I32, I32, I32]"
  by (simp add: error_code_ty_def error_code_cases_def payload_types)

lemma lift_error_code:
  "abi_lift error_code_ty (CI32 d # CI32 a # CI64 b # CI32 c # CI32 e # CI32 f # CI32 g # vs) =
     (if unat d < 39
      then (case error_code_cases ! unat d of
              None \<Rightarrow> Some (WVariant (unat d) None, vs)
            | Some t \<Rightarrow>
                (case abi_lift t (map2 coerce (abi_flat t) [CI32 a, CI64 b, CI32 c, CI32 e, CI32 f, CI32 g]) of
                   Some (v, []) \<Rightarrow> Some (WVariant (unat d) (Some v), vs)
                 | _ \<Rightarrow> None))
      else None)"
proof -
  have f: "tl (abi_flat (Variant error_code_cases)) = [I32, I64, I32, I32, I32, I32]"
    using flat_error_code by (simp only: error_code_ty_def list.sel)
  have l: "length error_code_cases = 39" by (simp add: error_code_cases_def)
  let ?l = "[CI32 a, CI64 b, CI32 c, CI32 e, CI32 f, CI32 g]"
  have t: "take (length [I32, I64, I32, I32, I32, I32]) (CI32 a # CI64 b # CI32 c # CI32 e # CI32 f # CI32 g # vs) = ?l"
    "drop (length [I32, I64, I32, I32, I32, I32]) (CI32 a # CI64 b # CI32 c # CI32 e # CI32 f # CI32 g # vs) = vs"
    "list_all2 has_core [I32, I64, I32, I32, I32, I32] ?l"
    by simp_all
  show ?thesis
    unfolding error_code_ty_def abi_lift.simps(8) list.case core_val.case Let_def f l
    by (simp only: t simp_thms)
qed

lemma flat_result: "tl (abi_flat (wit_result (Some Handle) (Some error_code_ty))) = [I32, I32, I64, I32, I32, I32, I32]"
  by (simp add: flat_error_code)

lemma lift_response:
  "abi_lift (wit_result (Some Handle) (Some error_code_ty)) (flat_list (r, v, v140, v141, v142, v143, v144, v145)) =
     (if r = 0 then Some (WVariant 0 (Some (WHandle v)), [])
      else if r = 1 then
        (case abi_lift error_code_ty [CI32 v, CI32 v140, CI64 v141, CI32 v142, CI32 v143, CI32 v144, CI32 v145] of
           Some (x, []) \<Rightarrow> Some (WVariant 1 (Some x), [])
         | _ \<Rightarrow> None)
      else None)"
proof -
  have t: "take (length [I32, I32, I64, I32, I32, I32, I32]) [CI32 v, CI32 v140, CI64 v141, CI32 v142, CI32 v143, CI32 v144, CI32 v145]
      = [CI32 v, CI32 v140, CI64 v141, CI32 v142, CI32 v143, CI32 v144, CI32 v145]"
    "drop (length [I32, I32, I64, I32, I32, I32, I32]) [CI32 v, CI32 v140, CI64 v141, CI32 v142, CI32 v143, CI32 v144, CI32 v145] = []"
    "list_all2 has_core [I32, I32, I64, I32, I32, I32, I32] [CI32 v, CI32 v140, CI64 v141, CI32 v142, CI32 v143, CI32 v144, CI32 v145]"
    by simp_all
  have r: "unat r < 2 \<longleftrightarrow> r = 0 \<or> r = 1" by (simp add: unat_arith_simps) arith
  show ?thesis
    unfolding flat_list.simps abi_lift.simps(8) list.case core_val.case Let_def flat_result t
    by (cases "r = 0"; cases "r = 1")
      (simp_all add: r flat_error_code numeral_2_eq_2 [symmetric] split: option.splits list.splits)
qed

text \<open>The dispatch over the groups of cases.\<close>

definition lower_error :: "error_code \<Rightarrow> flat_error option" where
  "lower_error e =
     (if unat (err_tag e) \<le> 11 then response_outparam_cases_0_11 e
      else if unat (err_tag e) \<le> 19 then response_outparam_cases_12_19 e
      else if unat (err_tag e) \<le> 24 then response_outparam_cases_20_24 e
      else if unat (err_tag e) \<le> 30 then response_outparam_cases_25_30 e
      else response_outparam_cases_31_38 e)"

lemma response_outparam_flat_error: "response_outparam_flat (Inl e) = map_option (Pair 1) (lower_error e)"
  by (simp add: response_outparam_flat_def lower_error_def)

lemmas low_defs = lower_error_def response_outparam_cases_0_11_def response_outparam_cases_12_19_def
  response_outparam_cases_20_24_def response_outparam_cases_25_30_def response_outparam_cases_31_38_def

lemma union_ok_cases:
  assumes "union_ok e"
  obtains
    (none) "unat (err_tag e) \<in> {0, 2, 3, 4, 5, 6, 7, 8, 9, 10, 11, 12, 13, 15, 16, 18, 19, 20, 25, 33, 34, 35, 36, 37}"
      "err_val e = NoVal"
  | (dns_error) p where "unat (err_tag e) = 1" "err_val e = DnsErrorVal p"
  | (tls_alert) p where "unat (err_tag e) = 14" "err_val e = TlsAlertVal p"
  | (option_u64) v where "unat (err_tag e) \<in> {17, 28}" "err_val e = OptU64Val v"
  | (option_u32) v where "unat (err_tag e) \<in> {21, 23, 26, 29}" "err_val e = OptU32Val v"
  | (option_field_size) v where "unat (err_tag e) = 22" "err_val e = OptFieldSizeVal v"
  | (field_size) p where "unat (err_tag e) \<in> {24, 27, 30}" "err_val e = FieldSizeVal p"
  | (option_string) v where "unat (err_tag e) \<in> {31, 32, 38}" "err_val e = OptStringVal v"
proof -
  obtain i where i: "unat (err_tag e) = i" by blast
  with assms have "i < 39" and v: "error_code_cases ! i = val_ty (err_val e)" by (simp_all add: union_ok_def)
  from disj_39 [OF this(1)] show ?thesis
    by (elim disjE) (use v i in \<open>cases "err_val e"; simp add: error_code_cases_def payload_types that\<close>)+
qed

lemma lower_error_lifts:
  assumes "union_ok e"
  shows "case lower_error e of
      None \<Rightarrow> False
    | Some (v, v140, v141, v142, v143, v144, v145) \<Rightarrow>
        abi_lift error_code_ty [CI32 v, CI32 v140, CI64 v141, CI32 v142, CI32 v143, CI32 v144, CI32 v145]
          = Some (werror e, [])"
  using assms
proof (cases rule: union_ok_cases)
  case none
  then show ?thesis
    by (elim insertE; simp add: low_defs werror_def lift_error_code error_code_cases_def)
next
  case (dns_error p)
  then show ?thesis
    by (cases "rcode p"; cases "info_code p")
      (auto simp: low_defs werror_def lift_error_code error_code_cases_def payload_types ucast_scast ucast_ucast)
next
  case (tls_alert p)
  then show ?thesis
    by (cases "alert_id p"; cases "alert_message p")
      (auto simp: low_defs werror_def lift_error_code error_code_cases_def payload_types ucast_scast ucast_ucast)
next
  case (option_u64 v)
  then show ?thesis
    by (elim insertE; cases v; simp add: low_defs werror_def lift_error_code error_code_cases_def)
next
  case (option_u32 v)
  then show ?thesis
    by (elim insertE; cases v; simp add: low_defs werror_def lift_error_code error_code_cases_def ucast_scast)
next
  case (option_field_size v)
  show ?thesis
  proof (cases v)
    case None
    with option_field_size show ?thesis
      by (simp add: low_defs werror_def lift_error_code error_code_cases_def payload_types)
  next
    case (Some p)
    with option_field_size show ?thesis
      by (cases "field_name p"; cases "field_size p")
        (auto simp: low_defs werror_def wfield_size_def lift_error_code error_code_cases_def payload_types
          ucast_scast ucast_ucast)
  qed
next
  case (field_size p)
  then show ?thesis
    by (elim insertE; cases "field_name p"; cases "field_size p";
        force simp: low_defs werror_def wfield_size_def lift_error_code error_code_cases_def payload_types
          ucast_scast)
next
  case (option_string v)
  then show ?thesis
    by (elim insertE; cases v; force simp: low_defs werror_def lift_error_code error_code_cases_def ucast_scast)
qed

subsection \<open>What freeing frees\<close>

text \<open>The addresses of the nonempty strings of a value.\<close>

fun spans :: "wval \<Rightarrow> addr list" where
  "spans (WSpan p l) = (if l = 0 then [] else [p])"
| "spans (WRec vs) = concat (map spans vs)"
| "spans (WVariant i None) = []"
| "spans (WVariant i (Some v)) = spans v"
| "spans _ = []"

lemma option_string_free_spans:
  "fst (option_string_free s) = spans (wval_option wspan s)"
  "option_string_free (snd (option_string_free s)) = ([], snd (option_string_free s))"
  by (cases s; auto simp: option_string_free_def bindings_string_free_def word_gt_0 split: prod.splits)+

lemma spans_word_option:
  "spans (wval_option WU8 u) = []" "spans (wval_option WU16 v) = []" "spans (wval_option WU32 w) = []"
  "spans (wval_option WU64 x) = []"
  by (cases u; cases v; cases w; cases x; simp)+

lemma spans_freed: "spans (wval_option wspan (snd (option_string_free s))) = []"
  by (cases s) (simp_all add: option_string_free_def bindings_string_free_def)

lemmas free_defs = error_code_free_def freed_def dns_error_payload_free_def tls_alert_received_payload_free_def
  field_size_payload_free_def option_field_size_payload_free_def

lemma error_code_free_spans:
  assumes "union_ok e"
  shows "\<exists>e'. error_code_free e = Some (spans (werror e), e') \<and> error_code_free e' = Some ([], e')"
  using assms
  by (cases rule: union_ok_cases; (elim insertE)?)
    (auto simp: free_defs werror_def wfield_size_def split_beta option_string_free_spans spans_word_option spans_freed
      split: option.splits)

subsection \<open>Properties\<close>

text \<open>
  C15. Whatever the host leaves in the return area, the five functions that read an error code give
  the value that the canonical ABI loads there for the result type of the interface, and give none
  exactly if the canonical ABI traps: all offsets, widths and discriminants of the generated code
  are right.
\<close>

theorem error_code_readers_are_canonical:
  "map_option (wval_option werror) (fst (http_error_code imp err ptr m))
     = abi_load (snd (http_error_code imp err ptr m)) ptr 0 (wit_option error_code_ty) \<and>
   map_option (wval_option (wval_result (some_of (wval_result (some_of (wval_option WHandle)) (some_of werror))) (\<lambda>_. None)))
       (fst (future_trailers_get imp self ptr m))
     = abi_load (snd (future_trailers_get imp self ptr m)) ptr 0
         (wit_option (wit_result (Some (wit_result (Some (wit_option Handle)) (Some error_code_ty))) None)) \<and>
   map_option (wval_result (\<lambda>_. None) (some_of werror)) (fst (outgoing_body_finish imp' self trailers ptr m))
     = abi_load (snd (outgoing_body_finish imp' self trailers ptr m)) ptr 0 (wit_result None (Some error_code_ty)) \<and>
   map_option (wval_option (wval_result (some_of (wval_result (some_of WHandle) (some_of werror))) (\<lambda>_. None)))
       (fst (future_incoming_response_get imp self ptr m))
     = abi_load (snd (future_incoming_response_get imp self ptr m)) ptr 0
         (wit_option (wit_result (Some (wit_result (Some Handle) (Some error_code_ty))) None)) \<and>
   map_option (wval_result (some_of WHandle) (some_of werror)) (fst (outgoing_handler_handle imp' request options ptr m))
     = abi_load (snd (outgoing_handler_handle imp' request options ptr m)) ptr 0
         (wit_result (Some Handle) (Some error_code_ty))"
  using http_error_code_abi [of imp err ptr m] future_trailers_get_abi [of imp self ptr m]
    outgoing_body_finish_abi [of imp' self trailers ptr m] future_incoming_response_get_abi [of imp self ptr m]
    outgoing_handler_handle_abi [of imp' request options ptr m]
  by (simp add: http_error_code_def Let_def)

text \<open>
  C16. \<open>response_outparam_set\<close> calls the host with flat values that the canonical ABI lifts back to
  the response it was given, a handle or an error code with its payload.
\<close>

theorem response_outparam_lifts_back:
  assumes "\<And>e. response = Inl e \<Longrightarrow> union_ok e"
  shows "\<exists>result flat. response_outparam_set imp param response m = Some (imp param result flat m) \<and>
    abi_lift (wit_result (Some Handle) (Some error_code_ty)) (flat_list (result, flat))
      = Some (wval_result (some_of WHandle) (some_of werror) response, [])"
proof (cases response)
  case (Inl e)
  then have "union_ok e" by (rule assms)
  from lower_error_lifts [OF this] obtain f where "lower_error e = Some f" by (cases "lower_error e") auto
  obtain v a b c d g h where f: "f = (v, a, b, c, d, g, h)" by (cases f) auto
  with lower_error_lifts [OF \<open>union_ok e\<close>] \<open>lower_error e = Some f\<close>
  have "abi_lift error_code_ty [CI32 v, CI32 a, CI64 b, CI32 c, CI32 d, CI32 g, CI32 h] = Some (werror e, [])"
    by simp
  with \<open>lower_error e = Some f\<close> Inl f show ?thesis
    by (intro exI [of _ 1] exI [of _ f])
      (simp add: response_outparam_set_def response_outparam_flat_error lift_response wval_result_def
        del: flat_list.simps abi_lift.simps(8))
next
  case (Inr h)
  then show ?thesis
    by (intro exI [of _ 0] exI [of _ "(h, 0, 0, 0, 0, 0, 0)"])
      (simp add: response_outparam_set_def response_outparam_flat_def lift_response wval_result_def
        del: flat_list.simps abi_lift.simps(8))
qed

theorem response_outparam_lifts_back_witness:
  "\<exists>result flat. response_outparam_set (\<lambda>param result flat m. m) 7
       (Inl \<lparr>err_tag = 1, err_val = DnsErrorVal \<lparr>rcode = Some (64, 5), info_code = None\<rparr>\<rparr>) (\<lambda>_. 0) = Some (\<lambda>_. 0) \<and>
     abi_lift (wit_result (Some Handle) (Some error_code_ty)) (flat_list (result, flat))
      = Some (WVariant 1 (Some (WVariant 1 (Some (WRec [WVariant 1 (Some (WSpan 64 5)), WVariant 0 None])))), [])"
  using response_outparam_lifts_back
      [of "Inl \<lparr>err_tag = 1, err_val = DnsErrorVal \<lparr>rcode = Some (64, 5), info_code = None\<rparr>\<rparr>"
        "\<lambda>param result flat m. m" 7 "\<lambda>_. 0"]
  by (simp add: union_ok_def error_code_cases_def wval_result_def werror_def del: abi_lift.simps(8))

text \<open>
  Freeing an error code frees exactly its nonempty strings, each once, and leaves a value that
  can be freed again without freeing anything.
\<close>

theorem error_code_free_frees_strings:
  assumes "union_ok e"
  shows "\<exists>e'. error_code_free e = Some (spans (werror e), e') \<and> error_code_free e' = Some ([], e')"
  using assms by (rule error_code_free_spans)

theorem error_code_free_frees_strings_witness:
  "\<exists>e'. error_code_free \<lparr>err_tag = 38, err_val = OptStringVal (Some (64, 5))\<rparr> = Some ([64], e')
     \<and> error_code_free e' = Some ([], e')"
  using error_code_free_frees_strings [of "\<lparr>err_tag = 38, err_val = OptStringVal (Some (64, 5))\<rparr>"]
  by (simp add: union_ok_def error_code_cases_def werror_def)

end
