(* ===== verification/Transform_Stream.thy ===== *)
theory Transform_Stream
  imports Prelude Complex_Main
begin

section \<open>TransformStream and its controller\<close>

text \<open>
  \<open>builtins/web/streams/transform-stream.cpp\<close> and \<open>transform-stream-default-controller.cpp\<close>.

  \<^item> The readable and the writable end are streams of the engine (\<open>js/Stream.h\<close>), which is not in
    the repository: a record \<open>stream_engine\<close> of the calls the code makes on a state \<open>'e\<close> that holds
    both ends.  An enqueue may call the pull algorithm of the source before it returns; it says
    so in a flag and the model runs the algorithm there.
  \<^item> Promises are those of the language: a list of states, and a list of the reactions that
    \<open>then\<close> registered.  A reaction may run once its promise is settled.
  \<^item> \<open>ts\<close> has the reserved slots of the stream and of its controller.  The functions in the slots
    \<open>TransformInput\<close> and \<open>FlushInput\<close> are user code; \<open>call\<close> runs one on the whole state.
  \<^item> \<open>ts_exec\<close> puts the operations together: the calls the engine makes on sink and source, the
    controller methods a script calls, and the reactions, in any order the engine's own
    discipline allows.
\<close>

subsection \<open>Values, promises and the engine\<close>

text \<open>\<open>SError\<close> and \<open>STypeError\<close> are error objects that native code creates.\<close>

datatype 'v sval =
    SUndefined | SNull | SController | SPromise nat | SVal 'v | SError string | STypeError string

datatype 'v pstate = Pending | Fulfilled "'v sval" | Rejected "'v sval"

datatype 'v handler = WriteThen "'v sval" | TransformCatch | CloseThen | CloseCatch

datatype 'v reaction =
  Reaction (on_promise: nat) (on_fulfilled: "'v handler option") (on_rejected: "'v handler option")
    (result: nat)

datatype wstate = Writable | Closed | Erroring | Errored

datatype js_number = JNaN | JPosInf | JNegInf | JFin rat

record ('e, 'v, 'f) stream_engine =
  rs_can :: "'e \<Rightarrow> bool"
  rs_enqueue :: "'v sval \<Rightarrow> 'e \<Rightarrow> 'v sval option \<times> bool \<times> 'e"
  rs_close :: "'e \<Rightarrow> 'e"
  rs_error :: "'v sval \<Rightarrow> 'e \<Rightarrow> 'e"
  rs_errored :: "'e \<Rightarrow> bool"
  rs_stored :: "'e \<Rightarrow> 'v sval"
  rs_should_pull :: "'e \<Rightarrow> bool"
  rs_desired_size :: "'e \<Rightarrow> js_number option"
  ws_state :: "'e \<Rightarrow> wstate"
  ws_error :: "'v sval \<Rightarrow> 'e \<Rightarrow> 'e"
  ws_stored :: "'e \<Rightarrow> 'v sval"
  new_streams :: "js_number \<Rightarrow> 'f option \<Rightarrow> js_number \<Rightarrow> 'f option \<Rightarrow> 'e"

datatype algorithm = Transformer_Algorithm

record ('e, 'v, 'f) ts =
  eng :: 'e
  proms :: "'v pstate list"
  reacts :: "'v reaction list"
  ts_backpressure :: bool
  change_promise :: "nat option"
  has_controller :: bool
  ts_mixin :: bool
  has_transformer :: "bool option"
  transformer :: "'v sval"
  transform_algorithm :: "algorithm option"
  flush_algorithm :: "algorithm option"
  transform_input :: "'f option"
  flush_input :: "'f option"

text \<open>\<open>Null_Call\<close> is a call through a null function pointer, or of a method of a null object.\<close>

datatype 'v ts_fail = Throw "'v sval" | Null_Call

type_synonym ('e, 'v, 'f, 'm) user_call =
  "'v sval \<Rightarrow> 'f \<Rightarrow> 'v sval list \<Rightarrow> ('e, 'v, 'f, 'm) ts_scheme
     \<Rightarrow> ('v sval + 'v sval) \<times> ('e, 'v, 'f, 'm) ts_scheme"

text \<open>The promise operations of the engine that the code calls.\<close>

definition new_promise :: "'v pstate \<Rightarrow> ('e, 'v, 'f, 'm) ts_scheme \<Rightarrow> nat \<times> ('e, 'v, 'f, 'm) ts_scheme"
  where "new_promise st s = (length (proms s), s\<lparr>proms := proms s @ [st]\<rparr>)"

definition settle :: "nat \<Rightarrow> 'v pstate \<Rightarrow> ('e, 'v, 'f, 'm) ts_scheme \<Rightarrow> ('e, 'v, 'f, 'm) ts_scheme"
  where "settle p st s = (if p < length (proms s) \<and> proms s ! p = Pending
    then s\<lparr>proms := (proms s)[p := st]\<rparr> else s)"

definition promise_then :: "nat \<Rightarrow> 'v handler option \<Rightarrow> 'v handler option
    \<Rightarrow> ('e, 'v, 'f, 'm) ts_scheme \<Rightarrow> nat \<times> ('e, 'v, 'f, 'm) ts_scheme" where
  "promise_then p f r s = (let (q, s1) = new_promise Pending s
     in (q, s1\<lparr>reacts := reacts s1 @ [Reaction p f r q]\<rparr>))"

text \<open>Resolving a promise with another one makes it follow that one.\<close>

definition resolve_promise :: "nat \<Rightarrow> 'v sval \<Rightarrow> ('e, 'v, 'f, 'm) ts_scheme
    \<Rightarrow> ('e, 'v, 'f, 'm) ts_scheme" where
  "resolve_promise p v s = (case v of
     SPromise q \<Rightarrow> s\<lparr>reacts := reacts s @ [Reaction q None None p]\<rparr>
   | _ \<Rightarrow> settle p (Fulfilled v) s)"

definition promise_resolved :: "'v sval \<Rightarrow> ('e, 'v, 'f, 'm) ts_scheme
    \<Rightarrow> nat \<times> ('e, 'v, 'f, 'm) ts_scheme" where
  "promise_resolved v s = (case v of SPromise q \<Rightarrow> (q, s) | _ \<Rightarrow> new_promise (Fulfilled v) s)"

subsection \<open>Backpressure and errors\<close>

definition SetBackpressure :: "bool \<Rightarrow> ('e, 'v, 'f, 'm) ts_scheme \<Rightarrow> ('e, 'v, 'f, 'm) ts_scheme" where
  "SetBackpressure b s =
     (let s1 = (case change_promise s of None \<Rightarrow> s | Some p \<Rightarrow> resolve_promise p SUndefined s);
          (p, s2) = new_promise Pending s1
      in s2\<lparr>change_promise := Some p, ts_backpressure := b\<rparr>)"

definition ClearAlgorithms :: "('e, 'v, 'f, 'm) ts_scheme \<Rightarrow> ('e, 'v, 'f, 'm) ts_scheme" where
  "ClearAlgorithms s = s\<lparr>transform_algorithm := None, transform_input := None,
     flush_algorithm := None, flush_input := None\<rparr>"

definition ErrorWritableAndUnblockWrite :: "('e, 'v, 'f) stream_engine \<Rightarrow> 'v sval
    \<Rightarrow> ('e, 'v, 'f, 'm) ts_scheme \<Rightarrow> ('e, 'v, 'f, 'm) ts_scheme" where
  "ErrorWritableAndUnblockWrite E e s =
     (let s1 = ClearAlgorithms s;
          s2 = (if ws_state E (eng s1) = Writable then s1\<lparr>eng := ws_error E e (eng s1)\<rparr> else s1)
      in if ts_backpressure s2 then SetBackpressure False s2 else s2)"

definition TransformStream_Error :: "('e, 'v, 'f) stream_engine \<Rightarrow> 'v sval
    \<Rightarrow> ('e, 'v, 'f, 'm) ts_scheme \<Rightarrow> ('e, 'v, 'f, 'm) ts_scheme" where
  "TransformStream_Error E e s =
     ErrorWritableAndUnblockWrite E e (s\<lparr>eng := rs_error E e (eng s)\<rparr>)"

subsection \<open>The algorithms of the source\<close>

definition DefaultSourcePullAlgorithm :: "('e, 'v, 'f, 'm) ts_scheme
    \<Rightarrow> ('v ts_fail + 'v sval) \<times> ('e, 'v, 'f, 'm) ts_scheme" where
  "DefaultSourcePullAlgorithm s = (let s1 = SetBackpressure False s
     in (case change_promise s1 of None \<Rightarrow> Inl Null_Call | Some p \<Rightarrow> Inr (SPromise p), s1))"

definition DefaultSourceCancelAlgorithm :: "('e, 'v, 'f) stream_engine \<Rightarrow> 'v sval
    \<Rightarrow> ('e, 'v, 'f, 'm) ts_scheme \<Rightarrow> ('v ts_fail + 'v sval) \<times> ('e, 'v, 'f, 'm) ts_scheme" where
  "DefaultSourceCancelAlgorithm E reason s =
     (Inr SUndefined, ErrorWritableAndUnblockWrite E reason s)"

subsection \<open>The controller\<close>

definition Enqueue :: "('e, 'v, 'f) stream_engine \<Rightarrow> 'v sval \<Rightarrow> ('e, 'v, 'f, 'm) ts_scheme
    \<Rightarrow> ('v sval + unit) \<times> ('e, 'v, 'f, 'm) ts_scheme" where
  "Enqueue E chunk s =
     (if \<not> rs_can E (eng s) then (Inl (STypeError ''enqueue''), s)
      else case rs_enqueue E chunk (eng s) of
        (Some exn, pulled, e) \<Rightarrow>
          (let s1 = ErrorWritableAndUnblockWrite E exn (s\<lparr>eng := e\<rparr>)
           in (Inl (rs_stored E (eng s1)), s1))
      | (None, pulled, e) \<Rightarrow>
          (let s1 = s\<lparr>eng := e\<rparr>;
               s2 = (if pulled then snd (DefaultSourcePullAlgorithm s1) else s1);
               bp = (\<not> rs_should_pull E (eng s2))
           in (Inr (), if bp \<noteq> ts_backpressure s2 then SetBackpressure True s2 else s2)))"

definition Terminate :: "('e, 'v, 'f) stream_engine \<Rightarrow> ('e, 'v, 'f, 'm) ts_scheme
    \<Rightarrow> ('e, 'v, 'f, 'm) ts_scheme" where
  "Terminate E s =
     (let s1 = (if rs_can E (eng s) then s\<lparr>eng := rs_close E (eng s)\<rparr> else s)
      in ErrorWritableAndUnblockWrite E (SError ''The TransformStream has been terminated'') s1)"

definition InvokePromiseReturningCallback :: "('e, 'v, 'f, 'm) user_call \<Rightarrow> 'v sval \<Rightarrow> 'f
    \<Rightarrow> 'v sval list \<Rightarrow> ('e, 'v, 'f, 'm) ts_scheme \<Rightarrow> nat \<times> ('e, 'v, 'f, 'm) ts_scheme" where
  "InvokePromiseReturningCallback call receiver callback args s =
     (case call receiver callback args s of
        (Inl exn, s1) \<Rightarrow> new_promise (Rejected exn) s1
      | (Inr rval, s1) \<Rightarrow> promise_resolved rval s1)"

definition transform_algorithm_transformer :: "('e, 'v, 'f) stream_engine
    \<Rightarrow> ('e, 'v, 'f, 'm) user_call \<Rightarrow> 'v sval \<Rightarrow> ('e, 'v, 'f, 'm) ts_scheme
    \<Rightarrow> nat \<times> ('e, 'v, 'f, 'm) ts_scheme" where
  "transform_algorithm_transformer E call chunk s = (case transform_input s of
     None \<Rightarrow> (case Enqueue E chunk s of
         (Inl exn, s1) \<Rightarrow> new_promise (Rejected exn) s1
       | (Inr _, s1) \<Rightarrow> promise_resolved SUndefined s1)
   | Some f \<Rightarrow> InvokePromiseReturningCallback call (transformer s) f [chunk, SController] s)"

definition flush_algorithm_transformer :: "('e, 'v, 'f, 'm) user_call
    \<Rightarrow> ('e, 'v, 'f, 'm) ts_scheme \<Rightarrow> nat \<times> ('e, 'v, 'f, 'm) ts_scheme" where
  "flush_algorithm_transformer call s = (case flush_input s of
     None \<Rightarrow> promise_resolved SUndefined s
   | Some f \<Rightarrow> InvokePromiseReturningCallback call (transformer s) f [SController] s)"

definition PerformTransform :: "('e, 'v, 'f) stream_engine \<Rightarrow> ('e, 'v, 'f, 'm) user_call
    \<Rightarrow> 'v sval \<Rightarrow> ('e, 'v, 'f, 'm) ts_scheme \<Rightarrow> ('v ts_fail + nat) \<times> ('e, 'v, 'f, 'm) ts_scheme" where
  "PerformTransform E call chunk s = (case transform_algorithm s of
     None \<Rightarrow> (Inl Null_Call, s)
   | Some Transformer_Algorithm \<Rightarrow>
       (let (p, s1) = transform_algorithm_transformer E call chunk s;
            (q, s2) = promise_then p None (Some TransformCatch) s1
        in (Inr q, s2)))"

definition transformPromise_catch_handler :: "('e, 'v, 'f) stream_engine \<Rightarrow> 'v sval
    \<Rightarrow> ('e, 'v, 'f, 'm) ts_scheme \<Rightarrow> ('v ts_fail + 'v sval) \<times> ('e, 'v, 'f, 'm) ts_scheme" where
  "transformPromise_catch_handler E r s = (Inl (Throw r), TransformStream_Error E r s)"

definition enqueue_js :: "('e, 'v, 'f) stream_engine \<Rightarrow> 'v sval list \<Rightarrow> ('e, 'v, 'f, 'm) ts_scheme
    \<Rightarrow> ('v sval + 'v sval) \<times> ('e, 'v, 'f, 'm) ts_scheme" where
  "enqueue_js E args s = (case Enqueue E (if args = [] then SUndefined else args ! 0) s of
     (Inl exn, s1) \<Rightarrow> (Inl exn, s1) | (Inr _, s1) \<Rightarrow> (Inr SUndefined, s1))"

definition error_js :: "('e, 'v, 'f) stream_engine \<Rightarrow> 'v sval list \<Rightarrow> ('e, 'v, 'f, 'm) ts_scheme
    \<Rightarrow> ('v sval + 'v sval) \<times> ('e, 'v, 'f, 'm) ts_scheme" where
  "error_js E args s =
     (Inr SUndefined, TransformStream_Error E (if args = [] then SUndefined else args ! 0) s)"

definition terminate_js :: "('e, 'v, 'f) stream_engine \<Rightarrow> ('e, 'v, 'f, 'm) ts_scheme
    \<Rightarrow> ('v sval + 'v sval) \<times> ('e, 'v, 'f, 'm) ts_scheme" where
  "terminate_js E s = (Inr SUndefined, Terminate E s)"

definition desiredSize_get :: "('e, 'v, 'f) stream_engine \<Rightarrow> ('e, 'v, 'f, 'm) ts_scheme
    \<Rightarrow> js_number option" where
  "desiredSize_get E s = rs_desired_size E (eng s)"

subsection \<open>The algorithms of the sink\<close>

definition default_sink_write_algo_then_handler :: "('e, 'v, 'f) stream_engine
    \<Rightarrow> ('e, 'v, 'f, 'm) user_call \<Rightarrow> 'v sval \<Rightarrow> ('e, 'v, 'f, 'm) ts_scheme
    \<Rightarrow> ('v ts_fail + 'v sval) \<times> ('e, 'v, 'f, 'm) ts_scheme" where
  "default_sink_write_algo_then_handler E call chunk s =
     (if ws_state E (eng s) = Erroring then (Inl (Throw (ws_stored E (eng s))), s)
      else case PerformTransform E call chunk s of
        (Inl f, s1) \<Rightarrow> (Inl f, s1)
      | (Inr q, s1) \<Rightarrow> (Inr (SPromise q), s1))"

definition DefaultSinkWriteAlgorithm :: "('e, 'v, 'f) stream_engine
    \<Rightarrow> ('e, 'v, 'f, 'm) user_call \<Rightarrow> 'v sval \<Rightarrow> ('e, 'v, 'f, 'm) ts_scheme
    \<Rightarrow> ('v ts_fail + nat) \<times> ('e, 'v, 'f, 'm) ts_scheme" where
  "DefaultSinkWriteAlgorithm E call chunk s =
     (if ts_backpressure s then
        (case change_promise s of
           None \<Rightarrow> (Inl Null_Call, s)
         | Some p \<Rightarrow> (let (q, s1) = promise_then p (Some (WriteThen chunk)) None s in (Inr q, s1)))
      else PerformTransform E call chunk s)"

definition DefaultSinkAbortAlgorithm :: "('e, 'v, 'f) stream_engine \<Rightarrow> 'v sval
    \<Rightarrow> ('e, 'v, 'f, 'm) ts_scheme \<Rightarrow> nat \<times> ('e, 'v, 'f, 'm) ts_scheme" where
  "DefaultSinkAbortAlgorithm E reason s =
     promise_resolved SUndefined (TransformStream_Error E reason s)"

definition default_sink_close_algo_then_handler :: "('e, 'v, 'f) stream_engine
    \<Rightarrow> ('e, 'v, 'f, 'm) ts_scheme \<Rightarrow> ('v ts_fail + 'v sval) \<times> ('e, 'v, 'f, 'm) ts_scheme" where
  "default_sink_close_algo_then_handler E s =
     (if rs_errored E (eng s) then (Inl (Throw (rs_stored E (eng s))), s)
      else (Inr SUndefined, if rs_can E (eng s) then s\<lparr>eng := rs_close E (eng s)\<rparr> else s))"

definition default_sink_close_algo_catch_handler :: "('e, 'v, 'f) stream_engine \<Rightarrow> 'v sval
    \<Rightarrow> ('e, 'v, 'f, 'm) ts_scheme \<Rightarrow> ('v ts_fail + 'v sval) \<times> ('e, 'v, 'f, 'm) ts_scheme" where
  "default_sink_close_algo_catch_handler E r s =
     (let s1 = TransformStream_Error E r s in (Inl (Throw (rs_stored E (eng s1))), s1))"

definition DefaultSinkCloseAlgorithm :: "('e, 'v, 'f, 'm) user_call
    \<Rightarrow> ('e, 'v, 'f, 'm) ts_scheme \<Rightarrow> ('v ts_fail + nat) \<times> ('e, 'v, 'f, 'm) ts_scheme" where
  "DefaultSinkCloseAlgorithm call s = (case flush_algorithm s of
     None \<Rightarrow> (Inl Null_Call, s)
   | Some Transformer_Algorithm \<Rightarrow>
       (let (p, s1) = flush_algorithm_transformer call s;
            s2 = ClearAlgorithms s1;
            (q, s3) = promise_then p (Some CloseThen) (Some CloseCatch) s2
        in (Inr q, s3)))"

subsection \<open>Reactions\<close>

definition run_handler :: "('e, 'v, 'f) stream_engine \<Rightarrow> ('e, 'v, 'f, 'm) user_call
    \<Rightarrow> 'v handler \<Rightarrow> 'v sval \<Rightarrow> ('e, 'v, 'f, 'm) ts_scheme
    \<Rightarrow> ('v ts_fail + 'v sval) \<times> ('e, 'v, 'f, 'm) ts_scheme" where
  "run_handler E call h v s = (case h of
     WriteThen chunk \<Rightarrow> default_sink_write_algo_then_handler E call chunk s
   | TransformCatch \<Rightarrow> transformPromise_catch_handler E v s
   | CloseThen \<Rightarrow> default_sink_close_algo_then_handler E s
   | CloseCatch \<Rightarrow> default_sink_close_algo_catch_handler E v s)"

text \<open>
  One reaction of a settled promise: with no handler the result takes over the state, otherwise
  the handler's return value resolves it or what it throws rejects it.
\<close>

definition ts_run_reaction :: "('e, 'v, 'f) stream_engine \<Rightarrow> ('e, 'v, 'f, 'm) user_call
    \<Rightarrow> 'v reaction \<Rightarrow> ('e, 'v, 'f, 'm) ts_scheme
    \<Rightarrow> ('v ts_fail + unit) \<times> ('e, 'v, 'f, 'm) ts_scheme" where
  "ts_run_reaction E call r s =
     (let go = (\<lambda>h v. case run_handler E call h v s of
          (Inr w, s1) \<Rightarrow> (Inr (), resolve_promise (result r) w s1)
        | (Inl (Throw e), s1) \<Rightarrow> (Inr (), settle (result r) (Rejected e) s1)
        | (Inl Null_Call, s1) \<Rightarrow> (Inl Null_Call, s1))
      in case proms s ! on_promise r of
        Pending \<Rightarrow> (Inr (), s)
      | Fulfilled v \<Rightarrow> (case on_fulfilled r of
            None \<Rightarrow> (Inr (), settle (result r) (Fulfilled v) s) | Some h \<Rightarrow> go h v)
      | Rejected v \<Rightarrow> (case on_rejected r of
            None \<Rightarrow> (Inr (), settle (result r) (Rejected v) s) | Some h \<Rightarrow> go h v))"

subsection \<open>Construction\<close>

text \<open>
  \<open>Initialize\<close> works on a fresh object: every slot is \<open>undefined\<close> and no promise exists.  The
  streams are created with the start promise as what \<open>start\<close> returns.
\<close>

definition empty_ts :: "'e \<Rightarrow> ('e, 'v, 'f) ts" where
  "empty_ts e = \<lparr>eng = e, proms = [], reacts = [], ts_backpressure = False, change_promise = None,
     has_controller = False, ts_mixin = False, has_transformer = None, transformer = SUndefined,
     transform_algorithm = None, flush_algorithm = None, transform_input = None, flush_input = None\<rparr>"

definition Initialize :: "('e, 'v, 'f) stream_engine \<Rightarrow> js_number \<Rightarrow> 'f option \<Rightarrow> js_number
    \<Rightarrow> 'f option \<Rightarrow> ('e, 'v, 'f, 'm) ts_scheme \<Rightarrow> ('e, 'v, 'f, 'm) ts_scheme" where
  "Initialize E whwm wsize rhwm rsize s =
     (let s1 = s\<lparr>eng := new_streams E whwm wsize rhwm rsize\<rparr>;
          s2 = s1\<lparr>ts_backpressure := False, change_promise := None\<rparr>;
          s3 = SetBackpressure True s2
      in s3\<lparr>has_controller := False, ts_mixin := False\<rparr>)"

definition controller_create :: "algorithm \<Rightarrow> algorithm \<Rightarrow> ('e, 'v, 'f, 'm) ts_scheme
    \<Rightarrow> ('e, 'v, 'f, 'm) ts_scheme" where
  "controller_create transformAlgo flushAlgo s = s\<lparr>has_controller := True,
     transform_algorithm := Some transformAlgo, flush_algorithm := Some flushAlgo\<rparr>"

definition set_transformer :: "'v sval \<Rightarrow> 'f option \<Rightarrow> 'f option \<Rightarrow> ('e, 'v, 'f, 'm) ts_scheme
    \<Rightarrow> ('e, 'v, 'f, 'm) ts_scheme" where
  "set_transformer t transformFunction flushFunction s = s\<lparr>transformer := t,
     transform_input := transformFunction, flush_input := flushFunction\<rparr>"

definition SetUpFromTransformer :: "'v sval \<Rightarrow> 'f option \<Rightarrow> 'f option \<Rightarrow> ('e, 'v, 'f, 'm) ts_scheme
    \<Rightarrow> ('e, 'v, 'f, 'm) ts_scheme" where
  "SetUpFromTransformer t transformFunction flushFunction s = set_transformer t transformFunction
     flushFunction (controller_create Transformer_Algorithm Transformer_Algorithm s)"

definition create :: "('e, 'v, 'f) stream_engine \<Rightarrow> ('e, 'v, 'f, 'm) user_call \<Rightarrow> js_number
    \<Rightarrow> 'f option \<Rightarrow> js_number \<Rightarrow> 'f option \<Rightarrow> 'v sval \<Rightarrow> 'f option \<Rightarrow> 'f option \<Rightarrow> 'f option
    \<Rightarrow> ('e, 'v, 'f, 'm) ts_scheme \<Rightarrow> ('v sval + unit) \<times> ('e, 'v, 'f, 'm) ts_scheme" where
  "create E call whwm wsize rhwm rsize t startFunction transformFunction flushFunction s =
     (let (startPromise, s1) = new_promise Pending s;
          s2 = SetUpFromTransformer t transformFunction flushFunction
                 (Initialize E whwm wsize rhwm rsize s1)
      in case startFunction of
        None \<Rightarrow> (Inr (), resolve_promise startPromise SUndefined s2)
      | Some f \<Rightarrow> (case call t f [SController] s2 of
            (Inl exn, s3) \<Rightarrow> (Inl exn, s3)
          | (Inr rval, s3) \<Rightarrow> (Inr (), resolve_promise startPromise rval s3)))"

text \<open>
  The arguments of the constructor.  A read of a property yields an exception or a value; of the
  value the code only asks whether it is \<open>undefined\<close> or callable.
\<close>

datatype 'f prop_value = PUndefined | PCallable 'f | POther

datatype 'v hwm_value = HUndefined | HValue "'v sval + js_number"

record ('v, 'f) transformer_dict =
  d_start :: "'v sval + 'f prop_value"
  d_transform :: "'v sval + 'f prop_value"
  d_flush :: "'v sval + 'f prop_value"
  d_has_readableType :: "'v sval + bool"
  d_has_writableType :: "'v sval + bool"

datatype ('v, 'f) transformer_arg = TUndefined | TPrimitive "'v sval" bool | TObject 'v "('v, 'f) transformer_dict"

datatype ('v, 'f) strategy_arg =
  SAUndefined | SANotObject | SAObject "'v sval + 'v hwm_value" "'v sval + 'f prop_value"

definition ExtractFunction :: "'v sval + 'f prop_value \<Rightarrow> string \<Rightarrow> 'v sval + 'f option" where
  "ExtractFunction read fname = rbind read (\<lambda>v. case v of
     PUndefined \<Rightarrow> Inr None
   | POther \<Rightarrow> Inl (SError (fname @ '' should be a function''))
   | PCallable f \<Rightarrow> Inr (Some f))"

definition bad_hwm :: "js_number \<Rightarrow> bool" where
  "bad_hwm n = (case n of JNaN \<Rightarrow> True | JPosInf \<Rightarrow> False | JNegInf \<Rightarrow> True | JFin x \<Rightarrow> x < 0)"

definition ExtractStrategy :: "('v, 'f) strategy_arg \<Rightarrow> js_number
    \<Rightarrow> 'v sval + (js_number \<times> 'f option)" where
  "ExtractStrategy strategy default_hwm = (case strategy of
     SAUndefined \<Rightarrow> Inr (default_hwm, None)
   | SANotObject \<Rightarrow> Inl (SError ''Strategy passed to TransformStream constructor must be an object'')
   | SAObject read_hwm read_size \<Rightarrow>
       rbind read_hwm (\<lambda>v. rbind (case v of
            HUndefined \<Rightarrow> Inr default_hwm
          | HValue conv \<Rightarrow> rbind conv (\<lambda>n. if bad_hwm n
              then Inl (SError ''Invalid value for highWaterMark'') else Inr n)) (\<lambda>hwm.
       rbind (ExtractFunction read_size ''size'') (\<lambda>size. Inr (hwm, size)))))"

definition extract_dict :: "('v, 'f) transformer_arg
    \<Rightarrow> 'v sval + ('f option \<times> 'f option \<times> 'f option)" where
  "extract_dict a = (case a of
     TObject _ d \<Rightarrow>
       rbind (ExtractFunction (d_start d) ''start'') (\<lambda>st.
       rbind (ExtractFunction (d_transform d) ''transform'') (\<lambda>tr.
       rbind (ExtractFunction (d_flush d) ''flush'') (\<lambda>fl.
       rbind (d_has_readableType d) (\<lambda>found.
       if found then Inl (SError ''transformer.readableType is reserved for future use'')
       else rbind (d_has_writableType d) (\<lambda>found.
       if found then Inl (SError ''transformer.writableType is reserved for future use'')
       else Inr (st, tr, fl))))))
   | _ \<Rightarrow> Inr (None, None, None))"

definition transformer_value :: "('v, 'f) transformer_arg \<Rightarrow> 'v sval" where
  "transformer_value a = (case a of TUndefined \<Rightarrow> SNull | TPrimitive v _ \<Rightarrow> v | TObject v _ \<Rightarrow> SVal v)"

definition to_boolean :: "('v, 'f) transformer_arg \<Rightarrow> bool" where
  "to_boolean a = (case a of TUndefined \<Rightarrow> False | TPrimitive _ b \<Rightarrow> b | TObject _ _ \<Rightarrow> True)"

definition TransformStream_constructor :: "('e, 'v, 'f) stream_engine
    \<Rightarrow> ('e, 'v, 'f, 'm) user_call \<Rightarrow> ('v, 'f) transformer_arg \<Rightarrow> ('v, 'f) strategy_arg
    \<Rightarrow> ('v, 'f) strategy_arg \<Rightarrow> ('e, 'v, 'f, 'm) ts_scheme
    \<Rightarrow> ('v sval + unit) \<times> ('e, 'v, 'f, 'm) ts_scheme" where
  "TransformStream_constructor E call targ arg1 arg2 s = (case
     rbind (extract_dict targ) (\<lambda>fs.
     rbind (ExtractStrategy arg2 (JFin 0)) (\<lambda>r.
     rbind (ExtractStrategy arg1 (JFin 1)) (\<lambda>w. Inr (fs, r, w)))) of
       Inl exn \<Rightarrow> (Inl exn, s)
     | Inr ((st, tr, fl), (rhwm, rsize), (whwm, wsize)) \<Rightarrow>
         (case create E call whwm wsize rhwm rsize (transformer_value targ) st tr fl s of
            (Inl exn, s1) \<Rightarrow> (Inl exn, s1)
          | (Inr _, s1) \<Rightarrow> (Inr (), s1\<lparr>has_transformer := Some (to_boolean targ)\<rparr>)))"

subsection \<open>The engine's discipline\<close>

text \<open>
  What the streams standard says of the calls: erroring a writable stream makes it erroring, or
  errored when no write is in flight (\<open>busy\<close>), and no call on the readable end changes the state
  of the writable end.
\<close>

definition engine_laws :: "('e, 'v, 'f) stream_engine \<Rightarrow> ('e \<Rightarrow> bool) \<Rightarrow> bool" where
  "engine_laws E busy \<longleftrightarrow>
     (\<forall>e v. ws_state E (ws_error E v e) \<in> {Erroring, Errored} \<and> busy (ws_error E v e) = busy e
        \<and> (busy e \<longrightarrow> ws_state E (ws_error E v e) = Erroring))
   \<and> (\<forall>e v. ws_state E (rs_error E v e) = ws_state E e \<and> busy (rs_error E v e) = busy e)
   \<and> (\<forall>e. ws_state E (rs_close E e) = ws_state E e \<and> busy (rs_close E e) = busy e)
   \<and> (\<forall>e v. ws_state E (snd (snd (rs_enqueue E v e))) = ws_state E e
        \<and> busy (snd (snd (rs_enqueue E v e))) = busy e)"

text \<open>How the writable end may change: it never becomes writable again, and it is not errored while a
  write is in flight.\<close>

definition ws_mono :: "('e, 'v, 'f) stream_engine \<Rightarrow> ('e \<Rightarrow> bool) \<Rightarrow> 'e \<Rightarrow> 'e \<Rightarrow> bool" where
  "ws_mono E busy e e' \<longleftrightarrow> busy e' = busy e
     \<and> (ws_state E e \<noteq> Writable \<longrightarrow> ws_state E e' \<noteq> Writable)
     \<and> (busy e \<and> ws_state E e \<in> {Writable, Erroring} \<longrightarrow> ws_state E e' \<in> {Writable, Erroring})"

text \<open>
  What a script does before it returns to native code: calls of the controller's methods,
  cancelling or reading the readable end (which may call the source), creating promises, changes
  of the engine's streams that call nothing here, and changes of state that is not the stream's.
  No code here looks at the state of a promise, so a script that settles a promise of its own is
  a step of its own, between the operations.
\<close>

inductive script_steps :: "('e, 'v, 'f) stream_engine \<Rightarrow> ('e \<Rightarrow> bool) \<Rightarrow> ('e, 'v, 'f, 'm) ts_scheme
    \<Rightarrow> ('e, 'v, 'f, 'm) ts_scheme \<Rightarrow> bool" for E busy where
  Script_Refl: "script_steps E busy s s"
| Script_Enqueue: "script_steps E busy s s' \<Longrightarrow> script_steps E busy s (snd (enqueue_js E args s'))"
| Script_Error: "script_steps E busy s s' \<Longrightarrow> script_steps E busy s (snd (error_js E args s'))"
| Script_Terminate: "script_steps E busy s s' \<Longrightarrow> script_steps E busy s (snd (terminate_js E s'))"
| Script_Cancel: "script_steps E busy s s'
    \<Longrightarrow> script_steps E busy s (snd (DefaultSourceCancelAlgorithm E reason s'))"
| Script_Pull: "script_steps E busy s s' \<Longrightarrow> script_steps E busy s (snd (DefaultSourcePullAlgorithm s'))"
| Script_Promise: "script_steps E busy s s' \<Longrightarrow> script_steps E busy s (snd (new_promise st s'))"
| Script_Engine: "script_steps E busy s s' \<Longrightarrow> ws_mono E busy (eng s') e
    \<Longrightarrow> script_steps E busy s (s'\<lparr>eng := e\<rparr>)"
| Script_More: "script_steps E busy s s' \<Longrightarrow> script_steps E busy s (s'\<lparr>ts.more := m\<rparr>)"

definition script_call :: "('e, 'v, 'f) stream_engine \<Rightarrow> ('e \<Rightarrow> bool) \<Rightarrow> ('e, 'v, 'f, 'm) user_call \<Rightarrow> bool"
  where "script_call E busy call \<longleftrightarrow> (\<forall>v f args s. script_steps E busy s (snd (call v f args s)))"

text \<open>
  The calls the engine makes.  A configuration adds to the state the promise of the write in
  flight and whether the sink's \<open>close\<close> has been called.
\<close>

datatype ('e, 'v) ts_event =
    Ev_Pull | Ev_Cancel "'v sval" | Ev_Write "'v sval" | Ev_Written | Ev_Abort "'v sval" | Ev_Close
  | Ev_Reaction nat | Ev_Settle nat "'v pstate" | Ev_Engine 'e
  | Ev_Enqueue "'v sval list" | Ev_Error "'v sval list" | Ev_Terminate

type_synonym ('e, 'v, 'f, 'm) config = "('e, 'v, 'f, 'm) ts_scheme \<times> nat option \<times> bool"

fun ts_enabled :: "('e, 'v, 'f) stream_engine \<Rightarrow> ('e \<Rightarrow> bool) \<Rightarrow> ('e, 'v) ts_event
    \<Rightarrow> ('e, 'v, 'f, 'm) config \<Rightarrow> bool" where
  "ts_enabled E busy (Ev_Write chunk) (s, w, c) \<longleftrightarrow>
     ws_state E (eng s) = Writable \<and> busy (eng s) \<and> w = None \<and> \<not> c"
| "ts_enabled E busy Ev_Written (s, w, c) \<longleftrightarrow>
     (\<exists>q. w = Some q \<and> q < length (proms s) \<and> proms s ! q \<noteq> Pending)"
| "ts_enabled E busy (Ev_Abort reason) (s, w, c) \<longleftrightarrow> w = None \<and> ws_state E (eng s) \<noteq> Writable"
| "ts_enabled E busy Ev_Close (s, w, c) \<longleftrightarrow> ws_state E (eng s) = Writable \<and> w = None \<and> \<not> c"
| "ts_enabled E busy (Ev_Reaction i) (s, w, c) \<longleftrightarrow> i < length (reacts s)
     \<and> on_promise (reacts s ! i) < length (proms s) \<and> proms s ! on_promise (reacts s ! i) \<noteq> Pending"
| "ts_enabled E busy (Ev_Settle p st) (s, w, c) \<longleftrightarrow>
     change_promise s \<noteq> Some p \<and> p \<notin> result ` set (reacts s)"
| "ts_enabled E busy (Ev_Engine e) (s, w, c) \<longleftrightarrow>
     (ws_state E (eng s) \<noteq> Writable \<longrightarrow> ws_state E e \<noteq> Writable)
     \<and> (w \<noteq> None \<longrightarrow> busy e \<and> ws_state E e \<in> {Writable, Erroring})"
| "ts_enabled E busy ev (s, w, c) \<longleftrightarrow> True"

definition without :: "nat \<Rightarrow> 'a list \<Rightarrow> 'a list" where
  "without i xs = take i xs @ drop (Suc i) xs"

fun ts_exec :: "('e, 'v, 'f) stream_engine \<Rightarrow> ('e, 'v, 'f, 'm) user_call \<Rightarrow> ('e, 'v) ts_event
    \<Rightarrow> ('e, 'v, 'f, 'm) config \<Rightarrow> ('v ts_fail + unit) \<times> ('e, 'v, 'f, 'm) config" where
  "ts_exec E call Ev_Pull (s, w, c) = (case DefaultSourcePullAlgorithm s of
     (Inl f, s1) \<Rightarrow> (Inl f, (s1, w, c)) | (Inr _, s1) \<Rightarrow> (Inr (), (s1, w, c)))"
| "ts_exec E call (Ev_Cancel reason) (s, w, c) =
     (Inr (), (snd (DefaultSourceCancelAlgorithm E reason s), w, c))"
| "ts_exec E call (Ev_Write chunk) (s, w, c) = (case DefaultSinkWriteAlgorithm E call chunk s of
     (Inl f, s1) \<Rightarrow> (Inl f, (s1, w, c)) | (Inr q, s1) \<Rightarrow> (Inr (), (s1, Some q, c)))"
| "ts_exec E call Ev_Written (s, w, c) = (Inr (), (s, None, c))"
| "ts_exec E call (Ev_Abort reason) (s, w, c) =
     (Inr (), (snd (DefaultSinkAbortAlgorithm E reason s), w, c))"
| "ts_exec E call Ev_Close (s, w, c) = (case DefaultSinkCloseAlgorithm call s of
     (Inl f, s1) \<Rightarrow> (Inl f, (s1, w, True)) | (Inr q, s1) \<Rightarrow> (Inr (), (s1, w, True)))"
| "ts_exec E call (Ev_Reaction i) (s, w, c) =
     (case ts_run_reaction E call (reacts s ! i) (s\<lparr>reacts := without i (reacts s)\<rparr>) of
        (res, s1) \<Rightarrow> (res, (s1, w, c)))"
| "ts_exec E call (Ev_Settle p st) (s, w, c) = (Inr (), (settle p st s, w, c))"
| "ts_exec E call (Ev_Engine e) (s, w, c) = (Inr (), (s\<lparr>eng := e\<rparr>, w, c))"
| "ts_exec E call (Ev_Enqueue args) (s, w, c) = (Inr (), (snd (enqueue_js E args s), w, c))"
| "ts_exec E call (Ev_Error args) (s, w, c) = (Inr (), (snd (error_js E args s), w, c))"
| "ts_exec E call Ev_Terminate (s, w, c) = (Inr (), (snd (terminate_js E s), w, c))"

text \<open>The configurations reached from a stream that the constructor has just returned.\<close>

inductive ts_reachable :: "('e, 'v, 'f) stream_engine \<Rightarrow> ('e \<Rightarrow> bool) \<Rightarrow> ('e, 'v, 'f, 'm) user_call
    \<Rightarrow> ('e, 'v, 'f, 'm) config \<Rightarrow> bool" for E busy call where
  Ts_New: "TransformStream_constructor E call targ strategy readable_strategy s = (Inr (), s') \<Longrightarrow>
     proms s = [] \<Longrightarrow> reacts s = [] \<Longrightarrow> ts_reachable E busy call (s', None, False)"
| Ts_Step: "ts_reachable E busy call k \<Longrightarrow> ts_enabled E busy ev k \<Longrightarrow>
     ts_exec E call ev k = (Inr (), k') \<Longrightarrow> ts_reachable E busy call k'"

subsection \<open>The invariant\<close>

text \<open>
  The change promise is pending and nobody else settles it; a write that waits does so on this
  promise while there is backpressure, or on an earlier one that is fulfilled; every reaction's
  result is pending and belongs to it alone (\<open>R\<close>: promises that the running operation will
  settle); and a stream without algorithms is not writable, or is being closed.
\<close>

fun write_handler :: "'v handler option \<Rightarrow> bool" where
  "write_handler (Some (WriteThen chunk)) = True"
| "write_handler h = False"

fun is_wait :: "'v reaction \<Rightarrow> bool" where
  "is_wait (Reaction p f g q) = (write_handler f \<or> write_handler g)"

definition ts_inv :: "('e, 'v, 'f) stream_engine \<Rightarrow> nat set \<Rightarrow> bool \<Rightarrow> ('e, 'v, 'f, 'm) ts_scheme \<Rightarrow> bool"
  where "ts_inv E R c s \<longleftrightarrow>
     (\<exists>p. change_promise s = Some p \<and> p < length (proms s) \<and> proms s ! p = Pending
        \<and> p \<notin> R \<and> p \<notin> result ` set (reacts s)
        \<and> (\<forall>r\<in>set (reacts s). is_wait r \<longrightarrow> on_promise r = p \<and> ts_backpressure s
             \<or> on_promise r < length (proms s) \<and> proms s ! on_promise r = Fulfilled SUndefined))
   \<and> distinct (map result (reacts s)) \<and> R \<inter> result ` set (reacts s) = {}
   \<and> (\<forall>q\<in>R \<union> result ` set (reacts s). q < length (proms s) \<and> proms s ! q = Pending)
   \<and> (transform_algorithm s = None \<longleftrightarrow> flush_algorithm s = None)
   \<and> (transform_algorithm s = None \<longrightarrow> ws_state E (eng s) \<noteq> Writable \<or> c)"

definition cfg_inv :: "('e, 'v, 'f) stream_engine \<Rightarrow> ('e \<Rightarrow> bool) \<Rightarrow> ('e, 'v, 'f, 'm) config \<Rightarrow> bool" where
  "cfg_inv E busy k = (case k of (s, w, c) \<Rightarrow> ts_inv E {} c s
     \<and> (\<forall>r\<in>set (reacts s). is_wait r \<longrightarrow> w = Some (result r))
     \<and> (w \<noteq> None \<longrightarrow> busy (eng s) \<and> ws_state E (eng s) \<in> {Writable, Erroring} \<and> \<not> c))"

text \<open>
  An operation evolves the state when it keeps the invariant, adds and removes no waiting write,
  and changes the writable end as \<open>ws_mono\<close> says.
\<close>

definition evolves :: "('e, 'v, 'f) stream_engine \<Rightarrow> ('e \<Rightarrow> bool) \<Rightarrow> bool \<Rightarrow> ('e, 'v, 'f, 'm) ts_scheme
    \<Rightarrow> ('e, 'v, 'f, 'm) ts_scheme \<Rightarrow> bool" where
  "evolves E busy c s s' \<longleftrightarrow> (\<forall>R. ts_inv E R c s \<longrightarrow> ts_inv E R c s')
     \<and> filter is_wait (reacts s') = filter is_wait (reacts s) \<and> ws_mono E busy (eng s) (eng s')"

lemma ws_mono_refl [simp]: "ws_mono E busy e e"
  by (simp add: ws_mono_def)

lemma ws_mono_trans: "ws_mono E busy a b \<Longrightarrow> ws_mono E busy b d \<Longrightarrow> ws_mono E busy a d"
  by (auto simp: ws_mono_def)

lemma evolves_refl [simp]: "evolves E busy c s s"
  by (simp add: evolves_def)

lemma evolves_trans: "evolves E busy c a b \<Longrightarrow> evolves E busy c b d \<Longrightarrow> evolves E busy c a d"
  unfolding evolves_def by (metis ws_mono_trans)

lemma new_promise_simps [simp]:
  "fst (new_promise st s) = length (proms s)"
  "snd (new_promise st s) = s\<lparr>proms := proms s @ [st]\<rparr>"
  by (simp_all add: new_promise_def)

lemma promise_then_simps [simp]:
  "fst (promise_then p f r s) = length (proms s)"
  "snd (promise_then p f r s) = s\<lparr>proms := proms s @ [Pending],
     reacts := reacts s @ [Reaction p f r (length (proms s))]\<rparr>"
  by (simp_all add: promise_then_def new_promise_def)

text \<open>With a change promise, setting backpressure settles it and puts a new one in its place.\<close>

lemma SetBackpressure_Some: "change_promise s = Some p \<Longrightarrow> SetBackpressure b s =
    (settle p (Fulfilled SUndefined) s)\<lparr>proms := proms (settle p (Fulfilled SUndefined) s) @ [Pending],
       change_promise := Some (length (proms s)), ts_backpressure := b\<rparr>"
  by (simp add: SetBackpressure_def resolve_promise_def new_promise_def settle_def Let_def)

lemma SetBackpressure_fields [simp]:
  "eng (SetBackpressure b s) = eng s" "ts_backpressure (SetBackpressure b s) = b"
  "reacts (SetBackpressure b s) = reacts s"
  "transform_algorithm (SetBackpressure b s) = transform_algorithm s"
  "flush_algorithm (SetBackpressure b s) = flush_algorithm s"
  "transform_input (SetBackpressure b s) = transform_input s"
  "flush_input (SetBackpressure b s) = flush_input s"
  "transformer (SetBackpressure b s) = transformer s"
  "has_controller (SetBackpressure b s) = has_controller s"
  "ts_mixin (SetBackpressure b s) = ts_mixin s" "has_transformer (SetBackpressure b s) = has_transformer s"
  "ts.more (SetBackpressure b s) = ts.more s"
  by (cases "change_promise s"; simp add: SetBackpressure_def new_promise_def resolve_promise_def
      settle_def Let_def)+

lemma ts_invI:
  assumes "change_promise s = Some p" "p < length (proms s)" "proms s ! p = Pending"
    "p \<notin> R" "p \<notin> result ` set (reacts s)"
    "\<And>r. r \<in> set (reacts s) \<Longrightarrow> is_wait r \<Longrightarrow> on_promise r = p \<and> ts_backpressure s
       \<or> on_promise r < length (proms s) \<and> proms s ! on_promise r = Fulfilled SUndefined"
    "distinct (map result (reacts s))" "R \<inter> result ` set (reacts s) = {}"
    "\<And>q. q \<in> R \<union> result ` set (reacts s) \<Longrightarrow> q < length (proms s) \<and> proms s ! q = Pending"
    "transform_algorithm s = None \<longleftrightarrow> flush_algorithm s = None"
    "transform_algorithm s = None \<longrightarrow> ws_state E (eng s) \<noteq> Writable \<or> c"
  shows "ts_inv E R c s"
  unfolding ts_inv_def using assms by blast

lemma ts_inv_rest:
  assumes "ts_inv E R c s"
  shows "distinct (map result (reacts s))" "R \<inter> result ` set (reacts s) = {}"
    "transform_algorithm s = None \<longleftrightarrow> flush_algorithm s = None"
    "transform_algorithm s = None \<longrightarrow> ws_state E (eng s) \<noteq> Writable \<or> c"
    "q \<in> R \<Longrightarrow> q < length (proms s) \<and> proms s ! q = Pending"
    "r \<in> set (reacts s) \<Longrightarrow> result r < length (proms s) \<and> proms s ! result r = Pending"
  using assms unfolding ts_inv_def by blast+

lemma SetBackpressure_inv:
  assumes "ts_inv E R c s" shows "ts_inv E R c (SetBackpressure b s)"
proof -
  obtain p where p: "change_promise s = Some p" "p < length (proms s)" "proms s ! p = Pending"
      "p \<notin> R" "p \<notin> result ` set (reacts s)"
      "\<forall>r\<in>set (reacts s). is_wait r \<longrightarrow> on_promise r = p \<and> ts_backpressure s
         \<or> on_promise r < length (proms s) \<and> proms s ! on_promise r = Fulfilled SUndefined"
    and q: "\<forall>q\<in>R \<union> result ` set (reacts s). q < length (proms s) \<and> proms s ! q = Pending"
    using assms unfolding ts_inv_def by blast
  let ?ps = "(proms s)[p := Fulfilled SUndefined] @ [Pending]"
  have e: "SetBackpressure b s = s\<lparr>proms := ?ps, change_promise := Some (length (proms s)),
      ts_backpressure := b\<rparr>"
    using p(1,2,3) by (simp add: SetBackpressure_Some settle_def)
  have "length (proms s) \<notin> R \<union> result ` set (reacts s)" using q by auto
  moreover have "x < length ?ps \<and> ?ps ! x = Pending" if "x \<in> R \<union> result ` set (reacts s)" for x
  proof -
    have "x \<noteq> p" using that p(4,5) by auto
    moreover have "x < length (proms s)" "proms s ! x = Pending" using that q by auto
    ultimately show ?thesis by (simp add: nth_append)
  qed
  moreover have "on_promise r < length ?ps \<and> ?ps ! on_promise r = Fulfilled SUndefined"
    if "r \<in> set (reacts s)" "is_wait r" for r
    using that p(2,6) by (force simp: nth_append nth_list_update)
  ultimately show ?thesis unfolding e using ts_inv_rest(1-4) [OF assms]
    by (intro ts_invI [where p = "length (proms s)"]) (simp_all add: nth_append)
qed

lemma SetBackpressure_evolves [simp]: "evolves E busy c s (SetBackpressure b s)"
  by (simp add: evolves_def SetBackpressure_inv)

lemma eng_evolves: "ws_mono E busy (eng s) e \<Longrightarrow> evolves E busy c s (s\<lparr>eng := e\<rparr>)"
  by (auto simp: evolves_def ts_inv_def ws_mono_def)

lemma nth_append_old: "n < length xs \<Longrightarrow> (xs @ ys) ! n = xs ! n"
  by (simp add: nth_append)

lemma new_promise_evolves: "evolves E busy c s (s\<lparr>proms := proms s @ [st]\<rparr>)"
proof -
  have "ts_inv E R c (s\<lparr>proms := proms s @ [st]\<rparr>)" if inv: "ts_inv E R c s" for R
  proof -
    obtain p where p: "change_promise s = Some p" "p < length (proms s)" "proms s ! p = Pending"
      "p \<notin> R" "p \<notin> result ` set (reacts s)"
      "\<forall>r\<in>set (reacts s). is_wait r \<longrightarrow> on_promise r = p \<and> ts_backpressure s
         \<or> on_promise r < length (proms s) \<and> proms s ! on_promise r = Fulfilled SUndefined"
      using inv unfolding ts_inv_def by blast
    have "\<forall>r\<in>set (reacts s). is_wait r \<longrightarrow> on_promise r = p \<and> ts_backpressure s
         \<or> on_promise r < length (proms s @ [st]) \<and> (proms s @ [st]) ! on_promise r = Fulfilled SUndefined"
      using p(6) nth_append_old [of _ "proms s" "[st]"] by fastforce
    then show ?thesis using inv p(1-5) unfolding ts_inv_def by (simp add: nth_append_old less_SucI)
  qed
  then show ?thesis by (simp add: evolves_def)
qed

lemma more_evolves: "evolves E busy c s (s\<lparr>ts.more := m\<rparr>)"
  by (simp add: evolves_def ts_inv_def)

subsection \<open>Every operation keeps the invariant\<close>

lemma ClearAlgorithms_evolves:
  "ws_state E (eng s) \<noteq> Writable \<or> c \<Longrightarrow> evolves E busy c s (ClearAlgorithms s)"
  by (auto simp: evolves_def ts_inv_def ClearAlgorithms_def)

lemma settle_evolves_reserved:
  assumes "ts_inv E (insert q R) c s" "q \<notin> R"
  shows "ts_inv E R c (settle q st s)"
proof -
  obtain p where p: "change_promise s = Some p" "p < length (proms s)" "proms s ! p = Pending"
      "p \<notin> insert q R" "p \<notin> result ` set (reacts s)"
      "\<forall>r\<in>set (reacts s). is_wait r \<longrightarrow> on_promise r = p \<and> ts_backpressure s
         \<or> on_promise r < length (proms s) \<and> proms s ! on_promise r = Fulfilled SUndefined"
    using assms(1) unfolding ts_inv_def by blast
  note rest = ts_inv_rest [OF assms(1)]
  have q: "q < length (proms s)" "proms s ! q = Pending" using rest(5) [of q] by simp_all
  then have e: "settle q st s = s\<lparr>proms := (proms s)[q := st]\<rparr>" by (simp add: settle_def)
  have "on_promise r = p \<and> ts_backpressure s
      \<or> on_promise r < length (proms s) \<and> (proms s)[q := st] ! on_promise r = Fulfilled SUndefined"
    if "r \<in> set (reacts s)" "is_wait r" for r
    using p(6) that q by (auto simp: nth_list_update)
  moreover have "x < length (proms s) \<and> (proms s)[q := st] ! x = Pending"
    if "x \<in> R \<union> result ` set (reacts s)" for x
  proof -
    have "x \<noteq> q" using that rest(2) assms(2) by auto
    then show ?thesis using that rest(5,6) by auto
  qed
  ultimately show ?thesis unfolding e using p(1-5) rest(1-4)
    by (intro ts_invI [where p = p]) auto
qed

lemma ErrorWritable_evolves:
  assumes "engine_laws E busy" shows "evolves E busy c s (ErrorWritableAndUnblockWrite E e s)"
proof -
  define s2 where "s2 = (let s1 = ClearAlgorithms s in
    if ws_state E (eng s1) = Writable then s1\<lparr>eng := ws_error E e (eng s1)\<rparr> else s1)"
  define s1 where "s1 = (if ws_state E (eng s) = Writable then s\<lparr>eng := ws_error E e (eng s)\<rparr> else s)"
  have "evolves E busy c s s1"
    using assms unfolding s1_def
    by (auto intro!: eng_evolves simp: engine_laws_def ws_mono_def)
  moreover have "ws_state E (eng s1) \<noteq> Writable"
    using assms unfolding s1_def engine_laws_def by (auto, metis wstate.distinct(3,5))
  then have "evolves E busy c s1 (ClearAlgorithms s1)"
    by (intro ClearAlgorithms_evolves) simp
  moreover have "s2 = ClearAlgorithms s1"
    by (simp add: s1_def s2_def ClearAlgorithms_def Let_def)
  ultimately have "evolves E busy c s s2" by (metis evolves_trans)
  moreover have "ErrorWritableAndUnblockWrite E e s = (if ts_backpressure s2 then SetBackpressure False s2 else s2)"
    by (simp add: ErrorWritableAndUnblockWrite_def s2_def Let_def)
  ultimately show ?thesis by (auto intro: evolves_trans)
qed

lemma TransformStream_Error_evolves:
  assumes "engine_laws E busy" shows "evolves E busy c s (TransformStream_Error E e s)"
proof -
  have "evolves E busy c s (s\<lparr>eng := rs_error E e (eng s)\<rparr>)"
    using assms by (intro eng_evolves) (simp add: engine_laws_def ws_mono_def)
  then show ?thesis
    using ErrorWritable_evolves [OF assms] evolves_trans unfolding TransformStream_Error_def by blast
qed

lemma Pull_evolves: "evolves E busy c s (snd (DefaultSourcePullAlgorithm s))"
  by (simp add: DefaultSourcePullAlgorithm_def Let_def)

lemma Cancel_evolves:
  "engine_laws E busy \<Longrightarrow> evolves E busy c s (snd (DefaultSourceCancelAlgorithm E e s))"
  by (simp add: DefaultSourceCancelAlgorithm_def ErrorWritable_evolves)

lemma Terminate_evolves:
  assumes "engine_laws E busy" shows "evolves E busy c s (Terminate E s)"
proof -
  have "evolves E busy c s (s\<lparr>eng := rs_close E (eng s)\<rparr>)"
    using assms by (intro eng_evolves) (simp add: engine_laws_def ws_mono_def)
  then have "evolves E busy c s (if rs_can E (eng s) then s\<lparr>eng := rs_close E (eng s)\<rparr> else s)"
    by simp
  then show ?thesis
    unfolding Terminate_def Let_def by (rule evolves_trans) (rule ErrorWritable_evolves [OF assms])
qed

lemma Enqueue_evolves:
  assumes "engine_laws E busy" shows "evolves E busy c s (snd (Enqueue E chunk s))"
proof -
  obtain r pulled e where q: "rs_enqueue E chunk (eng s) = (r, pulled, e)" by (metis prod_cases3)
  have "ws_mono E busy (eng s) e"
    using assms q unfolding engine_laws_def ws_mono_def by (metis snd_conv)
  then have 1: "evolves E busy c s (s\<lparr>eng := e\<rparr>)" by (rule eng_evolves)
  have 2: "evolves E busy c (s\<lparr>eng := e\<rparr>) (if pulled then snd (DefaultSourcePullAlgorithm (s\<lparr>eng := e\<rparr>)) else s\<lparr>eng := e\<rparr>)"
    by (simp add: Pull_evolves)
  show ?thesis
  proof (cases "rs_can E (eng s)")
    case True
    then show ?thesis
      using evolves_trans [OF 1 ErrorWritable_evolves [OF assms]] evolves_trans [OF 1 2]
        evolves_trans [OF evolves_trans [OF 1 2] SetBackpressure_evolves]
      by (cases r) (simp_all add: Enqueue_def q Let_def)
  qed (simp add: Enqueue_def)
qed

lemma enqueue_js_evolves: "engine_laws E busy \<Longrightarrow> evolves E busy c s (snd (enqueue_js E args s))"
  using Enqueue_evolves [of E busy c s] unfolding enqueue_js_def
  by (simp add: case_prod_beta split: sum.splits)

lemma script_evolves:
  assumes "engine_laws E busy" "script_steps E busy s s'" shows "evolves E busy c s s'"
  using assms(2)
proof induction
  case (Script_Enqueue s s' args)
  then show ?case using enqueue_js_evolves [OF assms(1)] evolves_trans by blast
next
  case (Script_Error s s' args)
  then show ?case using TransformStream_Error_evolves [OF assms(1)] evolves_trans
    unfolding error_js_def by fastforce
next
  case (Script_Terminate s s')
  then show ?case using Terminate_evolves [OF assms(1)] evolves_trans
    unfolding terminate_js_def by fastforce
next
  case (Script_Cancel s s' reason)
  then show ?case using Cancel_evolves [OF assms(1)] evolves_trans by blast
next
  case (Script_Pull s s')
  show ?case by (rule evolves_trans [OF Script_Pull.IH Pull_evolves])
next
  case (Script_Promise s s' st)
  show ?case by (simp add: evolves_trans [OF Script_Promise.IH new_promise_evolves])
next
  case (Script_Engine s s' e)
  show ?case by (rule evolves_trans [OF Script_Engine.IH eng_evolves [OF Script_Engine.hyps(2)]])
next
  case (Script_More s s' m)
  show ?case by (rule evolves_trans [OF Script_More.IH more_evolves])
qed simp

text \<open>A reaction with a fresh result; a waiting one must be on the change promise.\<close>

lemma promise_then_inv:
  assumes inv: "ts_inv E R c s"
    and w: "is_wait (Reaction p f g (length (proms s))) \<longrightarrow> change_promise s = Some p \<and> ts_backpressure s"
  shows "ts_inv E R c (snd (promise_then p f g s))"
proof -
  let ?n = "length (proms s)" and ?s' = "snd (promise_then p f g s)"
  obtain cp where cp: "change_promise s = Some cp" "cp < ?n" "proms s ! cp = Pending"
      "cp \<notin> R" "cp \<notin> result ` set (reacts s)"
      "\<forall>r\<in>set (reacts s). is_wait r \<longrightarrow> on_promise r = cp \<and> ts_backpressure s
         \<or> on_promise r < ?n \<and> proms s ! on_promise r = Fulfilled SUndefined"
    using inv unfolding ts_inv_def by blast
  note rest = ts_inv_rest [OF inv]
  have fresh: "?n \<notin> R" "?n \<notin> result ` set (reacts s)" using rest(5,6) by force+
  have "on_promise r = cp \<and> ts_backpressure ?s'
      \<or> on_promise r < length (proms ?s') \<and> proms ?s' ! on_promise r = Fulfilled SUndefined"
    if "r \<in> set (reacts ?s')" "is_wait r" for r
    using cp(6) that w cp(1) by (force simp: nth_append)
  moreover have "x < length (proms ?s') \<and> proms ?s' ! x = Pending"
    if "x \<in> R \<union> result ` set (reacts ?s')" for x
    using that rest(5,6) by (auto simp: nth_append)
  ultimately show ?thesis using cp(1-5) rest(1-4) fresh
    by (intro ts_invI [where p = cp]) (auto simp: nth_append)
qed

lemma promise_then_evolves:
  assumes "\<And>q. \<not> is_wait (Reaction p f g q)"
  shows "evolves E busy c s (snd (promise_then p f g s))"
proof -
  have "ts_inv E R c (snd (promise_then p f g s))" if "ts_inv E R c s" for R
    using promise_then_inv [OF that, of p f g] assms by blast
  moreover have "\<not> is_wait (Reaction p f g (length (proms s)))" using assms by blast
  ultimately show ?thesis by (simp add: evolves_def)
qed

lemma promise_resolved_evolves: "evolves E busy c s (snd (promise_resolved v s))"
  by (cases v) (simp_all add: promise_resolved_def new_promise_evolves)

lemma script_call_evolves:
  "engine_laws E busy \<Longrightarrow> script_call E busy call \<Longrightarrow> evolves E busy c s (snd (call v f args s))"
  by (rule script_evolves) (simp_all add: script_call_def)

lemma Invoke_evolves:
  assumes "engine_laws E busy" "script_call E busy call"
  shows "evolves E busy c s (snd (InvokePromiseReturningCallback call v f args s))"
proof -
  obtain r s1 where c: "call v f args s = (r, s1)" by (rule prod.exhaust)
  then have 1: "evolves E busy c s s1" using script_call_evolves [OF assms, of c s v f args] by simp
  show ?thesis
    using evolves_trans [OF 1 new_promise_evolves] evolves_trans [OF 1 promise_resolved_evolves]
    by (cases r) (simp_all add: InvokePromiseReturningCallback_def c)
qed

lemma transform_algorithm_evolves:
  assumes "engine_laws E busy" "script_call E busy call"
  shows "evolves E busy c s (snd (transform_algorithm_transformer E call chunk s))"
proof (cases "transform_input s")
  case None
  obtain r s1 where c: "Enqueue E chunk s = (r, s1)" by (rule prod.exhaust)
  then have 1: "evolves E busy c s s1" using Enqueue_evolves [OF assms(1), of c s chunk] by simp
  show ?thesis
    using evolves_trans [OF 1 new_promise_evolves] evolves_trans [OF 1 promise_resolved_evolves]
    by (cases r) (simp_all add: transform_algorithm_transformer_def None c)
next
  case (Some f)
  then show ?thesis using Invoke_evolves [OF assms] by (simp add: transform_algorithm_transformer_def)
qed

lemma PerformTransform_evolves:
  assumes "engine_laws E busy" "script_call E busy call" "transform_algorithm s \<noteq> None"
  obtains q s' where "PerformTransform E call chunk s = (Inr q, s')" "evolves E busy c s s'"
proof -
  obtain p s1 where t: "transform_algorithm_transformer E call chunk s = (p, s1)" by (rule prod.exhaust)
  have 1: "evolves E busy c s s1" using transform_algorithm_evolves [OF assms(1,2), of c s chunk] t by simp
  have "evolves E busy c s1 (snd (promise_then p None (Some TransformCatch) s1))"
    by (rule promise_then_evolves) simp
  from evolves_trans [OF 1 this] show thesis
    using that assms(3) t
    by (cases "transform_algorithm s"; cases "the (transform_algorithm s)")
      (auto simp: PerformTransform_def case_prod_beta Let_def)
qed

lemma resolve_promise_inv:
  assumes inv: "ts_inv E (insert q R) c s" and "q \<notin> R"
  shows "ts_inv E R c (resolve_promise q v s)"
proof (cases "\<exists>q'. v = SPromise q'")
  case True
  then obtain q' where v: "v = SPromise q'" by blast
  obtain cp where cp: "change_promise s = Some cp" "cp < length (proms s)" "proms s ! cp = Pending"
      "cp \<notin> insert q R" "cp \<notin> result ` set (reacts s)"
      "\<forall>r\<in>set (reacts s). is_wait r \<longrightarrow> on_promise r = cp \<and> ts_backpressure s
         \<or> on_promise r < length (proms s) \<and> proms s ! on_promise r = Fulfilled SUndefined"
    using inv unfolding ts_inv_def by blast
  note rest = ts_inv_rest [OF inv]
  show ?thesis unfolding v resolve_promise_def using cp rest(1-4) assms(2) rest(5) rest(6)
    by (intro ts_invI [where p = cp]) auto
next
  case False
  then have "resolve_promise q v s = settle q (Fulfilled v) s"
    by (cases v) (simp_all add: resolve_promise_def)
  then show ?thesis using settle_evolves_reserved [OF assms] by simp
qed

lemma resolve_promise_simps [simp]:
  "eng (resolve_promise q v s) = eng s"
  "filter is_wait (reacts (resolve_promise q v s)) = filter is_wait (reacts s)"
  by (cases v; simp add: resolve_promise_def settle_def)+

lemma settle_simps [simp]: "eng (settle q v s) = eng s" "reacts (settle q v s) = reacts s"
  "ts_backpressure (settle q v s) = ts_backpressure s" "change_promise (settle q v s) = change_promise s"
  "transform_algorithm (settle q v s) = transform_algorithm s"
  by (simp_all add: settle_def)

lemma ts_inv_mono: "ts_inv E R c s \<Longrightarrow> (c \<Longrightarrow> c') \<Longrightarrow> ts_inv E R c' s"
  unfolding ts_inv_def by blast

lemma run_handler_evolves:
  assumes laws: "engine_laws E busy" "script_call E busy call"
    and "write_handler (Some h) \<Longrightarrow> ws_state E (eng s) = Erroring \<or> transform_algorithm s \<noteq> None"
  shows "\<exists>s'. evolves E busy c s s' \<and> ((\<exists>w. run_handler E call h v s = (Inr w, s'))
     \<or> (\<exists>e. run_handler E call h v s = (Inl (Throw e), s')))"
proof (cases h)
  case (WriteThen chunk)
  show ?thesis
  proof (cases "ws_state E (eng s) = Erroring")
    case True
    then show ?thesis using WriteThen evolves_refl [of E busy c s]
      unfolding run_handler_def default_sink_write_algo_then_handler_def by auto
  next
    case False
    then have "transform_algorithm s \<noteq> None" using assms(3) WriteThen by auto
    from PerformTransform_evolves [OF laws this, of chunk c] obtain q s' where
      "PerformTransform E call chunk s = (Inr q, s')" "evolves E busy c s s'" .
    then show ?thesis using WriteThen False
      unfolding run_handler_def default_sink_write_algo_then_handler_def by auto
  qed
next
  case TransformCatch
  then show ?thesis using TransformStream_Error_evolves [OF laws(1), of c s v]
    unfolding run_handler_def transformPromise_catch_handler_def by auto
next
  case CloseThen
  have "evolves E busy c s (if rs_can E (eng s) then s\<lparr>eng := rs_close E (eng s)\<rparr> else s)"
    using laws(1) by (auto intro!: eng_evolves simp: engine_laws_def ws_mono_def)
  then show ?thesis using CloseThen evolves_refl [of E busy c s]
    unfolding run_handler_def default_sink_close_algo_then_handler_def by auto
next
  case CloseCatch
  then show ?thesis using TransformStream_Error_evolves [OF laws(1), of c s v]
    unfolding run_handler_def default_sink_close_algo_catch_handler_def Let_def by auto
qed

lemma write_handler_wait: "write_handler (on_fulfilled r) \<or> write_handler (on_rejected r) \<longleftrightarrow> is_wait r"
  by (cases r) simp

lemma ts_run_reaction_inv:
  assumes laws: "engine_laws E busy" "script_call E busy call"
    and inv: "ts_inv E {result r} c s"
    and ok: "is_wait r \<Longrightarrow> ws_state E (eng s) = Erroring \<or> transform_algorithm s \<noteq> None"
    and settled: "proms s ! on_promise r \<noteq> Pending"
  shows "\<exists>s'. ts_run_reaction E call r s = (Inr (), s') \<and> ts_inv E {} c s'
    \<and> filter is_wait (reacts s') = filter is_wait (reacts s) \<and> ws_mono E busy (eng s) (eng s')"
proof -
  define good where "good x \<longleftrightarrow> (\<exists>s'. x = (Inr (), s') \<and> ts_inv E {} c s'
    \<and> filter is_wait (reacts s') = filter is_wait (reacts s) \<and> ws_mono E busy (eng s) (eng s'))"
    for x :: "('b ts_fail + unit) \<times> ('a, 'b, 'c, 'd) ts_scheme"
  have go: "good (case run_handler E call h v s of
          (Inr w, s1) \<Rightarrow> (Inr (), resolve_promise (result r) w s1)
        | (Inl (Throw e), s1) \<Rightarrow> (Inr (), settle (result r) (Rejected e) s1)
        | (Inl Null_Call, s1) \<Rightarrow> (Inl Null_Call, s1))"
    if h: "write_handler (Some h) \<Longrightarrow> is_wait r" for h v
  proof -
    have "write_handler (Some h) \<Longrightarrow> ws_state E (eng s) = Erroring \<or> transform_algorithm s \<noteq> None"
      using h ok by blast
    from run_handler_evolves [OF laws this, where c = c and v = v] obtain s' where s': "evolves E busy c s s'"
      and r: "(\<exists>w. run_handler E call h v s = (Inr w, s')) \<or> (\<exists>e. run_handler E call h v s = (Inl (Throw e), s'))"
      by blast
    have inv': "ts_inv E {result r} c s'" using s' inv by (simp add: evolves_def)
    have "ts_inv E {} c (resolve_promise (result r) w s')" for w
      by (rule resolve_promise_inv) (simp_all add: inv')
    moreover have "ts_inv E {} c (settle (result r) st s')" for st
      by (rule settle_evolves_reserved) (simp_all add: inv')
    ultimately show ?thesis using r s' by (auto simp: evolves_def good_def)
  qed
  have plain: "good (Inr (), settle (result r) st s)" for st
    using settle_evolves_reserved [of E "result r" "{}" c s st] inv by (simp add: good_def)
  have "good (ts_run_reaction E call r s)"
  proof (cases "proms s ! on_promise r")
    case (Fulfilled v)
    show ?thesis
    proof (cases "on_fulfilled r")
      case None
      with Fulfilled show ?thesis using plain [of "Fulfilled v"] by (simp add: ts_run_reaction_def Let_def)
    next
      case (Some h)
      then have "good (case run_handler E call h v s of
          (Inr w, s1) \<Rightarrow> (Inr (), resolve_promise (result r) w s1)
        | (Inl (Throw e), s1) \<Rightarrow> (Inr (), settle (result r) (Rejected e) s1)
        | (Inl Null_Call, s1) \<Rightarrow> (Inl Null_Call, s1))"
        using write_handler_wait [of r] by (intro go) simp
      with Some Fulfilled show ?thesis by (simp add: ts_run_reaction_def Let_def)
    qed
  next
    case (Rejected v)
    show ?thesis
    proof (cases "on_rejected r")
      case None
      with Rejected show ?thesis using plain [of "Rejected v"] by (simp add: ts_run_reaction_def Let_def)
    next
      case (Some h)
      then have "good (case run_handler E call h v s of
          (Inr w, s1) \<Rightarrow> (Inr (), resolve_promise (result r) w s1)
        | (Inl (Throw e), s1) \<Rightarrow> (Inr (), settle (result r) (Rejected e) s1)
        | (Inl Null_Call, s1) \<Rightarrow> (Inl Null_Call, s1))"
        using write_handler_wait [of r] by (intro go) simp
      with Some Rejected show ?thesis by (simp add: ts_run_reaction_def Let_def)
    qed
  qed (simp add: settled)
  then show ?thesis by (simp add: good_def)
qed

lemma same_waits:
  "filter is_wait xs = filter is_wait ys \<Longrightarrow> r \<in> set xs \<Longrightarrow> is_wait r \<Longrightarrow> r \<in> set ys"
proof -
  assume f: "filter is_wait xs = filter is_wait ys" and r: "r \<in> set xs" "is_wait r"
  from r have "r \<in> set (filter is_wait xs)" by simp
  then show "r \<in> set ys" unfolding f by simp
qed

lemma cfg_evolves: "cfg_inv E busy (s, w, c) \<Longrightarrow> evolves E busy c s s' \<Longrightarrow> cfg_inv E busy (s', w, c)"
proof -
  assume a: "cfg_inv E busy (s, w, c)" "evolves E busy c s s'"
  have "\<And>r. r \<in> set (reacts s') \<Longrightarrow> is_wait r \<Longrightarrow> r \<in> set (reacts s)"
    using a(2) same_waits unfolding evolves_def by blast
  then show ?thesis using a unfolding cfg_inv_def evolves_def ws_mono_def by auto
qed

lemma without_wait:
  assumes "i < length xs"
  shows "set (without i xs) \<subseteq> set xs"
proof -
  have e: "xs = take i xs @ xs ! i # drop (Suc i) xs" using assms by (rule id_take_nth_drop)
  show "set (without i xs) \<subseteq> set xs" unfolding without_def by (auto dest: in_set_takeD in_set_dropD)
qed

lemma without_distinct:
  assumes "i < length xs" "distinct (map f xs)"
  shows "distinct (map f (without i xs))" "f (xs ! i) \<notin> f ` set (without i xs)"
proof -
  have e: "xs = take i xs @ xs ! i # drop (Suc i) xs" using assms(1) by (rule id_take_nth_drop)
  have "distinct (map f (take i xs @ xs ! i # drop (Suc i) xs))" using assms(2) e by simp
  then show "distinct (map f (without i xs))" "f (xs ! i) \<notin> f ` set (without i xs)"
    unfolding without_def by auto
qed

lemma without_inv:
  assumes inv: "ts_inv E {} c s" and i: "i < length (reacts s)"
  shows "ts_inv E {result (reacts s ! i)} c (s\<lparr>reacts := without i (reacts s)\<rparr>)"
proof -
  obtain cp where cp: "change_promise s = Some cp" "cp < length (proms s)" "proms s ! cp = Pending"
      "cp \<notin> result ` set (reacts s)"
      "\<forall>r\<in>set (reacts s). is_wait r \<longrightarrow> on_promise r = cp \<and> ts_backpressure s
         \<or> on_promise r < length (proms s) \<and> proms s ! on_promise r = Fulfilled SUndefined"
    using inv unfolding ts_inv_def by blast
  note rest = ts_inv_rest [OF inv]
  have sub: "set (without i (reacts s)) \<subseteq> set (reacts s)" by (rule without_wait [OF i])
  have r: "reacts s ! i \<in> set (reacts s)" using i by simp
  show ?thesis
    using cp sub rest(3,4) rest(6) r without_distinct [OF i rest(1)]
    by (intro ts_invI [where p = cp]) auto
qed

lemma settle_foreign:
  assumes inv: "ts_inv E {} c s" and p: "change_promise s \<noteq> Some p" "p \<notin> result ` set (reacts s)"
  shows "ts_inv E {} c (settle p st s)"
proof (cases "p < length (proms s) \<and> proms s ! p = Pending")
  case True
  then have "ts_inv E (insert p {}) c s" using inv p unfolding ts_inv_def by auto
  then show ?thesis by (rule settle_evolves_reserved) simp
next
  case False
  then have "settle p st s = s" unfolding settle_def by (rule if_not_P)
  then show ?thesis using inv by simp
qed

text \<open>The invariant is kept, and no event that the engine's discipline allows calls through null.\<close>

lemma ts_exec_inv:
  assumes laws: "engine_laws E busy" "script_call E busy call"
    and inv: "cfg_inv E busy (s, w, c)" and en: "ts_enabled E busy ev (s, w, c)"
  shows "\<exists>k. ts_exec E call ev (s, w, c) = (Inr (), k) \<and> cfg_inv E busy k"
proof -
  have tsi: "ts_inv E {} c s" and waits: "\<And>r. r \<in> set (reacts s) \<Longrightarrow> is_wait r \<Longrightarrow> w = Some (result r)"
    and wr: "w \<noteq> None \<longrightarrow> busy (eng s) \<and> ws_state E (eng s) \<in> {Writable, Erroring} \<and> \<not> c"
    using inv unfolding cfg_inv_def by auto
  note rest = ts_inv_rest [OF tsi]
  note evo = cfg_evolves [OF inv]
  show ?thesis
  proof (cases ev)
    case Ev_Pull
    then show ?thesis using evo [OF Pull_evolves]
      by (simp add: DefaultSourcePullAlgorithm_def Let_def SetBackpressure_def case_prod_beta)
  next
    case (Ev_Cancel reason)
    then show ?thesis using evo [OF Cancel_evolves [OF laws(1)]] by simp
  next
    case (Ev_Write chunk)
    then have e: "ws_state E (eng s) = Writable" "busy (eng s)" "w = None" "\<not> c" using en by simp_all
    then have nowait: "\<And>r. r \<in> set (reacts s) \<Longrightarrow> \<not> is_wait r" using waits by blast
    show ?thesis
    proof (cases "ts_backpressure s")
      case True
      obtain p where p: "change_promise s = Some p" using tsi unfolding ts_inv_def by blast
      have "ts_inv E {} c (snd (promise_then p (Some (WriteThen chunk)) None s))"
        by (rule promise_then_inv [OF tsi]) (simp add: p True)
      then show ?thesis using Ev_Write True p e nowait
        by (auto simp: DefaultSinkWriteAlgorithm_def cfg_inv_def case_prod_beta)
    next
      case False
      have "transform_algorithm s \<noteq> None" using rest(4) e by blast
      from PerformTransform_evolves [OF laws this, of chunk c] obtain q s' where
        p: "PerformTransform E call chunk s = (Inr q, s')" "evolves E busy c s s'" .
      have "\<And>r. r \<in> set (reacts s') \<Longrightarrow> \<not> is_wait r"
        using p(2) nowait unfolding evolves_def by (metis filter_empty_conv)
      then have "cfg_inv E busy (s', Some q, c)"
        using p(2) e tsi unfolding cfg_inv_def evolves_def ws_mono_def by auto
      then show ?thesis using Ev_Write False p(1) by (simp add: DefaultSinkWriteAlgorithm_def)
    qed
  next
    case Ev_Written
    then obtain q where q: "w = Some q" "proms s ! q \<noteq> Pending" using en by auto
    then have "\<And>r. r \<in> set (reacts s) \<Longrightarrow> \<not> is_wait r" using waits rest(6) by fastforce
    then show ?thesis using Ev_Written tsi by (simp add: cfg_inv_def)
  next
    case (Ev_Abort reason)
    have "evolves E busy c s (snd (promise_resolved SUndefined (TransformStream_Error E reason s)))"
      using TransformStream_Error_evolves [OF laws(1)] promise_resolved_evolves by (rule evolves_trans)
    then show ?thesis using Ev_Abort evo by (simp add: DefaultSinkAbortAlgorithm_def)
  next
    case Ev_Close
    then have e: "ws_state E (eng s) = Writable" "w = None" "\<not> c" using en by simp_all
    then have nowait: "\<And>r. r \<in> set (reacts s) \<Longrightarrow> \<not> is_wait r" using waits by blast
    obtain p s1 where f: "flush_algorithm_transformer call s = (p, s1)" by (rule prod.exhaust)
    have 1: "evolves E busy True s s1"
      using Invoke_evolves [OF laws, of True s] promise_resolved_evolves [where E = E and busy = busy and c = True and v = SUndefined and s = s] f
      by (cases "flush_input s") (auto simp: flush_algorithm_transformer_def split_def,
          (metis snd_conv)+)
    let ?s3 = "snd (promise_then p (Some CloseThen) (Some CloseCatch) (ClearAlgorithms s1))"
    have "evolves E busy True s1 (ClearAlgorithms s1)" by (rule ClearAlgorithms_evolves) simp
    moreover have "evolves E busy True (ClearAlgorithms s1) ?s3" by (rule promise_then_evolves) simp
    ultimately have 3: "evolves E busy True s ?s3" using 1 evolves_trans by blast
    have "\<And>r. r \<in> set (reacts ?s3) \<Longrightarrow> \<not> is_wait r"
      using 3 nowait unfolding evolves_def by (metis filter_empty_conv)
    then have "cfg_inv E busy (?s3, w, True)"
      using 3 e ts_inv_mono [OF tsi, of True] unfolding cfg_inv_def evolves_def by auto
    moreover obtain a where "flush_algorithm s = Some a" using rest(3,4) e by blast
    ultimately show ?thesis using Ev_Close f
      by (cases a) (simp add: DefaultSinkCloseAlgorithm_def case_prod_beta Let_def)
  next
    case (Ev_Reaction i)
    let ?r = "reacts s ! i" and ?s0 = "s\<lparr>reacts := without i (reacts s)\<rparr>"
    have i: "i < length (reacts s)" "proms s ! on_promise ?r \<noteq> Pending" using en Ev_Reaction by simp_all
    have r: "?r \<in> set (reacts s)" using i(1) by simp
    have "ws_state E (eng ?s0) = Erroring \<or> transform_algorithm ?s0 \<noteq> None" if "is_wait ?r"
      using waits [OF r that] wr rest(4) by auto
    from ts_run_reaction_inv [OF laws without_inv [OF tsi i(1)] this] i(2) obtain s' where
      s': "ts_run_reaction E call ?r ?s0 = (Inr (), s')" "ts_inv E {} c s'"
      "filter is_wait (reacts s') = filter is_wait (without i (reacts s))" "ws_mono E busy (eng s) (eng s')"
      by auto
    have "r' \<in> set (reacts s)" if "r' \<in> set (reacts s')" "is_wait r'" for r'
      using same_waits [OF s'(3) that] without_wait [OF i(1)] by blast
    then have "cfg_inv E busy (s', w, c)"
      using s'(2,4) waits wr unfolding cfg_inv_def ws_mono_def by auto
    then show ?thesis using Ev_Reaction s'(1) by simp
  next
    case (Ev_Settle p st)
    then have "change_promise s \<noteq> Some p" "p \<notin> result ` set (reacts s)" using en by simp_all
    from settle_foreign [OF tsi this, of st] show ?thesis using Ev_Settle inv by (simp add: cfg_inv_def)
  next
    case (Ev_Engine e)
    then show ?thesis using en inv unfolding cfg_inv_def ts_inv_def by auto
  next
    case (Ev_Enqueue args)
    then show ?thesis using evo [OF enqueue_js_evolves [OF laws(1)]] by simp
  next
    case (Ev_Error args)
    then show ?thesis using evo [OF TransformStream_Error_evolves [OF laws(1)]] by (simp add: error_js_def)
  next
    case Ev_Terminate
    then show ?thesis using evo [OF Terminate_evolves [OF laws(1)]] by (simp add: terminate_js_def)
  qed
qed

lemma constructor_inv:
  assumes laws: "engine_laws E busy" "script_call E busy call"
    and c: "TransformStream_constructor E call targ strategy readable_strategy s = (Inr (), s')"
    and new: "proms s = []" "reacts s = []"
  shows "cfg_inv E busy (s', None, False)"
proof -
  obtain st tr fl rhwm rsize whwm wsize s1 where
    cr: "create E call whwm wsize rhwm rsize (transformer_value targ) st tr fl s = (Inr (), s1)"
    and s': "s' = s1\<lparr>has_transformer := Some (to_boolean targ)\<rparr>"
    using c unfolding TransformStream_constructor_def
    by (auto split: sum.splits prod.splits)
  define s2 where "s2 = SetUpFromTransformer (transformer_value targ) tr fl
    (Initialize E whwm wsize rhwm rsize (snd (new_promise Pending s)))"
  have f: "change_promise s2 = Some 1" "proms s2 = [Pending, Pending]" "reacts s2 = []"
    "transform_algorithm s2 = Some Transformer_Algorithm" "flush_algorithm s2 = Some Transformer_Algorithm"
    by (simp_all add: s2_def SetUpFromTransformer_def set_transformer_def controller_create_def
      Initialize_def SetBackpressure_def new_promise_def new Let_def)
  then have 2: "ts_inv E {0} False s2"
    by (intro ts_invI [where p = 1]) simp_all
  have fin: "cfg_inv E busy (s', None, False)"
    if s3: "evolves E busy False s2 s3" and s1: "s1 = resolve_promise 0 v s3" for s3 v
  proof -
    have "ts_inv E {} False s1"
      unfolding s1 by (rule resolve_promise_inv) (use 2 s3 in \<open>simp_all add: evolves_def\<close>)
    moreover have "filter is_wait (reacts s1) = []" using s3 f(3) s1 by (simp add: evolves_def)
    ultimately show ?thesis unfolding s'
      by (simp add: cfg_inv_def ts_inv_def filter_empty_conv)
  qed
  have start: "fst (new_promise Pending s) = 0" by (simp add: new)
  show ?thesis
  proof (cases st)
    case None
    then show ?thesis using cr fin [OF evolves_refl, of SUndefined]
      by (simp add: create_def s2_def [symmetric] start case_prod_beta del: new_promise_simps)
  next
    case (Some f)
    obtain rv s3 where cl: "call (transformer_value targ) f [SController] s2 = (rv, s3)"
      by (rule prod.exhaust)
    then have "evolves E busy False s2 s3"
      using script_call_evolves [OF laws, of False s2 "transformer_value targ" f "[SController]"] by simp
    moreover obtain v where "rv = Inr v" "s1 = resolve_promise 0 v s3"
      using cr Some cl
      by (cases rv) (simp_all add: create_def s2_def [symmetric] start case_prod_beta
          del: new_promise_simps)
    ultimately show ?thesis using fin by blast
  qed
qed

lemma ts_reachable_inv:
  assumes "engine_laws E busy" "script_call E busy call" "ts_reachable E busy call k"
  shows "cfg_inv E busy k"
  using assms(3)
proof induction
  case (Ts_New targ strategy readable_strategy s s')
  then show ?case using constructor_inv [OF assms(1,2)] by blast
next
  case (Ts_Step k ev k')
  obtain s w c where k: "k = (s, w, c)" by (rule prod_cases3)
  show ?case using ts_exec_inv [OF assms(1,2), of s w c ev] Ts_Step k by force
qed

text \<open>A demonstration engine: a readable queue, the state of the writable end, one number per chunk.\<close>

record demo_streams =
  d_queue :: "nat sval list"
  d_closed :: bool
  d_error :: "nat sval option"
  d_writable :: wstate
  d_stored :: "nat sval"

definition demo_new :: demo_streams where
  "demo_new = \<lparr>d_queue = [], d_closed = False, d_error = None, d_writable = Writable, d_stored = SUndefined\<rparr>"

definition demo_engine :: "(demo_streams, nat, nat) stream_engine" where
  "demo_engine = \<lparr>
     rs_can = (\<lambda>e. \<not> d_closed e \<and> d_error e = None),
     rs_enqueue = (\<lambda>v e. (None, False, e\<lparr>d_queue := d_queue e @ [v]\<rparr>)),
     rs_close = (\<lambda>e. e\<lparr>d_closed := True\<rparr>),
     rs_error = (\<lambda>v e. e\<lparr>d_error := Some v, d_queue := []\<rparr>),
     rs_errored = (\<lambda>e. d_error e \<noteq> None),
     rs_stored = (\<lambda>e. case d_error e of None \<Rightarrow> SUndefined | Some v \<Rightarrow> v),
     rs_should_pull = (\<lambda>e. d_queue e = []),
     rs_desired_size = (\<lambda>e. Some (JFin 0)),
     ws_state = d_writable,
     ws_error = (\<lambda>v e. e\<lparr>d_writable := Erroring, d_stored := v\<rparr>),
     ws_stored = d_stored,
     new_streams = (\<lambda>_ _ _ _. demo_new)\<rparr>"

definition demo_busy :: "demo_streams \<Rightarrow> bool" where
  "demo_busy e = True"

definition demo_call :: "(demo_streams, nat, nat, 'm) user_call" where
  "demo_call v f args s = (Inr SUndefined, s)"

lemma demo_stream_laws: "engine_laws demo_engine demo_busy"
  by (simp add: engine_laws_def demo_engine_def demo_busy_def)

lemma demo_script: "script_call demo_engine demo_busy demo_call"
  by (simp add: script_call_def demo_call_def script_steps.Script_Refl)

definition demo_ts :: "(demo_streams, nat, nat) ts" where
  "demo_ts = snd (TransformStream_constructor demo_engine demo_call TUndefined SAUndefined SAUndefined
     (empty_ts demo_new))"

lemma demo_ts_eq: "demo_ts = \<lparr>eng = demo_new, proms = [Fulfilled SUndefined, Pending], reacts = [],
    ts_backpressure = True, change_promise = Some 1, has_controller = True, ts_mixin = False,
    has_transformer = Some False, transformer = SNull, transform_algorithm = Some Transformer_Algorithm,
    flush_algorithm = Some Transformer_Algorithm, transform_input = None, flush_input = None\<rparr>"
  by (simp add: demo_ts_def TransformStream_constructor_def extract_dict_def ExtractStrategy_def
    create_def SetUpFromTransformer_def set_transformer_def controller_create_def Initialize_def
    SetBackpressure_def new_promise_def resolve_promise_def settle_def empty_ts_def to_boolean_def
    transformer_value_def demo_engine_def)

lemma demo_ts_reachable: "ts_reachable demo_engine demo_busy demo_call (demo_ts, None, False)"
  by (rule Ts_New [where targ = TUndefined and strategy = SAUndefined and readable_strategy = SAUndefined
        and s = "empty_ts demo_new"])
    (simp_all add: demo_ts_def empty_ts_def TransformStream_constructor_def extract_dict_def
      ExtractStrategy_def create_def Let_def case_prod_beta)




text \<open>The witnesses' next configurations: a write that waits, and what the run of one reaction does.\<close>

definition demo_waiting :: "(demo_streams, nat, nat, unit) config" where
  "demo_waiting = snd (ts_exec demo_engine demo_call (Ev_Write (SVal 5)) (demo_ts, None, False))"

lemma demo_waiting_eq: "demo_waiting = (demo_ts\<lparr>proms := [Fulfilled SUndefined, Pending, Pending],
    reacts := [Reaction 1 (Some (WriteThen (SVal 5))) None 2]\<rparr>, Some 2, False)"
  by (simp add: demo_waiting_def demo_ts_eq DefaultSinkWriteAlgorithm_def case_prod_beta)

lemma demo_waiting_reachable: "ts_reachable demo_engine demo_busy demo_call demo_waiting"
proof (rule Ts_Step [OF demo_ts_reachable, of "Ev_Write (SVal 5)"])
  show "ts_enabled demo_engine demo_busy (Ev_Write (SVal 5)) (demo_ts, None, False)"
    by (simp add: demo_ts_eq demo_new_def demo_engine_def demo_busy_def)
  show "ts_exec demo_engine demo_call (Ev_Write (SVal 5)) (demo_ts, None, False) = (Inr (), demo_waiting)"
    by (simp add: demo_waiting_def demo_ts_eq DefaultSinkWriteAlgorithm_def case_prod_beta)
qed


lemma ErrorWritable_fields:
  assumes "engine_laws E busy"
  shows "ts_backpressure (ErrorWritableAndUnblockWrite E e s) = False"
    "transform_algorithm (ErrorWritableAndUnblockWrite E e s) = None"
    "transform_input (ErrorWritableAndUnblockWrite E e s) = None"
    "flush_algorithm (ErrorWritableAndUnblockWrite E e s) = None"
    "flush_input (ErrorWritableAndUnblockWrite E e s) = None"
    "ws_state E (eng (ErrorWritableAndUnblockWrite E e s)) \<noteq> Writable"
    "reacts (ErrorWritableAndUnblockWrite E e s) = reacts s"
  using assms by (auto simp: ErrorWritableAndUnblockWrite_def ClearAlgorithms_def Let_def engine_laws_def)
    (metis wstate.distinct(3,5))+

text \<open>The ways to error the stream from outside: its controller, its sink and its source.\<close>

fun error_op :: "('e, 'v, 'f) stream_engine \<Rightarrow> ('e, 'v) ts_event \<Rightarrow> bool" where
  "error_op E (Ev_Cancel reason) = True"
| "error_op E (Ev_Abort reason) = True"
| "error_op E (Ev_Error args) = True"
| "error_op E Ev_Terminate = True"
| "error_op E ev = False"

text \<open>
  After \<open>error\<close>, \<open>terminate\<close>, a cancel of the readable or an abort of the writable end the
  stream has no algorithm left, no backpressure and no writable end that accepts a chunk; the
  write that waited can run, transforms nothing, and is rejected with the error that the
  writable end stores.
\<close>

theorem error_unblocks_waiting_write:
  assumes laws: "engine_laws E busy" "script_call E busy call"
    and r: "ts_reachable E busy call (s, w, c)"
    and ev: "error_op E ev" "ts_enabled E busy ev (s, w, c)"
    and i: "i < length (reacts s)" "reacts s ! i = Reaction p (Some (WriteThen chunk)) None q"
  shows "\<exists>s' s''. ts_exec E call ev (s, w, c) = (Inr (), (s', w, c))
    \<and> transform_algorithm s' = None \<and> transform_input s' = None \<and> flush_algorithm s' = None
    \<and> flush_input s' = None \<and> \<not> ts_backpressure s' \<and> ws_state E (eng s') = Erroring
    \<and> ts_enabled E busy (Ev_Reaction i) (s', w, c)
    \<and> ts_exec E call (Ev_Reaction i) (s', w, c) = (Inr (), (s'', w, c))
    \<and> eng s'' = eng s' \<and> w = Some q \<and> proms s'' ! q = Rejected (ws_stored E (eng s'))"
proof -
  have inv: "cfg_inv E busy (s, w, c)" by (rule ts_reachable_inv [OF laws r])
  obtain s' where s': "ts_exec E call ev (s, w, c) = (Inr (), (s', w, c))"
    and f: "transform_algorithm s' = None" "transform_input s' = None" "flush_algorithm s' = None"
      "flush_input s' = None" "\<not> ts_backpressure s'" "ws_state E (eng s') \<noteq> Writable" "reacts s' = reacts s"
    using ev(1)
    by (cases ev) (auto simp: ErrorWritable_fields [OF laws(1)] error_js_def TransformStream_Error_def terminate_js_def Terminate_def
        DefaultSourceCancelAlgorithm_def DefaultSinkAbortAlgorithm_def promise_resolved_def Let_def)
  from ts_exec_inv [OF laws inv ev(2)] s' have inv': "cfg_inv E busy (s', w, c)" by auto
  let ?r = "reacts s ! i"
  have ri: "?r \<in> set (reacts s')" using i(1) f(7) by simp
  have wait: "is_wait ?r" and q: "result ?r = q" using i(2) by simp_all
  have ts: "ts_inv E {} c s'" and w: "w = Some q" "ws_state E (eng s') \<in> {Writable, Erroring}"
    using inv' ri wait q unfolding cfg_inv_def by auto
  have pr: "on_promise ?r < length (proms s')" "proms s' ! on_promise ?r = Fulfilled SUndefined"
    using ts ri wait f(5) unfolding ts_inv_def by auto
  let ?s'' = "settle q (Rejected (ws_stored E (eng s'))) (s'\<lparr>reacts := without i (reacts s')\<rparr>)"
  have "ts_exec E call (Ev_Reaction i) (s', w, c) = (Inr (), (?s'', w, c))"
    using w f(6,7) pr i(2) by (simp add: ts_run_reaction_def Let_def run_handler_def
        default_sink_write_algo_then_handler_def)
  moreover have "proms ?s'' ! q = Rejected (ws_stored E (eng s'))"
    using ts_inv_rest(6) [OF ts ri] q by (simp add: settle_def)
  ultimately show ?thesis
    using s' f w pr i(1) by (intro exI [of _ s'] exI [of _ ?s'']) simp
qed

theorem error_unblocks_waiting_write_witness:
  "\<exists>s' s''. ts_exec demo_engine demo_call Ev_Terminate demo_waiting = (Inr (), (s', Some 2, False))
    \<and> ws_state demo_engine (eng s') = Erroring
    \<and> ts_exec demo_engine demo_call (Ev_Reaction 0) (s', Some 2, False) = (Inr (), (s'', Some 2, False))
    \<and> proms s'' ! 2 = Rejected (ws_stored demo_engine (eng s'))"
  using error_unblocks_waiting_write [OF demo_stream_laws demo_script demo_waiting_reachable [unfolded demo_waiting_eq],
      of Ev_Terminate 0 1 "SVal 5" 2]
  unfolding demo_waiting_eq by auto

text \<open>A sequence of events, each of which is enabled when it comes and succeeds.\<close>

fun ts_run :: "('e, 'v, 'f) stream_engine \<Rightarrow> ('e \<Rightarrow> bool) \<Rightarrow> ('e, 'v, 'f, 'm) user_call
    \<Rightarrow> ('e, 'v) ts_event list \<Rightarrow> ('e, 'v, 'f, 'm) config \<Rightarrow> ('e, 'v, 'f, 'm) config option" where
  "ts_run E busy call [] k = Some k"
| "ts_run E busy call (ev # evs) k = (if ts_enabled E busy ev k
     then (case ts_exec E call ev k of (Inr _, k') \<Rightarrow> ts_run E busy call evs k' | (Inl _, _) \<Rightarrow> None)
     else None)"

text \<open>An enqueue that the readable end accepts: what becomes of the engine and of the backpressure.\<close>

lemma Enqueue_accepted:
  assumes "rs_can E (eng s)" "rs_enqueue E chunk (eng s) = (None, pulled, e)"
  obtains s1 where "Enqueue E chunk s = (Inr (), s1)" "eng s1 = e"
    "ts_backpressure s1 = (\<not> rs_should_pull E e \<or> ts_backpressure s \<and> \<not> pulled)" "reacts s1 = reacts s"
    "length (proms s1) \<ge> length (proms s)"
proof -
  have len: "length (proms (SetBackpressure b s)) \<ge> length (proms s)" for b and s :: "('a, 'b, 'c, 'd) ts_scheme"
    by (cases "change_promise s")
      (simp_all add: SetBackpressure_def resolve_promise_def settle_def new_promise_def Let_def)
  define s2 where "s2 = (if pulled then SetBackpressure False (s\<lparr>eng := e\<rparr>) else s\<lparr>eng := e\<rparr>)"
  define s1 where "s1 = (if (\<not> rs_should_pull E e) \<noteq> ts_backpressure s2 then SetBackpressure True s2 else s2)"
  have "Enqueue E chunk s = (Inr (), s1)"
    using assms by (simp add: Enqueue_def s1_def s2_def DefaultSourcePullAlgorithm_def Let_def)
  moreover have "length (proms s2) \<ge> length (proms s)"
    using len [of "s\<lparr>eng := e\<rparr>" False] by (simp add: s2_def)
  then have "length (proms s1) \<ge> length (proms s)"
    using len [of s2 True] by (simp add: s1_def)
  moreover have "eng s2 = e" "reacts s2 = reacts s" by (simp_all add: s2_def)
  moreover from this have "eng s1 = e" "reacts s1 = reacts s" by (simp_all add: s1_def)
  moreover have "ts_backpressure s2 = (ts_backpressure s \<and> \<not> pulled)" by (simp add: s2_def)
  then have "ts_backpressure s1 = (\<not> rs_should_pull E e \<or> ts_backpressure s \<and> \<not> pulled)"
    by (cases "rs_should_pull E e"; cases "ts_backpressure s2") (simp_all add: s1_def)
  ultimately show thesis using that by blast
qed

lemma without_last: "without (length xs) (xs @ y # ys) = xs @ ys"
  by (simp add: without_def)

lemma nth_at_length: "(xs @ y # ys) ! length xs = y"
  by simp

text \<open>
  The reaction of a waiting write to an identity stream whose readable end accepts the chunk: the
  chunk is enqueued, and the reactions that it registers then fulfil the promise of the write.
\<close>

lemma identity_reaction:
  assumes laws: "engine_laws E busy"
    and inv: "ts_inv E {q} c s" and last: "reacts s = rs"
    and p: "proms s ! p = Fulfilled SUndefined"
    and st: "ws_state E (eng s) = Writable" "transform_algorithm s \<noteq> None" "transform_input s = None"
    and bp: "\<not> ts_backpressure s"
    and acc: "rs_can E (eng s)" "rs_enqueue E chunk (eng s) = (None, pulled, e)"
  obtains s' q' tp where "ts_run_reaction E call (Reaction p (Some (WriteThen chunk)) None q) s = (Inr (), s')"
    "eng s' = e" "ts_backpressure s' = (\<not> rs_should_pull E e)"
    "reacts s' = rs @ [Reaction tp None (Some TransformCatch) q', Reaction q' None None q]"
    "tp < length (proms s')" "proms s' ! tp = Fulfilled SUndefined" "q' < length (proms s')"
    "proms s' ! q' = Pending" "q < length (proms s')" "proms s' ! q = Pending" "q \<noteq> q'"
proof -
  obtain s2 where e: "Enqueue E chunk s = (Inr (), s2)" "eng s2 = e"
    "ts_backpressure s2 = (\<not> rs_should_pull E e)" "reacts s2 = reacts s"
    using Enqueue_accepted [where E = E and s = s, OF acc] bp by metis
  have "evolves E busy c s s2" using Enqueue_evolves [OF laws, of c s chunk] e(1) by simp
  then have "ts_inv E {q} c s2" using inv by (simp add: evolves_def)
  from ts_inv_rest(5) [OF this, of q] have q: "q < length (proms s2)" "proms s2 ! q = Pending" by simp_all
  let ?tp = "length (proms s2)"
  let ?s' = "s2\<lparr>proms := proms s2 @ [Fulfilled SUndefined, Pending],
    reacts := reacts s @ [Reaction ?tp None (Some TransformCatch) (Suc ?tp), Reaction (Suc ?tp) None None q]\<rparr>"
  obtain a where a: "transform_algorithm s = Some a" using st(2) by blast
  have pt: "PerformTransform E call chunk s = (Inr (Suc ?tp), s2\<lparr>proms := proms s2 @ [Fulfilled SUndefined, Pending],
    reacts := reacts s @ [Reaction ?tp None (Some TransformCatch) (Suc ?tp)]\<rparr>)"
    using a st(3) e by (cases a) (simp add: PerformTransform_def transform_algorithm_transformer_def
        promise_resolved_def promise_then_def new_promise_def Let_def)
  have "ts_run_reaction E call (Reaction p (Some (WriteThen chunk)) None q) s = (Inr (), ?s')"
    using p st(1) by (simp add: ts_run_reaction_def run_handler_def pt
        default_sink_write_algo_then_handler_def resolve_promise_def Let_def)
  then show thesis
    by (rule that [where tp = ?tp and q' = "Suc ?tp"]) (use e q last in \<open>auto simp: nth_append\<close>)
qed

text \<open>
  A chunk written to an identity stream under backpressure stays outside the readable end
  until the consumer pulls; then exactly that chunk is enqueued, the promise of the write is
  fulfilled, no reaction is left over, and backpressure is what the readable end's queue says.
\<close>

theorem identity_write_waits_for_pull:
  assumes laws: "engine_laws E busy" "script_call E busy call"
    and reach: "ts_reachable E busy call (s, None, False)"
    and st: "ts_backpressure s" "transform_input s = None" "ws_state E (eng s) = Writable" "busy (eng s)"
    and acc: "rs_can E (eng s)" "rs_enqueue E chunk (eng s) = (None, pulled, e)"
  shows "\<exists>s1 s2. ts_run E busy call [Ev_Write chunk] (s, None, False) = Some (s1, Some (length (proms s)), False)
    \<and> eng s1 = eng s
    \<and> ts_run E busy call [Ev_Pull, Ev_Reaction (length (reacts s)), Ev_Reaction (length (reacts s)),
        Ev_Reaction (length (reacts s)), Ev_Written] (s1, Some (length (proms s)), False)
      = Some (s2, None, False)
    \<and> eng s2 = e \<and> reacts s2 = reacts s \<and> ts_backpressure s2 = (\<not> rs_should_pull E e)"
proof -
  let ?q = "length (proms s)" and ?n = "length (reacts s)"
  have inv: "cfg_inv E busy (s, None, False)" by (rule ts_reachable_inv [OF laws reach])
  obtain p where p: "change_promise s = Some p" "p < ?q" "proms s ! p = Pending"
    using inv unfolding cfg_inv_def ts_inv_def by auto
  define s1 where "s1 = snd (promise_then p (Some (WriteThen chunk)) None s)"
  have w: "ts_exec E call (Ev_Write chunk) (s, None, False) = (Inr (), (s1, Some ?q, False))"
    using st(1) p(1) by (simp add: s1_def DefaultSinkWriteAlgorithm_def case_prod_beta)
  have en: "ts_enabled E busy (Ev_Write chunk) (s, None, False)" using st by simp
  define s3 where "s3 = SetBackpressure False s1"
  have s3: "s3 = s\<lparr>proms := (proms s)[p := Fulfilled SUndefined] @ [Pending, Pending],
      reacts := reacts s @ [Reaction p (Some (WriteThen chunk)) None ?q],
      change_promise := Some (Suc ?q), ts_backpressure := False\<rparr>"
    using p by (simp add: s3_def s1_def SetBackpressure_Some settle_def nth_append list_update_append)
  have pull: "ts_exec E call Ev_Pull (s1, Some ?q, False) = (Inr (), (s3, Some ?q, False))"
    using s3 by (simp add: s3_def [symmetric] DefaultSourcePullAlgorithm_def Let_def)
  have inv1: "cfg_inv E busy (s1, Some ?q, False)" using ts_exec_inv [OF laws inv en] w by auto
  have "ts_enabled E busy Ev_Pull (s1, Some ?q, False)" by simp
  from ts_exec_inv [OF laws inv1 this] pull have inv3: "cfg_inv E busy (s3, Some ?q, False)" by auto
  let ?s4 = "s3\<lparr>reacts := without ?n (reacts s3)\<rparr>"
  have r4: "reacts ?s4 = reacts s" and n: "?n < length (reacts s3)"
    "reacts s3 ! ?n = Reaction p (Some (WriteThen chunk)) None ?q"
    by (simp_all add: s3 without_last)
  have alg: "transform_algorithm s \<noteq> None" using inv st(3) unfolding cfg_inv_def ts_inv_def by auto
  have pf: "p < length (proms s3)" "proms s3 ! p = Fulfilled SUndefined" using p(2) by (simp_all add: s3 nth_append)
  have "ts_inv E {?q} False ?s4"
    using without_inv [of E False s3 ?n] inv3 n by (simp add: cfg_inv_def)
  then obtain s5 q' tp where
    r5: "ts_run_reaction E call (Reaction p (Some (WriteThen chunk)) None ?q) ?s4 = (Inr (), s5)"
      "eng s5 = e" "ts_backpressure s5 = (\<not> rs_should_pull E e)"
      "reacts s5 = reacts s @ [Reaction tp None (Some TransformCatch) q', Reaction q' None None ?q]"
    and p5: "tp < length (proms s5)" "proms s5 ! tp = Fulfilled SUndefined" "q' < length (proms s5)"
      "proms s5 ! q' = Pending" "?q < length (proms s5)" "proms s5 ! ?q = Pending" "?q \<noteq> q'"
    by (rule identity_reaction [OF laws(1) _ r4, where p = p and chunk = chunk and pulled = pulled
          and e = e and call = call]) (use pf st acc alg s3 in simp_all)
  have x5: "ts_enabled E busy (Ev_Reaction ?n) (s3, Some ?q, False)"
    "ts_exec E call (Ev_Reaction ?n) (s3, Some ?q, False) = (Inr (), (s5, Some ?q, False))"
    using n pf r5(1) by simp_all
  define s6 where "s6 = s5\<lparr>reacts := reacts s @ [Reaction q' None None ?q],
    proms := (proms s5)[q' := Fulfilled SUndefined]\<rparr>"
  have x6: "ts_enabled E busy (Ev_Reaction ?n) (s5, Some ?q, False)"
    "ts_exec E call (Ev_Reaction ?n) (s5, Some ?q, False) = (Inr (), (s6, Some ?q, False))"
    using p5 by (simp_all add: r5(4) without_last ts_run_reaction_def settle_def s6_def)
  define s7 where "s7 = s6\<lparr>reacts := reacts s, proms := (proms s6)[?q := Fulfilled SUndefined]\<rparr>"
  have x7: "ts_enabled E busy (Ev_Reaction ?n) (s6, Some ?q, False)"
    "ts_exec E call (Ev_Reaction ?n) (s6, Some ?q, False) = (Inr (), (s7, Some ?q, False))"
    using p5 by (simp_all add: s6_def without_last [where ys = "[]", simplified]
        ts_run_reaction_def settle_def s7_def)
  have x8: "ts_enabled E busy Ev_Written (s7, Some ?q, False)"
    using p5 by (simp add: s7_def s6_def)
  have "ts_run E busy call [Ev_Write chunk] (s, None, False) = Some (s1, Some ?q, False)"
    using w en by simp
  moreover have "ts_run E busy call [Ev_Pull, Ev_Reaction ?n, Ev_Reaction ?n, Ev_Reaction ?n, Ev_Written]
      (s1, Some ?q, False) = Some (s7, None, False)"
    using pull x5 x6 x7 x8 by (simp del: ts_enabled.simps(5,2) ts_exec.simps(1,7))
  ultimately show ?thesis
    by (intro exI [of _ s1] exI [of _ s7]) (simp add: s1_def s7_def s6_def r5)
qed

lemma demo_ts_fields: "eng demo_ts = demo_new" "length (proms demo_ts) = 2" "length (reacts demo_ts) = 0"
    "ts_backpressure demo_ts = True" "transform_input demo_ts = None"
  by (simp_all add: demo_ts_eq)

theorem identity_write_waits_for_pull_witness:
  "\<exists>s1 s2. ts_run demo_engine demo_busy demo_call [Ev_Write (SVal 5)] (demo_ts, None, False)
      = Some (s1, Some 2, False)
    \<and> d_queue (eng s1) = []
    \<and> ts_run demo_engine demo_busy demo_call
        [Ev_Pull, Ev_Reaction 0, Ev_Reaction 0, Ev_Reaction 0, Ev_Written] (s1, Some 2, False)
      = Some (s2, None, False)
    \<and> d_queue (eng s2) = [SVal 5] \<and> ts_backpressure s2"
proof -
  have "rs_enqueue demo_engine (SVal 5) demo_new = (None, False, demo_new\<lparr>d_queue := [SVal 5]\<rparr>)"
    by (simp add: demo_engine_def demo_new_def)
  moreover have "rs_can demo_engine demo_new" "ws_state demo_engine demo_new = Writable" "demo_busy demo_new"
    by (simp_all add: demo_engine_def demo_new_def demo_busy_def)
  ultimately obtain s1 s2 where
    "ts_run demo_engine demo_busy demo_call [Ev_Write (SVal 5)] (demo_ts, None, False) = Some (s1, Some 2, False)"
    "eng s1 = demo_new"
    "ts_run demo_engine demo_busy demo_call
        [Ev_Pull, Ev_Reaction 0, Ev_Reaction 0, Ev_Reaction 0, Ev_Written] (s1, Some 2, False)
      = Some (s2, None, False)"
    "eng s2 = demo_new\<lparr>d_queue := [SVal 5]\<rparr>"
    "ts_backpressure s2 = (\<not> rs_should_pull demo_engine (demo_new\<lparr>d_queue := [SVal 5]\<rparr>))"
    using identity_write_waits_for_pull [OF demo_stream_laws demo_script demo_ts_reachable,
        where chunk = "SVal 5" and pulled = False and e = "demo_new\<lparr>d_queue := [SVal 5]\<rparr>",
        unfolded demo_ts_fields]
    by blast
  then show ?thesis
    by (intro exI [of _ s1] exI [of _ s2]) (simp add: demo_new_def demo_engine_def del: ts_run.simps)
qed

text \<open>
  The constructor creates the streams only with high-water marks that are numbers and not
  negative, the defaults being 1 for the writable and 0 for the readable end; every argument
  that is not acceptable is reported before any state changes.
\<close>

theorem constructor_high_water_marks:
  "(\<exists>st tr fl whwm wsize rhwm rsize. \<not> bad_hwm whwm \<and> \<not> bad_hwm rhwm
      \<and> (strategy = SAUndefined \<longrightarrow> whwm = JFin 1) \<and> (readable_strategy = SAUndefined \<longrightarrow> rhwm = JFin 0)
      \<and> TransformStream_constructor E call targ strategy readable_strategy s =
         (case create E call whwm wsize rhwm rsize (transformer_value targ) st tr fl s of
            (Inl exn, s1) \<Rightarrow> (Inl exn, s1)
          | (Inr _, s1) \<Rightarrow> (Inr (), s1\<lparr>has_transformer := Some (to_boolean targ)\<rparr>)))
   \<or> (\<exists>exn. TransformStream_constructor E call targ strategy readable_strategy s = (Inl exn, s))"
proof -
  have hwm: "\<not> bad_hwm h \<and> (a = SAUndefined \<longrightarrow> h = d)"
    if "ExtractStrategy a d = Inr (h, f)" "\<not> bad_hwm d" for a d h f
    using that
    by (auto simp: ExtractStrategy_def rbind_eq_Inr split: strategy_arg.split_asm hwm_value.split_asm if_split_asm)
      (metis hwm_value.exhaust)+
  have d: "\<not> bad_hwm (JFin 0)" "\<not> bad_hwm (JFin 1)" by (simp_all add: bad_hwm_def)
  consider (Err) exn where "rbind (extract_dict targ) (\<lambda>fs. rbind (ExtractStrategy readable_strategy (JFin 0)) (\<lambda>r.
      rbind (ExtractStrategy strategy (JFin 1)) (\<lambda>w. Inr (fs, r, w)))) = Inl exn"
    | (Ok) st tr fl whwm wsize rhwm rsize where "extract_dict targ = Inr (st, tr, fl)"
      "ExtractStrategy readable_strategy (JFin 0) = Inr (rhwm, rsize)"
      "ExtractStrategy strategy (JFin 1) = Inr (whwm, wsize)"
    by (cases "extract_dict targ"; cases "ExtractStrategy readable_strategy (JFin 0)";
        cases "ExtractStrategy strategy (JFin 1)") auto
  then show ?thesis
  proof cases
    case Err
    then show ?thesis unfolding TransformStream_constructor_def Err by simp
  next
    case (Ok st tr fl whwm wsize rhwm rsize)
    from hwm [OF Ok(2) d(1)] hwm [OF Ok(3) d(2)] show ?thesis
      by (intro disjI1 exI [of _ st] exI [of _ tr] exI [of _ fl] exI [of _ whwm] exI [of _ wsize]
          exI [of _ rhwm] exI [of _ rsize]) (simp add: TransformStream_constructor_def Ok)
  qed
qed

theorem constructor_high_water_marks_witness:
  "fst (TransformStream_constructor demo_engine demo_call TUndefined
     (SAObject (Inr (HValue (Inr (JFin (-1))))) (Inr PUndefined)) SAUndefined (empty_ts demo_new)) =
     Inl (SError ''Invalid value for highWaterMark'')"
proof -
  let ?c = "TransformStream_constructor demo_engine demo_call TUndefined
     (SAObject (Inr (HValue (Inr (JFin (-1))))) (Inr PUndefined)) SAUndefined (empty_ts demo_new)"
  have "\<exists>exn. ?c = (Inl exn, empty_ts demo_new)"
    using constructor_high_water_marks [of "SAObject (Inr (HValue (Inr (JFin (-1))))) (Inr PUndefined)"
        SAUndefined demo_engine demo_call TUndefined "empty_ts demo_new"]
    by (simp add: TransformStream_constructor_def extract_dict_def ExtractStrategy_def bad_hwm_def)
  then show ?thesis
    by (simp add: TransformStream_constructor_def extract_dict_def ExtractStrategy_def bad_hwm_def)
qed

end
