(* ===== verification/Compression.thy ===== *)
theory Compression
  imports Transform_Stream
begin

section \<open>CompressionStream and DecompressionStream\<close>

text \<open>
  \<open>builtins/web/streams/compression-stream.cpp\<close>, \<open>decompression-stream.cpp\<close> and \<open>value_to_buffer\<close>
  of \<open>runtime/builtin.cpp\<close>.

  \<^item> zlib is a submodule: a record of the calls on a state \<open>'z\<close>.  A call gets the input that
    \<open>next_in\<close> points to and the room of the output buffer, and gives the return code, the input it
    left, and what it wrote.
  \<^item> The two files have the same loop: \<open>codec_loop\<close>, over the zlib call, the return codes it
    accepts and the operation that takes a piece of output.  It may run forever if zlib does.
  \<^item> The streams write to a \<open>chunk_sink\<close>; the controller's \<open>Enqueue\<close> provides it.
  \<^item> The results are end to end, for the laws that the zlib manual states: compressed pieces form a
    stream that decompresses to the chunks written, and decompression yields the original.
\<close>

datatype format = GZIP | Deflate | DeflateRaw

datatype zret = Z_OK | Z_STREAM_END | Z_BUF_ERROR | Z_OTHER int

type_synonym 'z zcall = "bool \<Rightarrow> byte list \<Rightarrow> nat \<Rightarrow> 'z \<Rightarrow> zret \<times> byte list \<times> byte list \<times> 'z"

record 'z zlib =
  z_deflateInit2 :: "int \<Rightarrow> int \<Rightarrow> 'z option"
  z_deflate :: "'z zcall"
  z_inflateInit2 :: "int \<Rightarrow> 'z option"
  z_inflate :: "'z zcall"

text \<open>What a script passes as a chunk: an \<open>ArrayBuffer\<close> or a view with its bytes, or another object.\<close>

datatype chunk_value = Buffer "byte list" | NotBuffer nat

definition value_to_buffer :: "chunk_value sval \<Rightarrow> string \<Rightarrow> chunk_value sval + byte list" where
  "value_to_buffer val val_desc = (case val of
     SVal (Buffer data) \<Rightarrow> Inr data
   | _ \<Rightarrow> Inl (STypeError (val_desc @ '' must be of type ArrayBuffer or ArrayBufferView'')))"

definition BUFFER_SIZE :: nat where "BUFFER_SIZE = 16384"

definition COMPRESSION_LEVEL :: int where "COMPRESSION_LEVEL = 2"

definition window_bits :: "format \<Rightarrow> int" where
  "window_bits fmt = (if fmt = GZIP then 15 + 16 else if fmt = DeflateRaw then -15 else 15)"

text \<open>\<open>strcmp\<close> compares C strings.\<close>

definition format_of :: "string \<Rightarrow> format option" where
  "format_of format_chars =
     (if c_string format_chars = ''deflate-raw'' then Some DeflateRaw
      else if c_string format_chars = ''deflate'' then Some Deflate
      else if c_string format_chars = ''gzip'' then Some GZIP
      else None)"

subsection \<open>The loop\<close>

partial_function (option) codec_loop :: "'z zcall \<Rightarrow> (zret \<Rightarrow> bool) \<Rightarrow> 'x
    \<Rightarrow> (byte list \<Rightarrow> 's \<Rightarrow> ('x + unit) \<times> 's) \<Rightarrow> bool \<Rightarrow> 's \<Rightarrow> 'z \<Rightarrow> byte list
    \<Rightarrow> (('x + unit) \<times> 's \<times> 'z \<times> byte list) option" where
  "codec_loop zc accepts failure enq finished s z inp =
     (case zc finished inp BUFFER_SIZE z of (err, rest, out, z') \<Rightarrow>
        if \<not> accepts err then Some (Inl failure, s, z', rest)
        else (case (if out \<noteq> [] then enq out s else (Inr (), s)) of
            (Inl exn, s') \<Rightarrow> Some (Inl exn, s', z', rest)
          | (Inr _, s') \<Rightarrow> if length out = BUFFER_SIZE
              then codec_loop zc accepts failure enq finished s' z' rest
              else Some (Inr (), s', z', rest)))"

subsection \<open>The streams\<close>

text \<open>The slots; \<open>zstream\<close> is \<open>None\<close> once \<open>deflateEnd\<close> or \<open>inflateEnd\<close> has freed it.\<close>

datatype cs_function = TransformAlgo | FlushAlgo

record ('e, 'z) cs =
  cs_ts :: "('e, chunk_value, cs_function) ts"
  cs_format :: format
  zstream :: "'z option"
  avail_in :: "byte list"

type_synonym ('e, 'z) cs_result = "((chunk_value ts_fail + unit) \<times> ('e, 'z) cs) option"

definition run_codec :: "'z zcall \<Rightarrow> (zret \<Rightarrow> bool) \<Rightarrow> chunk_value sval
    \<Rightarrow> ('e, chunk_value, cs_function) stream_engine \<Rightarrow> bool \<Rightarrow> ('e, 'z) cs \<Rightarrow> ('e, 'z) cs_result" where
  "run_codec zc accepts failure E finished s = (case zstream s of
     None \<Rightarrow> Some (Inl Null_Call, s)
   | Some z \<Rightarrow> map_option (\<lambda>(r, t, z', rest).
       (case r of Inl exn \<Rightarrow> Inl (Throw exn) | Inr _ \<Rightarrow> Inr (),
        s\<lparr>cs_ts := t, zstream := Some z', avail_in := rest\<rparr>))
       (codec_loop zc accepts failure (\<lambda>bytes. Enqueue E (SVal (Buffer bytes))) finished
          (cs_ts s) z (avail_in s)))"

definition deflate_accepts :: "bool \<Rightarrow> zret \<Rightarrow> bool" where
  "deflate_accepts finished err \<longleftrightarrow> finished \<and> err = Z_STREAM_END \<or> err = Z_OK"

definition deflate_chunk :: "'z zlib \<Rightarrow> ('e, chunk_value, cs_function) stream_engine
    \<Rightarrow> chunk_value sval \<Rightarrow> bool \<Rightarrow> ('e, 'z) cs \<Rightarrow> ('e, 'z) cs_result" where
  "deflate_chunk Z E chunk finished s =
     (let loop = run_codec (z_deflate Z) (deflate_accepts finished)
            (SError ''CompressionStream transform: error compressing chunk'') E finished
      in if \<not> finished then
           (case value_to_buffer chunk ''CompressionStream transform: chunks'' of
              Inl exn \<Rightarrow> Some (Inl (Throw exn), s)
            | Inr data \<Rightarrow> if data = [] then Some (Inr (), s) else loop (s\<lparr>avail_in := data\<rparr>))
         else loop (s\<lparr>avail_in := []\<rparr>))"

definition inflate_accepts :: "zret \<Rightarrow> bool" where
  "inflate_accepts err \<longleftrightarrow> \<not> (err \<noteq> Z_OK \<and> err \<noteq> Z_STREAM_END \<and> err \<noteq> Z_BUF_ERROR)"

definition DECOMPRESSING_ERROR :: "chunk_value sval" where
  "DECOMPRESSING_ERROR = STypeError ''DecompressionStream transform: error decompressing chunk''"

definition inflate_chunk :: "'z zlib \<Rightarrow> ('e, chunk_value, cs_function) stream_engine
    \<Rightarrow> chunk_value sval \<Rightarrow> bool \<Rightarrow> ('e, 'z) cs \<Rightarrow> ('e, 'z) cs_result" where
  "inflate_chunk Z E chunk finished s =
     (let loop = run_codec (z_inflate Z) inflate_accepts DECOMPRESSING_ERROR E finished
      in if \<not> finished then
           (case value_to_buffer chunk ''DecompressionStream transform: chunks'' of
              Inl exn \<Rightarrow> Some (Inl (Throw exn), s)
            | Inr data \<Rightarrow> if data = [] then Some (Inr (), s) else loop (s\<lparr>avail_in := data\<rparr>))
         else if avail_in s \<noteq> [] then Some (Inl (Throw DECOMPRESSING_ERROR), s)
         else loop (s\<lparr>avail_in := []\<rparr>))"

text \<open>The transform and flush algorithms; flushing frees the zlib state when it succeeds.\<close>

definition free_zstream :: "('e, 'z) cs_result \<Rightarrow> ('e, 'z) cs_result" where
  "free_zstream r = map_option (\<lambda>(r, s). case r of
     Inl f \<Rightarrow> (Inl f, s) | Inr _ \<Rightarrow> (Inr (), s\<lparr>zstream := None\<rparr>)) r"

definition CompressionStream_transformAlgorithm where
  "CompressionStream_transformAlgorithm Z E chunk s = deflate_chunk Z E chunk False s"

definition CompressionStream_flushAlgorithm where
  "CompressionStream_flushAlgorithm Z E s = free_zstream (deflate_chunk Z E SUndefined True s)"

definition DecompressionStream_transformAlgorithm where
  "DecompressionStream_transformAlgorithm Z E chunk s = inflate_chunk Z E chunk False s"

definition DecompressionStream_flushAlgorithm where
  "DecompressionStream_flushAlgorithm Z E s = free_zstream (inflate_chunk Z E SUndefined True s)"

subsection \<open>Construction\<close>

text \<open>
  Both constructors convert and check the format, create the transform stream with the new object
  as its transformer and initialize zlib; the object \<open>SVal (NotBuffer 0)\<close> is the new stream.
\<close>

definition new_transform :: "('e, chunk_value, cs_function) stream_engine
    \<Rightarrow> ('e, chunk_value, cs_function, unit) user_call \<Rightarrow> 'e
    \<Rightarrow> (chunk_value sval + unit) \<times> ('e, chunk_value, cs_function) ts" where
  "new_transform E call e = (case create E call (JFin 1) None (JFin 0) None (SVal (NotBuffer 0)) None
       (Some TransformAlgo) (Some FlushAlgo) (empty_ts e) of
     (Inl exn, t) \<Rightarrow> (Inl exn, t) | (Inr _, t) \<Rightarrow> (Inr (), t\<lparr>ts_mixin := True\<rparr>))"

definition CompressionStream_create :: "'z zlib \<Rightarrow> ('e, chunk_value, cs_function) stream_engine
    \<Rightarrow> ('e, chunk_value, cs_function, unit) user_call \<Rightarrow> 'e \<Rightarrow> format
    \<Rightarrow> chunk_value sval + ('e, 'z) cs" where
  "CompressionStream_create Z E call e fmt = (case new_transform E call e of
     (Inl exn, t) \<Rightarrow> Inl exn
   | (Inr _, t) \<Rightarrow> (case z_deflateInit2 Z COMPRESSION_LEVEL (window_bits fmt) of
        None \<Rightarrow> Inl (SError ''Error initializing compression stream'')
      | Some z \<Rightarrow> Inr \<lparr>cs_ts = t, cs_format = fmt, zstream = Some z, avail_in = []\<rparr>))"

definition DecompressionStream_create :: "'z zlib \<Rightarrow> ('e, chunk_value, cs_function) stream_engine
    \<Rightarrow> ('e, chunk_value, cs_function, unit) user_call \<Rightarrow> 'e \<Rightarrow> format
    \<Rightarrow> chunk_value sval + ('e, 'z) cs" where
  "DecompressionStream_create Z E call e fmt = (case new_transform E call e of
     (Inl exn, t) \<Rightarrow> Inl exn
   | (Inr _, t) \<Rightarrow> (case z_inflateInit2 Z (window_bits fmt) of
        None \<Rightarrow> Inl (SError ''Error initializing decompression stream'')
      | Some z \<Rightarrow> Inr \<lparr>cs_ts = t, cs_format = fmt, zstream = Some z, avail_in = []\<rparr>))"

definition CompressionStream_constructor :: "'z zlib \<Rightarrow> ('e, chunk_value, cs_function) stream_engine
    \<Rightarrow> ('e, chunk_value, cs_function, unit) user_call \<Rightarrow> 'e \<Rightarrow> (chunk_value sval + string)
    \<Rightarrow> chunk_value sval + ('e, 'z) cs" where
  "CompressionStream_constructor Z E call e encoded = rbind encoded (\<lambda>format_chars.
     case format_of format_chars of
       None \<Rightarrow> Inl (SError (''format has to be deflate or gzip, but got '' @ c_string format_chars))
     | Some fmt \<Rightarrow> CompressionStream_create Z E call e fmt)"

definition DecompressionStream_constructor :: "'z zlib \<Rightarrow> ('e, chunk_value, cs_function) stream_engine
    \<Rightarrow> ('e, chunk_value, cs_function, unit) user_call \<Rightarrow> 'e \<Rightarrow> (chunk_value sval + string)
    \<Rightarrow> chunk_value sval + ('e, 'z) cs" where
  "DecompressionStream_constructor Z E call e encoded = rbind encoded (\<lambda>format_chars.
     case format_of format_chars of
       None \<Rightarrow> Inl (STypeError (''format has to be deflate, deflate-raw, or gzip, but got ''
         @ c_string format_chars))
     | Some fmt \<Rightarrow> DecompressionStream_create Z E call e fmt)"

subsection \<open>Pieces of output go to a sink\<close>

text \<open>
  All that a stream here relies on of the controller: while the readable end accepts chunks, a
  piece of output is accepted and put behind the others.
\<close>

locale chunk_sink =
  fixes enq :: "byte list \<Rightarrow> 's \<Rightarrow> ('x + unit) \<times> 's"
    and wrap :: "byte list \<Rightarrow> 'o"
    and outputs :: "'s \<Rightarrow> 'o list"
    and open_sink :: "'s \<Rightarrow> bool"
  assumes enq_open: "open_sink s \<Longrightarrow> fst (enq p s) = Inr ()"
    and enq_stays_open: "open_sink s \<Longrightarrow> open_sink (snd (enq p s))"
    and enq_appends: "open_sink s \<Longrightarrow> outputs (snd (enq p s)) = outputs s @ [wrap p]"
begin

text \<open>
  A loop whose calls keep a relation between the zlib state, the input consumed, the output
  produced and the input left, and whose measure decreases whenever a call fills the buffer,
  returns with all input consumed; what it has put into the sink are nonempty pieces that fit the
  buffer and make up the output.
\<close>

lemma codec_loop_returns:
  assumes step: "\<And>i outp z inp err rest out z'. rel i outp z inp \<Longrightarrow>
      zc finished inp BUFFER_SIZE z = (err, rest, out, z') \<Longrightarrow>
      accepts err \<and> length out \<le> BUFFER_SIZE
      \<and> (length out = BUFFER_SIZE \<longrightarrow> work z' rest < (work z inp :: nat)
         \<and> (\<exists>used. inp = used @ rest \<and> rel (i @ used) (outp @ out) z' rest))
      \<and> (length out < BUFFER_SIZE \<longrightarrow> rest = [] \<and> final (i @ inp) (outp @ out) z')"
    and "rel i outp z inp" "open_sink s"
  shows "\<exists>s' z' pieces. codec_loop zc accepts failure enq finished s z inp = Some (Inr (), s', z', [])
    \<and> open_sink s' \<and> outputs s' = outputs s @ map wrap pieces
    \<and> (\<forall>p\<in>set pieces. p \<noteq> [] \<and> length p \<le> BUFFER_SIZE)
    \<and> final (i @ inp) (outp @ concat pieces) z'"
  using assms(2,3)
proof (induction "work z inp" arbitrary: i outp z inp s rule: less_induct)
  case less
  obtain err rest out z' where c: "zc finished inp BUFFER_SIZE z = (err, rest, out, z')"
    by (metis prod_cases4)
  note st = step [OF less.prems(1) c]
  define r where "r = (if out \<noteq> [] then enq out s else (Inr (), s))"
  define s' where "s' = snd r"
  have r: "r = (Inr (), s')" "open_sink s'"
    "outputs s' = outputs s @ map wrap (if out = [] then [] else [out])"
    using enq_open [OF less.prems(2), of out] enq_stays_open [OF less.prems(2), of out]
      enq_appends [OF less.prems(2), of out]
    by (auto simp: r_def s'_def prod_eq_iff less.prems(2))
  have loop: "codec_loop zc accepts failure enq finished s z inp = (if length out = BUFFER_SIZE
      then codec_loop zc accepts failure enq finished s' z' rest else Some (Inr (), s', z', rest))"
    using st r(1) by (subst codec_loop.simps) (simp add: c r_def [symmetric])
  show ?case
  proof (cases "length out = BUFFER_SIZE")
    case True
    then obtain used where u: "inp = used @ rest" "rel (i @ used) (outp @ out) z' rest" "work z' rest < work z inp"
      using st by blast
    from less.hyps [OF u(3,2) r(2)] obtain s2 z2 pieces where
      "codec_loop zc accepts failure enq finished s' z' rest = Some (Inr (), s2, z2, [])"
      "open_sink s2" "outputs s2 = outputs s' @ map wrap pieces"
      "\<forall>p\<in>set pieces. p \<noteq> [] \<and> length p \<le> BUFFER_SIZE"
      "final ((i @ used) @ rest) ((outp @ out) @ concat pieces) z2" by blast
    with loop True r(3) st u(1) show ?thesis
      by (intro exI [of _ s2] exI [of _ z2] exI [of _ "(if out = [] then [] else [out]) @ pieces"]) auto
  next
    case False
    then have "length out < BUFFER_SIZE" using st by simp
    with loop r(2,3) st False show ?thesis
      by (intro exI [of _ s'] exI [of _ z'] exI [of _ "if out = [] then [] else [out]"]) auto
  qed
qed

end

text \<open>
  The controller provides the sink, for an engine whose readable end accepts every chunk while it
  is open and counts the chunks it was given.
\<close>

definition accepting :: "('e, chunk_value, cs_function) stream_engine \<Rightarrow> ('e \<Rightarrow> bool)
    \<Rightarrow> ('e \<Rightarrow> chunk_value sval list) \<Rightarrow> bool" where
  "accepting E is_open chunks \<longleftrightarrow> (\<forall>e v. is_open e \<longrightarrow> rs_can E e \<and> (case rs_enqueue E v e of
     (r, pulled, e') \<Rightarrow> r = None \<and> is_open e' \<and> chunks e' = chunks e @ [v]))"

lemma Enqueue_engine:
  assumes "accepting E is_open chunks" "is_open (eng s)"
  shows "fst (Enqueue E v s) = Inr () \<and> is_open (eng (snd (Enqueue E v s)))
    \<and> chunks (eng (snd (Enqueue E v s))) = chunks (eng s) @ [v]"
proof -
  obtain pulled e where q: "rs_can E (eng s)" "rs_enqueue E v (eng s) = (None, pulled, e)"
    and e: "is_open e" "chunks e = chunks (eng s) @ [v]"
    using assms unfolding accepting_def by (cases "rs_enqueue E v (eng s)") fastforce
  from Enqueue_accepted [where s = s and E = E, OF q] e show ?thesis by (metis fst_conv snd_conv)
qed

interpretation ts_sink: chunk_sink "\<lambda>bytes. Enqueue E (SVal (Buffer bytes))" "\<lambda>bytes. SVal (Buffer bytes)"
  "\<lambda>s. chunks (eng s)" "\<lambda>s. accepting E is_open chunks \<and> is_open (eng s)" for E chunks is_open
  by unfold_locales (use Enqueue_engine in blast)+

subsection \<open>Whole streams\<close>

text \<open>The chunks a script writes, one transform after the other, and then the flush.\<close>

fun transform_chunks :: "(chunk_value sval \<Rightarrow> ('e, 'z) cs \<Rightarrow> ('e, 'z) cs_result)
    \<Rightarrow> chunk_value sval list \<Rightarrow> ('e, 'z) cs \<Rightarrow> ('e, 'z) cs_result" where
  "transform_chunks T [] s = Some (Inr (), s)"
| "transform_chunks T (c # cs) s = (case T c s of
     Some (Inr _, s') \<Rightarrow> transform_chunks T cs s' | r \<Rightarrow> r)"

definition compress_all where
  "compress_all Z E data s = (case transform_chunks (CompressionStream_transformAlgorithm Z E)
       (map (\<lambda>b. SVal (Buffer b)) data) s of
     Some (Inr _, s') \<Rightarrow> CompressionStream_flushAlgorithm Z E s' | r \<Rightarrow> r)"

definition decompress_all where
  "decompress_all Z E data s = (case transform_chunks (DecompressionStream_transformAlgorithm Z E)
       (map (\<lambda>b. SVal (Buffer b)) data) s of
     Some (Inr _, s') \<Rightarrow> DecompressionStream_flushAlgorithm Z E s' | r \<Rightarrow> r)"

text \<open>
  What the zlib manual says of \<open>deflate\<close>.  \<open>ok wb z i o\<close>: the state was initialized with \<open>wb\<close>, has
  consumed \<open>i\<close> and produced \<open>o\<close>; \<open>full z\<close>: its last call filled the buffer; \<open>expand wb\<close>: the data
  that a complete compressed stream stands for.  A call makes progress when there is input or the
  last one filled the buffer; with the finish flag it ends the stream when there is room.
\<close>

definition deflate_laws :: "'z zlib \<Rightarrow> (int \<Rightarrow> 'z \<Rightarrow> byte list \<Rightarrow> byte list \<Rightarrow> bool) \<Rightarrow> ('z \<Rightarrow> bool)
    \<Rightarrow> (bool \<Rightarrow> 'z \<Rightarrow> byte list \<Rightarrow> nat) \<Rightarrow> (int \<Rightarrow> byte list \<Rightarrow> byte list option) \<Rightarrow> bool" where
  "deflate_laws Z ok full work expand \<longleftrightarrow>
     (\<forall>level wb z. z_deflateInit2 Z level wb = Some z \<longrightarrow> ok wb z [] [])
   \<and> (\<forall>wb z i outp finished inp err rest out z'. ok wb z i outp \<longrightarrow>
        z_deflate Z finished inp BUFFER_SIZE z = (err, rest, out, z') \<longrightarrow>
        length out \<le> BUFFER_SIZE \<and> (\<exists>used. inp = used @ rest \<and> ok wb z' (i @ used) (outp @ out))
      \<and> (length out = BUFFER_SIZE \<longrightarrow> full z' \<and> work finished z' rest < work finished z inp)
      \<and> (length out < BUFFER_SIZE \<longrightarrow> rest = [])
      \<and> (\<not> finished \<and> (inp \<noteq> [] \<or> full z) \<longrightarrow> err = Z_OK)
      \<and> (finished \<longrightarrow> err \<in> {Z_OK, Z_STREAM_END})
      \<and> (finished \<and> length out < BUFFER_SIZE \<longrightarrow> expand wb (outp @ out) = Some (i @ inp)))"

text \<open>
  And of \<open>inflate\<close>, on the parts of a valid stream: it returns one of the three codes that are not
  errors, consumes its input when it has room, and produces the data of the stream in order, all
  of it once the stream is complete.
\<close>

definition inflate_laws :: "'z zlib \<Rightarrow> (int \<Rightarrow> 'z \<Rightarrow> byte list \<Rightarrow> byte list \<Rightarrow> bool)
    \<Rightarrow> ('z \<Rightarrow> byte list \<Rightarrow> nat) \<Rightarrow> (int \<Rightarrow> byte list \<Rightarrow> byte list option) \<Rightarrow> bool" where
  "inflate_laws Z ok work expand \<longleftrightarrow>
     (\<forall>wb z. z_inflateInit2 Z wb = Some z \<longrightarrow> ok wb z [] [])
   \<and> (\<forall>wb z i outp finished inp later d err rest out z'. ok wb z i outp \<longrightarrow>
        expand wb (i @ inp @ later) = Some d \<longrightarrow>
        z_inflate Z finished inp BUFFER_SIZE z = (err, rest, out, z') \<longrightarrow>
        err \<in> {Z_OK, Z_STREAM_END, Z_BUF_ERROR} \<and> length out \<le> BUFFER_SIZE
      \<and> (\<exists>used. inp = used @ rest \<and> ok wb z' (i @ used) (outp @ out))
      \<and> (length out = BUFFER_SIZE \<longrightarrow> work z' rest < work z inp)
      \<and> (length out < BUFFER_SIZE \<longrightarrow> rest = [])
      \<and> (\<exists>d'. d = outp @ out @ d' \<and> (length out < BUFFER_SIZE \<and> later = [] \<longrightarrow> d' = [])))"

lemma deflate_loop_returns:
  assumes laws: "deflate_laws Z ok full work expand" and acc: "accepting E is_open chunks"
    and s: "zstream s = Some z" "ok wb z i outp" "is_open (eng (cs_ts s))"
    and progress: "finished \<or> avail_in s \<noteq> []"
  shows "\<exists>s' z' pieces. run_codec (z_deflate Z) (deflate_accepts finished) failure E finished s = Some (Inr (), s')
    \<and> zstream s' = Some z' \<and> ok wb z' (i @ avail_in s) (outp @ concat pieces) \<and> avail_in s' = []
    \<and> is_open (eng (cs_ts s'))
    \<and> chunks (eng (cs_ts s')) = chunks (eng (cs_ts s)) @ map (\<lambda>b. SVal (Buffer b)) pieces
    \<and> (\<forall>p\<in>set pieces. p \<noteq> [] \<and> length p \<le> BUFFER_SIZE)
    \<and> (finished \<longrightarrow> expand wb (outp @ concat pieces) = Some (i @ avail_in s))"
proof -
  let ?rel = "\<lambda>i outp z inp. ok wb z i outp \<and> (finished \<or> inp \<noteq> [] \<or> full z)"
  let ?final = "\<lambda>i outp z. ok wb z i outp \<and> (finished \<longrightarrow> expand wb outp = Some i)"
  have "deflate_accepts finished err \<and> length out \<le> BUFFER_SIZE
      \<and> (length out = BUFFER_SIZE \<longrightarrow> work finished z' rest < work finished z inp
         \<and> (\<exists>used. inp = used @ rest \<and> ?rel (i @ used) (outp @ out) z' rest))
      \<and> (length out < BUFFER_SIZE \<longrightarrow> rest = [] \<and> ?final (i @ inp) (outp @ out) z')"
    if rel: "?rel i outp z inp" and c: "z_deflate Z finished inp BUFFER_SIZE z = (err, rest, out, z')"
    for i outp z inp err rest out z'
  proof -
    have "ok wb z i outp" using rel by blast
    with laws c have d: "length out \<le> BUFFER_SIZE" "\<exists>used. inp = used @ rest \<and> ok wb z' (i @ used) (outp @ out)"
      "length out = BUFFER_SIZE \<longrightarrow> full z' \<and> work finished z' rest < work finished z inp"
      "length out < BUFFER_SIZE \<longrightarrow> rest = []"
      "\<not> finished \<and> (inp \<noteq> [] \<or> full z) \<longrightarrow> err = Z_OK" "finished \<longrightarrow> err \<in> {Z_OK, Z_STREAM_END}"
      "finished \<and> length out < BUFFER_SIZE \<longrightarrow> expand wb (outp @ out) = Some (i @ inp)"
      unfolding deflate_laws_def by blast+
    have "deflate_accepts finished err" using d(5,6) rel by (auto simp: deflate_accepts_def)
    then show ?thesis using d by auto
  qed
  from ts_sink.codec_loop_returns [where rel = ?rel and final = ?final and accepts = "deflate_accepts finished"
      and finished = finished and zc = "z_deflate Z" and work = "work finished" and i = i and outp = outp
      and z = z and inp = "avail_in s" and s = "cs_ts s" and E = E and is_open = is_open and chunks = chunks
      and failure = failure, OF this] s acc progress
  show ?thesis unfolding run_codec_def by fastforce
qed

lemma inflate_loop_returns:
  assumes laws: "inflate_laws Z ok work expand" and acc: "accepting E is_open chunks"
    and s: "zstream s = Some z" "ok wb z i outp" "is_open (eng (cs_ts s))"
    and d: "expand wb (i @ avail_in s @ later) = Some d"
  shows "\<exists>s' z' pieces d'. run_codec (z_inflate Z) inflate_accepts failure E finished s = Some (Inr (), s')
    \<and> zstream s' = Some z' \<and> ok wb z' (i @ avail_in s) (outp @ concat pieces) \<and> avail_in s' = []
    \<and> is_open (eng (cs_ts s'))
    \<and> chunks (eng (cs_ts s')) = chunks (eng (cs_ts s)) @ map (\<lambda>b. SVal (Buffer b)) pieces
    \<and> (\<forall>p\<in>set pieces. p \<noteq> [] \<and> length p \<le> BUFFER_SIZE)
    \<and> d = outp @ concat pieces @ d' \<and> (later = [] \<longrightarrow> d' = [])"
proof -
  let ?rel = "\<lambda>i outp z inp. ok wb z i outp \<and> expand wb (i @ inp @ later) = Some d"
  let ?final = "\<lambda>i outp z. ok wb z i outp \<and> (\<exists>d'. d = outp @ d' \<and> (later = [] \<longrightarrow> d' = []))"
  have "inflate_accepts err \<and> length out \<le> BUFFER_SIZE
      \<and> (length out = BUFFER_SIZE \<longrightarrow> work z' rest < work z inp
         \<and> (\<exists>used. inp = used @ rest \<and> ?rel (i @ used) (outp @ out) z' rest))
      \<and> (length out < BUFFER_SIZE \<longrightarrow> rest = [] \<and> ?final (i @ inp) (outp @ out) z')"
    if rel: "?rel i outp z inp" and c: "z_inflate Z finished inp BUFFER_SIZE z = (err, rest, out, z')"
    for i outp z inp err rest out z'
  proof -
    have "ok wb z i outp" "expand wb (i @ inp @ later) = Some d" using rel by blast+
    with laws c have d: "err \<in> {Z_OK, Z_STREAM_END, Z_BUF_ERROR}" "length out \<le> BUFFER_SIZE"
      "\<exists>used. inp = used @ rest \<and> ok wb z' (i @ used) (outp @ out)"
      "length out = BUFFER_SIZE \<longrightarrow> work z' rest < work z inp"
      "length out < BUFFER_SIZE \<longrightarrow> rest = []"
      "\<exists>d'. d = outp @ out @ d' \<and> (length out < BUFFER_SIZE \<and> later = [] \<longrightarrow> d' = [])"
      unfolding inflate_laws_def by blast+
    have "inflate_accepts err" using d(1) by (auto simp: inflate_accepts_def)
    then show ?thesis using d rel by auto
  qed
  from ts_sink.codec_loop_returns [where rel = ?rel and final = ?final and accepts = inflate_accepts
      and finished = finished and zc = "z_inflate Z" and work = work and i = i and outp = outp
      and z = z and inp = "avail_in s" and s = "cs_ts s" and E = E and is_open = is_open and chunks = chunks
      and failure = failure, OF this] s acc d
  show ?thesis unfolding run_codec_def by fastforce
qed

lemma compress_chunks:
  assumes laws: "deflate_laws Z ok full work expand" and acc: "accepting E is_open chunks"
  shows "zstream s = Some z \<Longrightarrow> ok wb z i outp \<Longrightarrow> is_open (eng (cs_ts s)) \<Longrightarrow>
    \<exists>s' z' pieces. transform_chunks (CompressionStream_transformAlgorithm Z E)
        (map (\<lambda>b. SVal (Buffer b)) data) s = Some (Inr (), s')
    \<and> zstream s' = Some z' \<and> ok wb z' (i @ concat data) (outp @ concat pieces)
    \<and> is_open (eng (cs_ts s'))
    \<and> chunks (eng (cs_ts s')) = chunks (eng (cs_ts s)) @ map (\<lambda>b. SVal (Buffer b)) pieces
    \<and> (\<forall>p\<in>set pieces. p \<noteq> [] \<and> length p \<le> BUFFER_SIZE)"
proof (induction data arbitrary: s z i outp)
  case Nil
  then show ?case by (intro exI [of _ s] exI [of _ z] exI [of _ "[]"]) simp
next
  case (Cons b data)
  obtain s1 z1 ps where 1: "CompressionStream_transformAlgorithm Z E (SVal (Buffer b)) s = Some (Inr (), s1)"
    "zstream s1 = Some z1" "ok wb z1 (i @ b) (outp @ concat ps)" "is_open (eng (cs_ts s1))"
    "chunks (eng (cs_ts s1)) = chunks (eng (cs_ts s)) @ map (\<lambda>b. SVal (Buffer b)) ps"
    "\<forall>p\<in>set ps. p \<noteq> [] \<and> length p \<le> BUFFER_SIZE"
  proof (cases "b = []")
    case True
    then show thesis using that [of s z "[]"] Cons.prems
      by (simp add: CompressionStream_transformAlgorithm_def deflate_chunk_def value_to_buffer_def)
  next
    case False
    have "\<exists>s' z' pieces. run_codec (z_deflate Z) (deflate_accepts False)
        (SError ''CompressionStream transform: error compressing chunk'') E False (s\<lparr>avail_in := b\<rparr>) = Some (Inr (), s')
      \<and> zstream s' = Some z' \<and> ok wb z' (i @ b) (outp @ concat pieces) \<and> avail_in s' = []
      \<and> is_open (eng (cs_ts s'))
      \<and> chunks (eng (cs_ts s')) = chunks (eng (cs_ts s)) @ map (\<lambda>b. SVal (Buffer b)) pieces
      \<and> (\<forall>p\<in>set pieces. p \<noteq> [] \<and> length p \<le> BUFFER_SIZE)"
      using deflate_loop_returns [OF laws acc, of "s\<lparr>avail_in := b\<rparr>" z wb i outp False] Cons.prems False
      by simp
    then show thesis using False that
      by (auto simp: CompressionStream_transformAlgorithm_def deflate_chunk_def value_to_buffer_def)
  qed
  from Cons.IH [OF 1(2-4)] obtain s2 z2 qs where
    "transform_chunks (CompressionStream_transformAlgorithm Z E) (map (\<lambda>b. SVal (Buffer b)) data) s1 = Some (Inr (), s2)"
    "zstream s2 = Some z2" "ok wb z2 ((i @ b) @ concat data) ((outp @ concat ps) @ concat qs)"
    "is_open (eng (cs_ts s2))"
    "chunks (eng (cs_ts s2)) = chunks (eng (cs_ts s1)) @ map (\<lambda>b. SVal (Buffer b)) qs"
    "\<forall>p\<in>set qs. p \<noteq> [] \<and> length p \<le> BUFFER_SIZE" by blast
  with 1 show ?case
    by (intro exI [of _ s2] exI [of _ z2] exI [of _ "ps @ qs"]) auto
qed

lemma compress_all_correct:
  assumes laws: "deflate_laws Z ok full work expand" and acc: "accepting E is_open chunks"
    and s: "zstream s = Some z" "ok wb z [] []" "is_open (eng (cs_ts s))"
  shows "\<exists>s' pieces. compress_all Z E data s = Some (Inr (), s') \<and> zstream s' = None
    \<and> chunks (eng (cs_ts s')) = chunks (eng (cs_ts s)) @ map (\<lambda>b. SVal (Buffer b)) pieces
    \<and> (\<forall>p\<in>set pieces. p \<noteq> [] \<and> length p \<le> BUFFER_SIZE)
    \<and> expand wb (concat pieces) = Some (concat data)"
proof -
  obtain s1 z1 ps where 1: "transform_chunks (CompressionStream_transformAlgorithm Z E)
        (map (\<lambda>b. SVal (Buffer b)) data) s = Some (Inr (), s1)"
    "zstream s1 = Some z1" "ok wb z1 (concat data) (concat ps)" "is_open (eng (cs_ts s1))"
    "chunks (eng (cs_ts s1)) = chunks (eng (cs_ts s)) @ map (\<lambda>b. SVal (Buffer b)) ps"
    "\<forall>p\<in>set ps. p \<noteq> [] \<and> length p \<le> BUFFER_SIZE"
    using compress_chunks [OF laws acc s, of data] by auto
  have "\<exists>s' z' pieces. run_codec (z_deflate Z) (deflate_accepts True)
      (SError ''CompressionStream transform: error compressing chunk'') E True (s1\<lparr>avail_in := []\<rparr>) = Some (Inr (), s')
    \<and> zstream s' = Some z'
    \<and> chunks (eng (cs_ts s')) = chunks (eng (cs_ts s1)) @ map (\<lambda>b. SVal (Buffer b)) pieces
    \<and> (\<forall>p\<in>set pieces. p \<noteq> [] \<and> length p \<le> BUFFER_SIZE)
    \<and> expand wb (concat ps @ concat pieces) = Some (concat data)"
    using deflate_loop_returns [OF laws acc, of "s1\<lparr>avail_in := []\<rparr>" z1 wb "concat data" "concat ps" True] 1
    by fastforce
  then obtain s2 qs where 2: "CompressionStream_flushAlgorithm Z E s1 = Some (Inr (), s2\<lparr>zstream := None\<rparr>)"
    "chunks (eng (cs_ts s2)) = chunks (eng (cs_ts s1)) @ map (\<lambda>b. SVal (Buffer b)) qs"
    "\<forall>p\<in>set qs. p \<noteq> [] \<and> length p \<le> BUFFER_SIZE" "expand wb (concat ps @ concat qs) = Some (concat data)"
    by (auto simp: CompressionStream_flushAlgorithm_def deflate_chunk_def free_zstream_def)
  with 1 show ?thesis unfolding compress_all_def
    by (intro exI [of _ "s2\<lparr>zstream := None\<rparr>"] exI [of _ "ps @ qs"]) auto
qed

lemma decompress_chunks:
  assumes laws: "inflate_laws Z ok work expand" and acc: "accepting E is_open chunks"
  shows "zstream s = Some z \<Longrightarrow> ok wb z i outp \<Longrightarrow> is_open (eng (cs_ts s)) \<Longrightarrow> avail_in s = [] \<Longrightarrow>
    expand wb (i @ concat data @ later) = Some d \<Longrightarrow>
    \<exists>s' z' pieces. transform_chunks (DecompressionStream_transformAlgorithm Z E)
        (map (\<lambda>b. SVal (Buffer b)) data) s = Some (Inr (), s')
    \<and> zstream s' = Some z' \<and> ok wb z' (i @ concat data) (outp @ concat pieces)
    \<and> is_open (eng (cs_ts s')) \<and> avail_in s' = []
    \<and> chunks (eng (cs_ts s')) = chunks (eng (cs_ts s)) @ map (\<lambda>b. SVal (Buffer b)) pieces
    \<and> (\<forall>p\<in>set pieces. p \<noteq> [] \<and> length p \<le> BUFFER_SIZE)"
proof (induction data arbitrary: s z i outp)
  case Nil
  then show ?case by (intro exI [of _ s] exI [of _ z] exI [of _ "[]"]) simp
next
  case (Cons b data)
  obtain s1 z1 ps where 1: "DecompressionStream_transformAlgorithm Z E (SVal (Buffer b)) s = Some (Inr (), s1)"
    "zstream s1 = Some z1" "ok wb z1 (i @ b) (outp @ concat ps)" "is_open (eng (cs_ts s1))" "avail_in s1 = []"
    "chunks (eng (cs_ts s1)) = chunks (eng (cs_ts s)) @ map (\<lambda>b. SVal (Buffer b)) ps"
    "\<forall>p\<in>set ps. p \<noteq> [] \<and> length p \<le> BUFFER_SIZE"
  proof (cases "b = []")
    case True
    then show thesis using that [of s z "[]"] Cons.prems
      by (simp add: DecompressionStream_transformAlgorithm_def inflate_chunk_def value_to_buffer_def)
  next
    case False
    have "\<exists>s' z' pieces. run_codec (z_inflate Z) inflate_accepts DECOMPRESSING_ERROR E False (s\<lparr>avail_in := b\<rparr>)
        = Some (Inr (), s')
      \<and> zstream s' = Some z' \<and> ok wb z' (i @ b) (outp @ concat pieces) \<and> avail_in s' = []
      \<and> is_open (eng (cs_ts s'))
      \<and> chunks (eng (cs_ts s')) = chunks (eng (cs_ts s)) @ map (\<lambda>b. SVal (Buffer b)) pieces
      \<and> (\<forall>p\<in>set pieces. p \<noteq> [] \<and> length p \<le> BUFFER_SIZE)"
      using inflate_loop_returns [OF laws acc, of "s\<lparr>avail_in := b\<rparr>" z wb i outp "concat data @ later" d
          DECOMPRESSING_ERROR False] Cons.prems by fastforce
    then show thesis using False that
      by (auto simp: DecompressionStream_transformAlgorithm_def inflate_chunk_def value_to_buffer_def)
  qed
  have "expand wb ((i @ b) @ concat data @ later) = Some d" using Cons.prems by simp
  from Cons.IH [OF 1(2-5) this] obtain s2 z2 qs where
    "transform_chunks (DecompressionStream_transformAlgorithm Z E) (map (\<lambda>b. SVal (Buffer b)) data) s1 = Some (Inr (), s2)"
    "zstream s2 = Some z2" "ok wb z2 ((i @ b) @ concat data) ((outp @ concat ps) @ concat qs)"
    "is_open (eng (cs_ts s2))" "avail_in s2 = []"
    "chunks (eng (cs_ts s2)) = chunks (eng (cs_ts s1)) @ map (\<lambda>b. SVal (Buffer b)) qs"
    "\<forall>p\<in>set qs. p \<noteq> [] \<and> length p \<le> BUFFER_SIZE" by blast
  with 1 show ?case
    by (intro exI [of _ s2] exI [of _ z2] exI [of _ "ps @ qs"]) auto
qed

lemma decompress_all_correct:
  assumes laws: "inflate_laws Z ok work expand" and acc: "accepting E is_open chunks"
    and s: "zstream s = Some z" "ok wb z [] []" "is_open (eng (cs_ts s))" "avail_in s = []"
    and d: "expand wb (concat data @ later) = Some d"
  shows "\<exists>s' pieces d'. decompress_all Z E data s = Some (Inr (), s') \<and> zstream s' = None
    \<and> chunks (eng (cs_ts s')) = chunks (eng (cs_ts s)) @ map (\<lambda>b. SVal (Buffer b)) pieces
    \<and> (\<forall>p\<in>set pieces. p \<noteq> [] \<and> length p \<le> BUFFER_SIZE)
    \<and> d = concat pieces @ d' \<and> (later = [] \<longrightarrow> d' = [])"
proof -
  obtain s1 z1 ps where 1: "transform_chunks (DecompressionStream_transformAlgorithm Z E)
        (map (\<lambda>b. SVal (Buffer b)) data) s = Some (Inr (), s1)"
    "zstream s1 = Some z1" "ok wb z1 (concat data) (concat ps)" "is_open (eng (cs_ts s1))" "avail_in s1 = []"
    "chunks (eng (cs_ts s1)) = chunks (eng (cs_ts s)) @ map (\<lambda>b. SVal (Buffer b)) ps"
    "\<forall>p\<in>set ps. p \<noteq> [] \<and> length p \<le> BUFFER_SIZE"
    using decompress_chunks [OF laws acc s, of data later d] d by auto
  have "\<exists>s' z' pieces d'. run_codec (z_inflate Z) inflate_accepts DECOMPRESSING_ERROR E True (s1\<lparr>avail_in := []\<rparr>)
      = Some (Inr (), s')
    \<and> zstream s' = Some z'
    \<and> chunks (eng (cs_ts s')) = chunks (eng (cs_ts s1)) @ map (\<lambda>b. SVal (Buffer b)) pieces
    \<and> (\<forall>p\<in>set pieces. p \<noteq> [] \<and> length p \<le> BUFFER_SIZE)
    \<and> d = concat ps @ concat pieces @ d' \<and> (later = [] \<longrightarrow> d' = [])"
    using inflate_loop_returns [OF laws acc, of "s1\<lparr>avail_in := []\<rparr>" z1 wb "concat data" "concat ps" later d
        DECOMPRESSING_ERROR True] 1 d by fastforce
  then obtain s2 qs d' where 2: "DecompressionStream_flushAlgorithm Z E s1 = Some (Inr (), s2\<lparr>zstream := None\<rparr>)"
    "chunks (eng (cs_ts s2)) = chunks (eng (cs_ts s1)) @ map (\<lambda>b. SVal (Buffer b)) qs"
    "\<forall>p\<in>set qs. p \<noteq> [] \<and> length p \<le> BUFFER_SIZE"
    "d = concat ps @ concat qs @ d'" "later = [] \<longrightarrow> d' = []"
    using 1(5) by (auto simp: DecompressionStream_flushAlgorithm_def inflate_chunk_def free_zstream_def)
  with 1 show ?thesis unfolding decompress_all_def
    by (intro exI [of _ "s2\<lparr>zstream := None\<rparr>"] exI [of _ "ps @ qs"] exI [of _ d']) auto
qed

text \<open>A demonstration zlib that copies: its state is what it has consumed.\<close>

definition demo_copy :: "byte list zcall" where
  "demo_copy finished inp room z =
     (if finished \<and> length inp < room then Z_STREAM_END else Z_OK, drop room inp, take room inp, z @ take room inp)"

definition demo_zlib :: "byte list zlib" where
  "demo_zlib = \<lparr>z_deflateInit2 = (\<lambda>_ _. Some []), z_deflate = demo_copy,
     z_inflateInit2 = (\<lambda>_. Some []), z_inflate = demo_copy\<rparr>"

definition demo_ok :: "int \<Rightarrow> byte list \<Rightarrow> byte list \<Rightarrow> byte list \<Rightarrow> bool" where
  "demo_ok wb z i outp \<longleftrightarrow> z = i \<and> z = outp"

lemma demo_deflate_laws:
  "deflate_laws demo_zlib demo_ok (\<lambda>_. True) (\<lambda>_ _ inp. length inp) (\<lambda>_ b. Some b)"
  by (auto simp: deflate_laws_def demo_zlib_def demo_copy_def demo_ok_def BUFFER_SIZE_def
      split: if_splits intro: exI [of _ "take 16384 _"])

lemma take_rest: "\<exists>d'. inp @ later = take n inp @ d' \<and> (min (length inp) n < n \<and> later = [] \<longrightarrow> d' = [])"
  by (rule exI [of _ "drop n inp @ later"]) (auto simp flip: append_assoc)

lemma demo_inflate_laws:
  "inflate_laws demo_zlib demo_ok (\<lambda>_ inp. length inp) (\<lambda>_ b. Some b)"
  using take_rest [where n = 16384]
  by (auto simp: inflate_laws_def demo_zlib_def demo_copy_def demo_ok_def BUFFER_SIZE_def
      split: if_splits intro: exI [of _ "take 16384 _"] dest: spec)

text \<open>A demonstration engine whose readable end takes every chunk.\<close>

definition demo_sink_engine :: "(chunk_value sval list, chunk_value, cs_function) stream_engine" where
  "demo_sink_engine = \<lparr>rs_can = (\<lambda>e. True), rs_enqueue = (\<lambda>v e. (None, False, e @ [v])),
     rs_close = (\<lambda>e. e), rs_error = (\<lambda>v e. e), rs_errored = (\<lambda>e. False), rs_stored = (\<lambda>e. SUndefined),
     rs_should_pull = (\<lambda>e. False), rs_desired_size = (\<lambda>e. None), ws_state = (\<lambda>e. Writable),
     ws_error = (\<lambda>v e. e), ws_stored = (\<lambda>e. SUndefined), new_streams = (\<lambda>_ _ _ _. [])\<rparr>"

definition demo_no_call :: "('e, chunk_value, cs_function, 'm) user_call" where
  "demo_no_call v f args s = (Inr SUndefined, s)"

lemma demo_accepting: "accepting demo_sink_engine (\<lambda>_. True) (\<lambda>e. e)"
  by (simp add: accepting_def demo_sink_engine_def)

lemma new_transform_ok: "\<exists>t. new_transform E call e = (Inr (), t)"
  by (simp add: new_transform_def create_def case_prod_beta Let_def)

lemma constructor_cases:
  assumes "CompressionStream_constructor Z E call e (Inr chars) = Inr s"
  obtains fmt z where "format_of chars = Some fmt" "zstream s = Some z" "avail_in s = []"
    "z_deflateInit2 Z COMPRESSION_LEVEL (window_bits fmt) = Some z" "cs_format s = fmt"
    "cs_ts s = snd (new_transform E call e)"
  using assms new_transform_ok [of E call e]
  by (auto simp: CompressionStream_constructor_def CompressionStream_create_def
      split: option.splits prod.splits sum.splits)

lemma decompression_constructor_cases:
  assumes "DecompressionStream_constructor Z E call e (Inr chars) = Inr s"
  obtains fmt z where "format_of chars = Some fmt" "zstream s = Some z" "avail_in s = []"
    "z_inflateInit2 Z (window_bits fmt) = Some z" "cs_format s = fmt"
    "cs_ts s = snd (new_transform E call e)"
  using assms new_transform_ok [of E call e]
  by (auto simp: DecompressionStream_constructor_def DecompressionStream_create_def
      split: option.splits prod.splits sum.splits)


text \<open>
  A DecompressionStream accepts every beginning of a valid compressed stream as if it were
  the whole: all transforms and the flush succeed, and what it delivers is a beginning of the
  data, which is missing its end when the input was truncated.
\<close>

theorem truncated_input_is_accepted:
  assumes laws: "inflate_laws Z ok work expand" and acc: "accepting E is_open chunks"
    and t: "DecompressionStream_constructor Z E call e (Inr chars) = Inr t" "is_open (eng (cs_ts t))"
      "chunks (eng (cs_ts t)) = []"
    and d: "format_of chars = Some fmt" "expand (window_bits fmt) (concat pieces @ missing) = Some d"
  shows "\<exists>t' outs rest. decompress_all Z E pieces t = Some (Inr (), t') \<and> zstream t' = None
    \<and> chunks (eng (cs_ts t')) = map (\<lambda>b. SVal (Buffer b)) outs
    \<and> d = concat outs @ rest \<and> (missing = [] \<longrightarrow> rest = [])"
proof -
  obtain z where z: "zstream t = Some z" "avail_in t = []" "z_inflateInit2 Z (window_bits fmt) = Some z"
    using decompression_constructor_cases [OF t(1)] d(1) by (metis option.inject)
  have "ok (window_bits fmt) z [] []" using laws z(3) unfolding inflate_laws_def by blast
  from decompress_all_correct [OF laws acc z(1) this t(2) z(2) d(2)] t(3) show ?thesis by auto
qed

definition demo_cs :: "(chunk_value sval list, byte list) cs" where
  "demo_cs = projr (CompressionStream_constructor demo_zlib demo_sink_engine demo_no_call [] (Inr ''gzip''))"

definition demo_ds :: "(chunk_value sval list, byte list) cs" where
  "demo_ds = projr (DecompressionStream_constructor demo_zlib demo_sink_engine demo_no_call [] (Inr ''gzip''))"

lemma new_transform_eng: "eng (snd (new_transform E call e)) = new_streams E (JFin 1) None (JFin 0) None"
  by (simp add: new_transform_def create_def case_prod_beta Let_def SetUpFromTransformer_def
      set_transformer_def controller_create_def Initialize_def)

lemma demo_format: "format_of ''gzip'' = Some GZIP"
  by (simp add: format_of_def c_string_def)

lemma demo_cs_eq:
  "CompressionStream_constructor demo_zlib demo_sink_engine demo_no_call [] (Inr ''gzip'') = Inr demo_cs"
  "DecompressionStream_constructor demo_zlib demo_sink_engine demo_no_call [] (Inr ''gzip'') = Inr demo_ds"
  "eng (cs_ts demo_cs) = []" "eng (cs_ts demo_ds) = []"
proof -
  obtain t where t: "new_transform demo_sink_engine demo_no_call [] = (Inr (), t)"
    using new_transform_ok [of demo_sink_engine demo_no_call "[]"] by (elim exE)
  have e: "eng t = []" using new_transform_eng [of demo_sink_engine demo_no_call "[]"] t
    by (simp add: demo_sink_engine_def)
  have c: "CompressionStream_constructor demo_zlib demo_sink_engine demo_no_call [] (Inr ''gzip'')
      = Inr \<lparr>cs_ts = t, cs_format = GZIP, zstream = Some [], avail_in = []\<rparr>"
    by (simp add: CompressionStream_constructor_def demo_format CompressionStream_create_def t)
      (simp add: demo_zlib_def)
  have d: "DecompressionStream_constructor demo_zlib demo_sink_engine demo_no_call [] (Inr ''gzip'')
      = Inr \<lparr>cs_ts = t, cs_format = GZIP, zstream = Some [], avail_in = []\<rparr>"
    by (simp add: DecompressionStream_constructor_def demo_format DecompressionStream_create_def t)
      (simp add: demo_zlib_def)
  show "CompressionStream_constructor demo_zlib demo_sink_engine demo_no_call [] (Inr ''gzip'') = Inr demo_cs"
    "DecompressionStream_constructor demo_zlib demo_sink_engine demo_no_call [] (Inr ''gzip'') = Inr demo_ds"
    "eng (cs_ts demo_cs) = []" "eng (cs_ts demo_ds) = []"
    unfolding demo_cs_def demo_ds_def c d by (simp_all add: e)
qed


theorem truncated_input_is_accepted_witness:
  "\<exists>t' outs rest. decompress_all demo_zlib demo_sink_engine [[1, 2]] demo_ds = Some (Inr (), t')
    \<and> eng (cs_ts t') = map (\<lambda>b. SVal (Buffer b)) outs \<and> [1, 2, 3] = concat outs @ rest"
  using truncated_input_is_accepted [OF demo_inflate_laws demo_accepting demo_cs_eq(2), of GZIP "[[1, 2]]" "[3]"
      "[1, 2, 3]"] demo_cs_eq(4)
  by (auto simp: demo_format)

end
