(* ===== verification/Host_Body.thy ===== *)
theory Host_Body
  imports Prelude
begin

section \<open>Bodies of the host API\<close>

text \<open>
  The classes \<open>HttpOutgoingBody\<close>, \<open>HttpIncomingBody\<close> and \<open>BodyAppendTask\<close> of
  \<open>host-apis/wasi-0.2.0/host_api.cpp\<close>, over the streams of WASI.

  \<^item> The host is a record of the stream calls on a world \<open>'w\<close>; \<open>stream_laws\<close> is what \<open>streams.wit\<close>
    documents of them: a write may not exceed the permit of the last \<open>check-write\<close>, or it traps;
    a read takes the next bytes of the input, at most as many as asked for.
  \<^item> A function returns \<open>Trap\<close> or \<open>Returns\<close> its result; loops may also never return.  An error is a
    number, as in \<open>Result<T>\<close>.  \<open>size_t\<close> has 32 bits.
  \<^item> Results: \<open>write\<close> passes a prefix that fits; \<open>write_all\<close> traps whenever the permit is smaller
    than the data; the append task moves the input to the output byte by byte, in order and
    nothing twice, through any number of runs, and each run returns.
\<close>

datatype 'a exec = Trap | Returns 'a

datatype read_answer = Bytes "byte list" | StreamClosed | StreamFailed

type_synonym 'a api_result = "nat + 'a"

record 'w streams_host =
  check_write :: "nat \<Rightarrow> 'w \<Rightarrow> 64 word option \<times> 'w"
  stream_write :: "nat \<Rightarrow> byte list \<Rightarrow> 'w \<Rightarrow> bool exec \<times> 'w"
  stream_read :: "nat \<Rightarrow> 64 word \<Rightarrow> 'w \<Rightarrow> read_answer \<times> 'w"
  stream_subscribe :: "nat \<Rightarrow> 'w \<Rightarrow> int \<times> 'w"
  pollable_drop :: "int \<Rightarrow> 'w \<Rightarrow> 'w"
  blocking_flush :: "nat \<Rightarrow> 'w \<Rightarrow> bool \<times> 'w"
  stream_drop :: "nat \<Rightarrow> 'w \<Rightarrow> 'w"
  body_finish :: "nat \<Rightarrow> 'w \<Rightarrow> 'w"

text \<open>\<open>OutgoingBodyHandleState\<close>; a body whose handle state is null is \<open>None\<close>.\<close>

record outgoing_state =
  ob_handle :: nat
  ob_stream :: nat
  ob_pollable :: int

definition INVALID_POLLABLE :: int where "INVALID_POLLABLE = -1"

subsection \<open>Writing\<close>

definition size_of :: "64 word \<Rightarrow> nat" where
  "size_of n = unat (ucast n :: 32 word)"

definition write_to_outgoing_body :: "'w streams_host \<Rightarrow> nat \<Rightarrow> byte list \<Rightarrow> 'w \<Rightarrow> bool exec \<times> 'w" where
  "write_to_outgoing_body H stream bytes w = stream_write H stream bytes w"

definition HttpOutgoingBody_capacity :: "'w streams_host \<Rightarrow> outgoing_state option \<Rightarrow> 'w
    \<Rightarrow> 64 word api_result \<times> 'w" where
  "HttpOutgoingBody_capacity H b w = (case b of
     None \<Rightarrow> (Inl 154, w)
   | Some st \<Rightarrow> (case check_write H (ob_stream st) w of
        (None, w') \<Rightarrow> (Inl 154, w') | (Some n, w') \<Rightarrow> (Inr n, w')))"

definition HttpOutgoingBody_write :: "'w streams_host \<Rightarrow> outgoing_state option \<Rightarrow> byte list \<Rightarrow> 'w
    \<Rightarrow> nat api_result exec \<times> 'w" where
  "HttpOutgoingBody_write H b bytes w = (case HttpOutgoingBody_capacity H b w of
     (Inl _, w1) \<Rightarrow> (Returns (Inl 154), w1)
   | (Inr cap, w1) \<Rightarrow>
       (let n = min (length bytes) (size_of cap)
        in case write_to_outgoing_body H (ob_stream (the b)) (take n bytes) w1 of
             (Trap, w2) \<Rightarrow> (Trap, w2)
           | (Returns False, w2) \<Rightarrow> (Returns (Inl 154), w2)
           | (Returns True, w2) \<Rightarrow> (Returns (Inr n), w2)))"

text \<open>The loop of \<open>write_all\<close> passes all that is left to the stream, whatever the capacity.\<close>

partial_function (option) write_all_loop :: "'w streams_host \<Rightarrow> outgoing_state \<Rightarrow> byte list \<Rightarrow> 'w
    \<Rightarrow> (unit api_result exec \<times> 'w) option" where
  "write_all_loop H st bytes w =
     (if bytes = [] then Some (Returns (Inr ()), w)
      else case HttpOutgoingBody_capacity H (Some st) w of
        (Inl _, w1) \<Rightarrow> Some (Returns (Inl 154), w1)
      | (Inr cap, w1) \<Rightarrow>
          (case write_to_outgoing_body H (ob_stream st) bytes w1 of
             (Trap, w2) \<Rightarrow> Some (Trap, w2)
           | (Returns ok, w2) \<Rightarrow> if \<not> ok then Some (Returns (Inl 154), w2)
               else write_all_loop H st (drop (min (length bytes) (size_of cap)) bytes) w2))"

definition HttpOutgoingBody_write_all :: "'w streams_host \<Rightarrow> outgoing_state option \<Rightarrow> byte list \<Rightarrow> 'w
    \<Rightarrow> (unit api_result exec \<times> 'w) option" where
  "HttpOutgoingBody_write_all H b bytes w = (case b of
     None \<Rightarrow> Some (Returns (Inl 0), w) | Some st \<Rightarrow> write_all_loop H st bytes w)"

definition HttpOutgoingBody_close :: "'w streams_host \<Rightarrow> outgoing_state \<Rightarrow> 'w
    \<Rightarrow> outgoing_state option exec \<times> 'w" where
  "HttpOutgoingBody_close H st w = (case blocking_flush H (ob_stream st) w of
     (False, w1) \<Rightarrow> (Trap, w1)
   | (True, w1) \<Rightarrow>
       (let w2 = (if ob_pollable st \<noteq> INVALID_POLLABLE then pollable_drop H (ob_pollable st) w1 else w1);
            w3 = stream_drop H (ob_stream st) w2
        in (Returns None, body_finish H (ob_handle st) w3)))"

definition HttpOutgoingBody_subscribe :: "'w streams_host \<Rightarrow> outgoing_state \<Rightarrow> 'w
    \<Rightarrow> (int \<times> outgoing_state) \<times> 'w" where
  "HttpOutgoingBody_subscribe H st w = (if ob_pollable st = INVALID_POLLABLE
     then (case stream_subscribe H (ob_stream st) w of (p, w') \<Rightarrow> ((p, st\<lparr>ob_pollable := p\<rparr>), w'))
     else ((ob_pollable st, st), w))"

definition HttpOutgoingBody_unsubscribe :: "'w streams_host \<Rightarrow> outgoing_state \<Rightarrow> 'w
    \<Rightarrow> outgoing_state \<times> 'w" where
  "HttpOutgoingBody_unsubscribe H st w = (if ob_pollable st = INVALID_POLLABLE then (st, w)
     else (st\<lparr>ob_pollable := INVALID_POLLABLE\<rparr>, pollable_drop H (ob_pollable st) w))"

subsection \<open>Reading\<close>

definition HttpIncomingBody_read :: "'w streams_host \<Rightarrow> nat \<Rightarrow> 32 word \<Rightarrow> 'w
    \<Rightarrow> (bool \<times> byte list) api_result \<times> 'w" where
  "HttpIncomingBody_read H stream chunk_size w = (case stream_read H stream (ucast chunk_size) w of
     (Bytes bs, w') \<Rightarrow> (Inr (False, bs), w')
   | (StreamClosed, w') \<Rightarrow> (Inr (True, []), w')
   | (StreamFailed, w') \<Rightarrow> (Inl 154, w'))"

definition HttpIncomingBody_subscribe :: "'w streams_host \<Rightarrow> nat \<Rightarrow> 'w \<Rightarrow> int \<times> 'w" where
  "HttpIncomingBody_subscribe H stream w = stream_subscribe H stream w"

subsection \<open>The append task\<close>

datatype append_state = BlockedOnBoth | BlockedOnIncoming | BlockedOnOutgoing | Ready | AppendDone

record append_task =
  at_in :: nat
  at_out :: "outgoing_state option"
  at_in_pollable :: int
  at_out_pollable :: int
  at_state :: append_state

text \<open>What a run ends with: failure, completion, or the task queued again.\<close>

datatype run_result = RunFailed | RunDone | RunQueued

definition BodyAppendTask_new :: "'w streams_host \<Rightarrow> nat \<Rightarrow> outgoing_state \<Rightarrow> 'w \<Rightarrow> append_task \<times> 'w" where
  "BodyAppendTask_new H incoming outgoing w =
     (case HttpIncomingBody_subscribe H incoming w of (ip, w1) \<Rightarrow>
      case HttpOutgoingBody_subscribe H outgoing w1 of ((op, outgoing'), w2) \<Rightarrow>
        (\<lparr>at_in = incoming, at_out = Some outgoing', at_in_pollable = ip, at_out_pollable = op,
           at_state = BlockedOnBoth\<rparr>, w2))"

partial_function (option) append_write_loop :: "'w streams_host \<Rightarrow> outgoing_state option \<Rightarrow> byte list
    \<Rightarrow> 'w \<Rightarrow> (unit api_result exec \<times> 'w) option" where
  "append_write_loop H b bytes w =
     (if bytes = [] then Some (Returns (Inr ()), w)
      else case HttpOutgoingBody_write H b bytes w of
        (Trap, w1) \<Rightarrow> Some (Trap, w1)
      | (Returns (Inl e), w1) \<Rightarrow> Some (Returns (Inl e), w1)
      | (Returns (Inr n), w1) \<Rightarrow> append_write_loop H b (drop n bytes) w1)"

partial_function (option) append_copy_loop :: "'w streams_host \<Rightarrow> append_task \<Rightarrow> 64 word \<Rightarrow> 'w
    \<Rightarrow> (run_result exec \<times> append_task \<times> 'w) option" where
  "append_copy_loop H t cap w =
     (case HttpIncomingBody_read H (at_in t) (ucast cap) w of
        (Inl _, w1) \<Rightarrow> Some (Returns RunFailed, t, w1)
      | (Inr (finished, bytes), w1) \<Rightarrow>
          if bytes = [] \<and> \<not> finished then Some (Returns RunQueued, t\<lparr>at_state := BlockedOnIncoming\<rparr>, w1)
          else case append_write_loop H (at_out t) bytes w1 of
            None \<Rightarrow> None
          | Some (Trap, w2) \<Rightarrow> Some (Trap, t, w2)
          | Some (Returns (Inl _), w2) \<Rightarrow> Some (Returns RunFailed, t, w2)
          | Some (Returns (Inr _), w2) \<Rightarrow>
              if finished then Some (Returns RunDone, t\<lparr>at_state := AppendDone\<rparr>, w2)
              else case HttpOutgoingBody_capacity H (at_out t) w2 of
                (Inl _, w3) \<Rightarrow> Some (Returns RunFailed, t, w3)
              | (Inr cap', w3) \<Rightarrow> if cap' > 0 then append_copy_loop H t cap' w3
                  else Some (Returns RunQueued, t\<lparr>at_state := BlockedOnOutgoing\<rparr>, w3))"

text \<open>From \<open>BlockedOnOutgoing\<close> on.\<close>

definition append_when_readable :: "'w streams_host \<Rightarrow> append_task \<Rightarrow> 'w
    \<Rightarrow> (run_result exec \<times> append_task \<times> 'w) option" where
  "append_when_readable H t w = (if at_state t = BlockedOnOutgoing
     then case HttpOutgoingBody_capacity H (at_out t) w of
            (Inl _, w1) \<Rightarrow> Some (Returns RunFailed, t, w1)
          | (Inr cap, w1) \<Rightarrow> if cap > 0 then append_copy_loop H (t\<lparr>at_state := Ready\<rparr>) cap w1
              else Some (Returns RunQueued, t, w1)
     else append_copy_loop H t 0 w)"

definition BodyAppendTask_run :: "'w streams_host \<Rightarrow> append_task \<Rightarrow> 'w
    \<Rightarrow> (run_result exec \<times> append_task \<times> 'w) option" where
  "BodyAppendTask_run H t w = (if at_state t = BlockedOnBoth \<or> at_state t = BlockedOnIncoming
     then case HttpIncomingBody_read H (at_in t) 0 w of
            (Inl _, w1) \<Rightarrow> Some (Trap, t, w1)
          | (Inr (finished, _), w1) \<Rightarrow>
              if finished then Some (Returns RunDone, t\<lparr>at_state := AppendDone\<rparr>, w1)
              else append_when_readable H (t\<lparr>at_state := BlockedOnOutgoing\<rparr>) w1
     else append_when_readable H t w)"

definition BodyAppendTask_id :: "append_task \<Rightarrow> int" where
  "BodyAppendTask_id t = (if at_state t = BlockedOnBoth \<or> at_state t = BlockedOnIncoming
     then at_in_pollable t else at_out_pollable t)"

definition BodyAppendTask_ready :: "append_task \<Rightarrow> bool" where
  "BodyAppendTask_ready t \<longleftrightarrow> at_state t = Ready"

definition HttpOutgoingBody_append where
  "HttpOutgoingBody_append H outgoing incoming queue w =
     (case BodyAppendTask_new H incoming outgoing w of (t, w') \<Rightarrow> (queue @ [t], w'))"

subsection \<open>What the host documents\<close>

text \<open>
  \<open>permit\<close>: the bytes that the next write to a stream may have; \<open>sent\<close>: what was written to it;
  \<open>taken\<close>: what was read from a stream; \<open>content\<close>: what it delivers until it is closed.
\<close>

definition stream_laws :: "'w streams_host \<Rightarrow> (nat \<Rightarrow> 'w \<Rightarrow> nat) \<Rightarrow> (nat \<Rightarrow> 'w \<Rightarrow> byte list)
    \<Rightarrow> (nat \<Rightarrow> 'w \<Rightarrow> byte list) \<Rightarrow> (nat \<Rightarrow> byte list) \<Rightarrow> bool" where
  "stream_laws H permit sent taken content \<longleftrightarrow>
     (\<forall>s w n w'. check_write H s w = (n, w') \<longrightarrow> sent s w' = sent s w \<and> (\<forall>r. taken r w' = taken r w)
        \<and> (case n of None \<Rightarrow> True | Some k \<Rightarrow> permit s w' = unat k))
   \<and> (\<forall>s bs w r w'. stream_write H s bs w = (r, w') \<longrightarrow>
        (if length bs \<le> permit s w
         then r \<noteq> Trap \<and> sent s w' = (if r = Returns True then sent s w @ bs else sent s w)
           \<and> (\<forall>r. taken r w' = taken r w)
         else r = Trap))
   \<and> (\<forall>s n w a w'. stream_read H s n w = (a, w') \<longrightarrow> (\<forall>o'. sent o' w' = sent o' w)
        \<and> (case a of
             Bytes bs \<Rightarrow> length bs \<le> unat n \<and> taken s w' = taken s w @ bs
               \<and> (\<exists>later. content s = taken s w' @ later)
           | StreamClosed \<Rightarrow> taken s w' = taken s w \<and> taken s w = content s
           | StreamFailed \<Rightarrow> taken s w' = taken s w))"

lemma capacity_laws:
  assumes "stream_laws H permit sent taken content" "HttpOutgoingBody_capacity H (Some st) w = (r, w')"
  shows "sent (ob_stream st) w' = sent (ob_stream st) w" "taken s w' = taken s w"
    "r = Inr k \<Longrightarrow> permit (ob_stream st) w' = unat k"
    "r = Inr k \<Longrightarrow> check_write H (ob_stream st) w = (Some k, w')"
proof -
  obtain n w1 where c: "check_write H (ob_stream st) w = (n, w1)" by (rule prod.exhaust)
  with assms(1) have l: "sent (ob_stream st) w1 = sent (ob_stream st) w" "\<forall>s. taken s w1 = taken s w"
    "case n of None \<Rightarrow> True | Some k \<Rightarrow> permit (ob_stream st) w1 = unat k"
    unfolding stream_laws_def by blast+
  from assms(2) c have w: "w' = w1" and r: "r = Inr k \<Longrightarrow> n = Some k" for k
    by (auto simp: HttpOutgoingBody_capacity_def split: option.splits)
  show "sent (ob_stream st) w' = sent (ob_stream st) w" "taken s w' = taken s w" using l(1,2) w by simp_all
  show "permit (ob_stream st) w' = unat k" if "r = Inr k" using l(3) r [OF that] w by simp
  show "check_write H (ob_stream st) w = (Some k, w')" if "r = Inr k" using c r [OF that] w by simp
qed

lemma size_of_small: "unat k < 2 ^ 32 \<Longrightarrow> size_of k = unat k"
  by (simp add: size_of_def unsigned_ucast_eq unsigned_take_bit_eq take_bit_eq_mod)

lemma size_of_le: "size_of k \<le> unat k"
  by (simp add: size_of_def unsigned_ucast_eq unsigned_take_bit_eq take_bit_eq_mod)

text \<open>A write never exceeds the permit; on success it has sent the prefix it reports.\<close>

lemma write_laws:
  assumes laws: "stream_laws H permit sent taken content"
    and w: "HttpOutgoingBody_write H (Some st) bytes w = (r, w')"
  obtains (Wrote) n k where "r = Returns (Inr n)" "n = min (length bytes) (size_of k)"
      "fst (check_write H (ob_stream st) w) = Some k"
      "sent (ob_stream st) w' = sent (ob_stream st) w @ take n bytes" "\<And>s. taken s w' = taken s w"
  | (Failed) "r = Returns (Inl 154)" "sent (ob_stream st) w' = sent (ob_stream st) w" "\<And>s. taken s w' = taken s w"
proof -
  obtain c w1 where c: "HttpOutgoingBody_capacity H (Some st) w = (c, w1)" by (rule prod.exhaust)
  note cl = capacity_laws [OF laws c]
  show thesis
  proof (cases c)
    case (Inl e)
    then show thesis using Failed w c cl(1,2) by (simp add: HttpOutgoingBody_write_def)
  next
    case (Inr k)
    define n where "n = min (length bytes) (size_of k)"
    obtain x w2 where x: "stream_write H (ob_stream st) (take n bytes) w1 = (x, w2)" by (rule prod.exhaust)
    have "length (take n bytes) \<le> permit (ob_stream st) w1"
      using cl(3) [OF Inr] size_of_le [of k] by (simp add: n_def min_def)
    with laws x have l: "x \<noteq> Trap"
      "sent (ob_stream st) w2 = (if x = Returns True then sent (ob_stream st) w1 @ take n bytes else sent (ob_stream st) w1)"
      "\<forall>r. taken r w2 = taken r w1"
      unfolding stream_laws_def by (metis (no_types, lifting))+
    have "(r, w') = (case x of Trap \<Rightarrow> (Trap, w2) | Returns False \<Rightarrow> (Returns (Inl 154), w2)
        | Returns True \<Rightarrow> (Returns (Inr n), w2))"
      unfolding w [symmetric] using c Inr x n_def
      by (simp add: HttpOutgoingBody_write_def write_to_outgoing_body_def Let_def split: exec.split bool.split)
    then show thesis
      using l cl(1,2) cl(4) [OF Inr] Wrote [of n k] Failed n_def
      by (cases x; cases "x = Returns True") (auto split: bool.splits)
  qed
qed

text \<open>
  \<open>write_all\<close> gives the whole rest of its data to the stream, not the part that the
  \<open>check-write\<close> before it permits: a host that permits less traps, and only data that the first
  permit covers is written.
\<close>

theorem write_all_traps_on_short_permit:
  assumes laws: "stream_laws H permit sent taken content" and "bytes \<noteq> []"
    and c: "check_write H (ob_stream st) w = (Some k, w1)" "unat k < 2 ^ 32"
  shows "\<exists>r w2. HttpOutgoingBody_write_all H (Some st) bytes w = Some (r, w2)
    \<and> (if unat k < length bytes then r = Trap
       else r = Returns (Inr ()) \<and> sent (ob_stream st) w2 = sent (ob_stream st) w @ bytes
         \<or> r = Returns (Inl 154) \<and> sent (ob_stream st) w2 = sent (ob_stream st) w)"
proof -
  have cap: "HttpOutgoingBody_capacity H (Some st) w = (Inr k, w1)"
    using c(1) by (simp add: HttpOutgoingBody_capacity_def)
  note cl = capacity_laws [OF laws cap]
  obtain x w2 where x: "stream_write H (ob_stream st) bytes w1 = (x, w2)" by (rule prod.exhaust)
  have unfold: "HttpOutgoingBody_write_all H (Some st) bytes w = (case x of Trap \<Rightarrow> Some (Trap, w2)
      | Returns ok \<Rightarrow> if \<not> ok then Some (Returns (Inl 154), w2)
          else write_all_loop H st (drop (min (length bytes) (size_of k)) bytes) w2)"
    using assms(2) by (simp add: HttpOutgoingBody_write_all_def, subst write_all_loop.simps)
      (simp add: cap write_to_outgoing_body_def x)
  show ?thesis
  proof (cases "unat k < length bytes")
    case True
    then have "x = Trap" using laws x cl(3) [of k] unfolding stream_laws_def by (metis not_le)
    then show ?thesis using True unfold by simp
  next
    case False
    then have "length bytes \<le> permit (ob_stream st) w1" using cl(3) [of k] by simp
    with laws x have l: "x \<noteq> Trap"
      "sent (ob_stream st) w2 = (if x = Returns True then sent (ob_stream st) w1 @ bytes else sent (ob_stream st) w1)"
      unfolding stream_laws_def by (metis (no_types, lifting))+
    have "drop (min (length bytes) (size_of k)) bytes = []"
      using False size_of_small [OF c(2)] by simp
    then have "write_all_loop H st (drop (min (length bytes) (size_of k)) bytes) w2 = Some (Returns (Inr ()), w2)"
      by (subst write_all_loop.simps) simp
    then show ?thesis using False unfold l cl(1) by (cases x) (auto split: if_splits)
  qed
qed

lemma append_write_loop_copies:
  assumes laws: "stream_laws H permit sent taken content"
    and "append_write_loop H (Some st) bytes w = Some (r, w')"
  shows "(\<forall>s. taken s w' = taken s w)
    \<and> (\<exists>pre post. bytes = pre @ post \<and> sent (ob_stream st) w' = sent (ob_stream st) w @ pre
       \<and> (r = Returns (Inr ()) \<and> post = [] \<or> (\<exists>e. r = Returns (Inl e))))"
proof -
  define P where "P H' b bytes w y \<longleftrightarrow> (H' = H \<and> b = Some st \<longrightarrow> (\<forall>s. taken s (snd y) = taken s w)
    \<and> (\<exists>pre post. bytes = pre @ post \<and> sent (ob_stream st) (snd y) = sent (ob_stream st) w @ pre
       \<and> (fst y = Returns (Inr ()) \<and> post = [] \<or> (\<exists>e. fst y = Returns (Inl e)))))"
    for H' b bytes w and y :: "unit api_result exec \<times> 'a"
  have "P H (Some st) bytes w (r, w')"
  proof (rule append_write_loop.raw_induct [OF _ assms(2)])
    fix f :: "'a streams_host \<Rightarrow> outgoing_state option \<Rightarrow> byte list \<Rightarrow> 'a \<Rightarrow> (unit api_result exec \<times> 'a) option"
      and H' :: "'a streams_host" and b :: "outgoing_state option" and bytes w y
    assume IH: "\<And>H' b bytes w y. f H' b bytes w = Some y \<Longrightarrow> P H' b bytes w y"
      and body: "(if bytes = [] then Some (Returns (Inr ()), w)
        else case HttpOutgoingBody_write H' b bytes w of
          (Trap, w1) \<Rightarrow> Some (Trap, w1)
        | (Returns (Inl e), w1) \<Rightarrow> Some (Returns (Inl e), w1)
        | (Returns (Inr n), w1) \<Rightarrow> f H' b (drop n bytes) w1) = Some y"
    show "P H' b bytes w y"
      unfolding P_def
    proof (intro impI, elim conjE)
      assume h: "H' = H" "b = Some st"
      show "(\<forall>s. taken s (snd y) = taken s w)
        \<and> (\<exists>pre post. bytes = pre @ post \<and> sent (ob_stream st) (snd y) = sent (ob_stream st) w @ pre
          \<and> (fst y = Returns (Inr ()) \<and> post = [] \<or> (\<exists>e. fst y = Returns (Inl e))))"
      proof (cases "bytes = []")
        case True
        then show ?thesis using body by auto
      next
        case False
        obtain x w1 where x: "HttpOutgoingBody_write H (Some st) bytes w = (x, w1)" by (rule prod.exhaust)
        show ?thesis
        proof (rule write_laws [OF laws x])
          fix n k
          assume n: "x = Returns (Inr n)" "n = min (length bytes) (size_of k)"
            "sent (ob_stream st) w1 = sent (ob_stream st) w @ take n bytes" "\<And>s. taken s w1 = taken s w"
          have "f H (Some st) (drop n bytes) w1 = Some y" using body False x n(1) h by simp
          from IH [OF this] obtain pre post where "\<forall>s. taken s (snd y) = taken s w1"
            "drop n bytes = pre @ post" "sent (ob_stream st) (snd y) = sent (ob_stream st) w1 @ pre"
            "fst y = Returns (Inr ()) \<and> post = [] \<or> (\<exists>e. fst y = Returns (Inl e))"
            unfolding P_def by blast
          with n(3,4) show ?thesis
            by (intro conjI exI [of _ "take n bytes @ pre"] exI [of _ post])
              (simp_all, metis append_take_drop_id)
        next
          assume "x = Returns (Inl 154)" "sent (ob_stream st) w1 = sent (ob_stream st) w" "\<And>s. taken s w1 = taken s w"
          then show ?thesis using body False x h by (intro conjI exI [of _ "[]"] exI [of _ bytes]) auto
        qed
      qed
    qed
  qed
  then show ?thesis by (simp add: P_def)
qed


text \<open>What a piece of a run achieves: the bytes it took, of which it sent all unless it failed.\<close>

definition moved_by :: "(nat \<Rightarrow> 'w \<Rightarrow> byte list) \<Rightarrow> (nat \<Rightarrow> 'w \<Rightarrow> byte list) \<Rightarrow> (nat \<Rightarrow> byte list) \<Rightarrow> append_task
    \<Rightarrow> outgoing_state \<Rightarrow> 'w \<Rightarrow> run_result exec \<times> append_task \<times> 'w \<Rightarrow> bool" where
  "moved_by sent taken content t st w y = (case y of (r, t', w') \<Rightarrow>
     at_in t' = at_in t \<and> at_out t' = at_out t
     \<and> (\<exists>read_bytes pre post. read_bytes = pre @ post
         \<and> taken (at_in t) w' = taken (at_in t) w @ read_bytes
         \<and> sent (ob_stream st) w' = sent (ob_stream st) w @ pre
         \<and> (case r of Trap \<Rightarrow> False
            | Returns RunFailed \<Rightarrow> True
            | Returns RunDone \<Rightarrow> post = [] \<and> taken (at_in t) w' = content (at_in t) \<and> at_state t' = AppendDone
            | Returns RunQueued \<Rightarrow> post = [] \<and> at_state t' \<in> {BlockedOnIncoming, BlockedOnOutgoing})))"

lemma moved_by_after:
  assumes "taken (at_in t) w1 = taken (at_in t) w @ bytes"
    and "sent (ob_stream st) w1 = sent (ob_stream st) w @ bytes"
    and "moved_by sent taken content t st w1 y"
  shows "moved_by sent taken content t st w y"
proof -
  obtain r t' w' where y: "y = (r, t', w')" by (metis prod.exhaust)
  from assms(3) obtain pre post where m: "at_in t' = at_in t" "at_out t' = at_out t"
    "taken (at_in t) w' = taken (at_in t) w1 @ pre @ post"
    "sent (ob_stream st) w' = sent (ob_stream st) w1 @ pre"
    "case r of Trap \<Rightarrow> False
      | Returns RunFailed \<Rightarrow> True
      | Returns RunDone \<Rightarrow> post = [] \<and> taken (at_in t) w' = content (at_in t) \<and> at_state t' = AppendDone
      | Returns RunQueued \<Rightarrow> post = [] \<and> at_state t' \<in> {BlockedOnIncoming, BlockedOnOutgoing}"
    unfolding moved_by_def y prod.case by blast
  show ?thesis
    unfolding moved_by_def y prod.case
    by (intro conjI exI [of _ "bytes @ pre @ post"] exI [of _ "bytes @ pre"] exI [of _ post] m(1,2,5))
      (simp_all add: m(3,4) assms(1,2))
qed

lemma unat_ucast_64 [simp]: "unat (ucast (n :: 32 word) :: 64 word) = unat n"
proof -
  have "unat n < 2 ^ 32" using unsigned_less [of n, where 'a = nat] by simp
  then show ?thesis by (simp add: unsigned_ucast_eq take_bit_nat_eq_self)
qed

lemma read_laws:
  assumes laws: "stream_laws H permit sent taken content"
    and r: "HttpIncomingBody_read H s n w = (r, w')"
  shows "sent q w' = sent q w"
    "r = Inl e \<Longrightarrow> taken s w' = taken s w"
    "r = Inr (finished, bytes) \<Longrightarrow> taken s w' = taken s w @ bytes \<and> length bytes \<le> unat n
       \<and> (finished \<longrightarrow> bytes = [] \<and> taken s w' = content s)"
proof -
  obtain a w1 where a: "stream_read H s (ucast n) w = (a, w1)" by (rule prod.exhaust)
  have l: "\<forall>q. sent q w1 = sent q w" "case a of
             Bytes bs \<Rightarrow> length bs \<le> unat (ucast n :: 64 word) \<and> taken s w1 = taken s w @ bs
               \<and> (\<exists>later. content s = taken s w1 @ later)
           | StreamClosed \<Rightarrow> taken s w1 = taken s w \<and> taken s w = content s
           | StreamFailed \<Rightarrow> taken s w1 = taken s w"
    using laws a unfolding stream_laws_def by blast+
  show "sent q w' = sent q w" "r = Inl e \<Longrightarrow> taken s w' = taken s w"
    "r = Inr (finished, bytes) \<Longrightarrow> taken s w' = taken s w @ bytes \<and> length bytes \<le> unat n
       \<and> (finished \<longrightarrow> bytes = [] \<and> taken s w' = content s)"
    using r a l by (auto simp: HttpIncomingBody_read_def split: read_answer.splits)
qed

lemma append_copy_loop_copies:
  assumes laws: "stream_laws H permit sent taken content"
    and out: "at_out t = Some st"
    and "append_copy_loop H t cap w = Some y"
  shows "moved_by sent taken content t st w y"
proof -
  define P where "P H' t' cap w y \<longleftrightarrow> (H' = H \<and> t' = t \<longrightarrow> moved_by sent taken content t st w y)"
    for H' t' and cap :: "64 word" and w y
  have "P H t cap w y"
  proof (rule append_copy_loop.raw_induct [OF _ assms(3)])
    fix f :: "'a streams_host \<Rightarrow> append_task \<Rightarrow> 64 word \<Rightarrow> 'a \<Rightarrow> (run_result exec \<times> append_task \<times> 'a) option"
      and H' :: "'a streams_host" and t' and cap :: "64 word" and w y
    assume IH: "\<And>H' t' cap w y. f H' t' cap w = Some y \<Longrightarrow> P H' t' cap w y"
      and body: "(case HttpIncomingBody_read H' (at_in t') (ucast cap) w of
        (Inl _, w1) \<Rightarrow> Some (Returns RunFailed, t', w1)
      | (Inr (finished, bytes), w1) \<Rightarrow>
          if bytes = [] \<and> \<not> finished then Some (Returns RunQueued, t'\<lparr>at_state := BlockedOnIncoming\<rparr>, w1)
          else case append_write_loop H' (at_out t') bytes w1 of
            None \<Rightarrow> None
          | Some (Trap, w2) \<Rightarrow> Some (Trap, t', w2)
          | Some (Returns (Inl _), w2) \<Rightarrow> Some (Returns RunFailed, t', w2)
          | Some (Returns (Inr _), w2) \<Rightarrow>
              if finished then Some (Returns RunDone, t'\<lparr>at_state := AppendDone\<rparr>, w2)
              else case HttpOutgoingBody_capacity H' (at_out t') w2 of
                (Inl _, w3) \<Rightarrow> Some (Returns RunFailed, t', w3)
              | (Inr cap', w3) \<Rightarrow> if cap' > 0 then f H' t' cap' w3
                  else Some (Returns RunQueued, t'\<lparr>at_state := BlockedOnOutgoing\<rparr>, w3)) = Some y"
    show "P H' t' cap w y"
      unfolding P_def
    proof (intro impI, elim conjE)
      assume h: "H' = H" "t' = t"
      obtain x w1 where x: "HttpIncomingBody_read H (at_in t) (ucast cap) w = (x, w1)" by (rule prod.exhaust)
      note rl = read_laws [OF laws x]
      show "moved_by sent taken content t st w y"
      proof (cases x)
        case (Inl e)
        then show ?thesis using body h x rl(1,2) by (auto simp: moved_by_def)
      next
        case (Inr fb)
        obtain finished bytes where fb: "fb = (finished, bytes)" by (rule prod.exhaust)
        note tk = rl(3) [OF Inr [unfolded fb]]
        show ?thesis
        proof (cases "bytes = [] \<and> \<not> finished")
          case True
          then show ?thesis using body h x Inr fb rl(1) tk by (auto simp: moved_by_def)
        next
          case False
          have b1: "(case append_write_loop H (Some st) bytes w1 of
              None \<Rightarrow> None
            | Some (Trap, w2) \<Rightarrow> Some (Trap, t, w2)
            | Some (Returns (Inl _), w2) \<Rightarrow> Some (Returns RunFailed, t, w2)
            | Some (Returns (Inr _), w2) \<Rightarrow>
                if finished then Some (Returns RunDone, t\<lparr>at_state := AppendDone\<rparr>, w2)
                else case HttpOutgoingBody_capacity H (Some st) w2 of
                  (Inl _, w3) \<Rightarrow> Some (Returns RunFailed, t, w3)
                | (Inr cap', w3) \<Rightarrow> if cap' > 0 then f H t cap' w3
                    else Some (Returns RunQueued, t\<lparr>at_state := BlockedOnOutgoing\<rparr>, w3)) = Some y"
            using body x Inr fb False unfolding h out by auto
          then obtain q w2 where q: "append_write_loop H (Some st) bytes w1 = Some (q, w2)"
            by (cases "append_write_loop H (Some st) bytes w1") auto
          from append_write_loop_copies [OF laws q] obtain pre post where wl:
            "\<forall>s. taken s w2 = taken s w1" "bytes = pre @ post"
            "sent (ob_stream st) w2 = sent (ob_stream st) w1 @ pre"
            "q = Returns (Inr ()) \<and> post = [] \<or> (\<exists>e. q = Returns (Inl e))" by blast
          show ?thesis
          proof (cases "\<exists>e. q = Returns (Inl e)")
            case True
            then show ?thesis using b1 q wl tk rl(1) by (auto simp: moved_by_def)
          next
            case F: False
            with wl(4) have q': "q = Returns (Inr ())" and p: "pre = bytes" using wl(2) by auto
            have b2: "(if finished then Some (Returns RunDone, t\<lparr>at_state := AppendDone\<rparr>, w2)
                else case HttpOutgoingBody_capacity H (Some st) w2 of
                  (Inl _, w3) \<Rightarrow> Some (Returns RunFailed, t, w3)
                | (Inr cap', w3) \<Rightarrow> if cap' > 0 then f H t cap' w3
                    else Some (Returns RunQueued, t\<lparr>at_state := BlockedOnOutgoing\<rparr>, w3)) = Some y"
              using b1 q q' by simp
            show ?thesis
            proof (cases finished)
              case True
              then show ?thesis using b2 wl(1,3) tk rl(1) p by (auto simp: moved_by_def)
            next
              case nf: False
              obtain c w3 where c: "HttpOutgoingBody_capacity H (Some st) w2 = (c, w3)" by (rule prod.exhaust)
              note cl = capacity_laws(1,2) [OF laws c]
              have step: "taken (at_in t) w3 = taken (at_in t) w @ bytes"
                "sent (ob_stream st) w3 = sent (ob_stream st) w @ bytes"
                using cl wl(1,3) tk rl(1) p by simp_all
              show ?thesis
              proof (cases "\<exists>k. c = Inr k \<and> k > 0")
                case True
                then obtain k where "c = Inr k" "k > 0" by blast
                then have "f H t k w3 = Some y" using b2 nf c by simp
                from IH [OF this] have "moved_by sent taken content t st w3 y" by (simp add: P_def)
                then show ?thesis by (rule moved_by_after [where taken = taken and sent = sent, OF step])
              next
                case False
                then show ?thesis
                  using b2 nf c step by (cases c) (auto simp: moved_by_def)
              qed
            qed
          qed
        qed
      qed
    qed
  qed
  then show ?thesis by (simp add: P_def)
qed


lemma append_when_readable_copies:
  assumes laws: "stream_laws H permit sent taken content" and out: "at_out t = Some st"
    and run: "append_when_readable H t1 w1 = Some y" "at_in t1 = at_in t" "at_out t1 = Some st"
      "taken (at_in t) w1 = taken (at_in t) w" "sent (ob_stream st) w1 = sent (ob_stream st) w"
  shows "moved_by sent taken content t st w y"
proof -
  have copy: "moved_by sent taken content t st w y"
    if c: "append_copy_loop H t2 k w2 = Some y" and t2: "at_in t2 = at_in t" "at_out t2 = Some st"
      and w2: "taken (at_in t) w2 = taken (at_in t) w" "sent (ob_stream st) w2 = sent (ob_stream st) w" for t2 k w2
  proof -
    have "moved_by sent taken content t st w2 y"
      using append_copy_loop_copies [OF laws t2(2) c] unfolding moved_by_def t2 out .
    then show ?thesis using w2 moved_by_after [of taken t w2 w "[]" sent st content y] by simp
  qed
  show ?thesis
  proof (cases "at_state t1 = BlockedOnOutgoing")
    case False
    then show ?thesis using run copy [of t1 0 w1] by (simp add: append_when_readable_def)
  next
    case True
    obtain c w2 where c: "HttpOutgoingBody_capacity H (Some st) w1 = (c, w2)" by (rule prod.exhaust)
    note cl = capacity_laws(1,2) [OF laws c]
    show ?thesis
    proof (cases "\<exists>k. c = Inr k \<and> k > 0")
      case T: True
      then obtain k where k: "c = Inr k" "k > 0" by blast
      then have "append_copy_loop H (t1\<lparr>at_state := Ready\<rparr>) k w2 = Some y"
        using run(1,3) True c by (simp add: append_when_readable_def)
      then show ?thesis using copy [of "t1\<lparr>at_state := Ready\<rparr>" k w2] run cl by simp
    next
      case False
      then show ?thesis
        using run True c cl out by (cases c) (auto simp: append_when_readable_def moved_by_def)
    qed
  qed
qed

lemma BodyAppendTask_run_copies:
  assumes laws: "stream_laws H permit sent taken content"
    and out: "at_out t = Some st"
    and run: "BodyAppendTask_run H t w = Some (r, t', w')"
  shows "moved_by sent taken content t st w (r, t', w')
    \<or> r = Trap \<and> t' = t \<and> sent (ob_stream st) w' = sent (ob_stream st) w \<and> taken (at_in t) w' = taken (at_in t) w"
proof -
  note readable = append_when_readable_copies [OF laws out]
  show ?thesis
  proof (cases "at_state t = BlockedOnBoth \<or> at_state t = BlockedOnIncoming")
    case False
    then have "append_when_readable H t w = Some (r, t', w')" using run by (simp add: BodyAppendTask_run_def)
    then show ?thesis using readable [of t w] out by simp
  next
    case True
    obtain x w1 where x: "HttpIncomingBody_read H (at_in t) 0 w = (x, w1)" by (rule prod.exhaust)
    note rl = read_laws [OF laws x]
    show ?thesis
    proof (cases x)
      case (Inl e)
      then show ?thesis using run True x rl(1,2) by (auto simp: BodyAppendTask_run_def)
    next
      case (Inr fb)
      obtain f bytes where fb: "fb = (f, bytes)" by (rule prod.exhaust)
      note tk = rl(3) [OF Inr [unfolded fb]]
      show ?thesis
      proof (cases f)
        case True
        then show ?thesis using run \<open>at_state t = _ \<or> _\<close> x Inr fb rl(1) tk
          by (auto simp: BodyAppendTask_run_def moved_by_def)
      next
        case False
        then have "append_when_readable H (t\<lparr>at_state := BlockedOnOutgoing\<rparr>) w1 = Some (r, t', w')"
          using run \<open>at_state t = _ \<or> _\<close> x Inr fb by (simp add: BodyAppendTask_run_def)
        then show ?thesis using readable [of "t\<lparr>at_state := BlockedOnOutgoing\<rparr>" w1] out tk rl(1) by simp
      qed
    qed
  qed
qed

subsection \<open>The runs of a task\<close>

text \<open>
  The event loop runs the task again and again while it is queued; in between the world changes
  as the rest of the program makes it.
\<close>

inductive append_runs :: "(append_task \<Rightarrow> 'w \<Rightarrow> (run_result exec \<times> append_task \<times> 'w) option) \<Rightarrow> ('w \<Rightarrow> 'w \<Rightarrow> bool)
    \<Rightarrow> append_task \<Rightarrow> 'w \<Rightarrow> run_result exec \<Rightarrow> append_task \<Rightarrow> 'w \<Rightarrow> bool" for run env t w where
  Queued: "append_runs run env t w (Returns RunQueued) t w"
| Run: "append_runs run env t w (Returns RunQueued) t1 w1 \<Longrightarrow> env w1 w2
    \<Longrightarrow> run t1 w2 = Some (r, t2, w3) \<Longrightarrow> append_runs run env t w r t2 w3"

lemma append_runs_copy:
  assumes run: "\<And>t w r t' w'. at_out t = Some st \<Longrightarrow> run t w = Some (r, t', w') \<Longrightarrow> moved_by sent taken content t st w (r, t', w')
      \<or> r = Trap \<and> t' = t \<and> sent (ob_stream st) w' = sent (ob_stream st) w \<and> taken (at_in t) w' = taken (at_in t) w"
    and env: "\<And>v v'. env v v' \<Longrightarrow> sent (ob_stream st) v' = sent (ob_stream st) v \<and> taken (at_in t) v' = taken (at_in t) v"
    and out: "at_out t = Some st" and fresh: "taken (at_in t) w = []"
    and runs: "append_runs run env t w r t' w'"
  shows "\<exists>pre post. taken (at_in t) w' = pre @ post \<and> sent (ob_stream st) w' = sent (ob_stream st) w @ pre
    \<and> (r = Returns RunQueued \<longrightarrow> post = [])
    \<and> (r = Returns RunDone \<longrightarrow> pre = content (at_in t))"
proof -
  have "at_in t' = at_in t \<and> at_out t' = Some st
    \<and> (\<exists>pre post. taken (at_in t) w' = pre @ post \<and> sent (ob_stream st) w' = sent (ob_stream st) w @ pre
      \<and> (r = Returns RunQueued \<longrightarrow> post = []) \<and> (r = Returns RunDone \<longrightarrow> pre = content (at_in t)))"
    using runs
  proof induction
    case Queued
    then show ?case using out fresh by simp
  next
    case (Run t1 w1 w2 r t2 w3)
    from Run.IH have h: "at_in t1 = at_in t" "at_out t1 = Some st"
      "sent (ob_stream st) w1 = sent (ob_stream st) w @ taken (at_in t) w1" by auto
    note e = env [OF Run.hyps(2)]
    from run [OF h(2) Run.hyps(3)] show ?case
    proof
      assume "moved_by sent taken content t1 st w2 (r, t2, w3)"
      then obtain pre post where m: "at_in t2 = at_in t" "at_out t2 = Some st"
        "taken (at_in t) w3 = taken (at_in t) w2 @ pre @ post"
        "sent (ob_stream st) w3 = sent (ob_stream st) w2 @ pre"
        "case r of Trap \<Rightarrow> False
          | Returns RunFailed \<Rightarrow> True
          | Returns RunDone \<Rightarrow> post = [] \<and> taken (at_in t) w3 = content (at_in t) \<and> at_state t2 = AppendDone
          | Returns RunQueued \<Rightarrow> post = [] \<and> at_state t2 \<in> {BlockedOnIncoming, BlockedOnOutgoing}"
        unfolding moved_by_def prod.case h(1,2) by blast
      show ?thesis
        using m e h by (intro conjI exI [of _ "taken (at_in t) w2 @ pre"] exI [of _ post]) (auto split: exec.splits)
    next
      assume "r = Trap \<and> t2 = t1 \<and> sent (ob_stream st) w3 = sent (ob_stream st) w2
        \<and> taken (at_in t1) w3 = taken (at_in t1) w2"
      then show ?thesis using e h by (intro conjI exI [of _ "taken (at_in t) w2"] exI [of _ "[]"]) auto
    qed
  qed
  then show ?thesis by blast
qed

text \<open>
  C20. As long as nobody else reads the input or writes to the output, the runs of an append task
  send, in order and without repetition, the bytes they took: all of them while the task is
  queued, exactly the whole input when it is done, and a prefix when it fails.
\<close>

theorem append_task_copies_in_order:
  assumes laws: "stream_laws H permit sent taken content"
    and env: "\<And>v v'. env v v' \<Longrightarrow> sent (ob_stream st) v' = sent (ob_stream st) v \<and> taken (at_in t) v' = taken (at_in t) v"
    and "at_out t = Some st" "taken (at_in t) w = []"
    and "append_runs (BodyAppendTask_run H) env t w r t' w'"
  shows "\<exists>pre post. taken (at_in t) w' = pre @ post \<and> sent (ob_stream st) w' = sent (ob_stream st) w @ pre
    \<and> (r = Returns RunQueued \<longrightarrow> post = [])
    \<and> (r = Returns RunDone \<longrightarrow> pre = content (at_in t))"
  using BodyAppendTask_run_copies [OF laws] env assms(3-5) by (rule append_runs_copy)


subsection \<open>Every run returns\<close>

text \<open>
  The write loop of a run calls \<open>write\<close> again at once when the stream takes nothing, so a run
  returns only if a permit lasts until it is used: \<open>room\<close> is what a stream takes, which asking
  and reading do not change.
\<close>

definition steady_room :: "'w streams_host \<Rightarrow> nat \<Rightarrow> ('w \<Rightarrow> nat) \<Rightarrow> bool" where
  "steady_room H s room \<longleftrightarrow> (\<forall>w. room w < 2 ^ 32)
     \<and> (\<forall>w k w'. check_write H s w = (Some k, w') \<longrightarrow> unat k = room w \<and> room w' = room w)
     \<and> (\<forall>s' n w a w'. stream_read H s' n w = (a, w') \<longrightarrow> room w' = room w)"

lemma append_write_loop_returns:
  assumes laws: "stream_laws H permit sent taken content"
    and room: "steady_room H (ob_stream st) room" "length bytes \<le> room w"
  shows "\<exists>y. append_write_loop H (Some st) bytes w = Some y"
proof (cases "bytes = []")
  case True
  then show ?thesis by (subst append_write_loop.simps) simp
next
  case False
  obtain x w1 where x: "HttpOutgoingBody_write H (Some st) bytes w = (x, w1)" by (rule prod.exhaust)
  show ?thesis
  proof (rule write_laws [OF laws x])
    fix n k
    assume n: "x = Returns (Inr n)" "n = min (length bytes) (size_of k)"
      "fst (check_write H (ob_stream st) w) = Some k"
    have "unat k = room w" "unat k < 2 ^ 32"
      using room(1) n(3) unfolding steady_room_def by (metis prod.collapse)+
    with room(2) n(2) have "drop n bytes = []" by (simp add: size_of_small)
    then have "append_write_loop H (Some st) (drop n bytes) w1 = Some (Returns (Inr ()), w1)"
      by (subst append_write_loop.simps) simp
    then show ?thesis using False x n(1) by (subst append_write_loop.simps) simp
  next
    assume "x = Returns (Inl 154)"
    then show ?thesis using False x by (subst append_write_loop.simps) simp
  qed
qed

lemma append_copy_loop_returns:
  assumes laws: "stream_laws H permit sent taken content"
    and room: "steady_room H (ob_stream st) room" and out: "at_out t = Some st"
  shows "unat cap \<le> room w \<Longrightarrow> \<exists>y. append_copy_loop H t cap w = Some y"
proof (induction "length (content (at_in t)) - length (taken (at_in t) w)" arbitrary: cap w rule: less_induct)
  case less
  obtain x w1 where x: "HttpIncomingBody_read H (at_in t) (ucast cap) w = (x, w1)" by (rule prod.exhaust)
  note rl = read_laws [OF laws x]
  have r1: "room w1 = room w"
    using room x unfolding steady_room_def HttpIncomingBody_read_def
    by (auto split: prod.splits read_answer.splits)
  show ?case
  proof (cases x)
    case (Inl e)
    then show ?thesis using x by (subst append_copy_loop.simps) simp
  next
    case (Inr fb)
    obtain finished bytes where fb: "fb = (finished, bytes)" by (rule prod.exhaust)
    note tk = rl(3) [OF Inr [unfolded fb]]
    have "unat (ucast cap :: 32 word) \<le> unat cap"
      using size_of_le [of cap] by (simp add: size_of_def)
    with tk less.prems r1 have len: "length bytes \<le> room w1" by simp
    obtain q w2 where q: "append_write_loop H (Some st) bytes w1 = Some (q, w2)"
      using append_write_loop_returns [OF laws room len] by auto
    from append_write_loop_copies [OF laws q] have t2: "taken (at_in t) w2 = taken (at_in t) w1" by simp
    obtain c w3 where c: "HttpOutgoingBody_capacity H (Some st) w2 = (c, w3)" by (rule prod.exhaust)
    note cl = capacity_laws [OF laws c]
    have rest: "\<exists>y. append_copy_loop H t k w3 = Some y" if "bytes \<noteq> []" "\<not> finished" "c = Inr k" for k
    proof -
      from x Inr fb that(1) obtain later where "content (at_in t) = taken (at_in t) w1 @ later"
        using laws unfolding stream_laws_def HttpIncomingBody_read_def
        by (auto split: prod.splits read_answer.splits) (metis read_answer.simps(8))
      then have "length (content (at_in t)) - length (taken (at_in t) w3)
          < length (content (at_in t)) - length (taken (at_in t) w)"
        using that(1) tk t2 cl(2) by (cases bytes) auto
      moreover have "unat k \<le> room w3"
        using room cl(4) [OF that(3)] unfolding steady_room_def by auto
      ultimately show ?thesis by (rule less.hyps)
    qed
    show ?thesis
    proof (cases "bytes = [] \<and> \<not> finished")
      case True
      then show ?thesis using x Inr fb by (subst append_copy_loop.simps) simp
    next
      case False
      then show ?thesis
        using x Inr fb q c out rest tk
        by (subst append_copy_loop.simps) (auto split: exec.splits sum.splits)
    qed
  qed
qed

text \<open>C21. A run of an append task returns when permits last until they are used.\<close>

theorem append_run_returns:
  assumes laws: "stream_laws H permit sent taken content"
    and room: "steady_room H (ob_stream st) room" and out: "at_out t = Some st"
  shows "\<exists>y. BodyAppendTask_run H t w = Some y"
proof -
  have readable: "\<exists>y. append_when_readable H t1 w1 = Some y" if out: "at_out t1 = Some st" for t1 w1
  proof -
    obtain c w2 where c: "HttpOutgoingBody_capacity H (Some st) w1 = (c, w2)" by (rule prod.exhaust)
    have "\<exists>y. append_copy_loop H (t1\<lparr>at_state := Ready\<rparr>) k w2 = Some y" if "c = Inr k" for k
      using room capacity_laws(4) [OF laws c that] out
      by (intro append_copy_loop_returns [OF laws room]) (auto simp: steady_room_def)
    moreover have "\<exists>y. append_copy_loop H t1 0 w1 = Some y"
      using append_copy_loop_returns [OF laws room out, of 0 w1] by simp
    ultimately show ?thesis using out c by (auto simp: append_when_readable_def split: sum.splits)
  qed
  show ?thesis using out readable by (auto simp: BodyAppendTask_run_def split: prod.splits sum.splits)
qed


subsection \<open>A host\<close>

text \<open>One stream with five bytes to read and one that takes two bytes at a time.  The world is the
  number of bytes read, the bytes written and the permit.\<close>

definition demo_content :: "byte list" where "demo_content = [1, 2, 3, 4, 5]"

definition demo_body_host :: "(nat \<times> byte list \<times> nat) streams_host" where
  "demo_body_host = \<lparr>
     check_write = (\<lambda>s (p, out, k). (Some 2, (p, out, 2))),
     stream_write = (\<lambda>s bs (p, out, k). if length bs \<le> k then (Returns True, (p, out @ bs, 0)) else (Trap, (p, out, k))),
     stream_read = (\<lambda>s n (p, out, k). if length demo_content \<le> p then (StreamClosed, (p, out, k))
        else (Bytes (take (unat n) (drop p demo_content)), (p + unat n, out, k))),
     stream_subscribe = (\<lambda>s w. (int s, w)), pollable_drop = (\<lambda>p w. w),
     blocking_flush = (\<lambda>s w. (True, w)), stream_drop = (\<lambda>s w. w), body_finish = (\<lambda>b w. w)\<rparr>"

definition demo_permit :: "nat \<Rightarrow> nat \<times> byte list \<times> nat \<Rightarrow> nat" where "demo_permit s w = snd (snd w)"
definition demo_sent :: "nat \<Rightarrow> nat \<times> byte list \<times> nat \<Rightarrow> byte list" where "demo_sent s w = fst (snd w)"
definition demo_taken :: "nat \<Rightarrow> nat \<times> byte list \<times> nat \<Rightarrow> byte list" where "demo_taken s w = take (fst w) demo_content"

lemma demo_body_laws: "stream_laws demo_body_host demo_permit demo_sent demo_taken (\<lambda>s. demo_content)"
proof -
  have later: "\<exists>later. demo_content = take n demo_content @ later" for n
    by (metis append_take_drop_id)
  show ?thesis
    by (auto simp: stream_laws_def demo_body_host_def demo_permit_def demo_sent_def demo_taken_def
        take_add [symmetric] later split: if_splits)
qed

lemma demo_steady: "steady_room demo_body_host s (\<lambda>w. 2)"
  by (auto simp: steady_room_def demo_body_host_def split: if_splits)

definition demo_body :: outgoing_state where "demo_body = \<lparr>ob_handle = 0, ob_stream = 1, ob_pollable = -1\<rparr>"

definition demo_task :: append_task where
  "demo_task = \<lparr>at_in = 2, at_out = Some demo_body, at_in_pollable = 2, at_out_pollable = 1, at_state = BlockedOnBoth\<rparr>"

theorem write_all_traps_on_short_permit_witness:
  "\<exists>w2. HttpOutgoingBody_write_all demo_body_host (Some demo_body) [1, 2, 3] (0, [], 0) = Some (Trap, w2)"
  using write_all_traps_on_short_permit [OF demo_body_laws, of "[1, 2, 3]" demo_body "(0, [], 0)" 2 "(0, [], 2)"]
  by (simp add: demo_body_host_def)

theorem append_run_returns_witness: "\<exists>y. BodyAppendTask_run demo_body_host demo_task (0, [], 0) = Some y"
  by (rule append_run_returns [OF demo_body_laws demo_steady]) (simp add: demo_task_def)

lemma demo_run: "BodyAppendTask_run demo_body_host demo_task (0, [], 0)
  = Some (Returns RunDone, demo_task\<lparr>at_state := AppendDone\<rparr>, (6, demo_content, 2))"
  by (simp add: BodyAppendTask_run_def append_when_readable_def append_copy_loop.simps append_write_loop.simps
      HttpIncomingBody_read_def HttpOutgoingBody_capacity_def HttpOutgoingBody_write_def write_to_outgoing_body_def
      demo_task_def demo_body_host_def demo_content_def demo_body_def size_of_def)

theorem append_task_copies_in_order_witness:
  "append_runs (BodyAppendTask_run demo_body_host) (=) demo_task (0, [], 0) (Returns RunDone) (demo_task\<lparr>at_state := AppendDone\<rparr>) (6, demo_content, 2)
   \<and> demo_sent 1 (6, demo_content, 2) = demo_content"
proof -
  have r: "append_runs (BodyAppendTask_run demo_body_host) (=) demo_task (0, [], 0) (Returns RunDone) (demo_task\<lparr>at_state := AppendDone\<rparr>) (6, demo_content, 2)"
    by (rule append_runs.Run, rule append_runs.Queued, rule refl, rule demo_run)
  have "at_out demo_task = Some demo_body" "demo_taken (at_in demo_task) (0, [], 0) = []"
    by (simp_all add: demo_task_def demo_taken_def)
  from append_task_copies_in_order [OF demo_body_laws _ this r] r show ?thesis
    by (auto simp: demo_sent_def demo_body_def)
qed

end
