(* ===== verification/Host_Http.thy ===== *)
theory Host_Http
  imports Headers Host_Body
begin

section \<open>Requests and responses of the host API\<close>

text \<open>
  The classes \<open>HttpIncomingRequest\<close>, \<open>HttpOutgoingRequest\<close>, \<open>HttpIncomingResponse\<close>,
  \<open>HttpOutgoingResponse\<close> and \<open>FutureHttpIncomingResponse\<close> of \<open>host-apis/wasi-0.2.0/host_api.cpp\<close>.

  \<^item> A resource of \<open>wasi:http/types\<close> is a value, its methods are functions in a record; the
    instances \<open>wit_\<dots>\<close> write out the documentation in \<open>wit/deps/http/types.wit\<close>.
  \<^item> An \<open>own\<close> handle that was passed to the host is gone: using it again traps.  The \<open>HttpHeaders\<close>
    of a request or response is therefore \<open>Live\<close> or \<open>Moved\<close>.
  \<^item> Results: which method the host gets for a method string.
\<close>

subsection \<open>Methods and schemes\<close>

datatype http_method = Known nat | OtherMethod string

datatype http_scheme = SchemeHttp | SchemeHttps | SchemeOther string

definition http_method_names :: "string list" where
  "http_method_names = [''GET'', ''HEAD'', ''POST'', ''PUT'', ''DELETE'', ''CONNECT'', ''OPTIONS'', ''TRACE'', ''PATCH'']"

text \<open>\<open>strcasecmp(a, b) == 0\<close> of the C locale.\<close>

definition strcasecmp_eq :: "string \<Rightarrow> string \<Rightarrow> bool" where
  "strcasecmp_eq a b \<longleftrightarrow> map lower_char (c_string a) = map lower_char (c_string b)"

definition http_method_to_host :: "string \<Rightarrow> http_method" where
  "http_method_to_host method_str =
     (if method_str = [] then Known 0
      else case find (\<lambda>i. strcasecmp_eq method_str (http_method_names ! i)) [0..<9] of
             Some i \<Rightarrow> Known i
           | None \<Rightarrow> OtherMethod method_str)"

text \<open>\<open>memcmp(s, lit, len(s)) == 0\<close> for a literal with its terminating NUL.\<close>

definition memcmp_eq :: "string \<Rightarrow> string \<Rightarrow> bool" where
  "memcmp_eq s lit \<longleftrightarrow> take (length s) (lit @ [CHR 0x00]) = s"

definition scheme_of_protocol :: "string \<Rightarrow> http_scheme" where
  "scheme_of_protocol protocol =
     (if memcmp_eq protocol ''http:'' then SchemeHttp
      else if memcmp_eq protocol ''https:'' then SchemeHttps
      else SchemeOther (take (length protocol - 1) protocol))"

definition scheme_to_string :: "http_scheme \<Rightarrow> string" where
  "scheme_to_string s = (case s of SchemeHttp \<Rightarrow> ''http:'' | SchemeHttps \<Rightarrow> ''https:'' | SchemeOther x \<Rightarrow> x)"

subsection \<open>Resources\<close>

datatype 'f field_handle = Live 'f | Moved

record ('f, 'q, 'b) outgoing_request_ops =
  oq_new :: "'f \<Rightarrow> 'q"
  oq_set_method :: "'q \<Rightarrow> http_method \<Rightarrow> bool \<times> 'q"
  oq_set_scheme :: "'q \<Rightarrow> http_scheme option \<Rightarrow> bool \<times> 'q"
  oq_set_authority :: "'q \<Rightarrow> string option \<Rightarrow> bool \<times> 'q"
  oq_set_path_with_query :: "'q \<Rightarrow> string option \<Rightarrow> bool \<times> 'q"
  oq_body :: "'q \<Rightarrow> 'b option \<times> 'q"

record ('f, 'p, 'b) outgoing_response_ops =
  op_new :: "'f \<Rightarrow> 'p"
  op_set_status_code :: "'p \<Rightarrow> 16 word \<Rightarrow> bool \<times> 'p"
  op_headers :: "'p \<Rightarrow> 'f"
  op_body :: "'p \<Rightarrow> 'b option \<times> 'p"

record ('f, 'i, 'b) incoming_request_ops =
  iq_method :: "'i \<Rightarrow> http_method"
  iq_scheme :: "'i \<Rightarrow> http_scheme option"
  iq_authority :: "'i \<Rightarrow> string option"
  iq_path_with_query :: "'i \<Rightarrow> string option"
  iq_headers :: "'i \<Rightarrow> 'f"
  iq_consume :: "'i \<Rightarrow> 'b option \<times> 'i"

record ('f, 'r, 'b) incoming_response_ops =
  ip_status :: "'r \<Rightarrow> 16 word"
  ip_headers :: "'r \<Rightarrow> 'f"
  ip_consume :: "'r \<Rightarrow> 'b option \<times> 'r"

subsection \<open>Outgoing requests\<close>

record ('f, 'q, 'b) http_outgoing_request =
  q_resource :: 'q
  q_headers :: "'f field_handle"
  q_body :: "'b option"
  q_method :: string

text \<open>
  \<open>url\<close> is the protocol, authority and path with query of the parsed URL.  The results of the
  setters are ignored.
\<close>

definition HttpOutgoingRequest_make :: "('f, 'q, 'b) outgoing_request_ops \<Rightarrow> string
    \<Rightarrow> (string \<times> string \<times> string) option \<Rightarrow> 'f field_handle \<Rightarrow> ('f, 'q, 'b) http_outgoing_request exec" where
  "HttpOutgoingRequest_make R method_str url headers =
     (case headers of
        Moved \<Rightarrow> Trap
      | Live f \<Rightarrow>
          (let (maybe_scheme, maybe_authority, maybe_path) =
             (case url of None \<Rightarrow> (None, None, None)
              | Some (protocol, authority, path) \<Rightarrow>
                  (Some (scheme_of_protocol protocol), Some authority, Some path));
               q = oq_new R f;
               (_, q) = oq_set_method R q (http_method_to_host method_str);
               (_, q) = oq_set_scheme R q maybe_scheme;
               (_, q) = oq_set_authority R q maybe_authority;
               (_, q) = oq_set_path_with_query R q maybe_path
           in Returns \<lparr>q_resource = q, q_headers = Moved, q_body = None, q_method = []\<rparr>))"

definition HttpOutgoingRequest_method :: "('f, 'q, 'b) http_outgoing_request \<Rightarrow> string api_result" where
  "HttpOutgoingRequest_method r = Inr (q_method r)"

definition HttpOutgoingRequest_headers :: "('f, 'q, 'b) http_outgoing_request \<Rightarrow> 'f field_handle api_result" where
  "HttpOutgoingRequest_headers r = Inr (q_headers r)"

definition HttpOutgoingRequest_body :: "('f, 'q, 'b) outgoing_request_ops \<Rightarrow> ('f, 'q, 'b) http_outgoing_request
    \<Rightarrow> 'b api_result \<times> ('f, 'q, 'b) http_outgoing_request" where
  "HttpOutgoingRequest_body R r =
     (case q_body r of
        Some b \<Rightarrow> (Inr b, r)
      | None \<Rightarrow> (case oq_body R (q_resource r) of
          (None, q) \<Rightarrow> (Inl 154, r\<lparr>q_resource := q\<rparr>)
        | (Some b, q) \<Rightarrow> (Inr b, r\<lparr>q_resource := q, q_body := Some b\<rparr>)))"

text \<open>
  \<open>send\<close> does not look at the result of \<open>outgoing-handler.handle\<close>; on an error the handle it
  goes on with was never written, \<open>None\<close>.
\<close>

definition HttpOutgoingRequest_send :: "('q \<Rightarrow> nat + 'u) \<Rightarrow> ('f, 'q, 'b) http_outgoing_request
    \<Rightarrow> 'u option api_result" where
  "HttpOutgoingRequest_send outgoing_handler r =
     Inr (case outgoing_handler (q_resource r) of Inl _ \<Rightarrow> None | Inr u \<Rightarrow> Some u)"

subsection \<open>Outgoing responses\<close>

record ('f, 'p, 'b) http_outgoing_response =
  p_resource :: 'p
  p_valid :: bool
  p_headers :: "'f field_handle"
  p_body :: "'b option"
  p_status :: "16 word"

definition HttpOutgoingResponse_make :: "('f, 'p, 'b) outgoing_response_ops \<Rightarrow> 16 word \<Rightarrow> 'f field_handle
    \<Rightarrow> ('f, 'p, 'b) http_outgoing_response exec" where
  "HttpOutgoingResponse_make R status headers =
     (case headers of
        Moved \<Rightarrow> Trap
      | Live f \<Rightarrow>
          (let p = op_new R f;
               p = (if status \<noteq> 200 then snd (op_set_status_code R p status) else p)
           in Returns \<lparr>p_resource = p, p_valid = True, p_headers = Live (op_headers R p),
                p_body = None, p_status = status\<rparr>))"

definition HttpOutgoingResponse_headers :: "('f, 'p, 'b) http_outgoing_response \<Rightarrow> 'f field_handle api_result" where
  "HttpOutgoingResponse_headers r = (if \<not> p_valid r then Inl 154 else Inr (p_headers r))"

definition HttpOutgoingResponse_body :: "('f, 'p, 'b) outgoing_response_ops \<Rightarrow> ('f, 'p, 'b) http_outgoing_response
    \<Rightarrow> 'b api_result \<times> ('f, 'p, 'b) http_outgoing_response" where
  "HttpOutgoingResponse_body R r =
     (case p_body r of
        Some b \<Rightarrow> (Inr b, r)
      | None \<Rightarrow> (case op_body R (p_resource r) of
          (None, p) \<Rightarrow> (Inl 154, r\<lparr>p_resource := p\<rparr>)
        | (Some b, p) \<Rightarrow> (Inr b, r\<lparr>p_resource := p, p_body := Some b\<rparr>)))"

definition HttpOutgoingResponse_status :: "('f, 'p, 'b) http_outgoing_response \<Rightarrow> 16 word api_result" where
  "HttpOutgoingResponse_status r = Inr (p_status r)"

definition HttpOutgoingResponse_send :: "('p \<Rightarrow> 'w \<Rightarrow> 'w) \<Rightarrow> ('f, 'p, 'b) http_outgoing_response \<Rightarrow> 'w
    \<Rightarrow> (('f, 'p, 'b) http_outgoing_response \<times> 'w) exec" where
  "HttpOutgoingResponse_send outparam_set r w =
     (case p_headers r of
        Moved \<Rightarrow> Trap
      | Live f \<Rightarrow> Returns (r\<lparr>p_headers := Moved\<rparr>, outparam_set (p_resource r) w))"

subsection \<open>Incoming requests and responses\<close>

record ('f, 'i, 'b) http_incoming =
  i_resource :: 'i
  i_valid :: bool
  i_headers :: "'f option"
  i_body :: "'b option"

record ('f, 'i, 'b) http_incoming_request = "('f, 'i, 'b) http_incoming" +
  i_method :: string
  i_url :: "string option"

text \<open>The method is asked for on every call; only an empty one is checked for validity.\<close>

definition HttpIncomingRequest_method :: "('f, 'i, 'b) incoming_request_ops \<Rightarrow> ('f, 'i, 'b) http_incoming_request
    \<Rightarrow> (string api_result \<times> ('f, 'i, 'b) http_incoming_request) exec" where
  "HttpIncomingRequest_method R r =
     (if \<not> i_valid r then (if i_method r = [] then Returns (Inl 154, r) else Trap)
      else let m = (case iq_method R (i_resource r) of
                      Known i \<Rightarrow> http_method_names ! i
                    | OtherMethod s \<Rightarrow> s)
           in Returns (Inr m, r\<lparr>i_method := m\<rparr>))"

definition incoming_headers :: "('i \<Rightarrow> 'f) \<Rightarrow> ('f, 'i, 'b, 'm) http_incoming_scheme
    \<Rightarrow> 'f api_result \<times> ('f, 'i, 'b, 'm) http_incoming_scheme" where
  "incoming_headers get r =
     (case i_headers r of
        Some h \<Rightarrow> (Inr h, r)
      | None \<Rightarrow> if \<not> i_valid r then (Inl 154, r)
                else let h = get (i_resource r) in (Inr h, r\<lparr>i_headers := Some h\<rparr>))"

definition incoming_body :: "('i \<Rightarrow> 'b option \<times> 'i) \<Rightarrow> ('f, 'i, 'b, 'm) http_incoming_scheme
    \<Rightarrow> 'b api_result \<times> ('f, 'i, 'b, 'm) http_incoming_scheme" where
  "incoming_body consume r =
     (case i_body r of
        Some b \<Rightarrow> (Inr b, r)
      | None \<Rightarrow> if \<not> i_valid r then (Inl 154, r)
                else (case consume (i_resource r) of
                    (None, i) \<Rightarrow> (Inl 154, r\<lparr>i_resource := i\<rparr>)
                  | (Some b, i) \<Rightarrow> (Inr b, r\<lparr>i_resource := i, i_body := Some b\<rparr>)))"

definition HttpIncomingRequest_headers :: "('f, 'i, 'b) incoming_request_ops \<Rightarrow> ('f, 'i, 'b) http_incoming_request
    \<Rightarrow> 'f api_result \<times> ('f, 'i, 'b) http_incoming_request" where
  "HttpIncomingRequest_headers R r = incoming_headers (iq_headers R) r"

definition HttpIncomingRequest_body :: "('f, 'i, 'b) incoming_request_ops \<Rightarrow> ('f, 'i, 'b) http_incoming_request
    \<Rightarrow> 'b api_result \<times> ('f, 'i, 'b) http_incoming_request" where
  "HttpIncomingRequest_body R r = incoming_body (iq_consume R) r"

text \<open>Missing parts of the URL fail a release assertion.\<close>

definition HttpRequest_url :: "('f, 'i, 'b) incoming_request_ops \<Rightarrow> ('f, 'i, 'b) http_incoming_request
    \<Rightarrow> (string \<times> ('f, 'i, 'b) http_incoming_request) exec" where
  "HttpRequest_url R r =
     (case i_url r of
        Some u \<Rightarrow> Returns (u, r)
      | None \<Rightarrow>
          (case (iq_scheme R (i_resource r), iq_authority R (i_resource r), iq_path_with_query R (i_resource r)) of
             (Some scheme, Some authority, Some path) \<Rightarrow>
               let u = scheme_to_string scheme @ authority @ path in Returns (u, r\<lparr>i_url := Some u\<rparr>)
           | _ \<Rightarrow> Trap))"

record ('f, 'i, 'b) http_incoming_response = "('f, 'i, 'b) http_incoming" +
  i_status :: "16 word"

definition UNSET_STATUS :: "16 word" where "UNSET_STATUS = 65535"

definition HttpIncomingResponse_new :: "'i \<Rightarrow> ('f, 'i, 'b) http_incoming_response" where
  "HttpIncomingResponse_new h =
     \<lparr>i_resource = h, i_valid = True, i_headers = None, i_body = None, i_status = UNSET_STATUS\<rparr>"

definition HttpIncomingResponse_status :: "('f, 'i, 'b) incoming_response_ops \<Rightarrow> ('f, 'i, 'b) http_incoming_response
    \<Rightarrow> 16 word api_result \<times> ('f, 'i, 'b) http_incoming_response" where
  "HttpIncomingResponse_status R r =
     (if i_status r = UNSET_STATUS
      then if \<not> i_valid r then (Inl 154, r)
           else let s = ip_status R (i_resource r) in (Inr s, r\<lparr>i_status := s\<rparr>)
      else (Inr (i_status r), r))"

definition HttpIncomingResponse_headers :: "('f, 'i, 'b) incoming_response_ops \<Rightarrow> ('f, 'i, 'b) http_incoming_response
    \<Rightarrow> 'f api_result \<times> ('f, 'i, 'b) http_incoming_response" where
  "HttpIncomingResponse_headers R r = incoming_headers (ip_headers R) r"

definition HttpIncomingResponse_body :: "('f, 'i, 'b) incoming_response_ops \<Rightarrow> ('f, 'i, 'b) http_incoming_response
    \<Rightarrow> 'b api_result \<times> ('f, 'i, 'b) http_incoming_response" where
  "HttpIncomingResponse_body R r = incoming_body (ip_consume R) r"

text \<open>
  \<open>get\<close> answers \<open>None\<close> while there is no response, then once with the result of the request, and
  with an error from then on.
\<close>

definition maybe_response :: "('u \<Rightarrow> (unit + (nat + 'i)) option \<times> 'u) \<Rightarrow> 'u
    \<Rightarrow> ('f, 'i, 'b) http_incoming_response option api_result exec \<times> 'u" where
  "maybe_response get u =
     (case get u of
        (None, u') \<Rightarrow> (Returns (Inr None), u')
      | (Some (Inl _), u') \<Rightarrow> (Trap, u')
      | (Some (Inr (Inl e)), u') \<Rightarrow> (Returns (Inl 154), u')
      | (Some (Inr (Inr h)), u') \<Rightarrow> (Returns (Inr (Some (HttpIncomingResponse_new h))), u'))"

subsection \<open>The resources as they are documented\<close>

record wit_request =
  w_method :: http_method
  w_scheme :: "http_scheme option"
  w_authority :: "string option"
  w_path :: "string option"
  w_fields :: wit_fields
  w_body_taken :: bool

text \<open>\<open>set-method\<close> fails if the string of another method is not a syntactically valid method.\<close>

definition valid_method :: "http_method \<Rightarrow> bool" where
  "valid_method m = (case m of Known i \<Rightarrow> i < 9 | OtherMethod s \<Rightarrow> s \<noteq> [] \<and> list_all is_tchar s)"

definition wit_request_ops :: "(wit_fields, wit_request, nat) outgoing_request_ops" where
  "wit_request_ops = \<lparr>
     oq_new = (\<lambda>f. \<lparr>w_method = Known 0, w_scheme = None, w_authority = None, w_path = None,
                    w_fields = f, w_body_taken = False\<rparr>),
     oq_set_method = (\<lambda>q m. if valid_method m then (True, q\<lparr>w_method := m\<rparr>) else (False, q)),
     oq_set_scheme = (\<lambda>q s. (True, q\<lparr>w_scheme := s\<rparr>)),
     oq_set_authority = (\<lambda>q a. (True, q\<lparr>w_authority := a\<rparr>)),
     oq_set_path_with_query = (\<lambda>q p. (True, q\<lparr>w_path := p\<rparr>)),
     oq_body = (\<lambda>q. if w_body_taken q then (None, q) else (Some 0, q\<lparr>w_body_taken := True\<rparr>))\<rparr>"

record wit_response =
  r_status :: "16 word"
  r_fields :: wit_fields
  r_body_taken :: bool

text \<open>The headers of a response are an immutable view of those it was made with.\<close>

definition wit_response_ops :: "(wit_fields, wit_response, nat) outgoing_response_ops" where
  "wit_response_ops = \<lparr>
     op_new = (\<lambda>f. \<lparr>r_status = 200, r_fields = f, r_body_taken = False\<rparr>),
     op_set_status_code = (\<lambda>p s. if 100 \<le> s \<and> s \<le> 999 then (True, p\<lparr>r_status := s\<rparr>) else (False, p)),
     op_headers = (\<lambda>p. (r_fields p)\<lparr>immutable := True\<rparr>),
     op_body = (\<lambda>p. if r_body_taken p then (None, p) else (Some 0, p\<lparr>r_body_taken := True\<rparr>))\<rparr>"

subsection \<open>Methods on the wire\<close>

text \<open>What a server that uses this host API sees as the method of a request.\<close>

definition method_name :: "http_method \<Rightarrow> string" where
  "method_name m = (case m of Known i \<Rightarrow> http_method_names ! i | OtherMethod s \<Rightarrow> s)"

lemma http_method_to_host_other:
  "http_method_to_host m = OtherMethod s \<Longrightarrow> s = m"
  by (auto simp: http_method_to_host_def split: if_splits option.splits)

lemma http_method_to_host_Known_less: "http_method_to_host m = Known i \<Longrightarrow> i < 9"
  by (auto simp: http_method_to_host_def find_Some_iff split: if_splits option.splits)

lemma method_name_to_host:
  "method_name (http_method_to_host m) =
     (if m = [] then ''GET''
      else case find (strcasecmp_eq m) http_method_names of Some n \<Rightarrow> n | None \<Rightarrow> m)"
  by (simp add: method_name_def http_method_to_host_def http_method_names_def upt_conv_Cons
      split: option.split)

lemma make_method:
  "HttpOutgoingRequest_make wit_request_ops m url (Live f) = Returns r \<Longrightarrow>
     w_method (q_resource r) = (if valid_method (http_method_to_host m) then http_method_to_host m else Known 0)"
  by (auto simp: HttpOutgoingRequest_make_def wit_request_ops_def Let_def split: option.splits)

end
