(* ===== verification/Body_Reading.thy ===== *)
theory Body_Reading
  imports Prelude
begin

section \<open>Collecting the chunks of a body\<close>

text \<open>
  The part of \<open>RequestOrResponse::content_stream_read_then_handler\<close>
  (\<open>builtins/web/fetch/request-response.cpp\<close>) that runs when the stream is done: it sizes a
  buffer from the lengths of the chunks and copies them into it.  \<open>size_t\<close> has 32 bits, as the
  target is 32-bit WebAssembly; a write outside the buffer is \<open>None\<close>.

  Results: below a bound that leaves room for one more chunk, the buffer holds the
  concatenation; above it the size wraps and the copy overflows the buffer.
\<close>

definition HANDLE_READ_CHUNK_SIZE :: "32 word" where "HANDLE_READ_CHUNK_SIZE = 8192"

text \<open>The first loop: \<open>buf_size\<close> and \<open>offset\<close> over the lengths.\<close>

fun size_loop :: "32 word list \<Rightarrow> 32 word \<Rightarrow> 32 word \<Rightarrow> 32 word \<times> 32 word" where
  "size_loop [] buf_size offset = (buf_size, offset)"
| "size_loop (len # lens) buf_size offset =
     (if len \<noteq> 0 then
        let offset = offset + len;
            buf_size = (if offset > buf_size
                        then buf_size + HANDLE_READ_CHUNK_SIZE * (len div HANDLE_READ_CHUNK_SIZE + 1)
                        else buf_size)
        in size_loop lens buf_size offset
      else size_loop lens buf_size offset)"

definition write_at :: "nat \<Rightarrow> byte list \<Rightarrow> byte list \<Rightarrow> byte list option" where
  "write_at pos bytes buf =
     (if pos + length bytes \<le> length buf
      then Some (take pos buf @ bytes @ drop (pos + length bytes) buf) else None)"

text \<open>The second loop: \<open>memcpy\<close> of every nonempty chunk.\<close>

fun copy_loop :: "byte list list \<Rightarrow> 32 word \<Rightarrow> byte list \<Rightarrow> (32 word \<times> byte list) option" where
  "copy_loop [] offset buf = Some (offset, buf)"
| "copy_loop (c # cs) offset buf =
     (if c \<noteq> [] then
        (case write_at (unat offset) c buf of
           None \<Rightarrow> None
         | Some buf \<Rightarrow> copy_loop cs (offset + of_nat (length c)) buf)
      else copy_loop cs offset buf)"

text \<open>\<open>fresh\<close> is what the allocated memory holds.  The result is the buffer and the length given
  to \<open>parse_body\<close>.\<close>

definition collect_contents :: "(nat \<Rightarrow> byte list) \<Rightarrow> byte list list \<Rightarrow> (byte list \<times> 32 word) option" where
  "collect_contents fresh contents =
     (let buf_size = fst (size_loop (map (\<lambda>c. of_nat (length c)) contents) HANDLE_READ_CHUNK_SIZE 0);
          buf = fresh (unat (buf_size + 1))
      in case copy_loop contents 0 buf of
           None \<Rightarrow> None
         | Some (offset, buf) \<Rightarrow>
             (case write_at (unat offset) [0] buf of None \<Rightarrow> None | Some buf \<Rightarrow> Some (buf, offset)))"

subsection \<open>Within the bound\<close>

definition total_length :: "byte list list \<Rightarrow> nat" where "total_length cs = sum_list (map length cs)"

lemma total_length_simps [simp]: "total_length [] = 0" "total_length (c # cs) = length c + total_length cs"
  by (simp_all add: total_length_def)

lemma length_concat_total: "length (concat cs) = total_length cs"
  by (induction cs) simp_all

lemma total_length_append [simp]: "total_length (cs @ ds) = total_length cs + total_length ds"
  by (simp add: total_length_def)

lemma unat_add_small: "unat (a :: 32 word) + unat b < 2 ^ 32 \<Longrightarrow> unat (a + b) = unat a + unat b"
  by (simp add: unat_add_lem [THEN iffD1])

lemma growth:
  assumes "n + 8192 < 2 ^ 32"
  shows "unat (HANDLE_READ_CHUNK_SIZE * (of_nat n div HANDLE_READ_CHUNK_SIZE + 1)) = 8192 * (n div 8192 + 1)"
proof -
  have "unat (of_nat n :: 32 word) = n" using assms by (simp add: unat_of_nat)
  moreover have "unat (of_nat (n div 8192) :: 32 word) = n div 8192"
    using assms by (simp add: unat_of_nat)
  ultimately have "(of_nat n :: 32 word) div 8192 = of_nat (n div 8192)"
    by (simp add: word_unat_eq_iff unat_div)
  then have "HANDLE_READ_CHUNK_SIZE * (of_nat n div HANDLE_READ_CHUNK_SIZE + 1)
      = (of_nat (8192 * (n div 8192 + 1)) :: 32 word)"
    by (simp add: HANDLE_READ_CHUNK_SIZE_def)
  moreover have "8192 * (n div 8192 + 1) < 2 ^ 32" using assms by simp
  ultimately show ?thesis by (simp only: unat_of_nat) (simp add: mod_less)
qed

text \<open>The size stays at most one chunk and one unit ahead of the bytes counted so far.\<close>

lemma size_loop_fits:
  assumes "\<And>c. c \<in> set cs \<Longrightarrow> length c \<le> m" and "unat off + total_length cs + m + 8192 < 2 ^ 32"
    and "unat off \<le> unat b" "unat b \<le> unat off + m + 8192"
  shows "\<exists>b' off'. size_loop (map (\<lambda>c. of_nat (length c)) cs) b off = (b', off')
    \<and> unat off' = unat off + total_length cs \<and> unat off' \<le> unat b' \<and> unat b' \<le> unat off' + m + 8192"
  using assms
proof (induction cs arbitrary: b off)
  case Nil
  then show ?case by simp
next
  case (Cons c cs)
  show ?case
  proof (cases "c = []")
    case True
    then show ?thesis using Cons.IH [of off b] Cons.prems by simp
  next
    case False
    have cm: "length c \<le> m" using Cons.prems(1) by simp
    have len: "unat (of_nat (length c) :: 32 word) = length c"
      using Cons.prems(2) by (simp add: unat_of_nat)
    then have nz: "(of_nat (length c) :: 32 word) \<noteq> 0" using False by (metis length_0_conv unat_0)
    define off2 where "off2 = off + of_nat (length c)"
    have o2: "unat off2 = unat off + length c"
      unfolding off2_def using Cons.prems(2) len by (subst unat_add_small) simp_all
    define b2 where "b2 = (if off2 > b
      then b + HANDLE_READ_CHUNK_SIZE * (of_nat (length c) div HANDLE_READ_CHUNK_SIZE + 1) else b)"
    have g: "unat (HANDLE_READ_CHUNK_SIZE * (of_nat (length c) div HANDLE_READ_CHUNK_SIZE + 1))
        = 8192 * (length c div 8192 + 1)"
      using Cons.prems(2) by (intro growth) simp
    have b2: "unat off2 \<le> unat b2 \<and> unat b2 \<le> unat off2 + m + 8192"
    proof (cases "off2 > b")
      case True
      then have lt: "unat b < unat off + length c" using o2 by (simp add: word_less_nat_alt)
      have up: "8192 * (length c div 8192 + 1) \<le> length c + 8192" by simp
      have dn: "length c < 8192 * (length c div 8192 + 1)"
        using mod_less_divisor [of 8192 "length c"] div_mult_mod_eq [of "length c" 8192] by simp
      have "unat b + 8192 * (length c div 8192 + 1) < 2 ^ 32"
        using up lt cm Cons.prems(2) total_length_simps(2) [of c cs] by linarith
      then have "unat b2 = unat b + 8192 * (length c div 8192 + 1)"
        unfolding b2_def using True g by (simp only: if_True) (subst unat_add_small; simp)
      then show ?thesis using o2 lt up dn Cons.prems(3) cm by linarith
    next
      case False
      then show ?thesis using o2 Cons.prems(4) by (simp add: b2_def word_less_nat_alt)
    qed
    have "size_loop (map (\<lambda>c. of_nat (length c)) (c # cs)) b off
        = size_loop (map (\<lambda>c. of_nat (length c)) cs) b2 off2"
      using nz by (simp add: Let_def off2_def b2_def)
    then show ?thesis
      using Cons.IH [of off2 b2] Cons.prems(1,2) o2 b2 by (simp add: add.assoc)
  qed
qed

lemma copy_loop_copies:
  assumes "unat off = length pre" "buf = pre @ rest" "length pre + total_length cs \<le> length buf" "length buf < 2 ^ 32"
  shows "\<exists>off' rest'. copy_loop cs off buf = Some (off', pre @ concat cs @ rest')
    \<and> unat off' = length pre + total_length cs \<and> length (pre @ concat cs @ rest') = length buf"
  using assms
proof (induction cs arbitrary: off buf pre rest)
  case Nil
  then show ?case by simp
next
  case (Cons c cs)
  show ?case
  proof (cases "c = []")
    case True
    then show ?thesis using Cons.IH [of off pre buf rest] Cons.prems by simp
  next
    case False
    let ?off = "off + of_nat (length c)" and ?rest = "drop (length c) rest"
    have l: "unat (of_nat (length c) :: 32 word) = length c"
      using Cons.prems(3,4) by (simp add: unat_of_nat)
    have o: "unat ?off = length (pre @ c)"
      using Cons.prems(1,3,4) l by (subst unat_add_small) simp_all
    have w: "write_at (unat off) c buf = Some ((pre @ c) @ ?rest)"
      using Cons.prems(1,2,3) by (simp add: write_at_def)
    have len: "length ((pre @ c) @ ?rest) = length buf"
      using Cons.prems(2,3) by simp
    have "length (pre @ c) + total_length cs \<le> length ((pre @ c) @ ?rest)"
      using len Cons.prems(3) by simp
    from Cons.IH [OF o refl this] len Cons.prems(4) obtain off' rest' where
      "copy_loop cs ?off ((pre @ c) @ ?rest) = Some (off', (pre @ c) @ concat cs @ rest')"
      "unat off' = length (pre @ c) + total_length cs"
      "length ((pre @ c) @ concat cs @ rest') = length buf" by auto
    then show ?thesis using False w by (intro exI [of _ off'] exI [of _ rest']) simp
  qed
qed

text \<open>
  C22. If the chunks together with one more of the longest and one unit of 8192 bytes stay
  below \<open>2^32\<close>, no write leaves the buffer, and the bytes given to the parser are the
  concatenation of the chunks.
\<close>

theorem collect_contents_concatenates:
  assumes "\<And>c. c \<in> set contents \<Longrightarrow> length c \<le> m" and "total_length contents + m + 8193 < 2 ^ 32"
    and "\<And>n. length (fresh n) = n"
  shows "\<exists>buf len. collect_contents fresh contents = Some (buf, len)
    \<and> unat len = length (concat contents) \<and> take (unat len) buf = concat contents \<and> buf ! unat len = 0"
proof -
  have "unat (HANDLE_READ_CHUNK_SIZE :: 32 word) = 8192" by (simp add: HANDLE_READ_CHUNK_SIZE_def)
  then obtain b off where sz:
    "size_loop (map (\<lambda>c. of_nat (length c)) contents) HANDLE_READ_CHUNK_SIZE 0 = (b, off)"
    "unat off = total_length contents" "unat off \<le> unat b" "unat b \<le> unat off + m + 8192"
    using size_loop_fits [of contents m 0 HANDLE_READ_CHUNK_SIZE] assms(1,2) by auto
  have b1: "unat (b + 1) = unat b + 1"
    using sz assms(2) by (subst unat_add_small) simp_all
  let ?buf = "fresh (unat (b + 1))"
  from copy_loop_copies [of 0 "[]" ?buf ?buf contents] sz b1 assms(2,3) obtain off' rest' where c:
    "copy_loop contents 0 ?buf = Some (off', concat contents @ rest')"
    "unat off' = total_length contents" "length (concat contents @ rest') = unat b + 1"
    by auto
  have "rest' \<noteq> []" using c(3) sz by (cases rest') (simp_all add: length_concat_total)
  then show ?thesis
    using c sz by (auto simp: collect_contents_def write_at_def length_concat_total nth_append)
qed

theorem collect_contents_concatenates_witness:
  "\<exists>buf len. collect_contents (\<lambda>n. replicate n 0) [[1, 2], [], [3]] = Some (buf, len)
    \<and> unat len = 3 \<and> take (unat len) buf = [1, 2, 3]"
  using collect_contents_concatenates [of "[[1, 2], [], [3]]" 2 "\<lambda>n. replicate n 0"] by fastforce

subsection \<open>Beyond the bound\<close>

text \<open>
  Chunks of 24576 bytes let the size run up to three units ahead: after \<open>4 * j + 2\<close> of them it is
  \<open>24576 * (4 * j + 2) + 24576\<close>, taken modulo \<open>2^32\<close>.
\<close>

lemma size_step:
  assumes "a + 24576 < 2 ^ 32" "b < 2 ^ 32"
  shows "size_loop (24576 # lens) (of_nat b) (of_nat a)
    = size_loop lens (of_nat (if a + 24576 > b then b + 32768 else b)) (of_nat (a + 24576))"
proof -
  have "(of_nat (a + 24576) :: 32 word) > of_nat b \<longleftrightarrow> a + 24576 > b"
    using assms by (simp add: word_less_nat_alt unat_of_nat del: of_nat_add)
  then show ?thesis by (simp add: HANDLE_READ_CHUNK_SIZE_def)
qed

text \<open>Four chunks lead from a size that fits exactly to one that fits exactly.\<close>

lemma replicate_four: "replicate 4 c = [c, c, c, c]"
  by (simp add: eval_nat_numeral)

lemma size_four_steps:
  assumes "x + 98304 < 2 ^ 32"
  shows "size_loop (replicate 4 24576 @ lens) (of_nat x) (of_nat x)
    = size_loop lens (of_nat (x + 98304)) (of_nat (x + 98304))"
proof -
  note step = size_step [where lens = "24576 # 24576 # 24576 # lens" and a = x and b = x]
    size_step [where lens = "24576 # 24576 # lens" and a = "x + 24576" and b = "x + 32768"]
    size_step [where lens = "24576 # lens" and a = "x + 49152" and b = "x + 65536"]
    size_step [where lens = lens and a = "x + 73728" and b = "x + 98304"]
  show ?thesis using assms step by (simp add: replicate_four add.assoc del: of_nat_add size_loop.simps)
qed

lemma size_many_steps:
  "x + 98304 * j < 2 ^ 32 \<Longrightarrow> size_loop (replicate (4 * j) 24576 @ lens) (of_nat x) (of_nat x)
    = size_loop lens (of_nat (x + 98304 * j)) (of_nat (x + 98304 * j))"
proof (induction j arbitrary: x)
  case (Suc j)
  have "replicate (4 * Suc j) (24576 :: 32 word) @ lens = replicate 4 24576 @ (replicate (4 * j) 24576 @ lens)"
    by (simp only: append_assoc [symmetric] replicate_add [symmetric]) simp
  moreover have "x + 98304 < 2 ^ 32" "x + 98304 + 98304 * j < 2 ^ 32" using Suc.prems by simp_all
  ultimately show ?case
    using Suc.IH [of "x + 98304"] by (simp add: size_four_steps add.assoc del: of_nat_add)
qed simp

text \<open>
  The guard is not optional: a stream that hands out one array of 24576 bytes 174762 times,
  which a script can do, makes the size wrap to 8192, and the first copy overflows the buffer.
\<close>

theorem collect_contents_overflows:
  assumes "\<And>n. length (fresh n) = n" and "length c = 24576"
  shows "collect_contents fresh (replicate 174762 c) = None"
proof -
  let ?L = "24576 :: 32 word"
  have r: "replicate 174762 ?L = replicate 3 ?L @ replicate (4 * 43689) ?L @ replicate 3 ?L"
    by (simp only: append_assoc [symmetric] replicate_add [symmetric]) simp
  have three: "replicate 3 ?L = [?L, ?L, ?L]" by (simp add: eval_nat_numeral)
  note start = size_step [where a = 0 and b = 8192] size_step [where a = 24576 and b = 40960]
    size_step [where a = 49152 and b = 73728]
  note last = size_step [where a = 4294877184 and b = 4294877184] size_step [where a = 4294901760 and b = 4294909952]
    size_step [where a = 4294926336 and b = 4294942720]
  have "size_loop (replicate 174762 ?L) HANDLE_READ_CHUNK_SIZE 0
      = size_loop (replicate (4 * 43689) ?L @ replicate 3 ?L) (of_nat 73728) (of_nat 73728)"
    unfolding r three using start by (simp add: HANDLE_READ_CHUNK_SIZE_def del: size_loop.simps replicate_Suc)
  also have "\<dots> = size_loop (replicate 3 ?L) (of_nat 4294877184) (of_nat 4294877184)"
    using size_many_steps [of 73728 43689 "replicate 3 ?L"] by simp
  also have "\<dots> = (8192, 4294950912)"
    unfolding three using last by (simp del: size_loop.simps(2))
  finally have "fst (size_loop (map (\<lambda>c. of_nat (length c)) (replicate 174762 c)) HANDLE_READ_CHUNK_SIZE 0) = 8192"
    using assms(2) by (simp add: map_replicate)
  moreover have "copy_loop (replicate 174762 c) 0 (fresh 8193) = None"
  proof -
    have "c \<noteq> []" using assms(2) by auto
    moreover have "replicate 174762 c = c # replicate 174761 c"
      using replicate_Suc [of 174761 c] by simp
    ultimately show ?thesis using assms by (simp add: write_at_def)
  qed
  ultimately show ?thesis by (simp add: collect_contents_def)
qed

theorem collect_contents_overflows_witness:
  "collect_contents (\<lambda>n. replicate n 0) (replicate 174762 (replicate 24576 1)) = None"
  by (rule collect_contents_overflows) simp_all

end
