(* ===== verification/Fetch_Body.thy ===== *)
theory Fetch_Body
  imports Host_Http Body_Reading
begin

section \<open>Bodies of Request and Response\<close>

text \<open>
  Models the class \<open>RequestOrResponse\<close> and the body tasks of
  \<open>builtins/web/fetch/request-response.cpp\<close>, with \<open>builtins/web/streams/native-stream-source.cpp\<close>
  and the parts of \<open>transform-stream.cpp\<close> that connect a TransformStream to a body.

  \<^item> Objects are numbers: an index into the list of Request and Response objects (with their
    reserved slots and the object of the host API), of native sources or of TransformStreams.
  \<^item> The engine's streams are a record of functions on its state \<open>'e\<close>.  A promise reaction that
    C++ code registers is an entry of \<open>reactions\<close>, a queued internal method one of \<open>jobs\<close>; they run
    when the promise settles, in the order of the engine.
  \<^item> An operation gives \<open>Ok\<close> with its result, \<open>Throw\<close> with the exception (each with the state it
    leaves), \<open>Crash\<close> for a failed assertion, a trap or undefined behaviour, or \<open>Loops\<close>.
\<close>

datatype ('a, 's) outcome = Ok 'a 's | Throw js_error 's | Crash | Loops

definition out_bind :: "('a, 's) outcome \<Rightarrow> ('a \<Rightarrow> 's \<Rightarrow> ('b, 's) outcome) \<Rightarrow> ('b, 's) outcome" where
  "out_bind m k = (case m of Ok x s \<Rightarrow> k x s | Throw e s \<Rightarrow> Throw e s | Crash \<Rightarrow> Crash | Loops \<Rightarrow> Loops)"

lemma out_bind_simps [simp]:
  "out_bind (Ok x s) k = k x s" "out_bind (Throw e s) k = Throw e s" "out_bind Crash k = Crash" "out_bind Loops k = Loops"
  by (simp_all add: out_bind_def)

lemma out_bind_eq_Ok: "out_bind m k = Ok y t \<longleftrightarrow> (\<exists>x s. m = Ok x s \<and> k x s = Ok y t)"
  by (cases m) auto

lemma out_bind_cong [fundef_cong]:
  "m = m' \<Longrightarrow> (\<And>x s. m' = Ok x s \<Longrightarrow> k x s = k' x s) \<Longrightarrow> out_bind m k = out_bind m' k'"
  by (cases m') auto

subsection \<open>Objects\<close>

datatype ('f, 'h) host_object =
    InRequest "('f, 'h, nat) http_incoming_request"
  | InResponse "('f, 'h, nat) http_incoming_response"
  | OutRequest "('f, 'h, nat) http_outgoing_request"
  | OutResponse "('f, 'h, nat) http_outgoing_response"

datatype source_owner = BodyOwner nat | TsOwner nat

record native_source =
  src_owner :: source_owner
  src_start_promise :: "nat option"
  src_controller :: "nat option"
  src_piped_to :: "nat option"
  src_internal_reader :: "nat option"

record ts_slots =
  ts_owner :: "nat option"
  ts_used_as_mixin :: bool
  ts_has_transformer :: "bool option"

text \<open>The slots of a Request or Response.  The \<open>Headers\<close> object of the slot is its map and its
  laziness; its handle is that of the host object.\<close>

record ('f, 'h) rr =
  rr_host :: "('f, 'h) host_object"
  rr_headers :: "((string \<times> string option) list \<times> bool) option"
  rr_body_stream :: "nat option"
  rr_has_body :: bool
  rr_body_used :: bool
  rr_body_promise :: "nat option"
  rr_url :: "string option"
  rr_method :: string
  rr_response_promise :: "nat option"
  rr_status :: "16 word"
  rr_status_message :: string
  rr_redirected :: bool

datatype body_read_result = ArrayBuffer | Text | JSON

datatype promise_value = VBuffer "byte list" | VText "byte list" | VJson nat | VResponse nat

datatype promise_state = PPending | PFulfilled promise_value | PRejected js_error

text \<open>What a read of a stream yields.\<close>

datatype chunk = Uint8Array "byte list" | NotUint8Array

datatype read_result = ReadChunk chunk | ReadDone | ReadError js_error

record reading =
  rd_self :: nat
  rd_reader :: nat
  rd_stream :: nat
  rd_contents :: "byte list list"
  rd_parser :: body_read_result

datatype reaction = ReadAll reading | SendBody nat nat

datatype job = ConsumeStream nat nat body_read_result

datatype task = AppendTask append_task | ResponseTask nat nat int | BodyTask nat int

text \<open>What a pointer that is taken for a source really is.\<close>

datatype source_ref = SourceRef nat | ObjectRef nat

record 'e streams_engine =
  rs_source :: "nat \<Rightarrow> 'e \<Rightarrow> nat option"
  rs_disturbed :: "nat \<Rightarrow> 'e \<Rightarrow> bool"
  rs_locked :: "nat \<Rightarrow> 'e \<Rightarrow> bool"
  rs_get_reader :: "nat \<Rightarrow> 'e \<Rightarrow> (nat \<times> 'e) option"
  rs_reader_closed :: "nat \<Rightarrow> 'e \<Rightarrow> bool"
  rs_read :: "nat \<Rightarrow> 'e \<Rightarrow> (nat \<times> 'e) option"
  rs_new :: "nat \<Rightarrow> 'e \<Rightarrow> (nat \<times> 'e) option"
  rs_close :: "nat \<Rightarrow> 'e \<Rightarrow> 'e option"
  rs_pipe_to :: "nat \<Rightarrow> nat \<Rightarrow> 'e \<Rightarrow> 'e option"
  ctl_error :: "nat \<Rightarrow> 'e \<Rightarrow> bool \<times> 'e"
  ctl_close :: "nat \<Rightarrow> 'e \<Rightarrow> bool \<times> 'e"
  ctl_enqueue :: "nat \<Rightarrow> byte list \<Rightarrow> 'e \<Rightarrow> bool \<times> 'e"

record ('e, 'f, 'h, 'w) fetch_env =
  io :: "'w streams_host"
  rs :: "'e streams_engine"
  hh :: "'f http_headers"
  oq :: "('f, 'h, nat) outgoing_request_ops"
  op :: "('f, 'h, nat) outgoing_response_ops"
  iq :: "('f, 'h, nat) incoming_request_ops"
  ip :: "('f, 'h, nat) incoming_response_ops"
  outgoing_handler :: "'h \<Rightarrow> nat + nat"
  future_get :: "nat \<Rightarrow> 'w \<Rightarrow> (unit + (nat + 'h)) option \<times> 'w"
  future_subscribe :: "nat \<Rightarrow> 'w \<Rightarrow> int \<times> 'w"
  utf8_ok :: "byte list \<Rightarrow> bool"
  json_parse :: "byte list \<Rightarrow> nat option"
  fresh_memory :: "nat \<Rightarrow> byte list"
  new_fields :: 'f
  url_parts :: "string \<Rightarrow> string \<times> string \<times> string"

record ('e, 'f, 'h, 'w) fstate =
  eng :: 'e
  world :: 'w
  rrs :: "('f, 'h) rr list"
  sources :: "native_source list"
  tss :: "ts_slots list"
  obodies :: "nat \<Rightarrow> outgoing_state option"
  tasks :: "task list"
  promises :: "promise_state list"
  reactions :: "(nat \<times> reaction) list"
  jobs :: "job list"
  response_done :: bool

type_synonym ('a, 'e, 'f, 'h, 'w) result = "('a, ('e, 'f, 'h, 'w) fstate) outcome"

definition upd_rr :: "nat \<Rightarrow> (('f, 'h) rr \<Rightarrow> ('f, 'h) rr) \<Rightarrow> ('e, 'f, 'h, 'w) fstate \<Rightarrow> ('e, 'f, 'h, 'w) fstate" where
  "upd_rr i f s = s\<lparr>rrs := (rrs s)[i := f (rrs s ! i)]\<rparr>"

definition set_host :: "nat \<Rightarrow> ('f, 'h) host_object \<Rightarrow> ('e, 'f, 'h, 'w) fstate \<Rightarrow> ('e, 'f, 'h, 'w) fstate" where
  "set_host i h s = upd_rr i (\<lambda>r. r\<lparr>rr_host := h\<rparr>) s"

definition new_pending_promise :: "('e, 'f, 'h, 'w) fstate \<Rightarrow> nat \<times> ('e, 'f, 'h, 'w) fstate" where
  "new_pending_promise s = (length (promises s), s\<lparr>promises := promises s @ [PPending]\<rparr>)"

definition settle_promise :: "nat \<Rightarrow> promise_state \<Rightarrow> ('e, 'f, 'h, 'w) fstate \<Rightarrow> ('e, 'f, 'h, 'w) fstate" where
  "settle_promise p v s = (if promises s ! p = PPending then s\<lparr>promises := (promises s)[p := v]\<rparr> else s)"

definition is_request :: "nat \<Rightarrow> ('e, 'f, 'h, 'w) fstate \<Rightarrow> bool" where
  "is_request i s \<longleftrightarrow> (case rr_host (rrs s ! i) of InRequest _ \<Rightarrow> True | OutRequest _ \<Rightarrow> True | _ \<Rightarrow> False)"

definition is_incoming :: "nat \<Rightarrow> ('e, 'f, 'h, 'w) fstate \<Rightarrow> bool" where
  "is_incoming i s \<longleftrightarrow> (case rr_host (rrs s ! i) of InRequest _ \<Rightarrow> True | InResponse _ \<Rightarrow> True | _ \<Rightarrow> False)"


subsection \<open>Native sources and TransformStreams\<close>

definition NativeStreamSource_create :: "source_owner \<Rightarrow> nat option \<Rightarrow> ('e, 'f, 'h, 'w) fstate
    \<Rightarrow> nat \<times> ('e, 'f, 'h, 'w) fstate" where
  "NativeStreamSource_create owner start_promise s =
     (length (sources s),
      s\<lparr>sources := sources s @ [\<lparr>src_owner = owner, src_start_promise = start_promise, src_controller = None,
          src_piped_to = None, src_internal_reader = None\<rparr>]\<rparr>)"

text \<open>\<open>start\<close> keeps the controller and returns the start promise.\<close>

definition NativeStreamSource_start :: "nat \<Rightarrow> nat \<Rightarrow> ('e, 'f, 'h, 'w) fstate \<Rightarrow> nat option \<times> ('e, 'f, 'h, 'w) fstate" where
  "NativeStreamSource_start src controller s =
     (src_start_promise (sources s ! src),
      s\<lparr>sources := (sources s)[src := (sources s ! src)\<lparr>src_controller := Some controller\<rparr>]\<rparr>)"

definition get_stream_source :: "('e, 'f, 'h, 'w) fetch_env \<Rightarrow> nat \<Rightarrow> ('e, 'f, 'h, 'w) fstate \<Rightarrow> nat option" where
  "get_stream_source E stream s = rs_source (rs E) stream (eng s)"

definition stream_has_native_source :: "('e, 'f, 'h, 'w) fetch_env \<Rightarrow> nat \<Rightarrow> ('e, 'f, 'h, 'w) fstate \<Rightarrow> bool" where
  "stream_has_native_source E stream s \<longleftrightarrow> get_stream_source E stream s \<noteq> None"

definition stream_is_body :: "('e, 'f, 'h, 'w) fetch_env \<Rightarrow> nat \<Rightarrow> ('e, 'f, 'h, 'w) fstate \<Rightarrow> bool" where
  "stream_is_body E stream s \<longleftrightarrow>
     (case get_stream_source E stream s of
        Some src \<Rightarrow> (case src_owner (sources s ! src) of BodyOwner _ \<Rightarrow> True | TsOwner _ \<Rightarrow> False)
      | None \<Rightarrow> False)"

text \<open>The TransformStream whose readable end a stream is.\<close>

definition ts_from_readable :: "('e, 'f, 'h, 'w) fetch_env \<Rightarrow> nat \<Rightarrow> ('e, 'f, 'h, 'w) fstate \<Rightarrow> nat option" where
  "ts_from_readable E stream s =
     (case get_stream_source E stream s of
        Some src \<Rightarrow> (case src_owner (sources s ! src) of TsOwner t \<Rightarrow> Some t | BodyOwner _ \<Rightarrow> None)
      | None \<Rightarrow> None)"

definition readable_used_as_body :: "nat \<Rightarrow> ('e, 'f, 'h, 'w) fstate \<Rightarrow> bool" where
  "readable_used_as_body t s \<longleftrightarrow> ts_owner (tss s ! t) \<noteq> None"

text \<open>Setting an owner asserts that there is none yet.\<close>

definition set_readable_used_as_body :: "nat \<Rightarrow> nat \<Rightarrow> ('e, 'f, 'h, 'w) fstate \<Rightarrow> (unit, 'e, 'f, 'h, 'w) result" where
  "set_readable_used_as_body t target s =
     (if ts_used_as_mixin (tss s ! t) \<or> ts_owner (tss s ! t) \<noteq> None then Crash
      else Ok () (s\<lparr>tss := (tss s)[t := (tss s ! t)\<lparr>ts_owner := Some target\<rparr>]\<rparr>))"

definition set_stream_piped_to_ts_writable :: "('e, 'f, 'h, 'w) fetch_env \<Rightarrow> nat \<Rightarrow> nat \<Rightarrow> ('e, 'f, 'h, 'w) fstate
    \<Rightarrow> ('e, 'f, 'h, 'w) fstate" where
  "set_stream_piped_to_ts_writable E stream t s =
     (case get_stream_source E stream s of
        None \<Rightarrow> s
      | Some src \<Rightarrow> s\<lparr>sources := (sources s)[src := (sources s ! src)\<lparr>src_piped_to := Some t\<rparr>]\<rparr>)"

text \<open>
  The overriding \<open>pipeTo\<close>: what it does before it calls the original.  \<open>ts_target\<close> is the
  TransformStream when the destination is the writable end of one.  The slot \<open>HasTransformer\<close> is
  \<open>undefined\<close> (\<open>None\<close>) for streams that C++ code created, which reads as false.
\<close>

definition pipeTo_prepare :: "('e, 'f, 'h, 'w) fetch_env \<Rightarrow> nat \<Rightarrow> nat option \<Rightarrow> ('e, 'f, 'h, 'w) fstate
    \<Rightarrow> ('e, 'f, 'h, 'w) fstate" where
  "pipeTo_prepare E self ts_target s =
     (case ts_target of
        Some t \<Rightarrow>
          if stream_has_native_source E self s \<and> ts_has_transformer (tss s ! t) \<noteq> Some True
          then set_stream_piped_to_ts_writable E self t s else s
      | None \<Rightarrow> s)"

definition lock_stream :: "('e, 'f, 'h, 'w) fetch_env \<Rightarrow> nat \<Rightarrow> ('e, 'f, 'h, 'w) fstate \<Rightarrow> (unit, 'e, 'f, 'h, 'w) result" where
  "lock_stream E stream s =
     (if rs_locked (rs E) stream (eng s)
      then Throw (ReportError ''Can't lock an already locked ReadableStream'') s
      else case get_stream_source E stream s of
             None \<Rightarrow> Crash
           | Some src \<Rightarrow>
               (case rs_get_reader (rs E) stream (eng s) of
                  None \<Rightarrow> Throw PendingException s
                | Some (reader, e) \<Rightarrow>
                    Ok () (s\<lparr>eng := e,
                       sources := (sources s)[src := (sources s ! src)\<lparr>src_internal_reader := Some reader\<rparr>]\<rparr>)))"

subsection \<open>Handles, use and bodies\<close>

definition incoming_body_handle :: "('e, 'f, 'h, 'w) fetch_env \<Rightarrow> nat \<Rightarrow> ('e, 'f, 'h, 'w) fstate
    \<Rightarrow> (nat, 'e, 'f, 'h, 'w) result" where
  "incoming_body_handle E i s =
     (case rr_host (rrs s ! i) of
        InRequest r \<Rightarrow> (case HttpIncomingRequest_body (iq E) r of
            (Inl _, _) \<Rightarrow> Crash | (Inr b, r) \<Rightarrow> Ok b (set_host i (InRequest r) s))
      | InResponse r \<Rightarrow> (case HttpIncomingResponse_body (ip E) r of
            (Inl _, _) \<Rightarrow> Crash | (Inr b, r) \<Rightarrow> Ok b (set_host i (InResponse r) s))
      | _ \<Rightarrow> Crash)"

definition outgoing_body_handle :: "('e, 'f, 'h, 'w) fetch_env \<Rightarrow> nat \<Rightarrow> ('e, 'f, 'h, 'w) fstate
    \<Rightarrow> (nat, 'e, 'f, 'h, 'w) result" where
  "outgoing_body_handle E i s =
     (case rr_host (rrs s ! i) of
        OutRequest r \<Rightarrow> (case HttpOutgoingRequest_body (oq E) r of
            (Inl _, _) \<Rightarrow> Crash | (Inr b, r) \<Rightarrow> Ok b (set_host i (OutRequest r) s))
      | OutResponse r \<Rightarrow> (case HttpOutgoingResponse_body (op E) r of
            (Inl _, _) \<Rightarrow> Crash | (Inr b, r) \<Rightarrow> Ok b (set_host i (OutResponse r) s))
      | _ \<Rightarrow> Crash)"

definition body_unusable :: "('e, 'f, 'h, 'w) fetch_env \<Rightarrow> nat \<Rightarrow> ('e, 'f, 'h, 'w) fstate \<Rightarrow> bool" where
  "body_unusable E stream s \<longleftrightarrow> rs_disturbed (rs E) stream (eng s) \<or> rs_locked (rs E) stream (eng s)"

definition mark_body_used :: "('e, 'f, 'h, 'w) fetch_env \<Rightarrow> nat \<Rightarrow> ('e, 'f, 'h, 'w) fstate
    \<Rightarrow> (unit, 'e, 'f, 'h, 'w) result" where
  "mark_body_used E i s =
     (let s = upd_rr i (\<lambda>r. r\<lparr>rr_body_used := True\<rparr>) s
      in case rr_body_stream (rrs s ! i) of
           None \<Rightarrow> Ok () s
         | Some stream \<Rightarrow>
             if \<not> stream_is_body E stream s then Ok () s
             else (case get_stream_source E stream s of
                     None \<Rightarrow> Ok () s
                   | Some src \<Rightarrow>
                       if src_piped_to (sources s ! src) \<noteq> None then Ok () s
                       else (case lock_stream E stream s of
                               Throw _ s \<Rightarrow> Throw (ReportError
                                 ''The ReadableStream body is already locked and can't be consumed'') s
                             | x \<Rightarrow> x)))"

text \<open>Writing a whole buffer to an outgoing body.\<close>

definition body_write_all :: "('e, 'f, 'h, 'w) fetch_env \<Rightarrow> nat \<Rightarrow> byte list \<Rightarrow> ('e, 'f, 'h, 'w) fstate
    \<Rightarrow> (unit, 'e, 'f, 'h, 'w) result" where
  "body_write_all E b bytes s =
     (case HttpOutgoingBody_write_all (io E) (obodies s b) bytes (world s) of
        None \<Rightarrow> Loops
      | Some (Trap, _) \<Rightarrow> Crash
      | Some (Returns (Inl _), w) \<Rightarrow> Throw PendingException (s\<lparr>world := w\<rparr>)
      | Some (Returns (Inr _), w) \<Rightarrow> Ok () (s\<lparr>world := w\<rparr>))"

subsection \<open>Headers\<close>

definition headers_handle :: "('e, 'f, 'h, 'w) fetch_env \<Rightarrow> nat \<Rightarrow> ('e, 'f, 'h, 'w) fstate
    \<Rightarrow> ('f field_handle, 'e, 'f, 'h, 'w) result" where
  "headers_handle E i s =
     (case rr_host (rrs s ! i) of
        InRequest r \<Rightarrow> (case HttpIncomingRequest_headers (iq E) r of
            (Inl _, _) \<Rightarrow> Crash | (Inr f, r) \<Rightarrow> Ok (Live f) (set_host i (InRequest r) s))
      | InResponse r \<Rightarrow> (case HttpIncomingResponse_headers (ip E) r of
            (Inl _, _) \<Rightarrow> Crash | (Inr f, r) \<Rightarrow> Ok (Live f) (set_host i (InResponse r) s))
      | OutRequest r \<Rightarrow> (case HttpOutgoingRequest_headers r of Inl _ \<Rightarrow> Crash | Inr f \<Rightarrow> Ok f s)
      | OutResponse r \<Rightarrow> (case HttpOutgoingResponse_headers r of Inl _ \<Rightarrow> Crash | Inr f \<Rightarrow> Ok f s))"

definition set_fields :: "nat \<Rightarrow> 'f \<Rightarrow> ('e, 'f, 'h, 'w) fstate \<Rightarrow> ('e, 'f, 'h, 'w) fstate" where
  "set_fields i f s =
     (case rr_host (rrs s ! i) of
        InRequest r \<Rightarrow> set_host i (InRequest (r\<lparr>i_headers := Some f\<rparr>)) s
      | InResponse r \<Rightarrow> set_host i (InResponse (r\<lparr>i_headers := Some f\<rparr>)) s
      | OutRequest r \<Rightarrow> set_host i (OutRequest (r\<lparr>q_headers := Live f\<rparr>)) s
      | OutResponse r \<Rightarrow> set_host i (OutResponse (r\<lparr>p_headers := Live f\<rparr>)) s)"

text \<open>Creating a Headers object on a handle asks the host for its names, which traps if the
  handle is gone.\<close>

definition RequestOrResponse_headers :: "('e, 'f, 'h, 'w) fetch_env \<Rightarrow> nat \<Rightarrow> ('e, 'f, 'h, 'w) fstate
    \<Rightarrow> (unit, 'e, 'f, 'h, 'w) result" where
  "RequestOrResponse_headers E i s =
     (case rr_headers (rrs s ! i) of
        Some _ \<Rightarrow> Ok () s
      | None \<Rightarrow> out_bind (headers_handle E i s) (\<lambda>hndl s.
          (case hndl of
             Moved \<Rightarrow> Crash
           | Live f \<Rightarrow>
               (case Headers_create_handle (hh E) (Some f) of
                  Inl e \<Rightarrow> Throw e s
                | Inr h \<Rightarrow> Ok () (upd_rr i (\<lambda>r. r\<lparr>rr_headers := Some (backing_map h, has_lazy_values h)\<rparr>) s)))))"

text \<open>\<open>Headers::maybe_add\<close> on the Headers object of the slot: a name that is not in its map is
  appended to the host's fields too.\<close>

definition headers_maybe_add :: "('e, 'f, 'h, 'w) fetch_env \<Rightarrow> nat \<Rightarrow> string \<Rightarrow> string \<Rightarrow> ('e, 'f, 'h, 'w) fstate
    \<Rightarrow> (unit, 'e, 'f, 'h, 'w) result" where
  "headers_maybe_add E i name value s =
     (case rr_headers (rrs s ! i) of
        None \<Rightarrow> Crash
      | Some (m, lazy) \<Rightarrow>
          if map_of m (utf8_of_latin1 name) \<noteq> None then Ok () s
          else out_bind (headers_handle E i s) (\<lambda>hndl s.
            (case hndl of
               Moved \<Rightarrow> Crash
             | Live f \<Rightarrow>
                 (case Headers_maybe_add (hh E) \<lparr>backing_map = m, handle = Some f, has_lazy_values = lazy\<rparr> name value of
                    Inl e \<Rightarrow> Throw e s
                  | Inr h \<Rightarrow>
                      (let s = upd_rr i (\<lambda>r. r\<lparr>rr_headers := Some (backing_map h, has_lazy_values h)\<rparr>) s
                       in Ok () (case handle h of Some f \<Rightarrow> set_fields i f s | None \<Rightarrow> s))))))"


subsection \<open>Extracting and appending\<close>

text \<open>
  The body argument as the engine classifies it: a stream; the bytes of a view or a buffer; the
  serialization of URLSearchParams; anything else with the UTF-8 encoding of its string, or
  \<open>None\<close> if the conversion throws.
\<close>

datatype body_value =
    BodyStream nat
  | BodyView "byte list"
  | BodyBuffer "byte list"
  | BodyParams string
  | BodyOther "string option"

definition bytes_of :: "string \<Rightarrow> byte list" where "bytes_of t = map byte_of t"

definition extract_bytes :: "body_value \<Rightarrow> (byte list \<times> string option) option" where
  "extract_bytes v =
     (case v of
        BodyView bs \<Rightarrow> Some (bs, None)
      | BodyBuffer bs \<Rightarrow> Some (bs, None)
      | BodyParams t \<Rightarrow> Some (bytes_of t, Some ''application/x-www-form-urlencoded;charset=UTF-8'')
      | BodyOther (Some t) \<Rightarrow> Some (bytes_of t, Some ''text/plain;charset=UTF-8'')
      | _ \<Rightarrow> None)"

definition extract_stream :: "('e, 'f, 'h, 'w) fetch_env \<Rightarrow> nat \<Rightarrow> nat \<Rightarrow> ('e, 'f, 'h, 'w) fstate
    \<Rightarrow> (unit, 'e, 'f, 'h, 'w) result" where
  "extract_stream E self stream s =
     (if body_unusable E stream s
      then Throw (ReportError (''Can't use a ReadableStream that's locked or has ever been ''
             @ ''read from or canceled as a Request or Response body.'')) s
      else let s = upd_rr self (\<lambda>r. r\<lparr>rr_body_stream := Some stream\<rparr>) s
           in case ts_from_readable E stream s of
                Some t \<Rightarrow> if ts_used_as_mixin (tss s ! t) then Ok () s else set_readable_used_as_body t self s
              | None \<Rightarrow> Ok () s)"

definition extract_body :: "('e, 'f, 'h, 'w) fetch_env \<Rightarrow> nat \<Rightarrow> body_value \<Rightarrow> ('e, 'f, 'h, 'w) fstate
    \<Rightarrow> (unit, 'e, 'f, 'h, 'w) result" where
  "extract_body E self v s =
     out_bind (case v of
              BodyStream stream \<Rightarrow> out_bind (extract_stream E self stream s) (\<lambda>_. Ok None)
            | _ \<Rightarrow> (case extract_bytes v of
                None \<Rightarrow> Throw PendingException s
              | Some (buf, content_type) \<Rightarrow>
                  out_bind (outgoing_body_handle E self s) (\<lambda>b s.
                  out_bind (body_write_all E b buf s) (\<lambda>_. Ok content_type))))
       (\<lambda>content_type s.
          out_bind (case content_type of
                   None \<Rightarrow> Ok () s
                 | Some t \<Rightarrow> out_bind (RequestOrResponse_headers E self s) (\<lambda>_. headers_maybe_add E self ''content-type'' t))
            (\<lambda>_ s. Ok () (upd_rr self (\<lambda>r. r\<lparr>rr_has_body := True\<rparr>) s)))"

text \<open>A failure to mark the bodies as used fails an assertion.\<close>

definition mark_asserted :: "('e, 'f, 'h, 'w) fetch_env \<Rightarrow> nat \<Rightarrow> ('e, 'f, 'h, 'w) fstate
    \<Rightarrow> (unit, 'e, 'f, 'h, 'w) result" where
  "mark_asserted E i s = (case mark_body_used E i s of Throw _ _ \<Rightarrow> Crash | x \<Rightarrow> x)"

definition append_body :: "('e, 'f, 'h, 'w) fetch_env \<Rightarrow> nat \<Rightarrow> nat \<Rightarrow> ('e, 'f, 'h, 'w) fstate
    \<Rightarrow> (unit, 'e, 'f, 'h, 'w) result" where
  "append_body E self source s =
     (if rr_body_used (rrs s ! source) \<or> rr_body_used (rrs s ! self) then Crash
      else out_bind (incoming_body_handle E source s) (\<lambda>source_body s.
           out_bind (outgoing_body_handle E self s) (\<lambda>dest_body s.
             (case obodies s dest_body of
                None \<Rightarrow> Crash
              | Some st \<Rightarrow>
                  (case BodyAppendTask_new (io E) source_body st (world s) of (t, w) \<Rightarrow>
                   let s = s\<lparr>world := w, obodies := (obodies s)(dest_body := at_out t),
                             tasks := tasks s @ [AppendTask t]\<rparr>
                   in out_bind (mark_asserted E source s) (\<lambda>_ s.
                        if rr_body_stream (rrs s ! source) \<noteq> rr_body_stream (rrs s ! self)
                        then mark_asserted E self s else Ok () s))))))"

subsection \<open>Reading a whole body\<close>

definition parse_body :: "('e, 'f, 'h, 'w) fetch_env \<Rightarrow> body_read_result \<Rightarrow> nat \<Rightarrow> byte list \<Rightarrow> ('e, 'f, 'h, 'w) fstate
    \<Rightarrow> (unit, 'e, 'f, 'h, 'w) result" where
  "parse_body E kind self bytes s =
     (case rr_body_promise (rrs s ! self) of
        None \<Rightarrow> Crash
      | Some p \<Rightarrow>
          (let s = upd_rr self (\<lambda>r. r\<lparr>rr_body_promise := None\<rparr>) s;
               v = (case kind of
                      ArrayBuffer \<Rightarrow> PFulfilled (VBuffer bytes)
                    | Text \<Rightarrow> if utf8_ok E bytes then PFulfilled (VText bytes) else PRejected PendingException
                    | JSON \<Rightarrow> if \<not> utf8_ok E bytes then PRejected PendingException
                        else (case json_parse E bytes of
                                None \<Rightarrow> PRejected PendingException | Some j \<Rightarrow> PFulfilled (VJson j)))
           in Ok () (settle_promise p v s)))"

definition reject_body_promise :: "nat \<Rightarrow> js_error \<Rightarrow> ('e, 'f, 'h, 'w) fstate \<Rightarrow> (unit, 'e, 'f, 'h, 'w) result" where
  "reject_body_promise self err s =
     (case rr_body_promise (rrs s ! self) of
        None \<Rightarrow> Crash
      | Some p \<Rightarrow> Ok () (settle_promise p (PRejected err) (upd_rr self (\<lambda>r. r\<lparr>rr_body_promise := None\<rparr>) s)))"

text \<open>Reading from a reader and registering the reactions of the read.\<close>

definition read_next :: "('e, 'f, 'h, 'w) fetch_env \<Rightarrow> nat \<Rightarrow> reaction \<Rightarrow> ('e, 'f, 'h, 'w) fstate
    \<Rightarrow> (unit, 'e, 'f, 'h, 'w) result" where
  "read_next E reader r s =
     (case rs_read (rs E) reader (eng s) of
        None \<Rightarrow> Throw PendingException s
      | Some (p, e) \<Rightarrow> Ok () (s\<lparr>eng := e, reactions := reactions s @ [(p, r)]\<rparr>))"

definition content_stream_read_then_handler :: "('e, 'f, 'h, 'w) fetch_env \<Rightarrow> reading \<Rightarrow> chunk option \<Rightarrow> ('e, 'f, 'h, 'w) fstate
    \<Rightarrow> (unit, 'e, 'f, 'h, 'w) result" where
  "content_stream_read_then_handler E rd arg s =
     (case arg of
        None \<Rightarrow> (case collect_contents (fresh_memory E) (rd_contents rd) of
            None \<Rightarrow> Crash
          | Some (buf, len) \<Rightarrow> parse_body E (rd_parser rd) (rd_self rd) (take (unat len) buf) s)
      | Some NotUint8Array \<Rightarrow> reject_body_promise (rd_self rd) (ReportError ''JSMSG_RESPONSE_VALUE_NOT_UINT8ARRAY'') s
      | Some (Uint8Array bytes) \<Rightarrow>
          read_next E (rd_reader rd) (ReadAll (rd\<lparr>rd_contents := rd_contents rd @ [bytes]\<rparr>)) s)"

definition content_stream_read_catch_handler :: "reading \<Rightarrow> js_error \<Rightarrow> ('e, 'f, 'h, 'w) fstate
    \<Rightarrow> (unit, 'e, 'f, 'h, 'w) result" where
  "content_stream_read_catch_handler rd err s = reject_body_promise (rd_self rd) err s"

definition consume_content_stream_for_bodyAll :: "('e, 'f, 'h, 'w) fetch_env \<Rightarrow> nat \<Rightarrow> nat \<Rightarrow> body_read_result
    \<Rightarrow> ('e, 'f, 'h, 'w) fstate \<Rightarrow> (unit, 'e, 'f, 'h, 'w) result" where
  "consume_content_stream_for_bodyAll E self stream kind s =
     (if body_unusable E stream s
      then reject_body_promise self (ReportError ''JSMSG_RESPONSE_BODY_DISTURBED_OR_LOCKED'') s
      else case rs_get_reader (rs E) stream (eng s) of
             None \<Rightarrow> Throw PendingException s
           | Some (reader, e) \<Rightarrow>
               read_next E reader (ReadAll \<lparr>rd_self = self, rd_reader = reader, rd_stream = stream,
                  rd_contents = [], rd_parser = kind\<rparr>) (s\<lparr>eng := e\<rparr>))"

definition create_body_stream :: "('e, 'f, 'h, 'w) fetch_env \<Rightarrow> nat \<Rightarrow> ('e, 'f, 'h, 'w) fstate
    \<Rightarrow> (nat, 'e, 'f, 'h, 'w) result" where
  "create_body_stream E owner s =
     (case NativeStreamSource_create (BodyOwner owner) None s of (src, s) \<Rightarrow>
        (case rs_new (rs E) src (eng s) of
           None \<Rightarrow> Throw PendingException s
         | Some (stream, e) \<Rightarrow> Ok stream (upd_rr owner (\<lambda>r. r\<lparr>rr_body_stream := Some stream\<rparr>) (s\<lparr>eng := e\<rparr>))))"

text \<open>
  \<open>bodyAll\<close> returns a promise.  An exception before the stream is looked for becomes a rejected
  promise of its own.
\<close>

definition rejected_promise :: "js_error \<Rightarrow> ('e, 'f, 'h, 'w) fstate \<Rightarrow> (nat, 'e, 'f, 'h, 'w) result" where
  "rejected_promise err s = Ok (length (promises s)) (s\<lparr>promises := promises s @ [PRejected err]\<rparr>)"

definition bodyAll :: "('e, 'f, 'h, 'w) fetch_env \<Rightarrow> body_read_result \<Rightarrow> nat \<Rightarrow> ('e, 'f, 'h, 'w) fstate
    \<Rightarrow> (nat, 'e, 'f, 'h, 'w) result" where
  "bodyAll E kind self s =
     (if rr_body_used (rrs s ! self) then rejected_promise (ReportError ''Body has already been consumed'') s
      else (case new_pending_promise s of (p, s) \<Rightarrow>
        (let s = upd_rr self (\<lambda>r. r\<lparr>rr_body_promise := Some p\<rparr>) s
         in if \<not> rr_has_body (rrs s ! self)
            then out_bind (parse_body E kind self [] s) (\<lambda>_. Ok p)
            else (case mark_body_used E self s of
                    Throw err s \<Rightarrow> rejected_promise err s
                  | Crash \<Rightarrow> Crash
                  | Loops \<Rightarrow> Loops
                  | Ok _ s \<Rightarrow>
                      out_bind (case rr_body_stream (rrs s ! self) of
                               Some stream \<Rightarrow> Ok stream s
                             | None \<Rightarrow> create_body_stream E self s) (\<lambda>stream s.
                        Ok p (s\<lparr>jobs := jobs s @ [ConsumeStream self stream kind]\<rparr>))))))"

definition body_get :: "('e, 'f, 'h, 'w) fetch_env \<Rightarrow> nat \<Rightarrow> bool \<Rightarrow> ('e, 'f, 'h, 'w) fstate
    \<Rightarrow> (nat option, 'e, 'f, 'h, 'w) result" where
  "body_get E self create_if_undefined s =
     (if \<not> rr_has_body (rrs s ! self) then Ok None s
      else case rr_body_stream (rrs s ! self) of
             Some stream \<Rightarrow> Ok (Some stream) s
           | None \<Rightarrow> if create_if_undefined then out_bind (create_body_stream E self s) (\<lambda>stream. Ok (Some stream))
                     else Ok None s)"


subsection \<open>Tasks and the stream of an incoming body\<close>

text \<open>The constructor of \<open>BodyFutureTask\<close> takes any object for a source.\<close>

definition BodyFutureTask_new :: "('e, 'f, 'h, 'w) fetch_env \<Rightarrow> source_ref \<Rightarrow> ('e, 'f, 'h, 'w) fstate
    \<Rightarrow> (task, 'e, 'f, 'h, 'w) result" where
  "BodyFutureTask_new E ref s =
     (case ref of
        ObjectRef _ \<Rightarrow> Crash
      | SourceRef src \<Rightarrow>
          (case src_owner (sources s ! src) of
             TsOwner _ \<Rightarrow> Crash
           | BodyOwner i \<Rightarrow> out_bind (incoming_body_handle E i s) (\<lambda>b s.
               case HttpIncomingBody_subscribe (io E) b (world s) of (h, w) \<Rightarrow>
                 Ok (BodyTask src h) (s\<lparr>world := w\<rparr>))))"

definition queue_task :: "task \<Rightarrow> ('e, 'f, 'h, 'w) fstate \<Rightarrow> (unit, 'e, 'f, 'h, 'w) result" where
  "queue_task t s = Ok () (s\<lparr>tasks := tasks s @ [t]\<rparr>)"

definition error_controller :: "('e, 'f, 'h, 'w) fetch_env \<Rightarrow> nat \<Rightarrow> ('e, 'f, 'h, 'w) fstate
    \<Rightarrow> (unit, 'e, 'f, 'h, 'w) result" where
  "error_controller E c s =
     (case ctl_error (rs E) c (eng s) of (ok, e) \<Rightarrow>
        if ok then Ok () (s\<lparr>eng := e\<rparr>) else Throw PendingException (s\<lparr>eng := e\<rparr>))"

definition BodyFutureTask_run :: "('e, 'f, 'h, 'w) fetch_env \<Rightarrow> nat \<Rightarrow> ('e, 'f, 'h, 'w) fstate
    \<Rightarrow> (unit, 'e, 'f, 'h, 'w) result" where
  "BodyFutureTask_run E src s =
     (case (src_owner (sources s ! src), src_controller (sources s ! src)) of
        (BodyOwner i, Some c) \<Rightarrow> out_bind (incoming_body_handle E i s) (\<lambda>b s.
          (case HttpIncomingBody_read (io E) b HANDLE_READ_CHUNK_SIZE (world s) of
             (Inl _, w) \<Rightarrow> error_controller E c (s\<lparr>world := w\<rparr>)
           | (Inr (done, bytes), w) \<Rightarrow>
               (let s = s\<lparr>world := w\<rparr>
                in if done
                   then (case ctl_close (rs E) c (eng s) of (ok, e) \<Rightarrow>
                           if ok then Ok () (s\<lparr>eng := e\<rparr>) else Throw PendingException (s\<lparr>eng := e\<rparr>))
                   else (case ctl_enqueue (rs E) c bytes (eng s) of (ok, e) \<Rightarrow>
                           if ok then Ok () (s\<lparr>eng := e\<rparr>) else error_controller E c (s\<lparr>eng := e\<rparr>)))))
      | _ \<Rightarrow> Crash)"

definition body_source_pull_algorithm :: "('e, 'f, 'h, 'w) fetch_env \<Rightarrow> nat \<Rightarrow> nat \<Rightarrow> ('e, 'f, 'h, 'w) fstate
    \<Rightarrow> (unit, 'e, 'f, 'h, 'w) result" where
  "body_source_pull_algorithm E source body_owner s =
     (case src_piped_to (sources s ! source) of
        Some t \<Rightarrow>
          (case ts_owner (tss s ! t) of
             Some dest_owner \<Rightarrow> out_bind (append_body E dest_owner body_owner s) (\<lambda>_ s.
               (case rr_body_stream (rrs s ! body_owner) of
                  None \<Rightarrow> Crash
                | Some stream \<Rightarrow> (case rs_close (rs E) stream (eng s) of
                      None \<Rightarrow> Crash | Some e \<Rightarrow> Ok () (s\<lparr>eng := e\<rparr>))))
           | None \<Rightarrow> out_bind (BodyFutureTask_new E (SourceRef source) s) queue_task)
      | None \<Rightarrow> out_bind (BodyFutureTask_new E (SourceRef source) s) queue_task)"

text \<open>\<open>NativeStreamSource::pull\<close> of a body's source.\<close>

definition NativeStreamSource_pull :: "('e, 'f, 'h, 'w) fetch_env \<Rightarrow> nat \<Rightarrow> ('e, 'f, 'h, 'w) fstate
    \<Rightarrow> (unit, 'e, 'f, 'h, 'w) result" where
  "NativeStreamSource_pull E source s =
     (case src_owner (sources s ! source) of
        BodyOwner i \<Rightarrow> body_source_pull_algorithm E source i s
      | TsOwner _ \<Rightarrow> Crash)"

definition body_source_cancel_algorithm :: "('e, 'f, 'h, 'w) fstate \<Rightarrow> (unit, 'e, 'f, 'h, 'w) result" where
  "body_source_cancel_algorithm s = Ok () s"

subsection \<open>Sending a body\<close>

definition body_close :: "('e, 'f, 'h, 'w) fetch_env \<Rightarrow> nat \<Rightarrow> ('e, 'f, 'h, 'w) fstate
    \<Rightarrow> (unit, 'e, 'f, 'h, 'w) result" where
  "body_close E b s =
     (case obodies s b of
        None \<Rightarrow> Crash
      | Some st \<Rightarrow> (case HttpOutgoingBody_close (io E) st (world s) of
            (Trap, _) \<Rightarrow> Crash
          | (Returns x, w) \<Rightarrow> Ok () (s\<lparr>world := w, obodies := (obodies s)(b := x)\<rparr>)))"

definition body_reader_then_handler :: "('e, 'f, 'h, 'w) fetch_env \<Rightarrow> nat \<Rightarrow> nat \<Rightarrow> chunk option \<Rightarrow> ('e, 'f, 'h, 'w) fstate
    \<Rightarrow> (unit, 'e, 'f, 'h, 'w) result" where
  "body_reader_then_handler E owner reader arg s =
     out_bind (outgoing_body_handle E owner s) (\<lambda>b s.
       (case arg of
          None \<Rightarrow>
            (let s = (if is_request owner s then s else s\<lparr>response_done := True\<rparr>)
             in out_bind (body_close E b s) (\<lambda>_ s.
                  if is_request owner s
                  then out_bind (BodyFutureTask_new E (ObjectRef owner) s) queue_task
                  else Ok () s))
        | Some NotUint8Array \<Rightarrow>
            if is_request owner s
            then (case rr_response_promise (rrs s ! owner) of
                    None \<Rightarrow> Crash
                  | Some p \<Rightarrow> Ok () (settle_promise p (PRejected (ReportError ''TypeError'')) s))
            else Throw Failure s
        | Some (Uint8Array bytes) \<Rightarrow>
            out_bind (body_write_all E b bytes s) (\<lambda>_. read_next E reader (SendBody owner reader))))"

definition body_reader_catch_handler :: "js_error \<Rightarrow> ('e, 'f, 'h, 'w) fstate \<Rightarrow> (unit, 'e, 'f, 'h, 'w) result" where
  "body_reader_catch_handler err s = Ok () s"

text \<open>The result is \<open>requires_streaming\<close>.\<close>

definition maybe_stream_body :: "('e, 'f, 'h, 'w) fetch_env \<Rightarrow> nat \<Rightarrow> ('e, 'f, 'h, 'w) fstate
    \<Rightarrow> (bool, 'e, 'f, 'h, 'w) result" where
  "maybe_stream_body E owner s =
     (if is_incoming owner s \<and> rr_has_body (rrs s ! owner) then Ok True s
      else case rr_body_stream (rrs s ! owner) of
        None \<Rightarrow> Ok False s
      | Some stream \<Rightarrow>
          if body_unusable E stream s
          then Throw (ReportError ''JSMSG_RESPONSE_BODY_DISTURBED_OR_LOCKED'') s
          else if (case ts_from_readable E stream s of Some t \<Rightarrow> readable_used_as_body t s | None \<Rightarrow> False)
          then Ok True s
          else if stream_is_body E stream s
          then (case get_stream_source E stream s of
                  None \<Rightarrow> Crash
                | Some src \<Rightarrow>
                    (case src_owner (sources s ! src) of
                       TsOwner _ \<Rightarrow> Crash
                     | BodyOwner source_owner \<Rightarrow>
                         out_bind (append_body E owner source_owner s) (\<lambda>_. Ok True)))
          else (case rs_get_reader (rs E) stream (eng s) of
                  None \<Rightarrow> Throw PendingException s
                | Some (reader, e) \<Rightarrow>
                    if rs_reader_closed (rs E) reader e then Ok False (s\<lparr>eng := e\<rparr>)
                    else out_bind (read_next E reader (SendBody owner reader) (s\<lparr>eng := e\<rparr>)) (\<lambda>_. Ok True)))"

subsection \<open>What runs later\<close>

definition fb_run_reaction :: "('e, 'f, 'h, 'w) fetch_env \<Rightarrow> nat \<Rightarrow> read_result \<Rightarrow> ('e, 'f, 'h, 'w) fstate
    \<Rightarrow> (unit, 'e, 'f, 'h, 'w) result" where
  "fb_run_reaction E k res s =
     (let r = snd (reactions s ! k);
          s = s\<lparr>reactions := take k (reactions s) @ drop (Suc k) (reactions s)\<rparr>
      in case r of
           ReadAll rd \<Rightarrow>
             (case res of
                ReadChunk c \<Rightarrow> content_stream_read_then_handler E rd (Some c) s
              | ReadDone \<Rightarrow> content_stream_read_then_handler E rd None s
              | ReadError err \<Rightarrow> content_stream_read_catch_handler rd err s)
         | SendBody owner reader \<Rightarrow>
             (case res of
                ReadChunk c \<Rightarrow> body_reader_then_handler E owner reader (Some c) s
              | ReadDone \<Rightarrow> body_reader_then_handler E owner reader None s
              | ReadError err \<Rightarrow> body_reader_catch_handler err s))"

definition fb_run_job :: "('e, 'f, 'h, 'w) fetch_env \<Rightarrow> nat \<Rightarrow> ('e, 'f, 'h, 'w) fstate
    \<Rightarrow> (unit, 'e, 'f, 'h, 'w) result" where
  "fb_run_job E k s =
     (let j = jobs s ! k; s = s\<lparr>jobs := take k (jobs s) @ drop (Suc k) (jobs s)\<rparr>
      in case j of ConsumeStream self stream kind \<Rightarrow> consume_content_stream_for_bodyAll E self stream kind s)"

end
