(* ===== verification/Body_Frames.thy ===== *)
theory Body_Frames
  imports Fetch_Body
begin

section \<open>What the operations on bodies leave alone\<close>

text \<open>
  The interface between the operations of \<open>Fetch_Body\<close> and the invariants of their callers: a
  predicate on the state that the elementary changes keep (the locale \<open>body_ops\<close>) is kept by every
  operation.  \<open>Body_Promises\<close> and the theories on Request and Response interpret it.
\<close>

definition leaves :: "('s \<Rightarrow> bool) \<Rightarrow> ('a, 's) outcome \<Rightarrow> bool" where
  "leaves P m \<longleftrightarrow> (case m of Ok _ s \<Rightarrow> P s | Throw _ s \<Rightarrow> P s | _ \<Rightarrow> True)"

lemma leaves_simps [simp]:
  "leaves P (Ok x s) = P s" "leaves P (Throw e s) = P s" "leaves P Crash" "leaves P Loops"
  by (simp_all add: leaves_def)

lemma leaves_out_bind:
  assumes "leaves P m" "\<And>x s. P s \<Longrightarrow> leaves P (k x s)"
  shows "leaves P (out_bind m k)"
  using assms by (cases m) auto

lemma leaves_Throw: "leaves P m \<Longrightarrow> leaves P (case m of Throw e s \<Rightarrow> Throw (f e s) s | x \<Rightarrow> x)"
  by (cases m) auto

lemma nth_upd_rr [simp]:
  "rrs (upd_rr i f s) ! j = (if j = i \<and> i < length (rrs s) then f (rrs s ! j) else rrs s ! j)"
  by (cases "i < length (rrs s)") (auto simp: upd_rr_def nth_list_update list_update_beyond)

lemma upd_rr_other [simp]:
  "length (rrs (upd_rr i f s)) = length (rrs s)" "promises (upd_rr i f s) = promises s"
  "jobs (upd_rr i f s) = jobs s" "reactions (upd_rr i f s) = reactions s" "sources (upd_rr i f s) = sources s"
  "eng (upd_rr i f s) = eng s" "tss (upd_rr i f s) = tss s" "world (upd_rr i f s) = world s"
  "tasks (upd_rr i f s) = tasks s" "obodies (upd_rr i f s) = obodies s"
  by (simp_all add: upd_rr_def)

lemma set_host_other [simp]:
  "tasks (set_host i h s) = tasks s" "reactions (set_host i h s) = reactions s" "sources (set_host i h s) = sources s"
  "tss (set_host i h s) = tss s" "length (rrs (set_host i h s)) = length (rrs s)"
  by (simp_all add: set_host_def)

lemmas outcome_splits = option.splits prod.splits sum.splits exec.splits host_object.splits source_owner.splits
  source_ref.splits chunk.splits

text \<open>How an operation may change the object of the host API: it stays of its kind.\<close>

definition host_step :: "('e, 'f, 'h, 'w) fetch_env \<Rightarrow> ('f, 'h) host_object \<Rightarrow> ('f, 'h) host_object \<Rightarrow> bool" where
  "host_step E h h' \<longleftrightarrow>
     (case (h, h') of
        (InRequest r, InRequest r') \<Rightarrow> r' = snd (HttpIncomingRequest_body (iq E) r)
          \<or> r' = snd (HttpIncomingRequest_headers (iq E) r) \<or> (\<exists>f. r' = r\<lparr>i_headers := Some f\<rparr>)
      | (InResponse r, InResponse r') \<Rightarrow> r' = snd (HttpIncomingResponse_body (ip E) r)
          \<or> r' = snd (HttpIncomingResponse_headers (ip E) r) \<or> (\<exists>f. r' = r\<lparr>i_headers := Some f\<rparr>)
      | (OutRequest r, OutRequest r') \<Rightarrow> r' = snd (HttpOutgoingRequest_body (oq E) r) \<or> (\<exists>f. r' = r\<lparr>q_headers := f\<rparr>)
      | (OutResponse r, OutResponse r') \<Rightarrow> r' = snd (HttpOutgoingResponse_body (op E) r) \<or> (\<exists>f. r' = r\<lparr>p_headers := f\<rparr>)
      | _ \<Rightarrow> False)"

lemma host_step_simps [simp]:
  "HttpIncomingRequest_body (iq E) r = (x, r') \<Longrightarrow> host_step E (InRequest r) (InRequest r')"
  "HttpIncomingRequest_headers (iq E) r = (y, r') \<Longrightarrow> host_step E (InRequest r) (InRequest r')"
  "HttpIncomingResponse_body (ip E) r1 = (x, r1') \<Longrightarrow> host_step E (InResponse r1) (InResponse r1')"
  "HttpIncomingResponse_headers (ip E) r1 = (y, r1') \<Longrightarrow> host_step E (InResponse r1) (InResponse r1')"
  "HttpOutgoingRequest_body (oq E) r2 = (x, r2') \<Longrightarrow> host_step E (OutRequest r2) (OutRequest r2')"
  "HttpOutgoingResponse_body (op E) r3 = (x, r3') \<Longrightarrow> host_step E (OutResponse r3) (OutResponse r3')"
  "host_step E (InRequest r) (InRequest (r\<lparr>i_headers := Some f\<rparr>))"
  "host_step E (InResponse r1) (InResponse (r1\<lparr>i_headers := Some f\<rparr>))"
  "host_step E (OutRequest r2) (OutRequest (r2\<lparr>q_headers := g\<rparr>))"
  "host_step E (OutResponse r3) (OutResponse (r3\<lparr>p_headers := g\<rparr>))"
  by (simp_all add: host_step_def) blast+

text \<open>The elementary changes.  Where a list is extended, \<open>q\<close> is what it was.\<close>

locale body_ops =
  fixes P :: "('e, 'f, 'h, 'w) fstate \<Rightarrow> bool" and E :: "('e, 'f, 'h, 'w) fetch_env"
  assumes engine [simp]: "P s \<Longrightarrow> P (s\<lparr>eng := e\<rparr>)"
    and world [simp]: "P s \<Longrightarrow> P (s\<lparr>world := w\<rparr>)"
    and outgoing [simp]: "P s \<Longrightarrow> P (s\<lparr>obodies := b\<rparr>)"
    and finished [simp]: "P s \<Longrightarrow> P (s\<lparr>response_done := True\<rparr>)"
    and append_task [simp]: "P s \<Longrightarrow> tasks s = q \<Longrightarrow> P (s\<lparr>tasks := q @ [AppendTask t]\<rparr>)"
    and body_task [simp]: "P s \<Longrightarrow> tasks s = q \<Longrightarrow> P (s\<lparr>tasks := q @ [BodyTask src h]\<rparr>)"
    and send_reaction [simp]: "P s \<Longrightarrow> reactions s = l \<Longrightarrow> P (s\<lparr>reactions := l @ [(p, SendBody j r)]\<rparr>)"
    and source_slot [simp]: "P s \<Longrightarrow> sources s = ss \<Longrightarrow> src_owner x = src_owner (ss ! k) \<Longrightarrow> P (s\<lparr>sources := ss[k := x]\<rparr>)"
    and transform_streams [simp]: "P s \<Longrightarrow> length (tss s) \<le> length y \<Longrightarrow> P (s\<lparr>tss := y\<rparr>)"
    and used_slot [simp]: "P s \<Longrightarrow> P (upd_rr i (rr_body_used_update (\<lambda>_. True)) s)"
    and has_body_slot [simp]: "P s \<Longrightarrow> P (upd_rr i (rr_has_body_update (\<lambda>_. c)) s)"
    and headers_slot [simp]: "P s \<Longrightarrow> P (upd_rr i (rr_headers_update (\<lambda>_. m)) s)"
    and stream_slot [simp]: "P s \<Longrightarrow> P (upd_rr i (rr_body_stream_update (\<lambda>_. st)) s)"
    and host_slot [simp]: "P s \<Longrightarrow> host_step E (rr_host (rrs s ! i)) g \<Longrightarrow> P (set_host i g s)"
begin

lemma incoming_body [simp]: "P s \<Longrightarrow> leaves P (incoming_body_handle E i s)"
  by (auto simp: incoming_body_handle_def split: outcome_splits)

lemma outgoing_body [simp]: "P s \<Longrightarrow> leaves P (outgoing_body_handle E i s)"
  by (auto simp: outgoing_body_handle_def split: outcome_splits)

lemma lock [simp]: "P s \<Longrightarrow> leaves P (lock_stream E st s)"
  by (auto simp: lock_stream_def split: outcome_splits)

lemma mark_used_after: "P (upd_rr i (rr_body_used_update (\<lambda>_. True)) s) \<Longrightarrow> leaves P (mark_body_used E i s)"
  unfolding mark_body_used_def Let_def by (auto intro!: leaves_Throw split: option.split)

lemma mark_used [simp]: "P s \<Longrightarrow> leaves P (mark_body_used E i s)"
  by (rule mark_used_after) simp

lemma marked [simp]: "P s \<Longrightarrow> leaves P (mark_asserted E i s)"
  using mark_used [of s i] by (cases "mark_body_used E i s") (auto simp: mark_asserted_def)

lemma write_all [simp]: "P s \<Longrightarrow> leaves P (body_write_all E b bytes s)"
  by (auto simp: body_write_all_def split: outcome_splits)

lemma append [simp]: "P s \<Longrightarrow> leaves P (append_body E self src s)"
  unfolding append_body_def by (auto intro!: leaves_out_bind split: outcome_splits simp: Let_def)

lemma new_task [simp]: "P s \<Longrightarrow> leaves P (BodyFutureTask_new E r s)"
  unfolding BodyFutureTask_new_def by (auto intro!: leaves_out_bind split: outcome_splits)

lemma queue_body_task [simp]: "P s \<Longrightarrow> leaves P (out_bind (BodyFutureTask_new E r s) queue_task)"
  unfolding BodyFutureTask_new_def
  by (auto simp: out_bind_def queue_task_def incoming_body_handle_def split: outcome_splits outcome.splits)

lemma controller_error [simp]: "P s \<Longrightarrow> leaves P (error_controller E c s)"
  by (auto simp: error_controller_def split: outcome_splits)

lemma run_task [simp]: "P s \<Longrightarrow> leaves P (BodyFutureTask_run E src s)"
  unfolding BodyFutureTask_run_def Let_def
  by (auto intro!: leaves_out_bind split: source_owner.split option.split prod.split sum.split)

lemma close_body [simp]: "P s \<Longrightarrow> leaves P (body_close E b s)"
  by (auto simp: body_close_def split: outcome_splits)

lemma pull [simp]: "P s \<Longrightarrow> leaves P (NativeStreamSource_pull E src s)"
  unfolding NativeStreamSource_pull_def body_source_pull_algorithm_def
  by (auto intro!: leaves_out_bind split: outcome_splits)

lemma send_next [simp]: "P s \<Longrightarrow> leaves P (read_next E reader (SendBody j r) s)"
  by (auto simp: read_next_def split: outcome_splits)

lemma stream_body [simp]: "P s \<Longrightarrow> leaves P (maybe_stream_body E i s)"
  unfolding maybe_stream_body_def
  by (auto intro!: leaves_out_bind split: option.split prod.split source_owner.split)

lemma pipe_to [simp]: "P s \<Longrightarrow> P (pipeTo_prepare E stream target s)"
  by (auto simp: pipeTo_prepare_def set_stream_piped_to_ts_writable_def split: option.split)

lemma own_readable [simp]: "P s \<Longrightarrow> leaves P (set_readable_used_as_body t target s)"
  by (simp add: set_readable_used_as_body_def)

lemma fields [simp]: "P s \<Longrightarrow> P (set_fields i f s)"
  unfolding set_fields_def by (auto split: host_object.split)

lemma handle [simp]: "P s \<Longrightarrow> leaves P (headers_handle E i s)"
  by (auto simp: headers_handle_def split: outcome_splits)

lemma get_headers [simp]: "P s \<Longrightarrow> leaves P (RequestOrResponse_headers E i s)"
  unfolding RequestOrResponse_headers_def
  by (auto intro!: leaves_out_bind split: option.split field_handle.split sum.split)

lemma maybe_add [simp]: "P s \<Longrightarrow> leaves P (headers_maybe_add E i name val s)"
  unfolding headers_maybe_add_def Let_def
  by (auto intro!: leaves_out_bind split: option.split field_handle.split sum.split prod.split)

lemma take_stream [simp]: "P s \<Longrightarrow> leaves P (extract_stream E self st s)"
  unfolding extract_stream_def Let_def by (auto split: option.split)

lemma take_body [simp]: "P s \<Longrightarrow> leaves P (extract_body E self v s)"
  unfolding extract_body_def
  by (auto intro!: leaves_out_bind split: body_value.split option.split prod.split)

lemma finish_body:
  assumes "P s" "arg \<noteq> Some NotUint8Array \<or> \<not> is_request i s"
  shows "leaves P (body_reader_then_handler E i reader arg s)"
proof -
  have req: "is_request i t = is_request i s" if "outgoing_body_handle E i s = Ok b t" for b t
    using that by (auto simp: outgoing_body_handle_def is_request_def set_host_def split: outcome_splits if_splits)
  show ?thesis
  proof (cases "outgoing_body_handle E i s")
    case (Ok b t)
    then have "P t" using outgoing_body [OF assms(1), of i] by simp
    then show ?thesis
      using Ok assms(2) req unfolding body_reader_then_handler_def Let_def
      by (auto intro!: leaves_out_bind split: option.split chunk.split)
  next
    case (Throw e t)
    then show ?thesis using outgoing_body [OF assms(1), of i] by (simp add: body_reader_then_handler_def)
  qed (simp_all add: body_reader_then_handler_def)
qed

end

text \<open>Also kept when a stream is made for the body of an object.\<close>

locale body_streams = body_ops +
  assumes new_source [simp]: "P s \<Longrightarrow> i < length (rrs s) \<Longrightarrow> P (snd (NativeStreamSource_create (BodyOwner i) None s))"
begin

lemma make_stream [simp]: "P s \<Longrightarrow> i < length (rrs s) \<Longrightarrow> leaves P (create_body_stream E i s)"
  using new_source [of s i] unfolding create_body_stream_def
  by (auto simp del: new_source split: outcome_splits)

lemma get_body [simp]: "P s \<Longrightarrow> i < length (rrs s) \<Longrightarrow> leaves P (body_get E i c s)"
  unfolding body_get_def by (auto intro!: leaves_out_bind split: outcome_splits)

end

end
