(* ===== verification/Body_Promises.thy ===== *)
theory Body_Promises
  imports Body_Frames "HOL-Library.Multiset"
begin

section \<open>The promises of text(), json() and arrayBuffer()\<close>

text \<open>
  The state machine in which bodies are read: scripts call \<open>bodyAll\<close> and \<open>body_get\<close>, bodies are
  sent, jobs and reactions run when the engine settles a read, tasks of the event loop run, and
  the engine and the host change on their own.

  \<^item> Invariant: reads in progress belong to distinct objects whose body is marked as used and whose
    promise is pending; so a promise that was handed out stays covered until it is settled.
  \<^item> The chunks of a stream end up concatenated in the promise.
  \<^item> An object whose \<open>body\<close> stream exists cannot be read: marking the body as used locks the stream
    and the job that reads it takes the lock for somebody else's.
\<close>

subsection \<open>What an operation leaves alone\<close>

definition reading_self :: "reaction \<Rightarrow> nat list" where
  "reading_self r = (case r of ReadAll rd \<Rightarrow> [rd_self rd] | SendBody _ _ \<Rightarrow> [])"

definition job_self :: "job \<Rightarrow> nat" where
  "job_self j = (case j of ConsumeStream self _ _ \<Rightarrow> self)"

definition reads_of :: "(nat \<times> reaction) list \<Rightarrow> nat list" where
  "reads_of l = concat (map (reading_self \<circ> snd) l)"

definition pending_reads :: "('e, 'f, 'h, 'w) fstate \<Rightarrow> nat list" where
  "pending_reads s = map job_self (jobs s) @ reads_of (reactions s)"

lemma reads_of_simps [simp]:
  "reads_of [] = []" "reads_of (x # xs) = reading_self (snd x) @ reads_of xs"
  "reads_of (xs @ ys) = reads_of xs @ reads_of ys"
  by (simp_all add: reads_of_def)

lemma reading_self_simps [simp]: "reading_self (ReadAll rd) = [rd_self rd]" "reading_self (SendBody a b) = []"
  by (simp_all add: reading_self_def)

definition keeps :: "('e, 'f, 'h, 'w) fstate \<Rightarrow> ('e, 'f, 'h, 'w) fstate \<Rightarrow> bool" where
  "keeps s s' \<longleftrightarrow> length (rrs s') = length (rrs s)
     \<and> (\<forall>i. rr_body_promise (rrs s' ! i) = rr_body_promise (rrs s ! i)
          \<and> rr_response_promise (rrs s' ! i) = rr_response_promise (rrs s ! i)
          \<and> (rr_body_used (rrs s ! i) \<longrightarrow> rr_body_used (rrs s' ! i)))
     \<and> promises s' = promises s \<and> pending_reads s' = pending_reads s
     \<and> (\<forall>i f h. ResponseTask i f h \<in> set (tasks s') \<longrightarrow> ResponseTask i f h \<in> set (tasks s))"

lemma keeps_refl [simp]: "keeps s s"
  by (simp add: keeps_def)

lemma keeps_trans: "keeps s t \<Longrightarrow> keeps t u \<Longrightarrow> keeps s u"
  by (auto simp: keeps_def)

abbreviation frame :: "('e, 'f, 'h, 'w) fstate \<Rightarrow> ('a, ('e, 'f, 'h, 'w) fstate) outcome \<Rightarrow> bool" where
  "frame s m \<equiv> leaves (keeps s) m"

interpretation kept: body_streams "keeps a" E for a :: "('e, 'f, 'h, 'w) fstate" and E
  by unfold_locales (auto simp: keeps_def pending_reads_def set_host_def NativeStreamSource_create_def)

subsection \<open>The invariant\<close>

definition body_inv :: "('e, 'f, 'h, 'w) fstate \<Rightarrow> bool" where
  "body_inv s \<longleftrightarrow> distinct (pending_reads s)
     \<and> (\<forall>i\<in>set (pending_reads s). i < length (rrs s) \<and> rr_body_used (rrs s ! i)
          \<and> (\<exists>p. rr_body_promise (rrs s ! i) = Some p \<and> promises s ! p = PPending))
     \<and> (\<forall>i p. i < length (rrs s) \<and> rr_body_promise (rrs s ! i) = Some p \<longrightarrow> p < length (promises s))
     \<and> (\<forall>i j p. i < length (rrs s) \<and> j < length (rrs s) \<and> rr_body_promise (rrs s ! i) = Some p
          \<and> rr_body_promise (rrs s ! j) = Some p \<longrightarrow> i = j)
     \<and> (\<forall>i p. i < length (rrs s) \<and> rr_response_promise (rrs s ! i) = Some p \<longrightarrow> p < length (promises s))
     \<and> (\<forall>i j p. i < length (rrs s) \<and> j < length (rrs s) \<and> rr_response_promise (rrs s ! i) = Some p \<longrightarrow>
          rr_body_promise (rrs s ! j) \<noteq> Some p)"

lemma body_invI:
  assumes "distinct (pending_reads s)"
    and "\<And>i. i \<in> set (pending_reads s) \<Longrightarrow> i < length (rrs s) \<and> rr_body_used (rrs s ! i)
          \<and> (\<exists>p. rr_body_promise (rrs s ! i) = Some p \<and> promises s ! p = PPending)"
    and "\<And>i p. i < length (rrs s) \<Longrightarrow> rr_body_promise (rrs s ! i) = Some p \<Longrightarrow> p < length (promises s)"
    and "\<And>i j p. i < length (rrs s) \<Longrightarrow> j < length (rrs s) \<Longrightarrow> rr_body_promise (rrs s ! i) = Some p
          \<Longrightarrow> rr_body_promise (rrs s ! j) = Some p \<Longrightarrow> i = j"
    and "\<And>i p. i < length (rrs s) \<Longrightarrow> rr_response_promise (rrs s ! i) = Some p \<Longrightarrow> p < length (promises s)"
    and "\<And>i j p. i < length (rrs s) \<Longrightarrow> j < length (rrs s) \<Longrightarrow> rr_response_promise (rrs s ! i) = Some p
          \<Longrightarrow> rr_body_promise (rrs s ! j) \<noteq> Some p"
  shows "body_inv s"
  unfolding body_inv_def using assms by blast

lemma body_invD:
  assumes "body_inv s"
  shows "distinct (pending_reads s)"
    and "i \<in> set (pending_reads s) \<Longrightarrow> i < length (rrs s)"
    and "i \<in> set (pending_reads s) \<Longrightarrow> rr_body_used (rrs s ! i)"
    and "i \<in> set (pending_reads s) \<Longrightarrow> \<exists>p. rr_body_promise (rrs s ! i) = Some p \<and> promises s ! p = PPending"
    and "i < length (rrs s) \<Longrightarrow> rr_body_promise (rrs s ! i) = Some p \<Longrightarrow> p < length (promises s)"
    and "i < length (rrs s) \<Longrightarrow> j < length (rrs s) \<Longrightarrow> rr_body_promise (rrs s ! i) = Some p
          \<Longrightarrow> rr_body_promise (rrs s ! j) = Some p \<Longrightarrow> i = j"
    and "i < length (rrs s) \<Longrightarrow> rr_response_promise (rrs s ! i) = Some p \<Longrightarrow> p < length (promises s)"
    and "i < length (rrs s) \<Longrightarrow> j < length (rrs s) \<Longrightarrow> rr_response_promise (rrs s ! i) = Some p
          \<Longrightarrow> rr_body_promise (rrs s ! j) \<noteq> Some p"
  using assms unfolding body_inv_def by blast+

text \<open>A promise that is settled, or that a read in progress will settle.\<close>

definition covered :: "('e, 'f, 'h, 'w) fstate \<Rightarrow> nat \<Rightarrow> bool" where
  "covered s p \<longleftrightarrow> p < length (promises s)
     \<and> (promises s ! p \<noteq> PPending \<or> (\<exists>i\<in>set (pending_reads s). rr_body_promise (rrs s ! i) = Some p))"

definition progresses :: "('e, 'f, 'h, 'w) fstate \<Rightarrow> ('e, 'f, 'h, 'w) fstate \<Rightarrow> bool" where
  "progresses s s' \<longleftrightarrow> body_inv s' \<and> (\<forall>q. covered s q \<longrightarrow> covered s' q)
     \<and> (\<forall>q. q < length (promises s) \<and> promises s ! q \<noteq> PPending \<longrightarrow> promises s' ! q = promises s ! q)
     \<and> length (promises s) \<le> length (promises s')"

lemma progresses_refl: "body_inv s \<Longrightarrow> progresses s s"
  by (simp add: progresses_def)

lemma progresses_trans: "progresses s t \<Longrightarrow> progresses t u \<Longrightarrow> progresses s u"
  by (auto simp: progresses_def)

lemma keeps_progresses: "keeps s t \<Longrightarrow> body_inv s \<Longrightarrow> progresses s t"
  unfolding progresses_def covered_def keeps_def by (auto intro!: body_invI dest: body_invD)

lemma frame_progresses:
  "frame s m \<Longrightarrow> body_inv s \<Longrightarrow> m = Ok x s' \<or> m = Throw e s' \<Longrightarrow> progresses s s'"
  by (auto intro: keeps_progresses)

text \<open>A read that goes on.\<close>

lemma resume_progresses:
  assumes "body_inv s" "mset (pending_reads t) = mset (pending_reads s)" "rrs t = rrs s" "promises t = promises s"
  shows "progresses s t"
proof -
  have st: "set (pending_reads t) = set (pending_reads s)" "distinct (pending_reads t) = distinct (pending_reads s)"
    using assms(2) by (metis set_mset_mset, metis mset_eq_imp_distinct_iff)
  have "body_inv t" using assms(1) unfolding body_inv_def st assms(3,4) .
  then show ?thesis unfolding progresses_def covered_def st assms(3,4) by simp
qed

text \<open>A read that settles its promise.\<close>

lemma settle_progresses:
  assumes inv: "body_inv s" and m: "mset (pending_reads s) = add_mset i (mset (pending_reads t))"
    and p: "rr_body_promise (rrs s ! i) = Some p" and v: "v \<noteq> PPending"
    and t: "rrs t = (rrs s)[i := (rrs s ! i)\<lparr>rr_body_promise := None\<rparr>]" "promises t = (promises s)[p := v]"
  shows "progresses s t"
proof -
  have st: "set (pending_reads s) = insert i (set (pending_reads t))"
    using m by (metis set_mset_add_mset_insert set_mset_mset)
  have d: "distinct (i # pending_reads t)"
    using body_invD(1) [OF inv] m by (metis mset.simps(2) mset_eq_imp_distinct_iff)
  have i: "i < length (rrs s)" using body_invD(2) [OF inv] st by simp
  then have pl: "p < length (promises s)" using body_invD(5) [OF inv _ p] by simp
  have nth: "rrs t ! j = (if j = i then (rrs s ! i)\<lparr>rr_body_promise := None\<rparr> else rrs s ! j)" for j
    using i by (simp add: t(1) nth_list_update)
  have np: "promises t ! q = (if q = p then v else promises s ! q)" for q
    using pl by (simp add: t(2) nth_list_update)
  have "body_inv t"
  proof (rule body_invI)
    fix j assume j: "j \<in> set (pending_reads t)"
    from j d have ne: "j \<noteq> i" by auto
    from j st have js: "j \<in> set (pending_reads s)" by simp
    from body_invD(4) [OF inv js] obtain q where q: "rr_body_promise (rrs s ! j) = Some q" "promises s ! q = PPending"
      by blast
    from body_invD(6) [OF inv body_invD(2) [OF inv js] i _ p] q(1) ne have "q \<noteq> p" by blast
    then show "j < length (rrs t) \<and> rr_body_used (rrs t ! j)
        \<and> (\<exists>q. rr_body_promise (rrs t ! j) = Some q \<and> promises t ! q = PPending)"
      using q ne nth np t(1) body_invD(2,3) [OF inv js] by simp
  next
    show "distinct (pending_reads t)" using d by simp
  next
    fix j q assume "j < length (rrs t)" "rr_body_promise (rrs t ! j) = Some q"
    then show "q < length (promises t)" using nth t body_invD(5) [OF inv, of j q] by (auto split: if_splits)
  next
    fix j k q assume "j < length (rrs t)" "k < length (rrs t)" "rr_body_promise (rrs t ! j) = Some q"
      "rr_body_promise (rrs t ! k) = Some q"
    then show "j = k" using nth t(1) body_invD(6) [OF inv, of j k q] by (auto split: if_splits)
  next
    fix j q assume "j < length (rrs t)" "rr_response_promise (rrs t ! j) = Some q"
    then show "q < length (promises t)" using nth t body_invD(7) [OF inv, of j q] by (auto split: if_splits)
  next
    fix j k q assume "j < length (rrs t)" "k < length (rrs t)" "rr_response_promise (rrs t ! j) = Some q"
    then show "rr_body_promise (rrs t ! k) \<noteq> Some q"
      using nth t(1) body_invD(8) [OF inv, of j k q] by (auto split: if_splits)
  qed
  moreover have "covered t q" if c: "covered s q" for q
  proof (cases "q = p")
    case True
    then show ?thesis using pl v np t(2) by (simp add: covered_def)
  next
    case False
    have "promises s ! q \<noteq> PPending \<or> (\<exists>j\<in>set (pending_reads t). rr_body_promise (rrs s ! j) = Some q)"
      using c p st False by (auto simp: covered_def)
    moreover have "rr_body_promise (rrs t ! j) = rr_body_promise (rrs s ! j)" if "j \<in> set (pending_reads t)" for j
      using that d nth by auto
    ultimately show ?thesis using c np t(2) False by (auto simp: covered_def)
  qed
  moreover have "promises s ! p = PPending"
    using body_invD(4) [OF inv, of i] st p by auto
  ultimately show ?thesis using np t(2) by (auto simp: progresses_def)
qed

text \<open>A read that starts.\<close>

lemma start_progresses:
  assumes inv: "body_inv s" and i: "i < length (rrs s)" "\<not> rr_body_used (rrs s ! i)"
    and t: "length (rrs t) = length (rrs s)" "promises t = promises s @ [v]"
      "\<And>j. rr_body_promise (rrs t ! j) = (if j = i then q else rr_body_promise (rrs s ! j))"
      "\<And>j. rr_response_promise (rrs t ! j) = rr_response_promise (rrs s ! j)"
      "\<And>j. rr_body_used (rrs s ! j) \<Longrightarrow> rr_body_used (rrs t ! j)"
    and q: "q = None \<or> q = Some (length (promises s))"
    and read: "pending_reads t = pending_reads s
      \<or> mset (pending_reads t) = add_mset i (mset (pending_reads s)) \<and> v = PPending \<and> q \<noteq> None \<and> rr_body_used (rrs t ! i)"
  shows "progresses s t"
proof -
  have ni: "i \<notin> set (pending_reads s)" using body_invD(3) [OF inv] i(2) by blast
  have np: "q' < length (promises s) \<Longrightarrow> promises t ! q' = promises s ! q'" for q'
    by (simp add: t(2) nth_append)
  have pt: "set (pending_reads t) = set (pending_reads s)
      \<or> set (pending_reads t) = insert i (set (pending_reads s)) \<and> v = PPending \<and> q \<noteq> None \<and> rr_body_used (rrs t ! i)"
    using read by (metis set_mset_add_mset_insert set_mset_mset)
  have d: "distinct (pending_reads t)"
    using body_invD(1) [OF inv] ni read
    by (metis distinct.simps(2) mset.simps(2) mset_eq_imp_distinct_iff)
  have new: "rr_body_promise (rrs t ! i) = Some (length (promises s))" "promises t ! length (promises s) = PPending"
    if "q \<noteq> None" "v = PPending" using that q t(2,3) by auto
  have "body_inv t"
  proof (rule body_invI)
    fix j assume j: "j \<in> set (pending_reads t)"
    show "j < length (rrs t) \<and> rr_body_used (rrs t ! j)
        \<and> (\<exists>q. rr_body_promise (rrs t ! j) = Some q \<and> promises t ! q = PPending)"
    proof (cases "j \<in> set (pending_reads s)")
      case True
      from body_invD(4) [OF inv True] obtain q' where q': "rr_body_promise (rrs s ! j) = Some q'" "promises s ! q' = PPending"
        by blast
      have "q' < length (promises s)" using body_invD(5) [OF inv body_invD(2) [OF inv True] q'(1)] .
      moreover have "j \<noteq> i" using True ni by blast
      ultimately show ?thesis using t q' np body_invD(2,3) [OF inv True] by auto
    next
      case False
      then show ?thesis using j pt i(1) t(1) new by auto
    qed
  next
    fix j p assume "j < length (rrs t)" "rr_body_promise (rrs t ! j) = Some p"
    then show "p < length (promises t)" using t(1-3) q body_invD(5) [OF inv, of j p] by (auto split: if_splits)
  next
    fix j k p assume "j < length (rrs t)" "k < length (rrs t)" "rr_body_promise (rrs t ! j) = Some p"
      "rr_body_promise (rrs t ! k) = Some p"
    then show "j = k"
      using t(1-3) q body_invD(5) [OF inv, of j p] body_invD(5) [OF inv, of k p] body_invD(6) [OF inv, of j k p]
      by (auto split: if_splits)
  next
    fix j p assume "j < length (rrs t)" "rr_response_promise (rrs t ! j) = Some p"
    then show "p < length (promises t)" using t(1,2,4) body_invD(7) [OF inv, of j p] by auto
  next
    fix j k p assume "j < length (rrs t)" "k < length (rrs t)" "rr_response_promise (rrs t ! j) = Some p"
    then show "rr_body_promise (rrs t ! k) \<noteq> Some p"
      using t(1,3,4) q body_invD(7) [OF inv, of j p] body_invD(8) [OF inv, of j k p] by (auto split: if_splits)
  qed (rule d)
  moreover have "covered t p" if c: "covered s p" for p
  proof -
    have l: "p < length (promises s)" using c by (simp add: covered_def)
    consider "promises s ! p \<noteq> PPending" | j where "j \<in> set (pending_reads s)" "rr_body_promise (rrs s ! j) = Some p"
      using c by (auto simp: covered_def)
    then show ?thesis
    proof cases
      case 1
      then show ?thesis using l np t(2) by (simp add: covered_def)
    next
      case 2
      then have "j \<noteq> i" "j \<in> set (pending_reads t)" using ni pt by auto
      then show ?thesis using 2 l t(2,3) unfolding covered_def by auto
    qed
  qed
  ultimately show ?thesis using np t(2) by (simp add: progresses_def)
qed

subsection \<open>The operations preserve it\<close>

text \<open>What the streams of the engine promise: a reader is given exactly when the stream is not
  locked and locks it, sources do not change, and a read gives a promise.\<close>

definition streams_laws :: "'e streams_engine \<Rightarrow> bool" where
  "streams_laws R \<longleftrightarrow>
     (\<forall>st e. rs_get_reader R st e = None \<longleftrightarrow> rs_locked R st e)
   \<and> (\<forall>st e r e'. rs_get_reader R st e = Some (r, e') \<longrightarrow> rs_locked R st e')
   \<and> (\<forall>r e. rs_read R r e \<noteq> None)"

lemma mset_reads_remove:
  assumes "k < length l"
  shows "mset (reads_of l) = mset (reading_self (snd (l ! k))) + mset (reads_of (take k l @ drop (Suc k) l))"
proof -
  have "reads_of l = reads_of (take k l @ l ! k # drop (Suc k) l)"
    using id_take_nth_drop [OF assms] by simp
  then show ?thesis by simp
qed

lemma mset_jobs_remove:
  assumes "k < length l"
  shows "mset (map f l) = add_mset (f (l ! k)) (mset (map f (take k l @ drop (Suc k) l)))"
proof -
  have "map f l = map f (take k l @ l ! k # drop (Suc k) l)"
    using id_take_nth_drop [OF assms] by simp
  then show ?thesis by simp
qed

definition after :: "('a, ('e, 'f, 'h, 'w) fstate) outcome \<Rightarrow> ('e, 'f, 'h, 'w) fstate option" where
  "after m = (case m of Ok _ s \<Rightarrow> Some s | Throw _ s \<Rightarrow> Some s | _ \<Rightarrow> None)"

lemma after_simps [simp]:
  "after (Ok x s) = Some s" "after (Throw e s) = Some s" "after Crash = None" "after Loops = None"
  by (simp_all add: after_def)

lemma frame_after: "frame s m \<Longrightarrow> body_inv s \<Longrightarrow> after m = Some s' \<Longrightarrow> progresses s s'"
  by (cases m) (auto intro: keeps_progresses)

text \<open>Settling: \<open>s0\<close> has the read that \<open>s\<close> no longer has.\<close>

lemma settled_read:
  assumes inv: "body_inv s0" and m: "mset (pending_reads s0) = add_mset i (mset (pending_reads s))"
    and s: "rrs s = rrs s0" "promises s = promises s0"
    and p: "rr_body_promise (rrs s ! i) = Some p" and v: "v \<noteq> PPending"
  shows "progresses s0 (settle_promise p v (upd_rr i (\<lambda>r. r\<lparr>rr_body_promise := None\<rparr>) s))"
proof -
  have "i \<in> set (pending_reads s0)" using m by (metis set_mset_mset set_mset_add_mset_insert insertI1)
  then have "promises s ! p = PPending" using body_invD(4) [OF inv, of i] p s by auto
  then show ?thesis
    using p s m by (intro settle_progresses [OF inv _ _ v, of i _ p])
      (simp_all add: settle_promise_def pending_reads_def upd_rr_def)
qed

lemma parse_body_progresses:
  assumes "body_inv s0" "mset (pending_reads s0) = add_mset i (mset (pending_reads s))"
    "rrs s = rrs s0" "promises s = promises s0" "after (parse_body E kind i bytes s) = Some t"
  shows "progresses s0 t"
proof -
  from assms(5) obtain p v where "rr_body_promise (rrs s ! i) = Some p" "v \<noteq> PPending"
    "t = settle_promise p v (upd_rr i (\<lambda>r. r\<lparr>rr_body_promise := None\<rparr>) s)"
    by (cases "rr_body_promise (rrs s ! i)")
      (auto simp: parse_body_def Let_def split: body_read_result.splits option.splits if_splits)
  with settled_read [OF assms(1-4)] show ?thesis by blast
qed

lemma reject_body_progresses:
  assumes "body_inv s0" "mset (pending_reads s0) = add_mset i (mset (pending_reads s))"
    "rrs s = rrs s0" "promises s = promises s0" "after (reject_body_promise i err s) = Some t"
  shows "progresses s0 t"
  using assms(5) settled_read [OF assms(1-4)] by (auto simp: reject_body_promise_def split: option.splits)

lemma read_next_progresses:
  assumes "streams_laws (rs E)" "body_inv s0" "mset (pending_reads s0) = add_mset (rd_self rd) (mset (pending_reads s))"
    "rrs s = rrs s0" "promises s = promises s0" "after (read_next E reader (ReadAll rd) s) = Some t"
  shows "progresses s0 t"
proof -
  have "rs_read (rs E) reader (eng s) \<noteq> None" using assms(1) by (simp add: streams_laws_def)
  then obtain p e where "t = s\<lparr>eng := e, reactions := reactions s @ [(p, ReadAll rd)]\<rparr>"
    using assms(6) by (auto simp: read_next_def)
  then show ?thesis
    using assms(2-5) by (intro resume_progresses) (simp_all add: pending_reads_def)
qed

lemma then_handler_progresses:
  assumes "streams_laws (rs E)" "body_inv s0" "mset (pending_reads s0) = add_mset (rd_self rd) (mset (pending_reads s))"
    "rrs s = rrs s0" "promises s = promises s0"
    "after (content_stream_read_then_handler E rd arg s) = Some t"
  shows "progresses s0 t"
  using assms(6)
  by (auto simp: content_stream_read_then_handler_def split: option.splits chunk.splits
      intro: parse_body_progresses [OF assms(2-5)] reject_body_progresses [OF assms(2-5)]
        read_next_progresses [OF assms(1,2), of "rd\<lparr>rd_contents := c\<rparr>" for c] simp: assms(3-5))

lemma pending_without_reaction:
  "k < length (reactions s) \<Longrightarrow> mset (pending_reads s) = mset (reading_self (snd (reactions s ! k)))
     + mset (pending_reads (s\<lparr>reactions := take k (reactions s) @ drop (Suc k) (reactions s)\<rparr>))"
  by (simp add: pending_reads_def mset_reads_remove [of k "reactions s"])

lemma pending_without_job:
  "k < length (jobs s) \<Longrightarrow> mset (pending_reads s) = add_mset (job_self (jobs s ! k))
     (mset (pending_reads (s\<lparr>jobs := take k (jobs s) @ drop (Suc k) (jobs s)\<rparr>)))"
  using mset_jobs_remove [of k "jobs s" job_self] by (simp add: pending_reads_def)

lemma run_job_progresses:
  assumes laws: "streams_laws (rs E)" and inv: "body_inv s" and k: "k < length (jobs s)"
    and "after (fb_run_job E k s) = Some t"
  shows "progresses s t"
proof -
  let ?s = "s\<lparr>jobs := take k (jobs s) @ drop (Suc k) (jobs s)\<rparr>"
  obtain i stream kind where j: "jobs s ! k = ConsumeStream i stream kind" by (cases "jobs s ! k")
  have m: "mset (pending_reads s) = add_mset i (mset (pending_reads ?s))"
    using pending_without_job [OF k] j by (simp add: job_self_def)
  have c: "after (consume_content_stream_for_bodyAll E i stream kind ?s) = Some t"
    using assms(4) j by (simp add: fb_run_job_def Let_def)
  show ?thesis
  proof (cases "body_unusable E stream ?s")
    case True
    then show ?thesis
      using c reject_body_progresses [OF inv m] by (simp add: consume_content_stream_for_bodyAll_def)
  next
    case False
    then have "rs_get_reader (rs E) stream (eng ?s) \<noteq> None"
      using laws by (simp add: streams_laws_def body_unusable_def)
    then obtain reader e where r: "rs_get_reader (rs E) stream (eng s) = Some (reader, e)" by auto
    let ?rd = "\<lparr>rd_self = i, rd_reader = reader, rd_stream = stream, rd_contents = [], rd_parser = kind\<rparr>"
    have "after (read_next E reader (ReadAll ?rd) (?s\<lparr>eng := e\<rparr>)) = Some t"
      using c False r by (simp add: consume_content_stream_for_bodyAll_def)
    then show ?thesis
      using m by (intro read_next_progresses [OF laws inv, of ?rd]) (simp_all add: pending_reads_def)
  qed
qed

text \<open>Settling the promise of a response does not touch the reads.\<close>

lemma settle_response_progresses:
  assumes inv: "body_inv u" and i: "i < length (rrs u)" and p: "rr_response_promise (rrs u ! i) = Some p"
    and v: "v \<noteq> PPending"
  shows "progresses u (settle_promise p v u)"
proof -
  let ?t = "settle_promise p v u"
  have pl: "p < length (promises u)" using body_invD(7) [OF inv i p] .
  have other: "rr_body_promise (rrs u ! j) \<noteq> Some p" if "j < length (rrs u)" for j
    using body_invD(8) [OF inv i that p] .
  have np: "promises ?t ! q = (if q = p \<and> promises u ! p = PPending then v else promises u ! q)" for q
    using pl by (simp add: settle_promise_def nth_list_update)
  have same: "rrs ?t = rrs u" "pending_reads ?t = pending_reads u" "length (promises ?t) = length (promises u)"
    by (simp_all add: settle_promise_def pending_reads_def)
  have "body_inv ?t"
  proof (rule body_invI)
    fix j assume "j \<in> set (pending_reads ?t)"
    then have j: "j \<in> set (pending_reads u)" using same by simp
    from body_invD(4) [OF inv j] obtain q where q: "rr_body_promise (rrs u ! j) = Some q" "promises u ! q = PPending" by blast
    with other [of j] body_invD(2) [OF inv j] have "q \<noteq> p" by auto
    with q body_invD(2,3) [OF inv j] np same
    show "j < length (rrs ?t) \<and> rr_body_used (rrs ?t ! j) \<and> (\<exists>q. rr_body_promise (rrs ?t ! j) = Some q \<and> promises ?t ! q = PPending)"
      by simp
  next
    fix j k q assume "j < length (rrs ?t)" "k < length (rrs ?t)" "rr_body_promise (rrs ?t ! j) = Some q" "rr_body_promise (rrs ?t ! k) = Some q"
    then show "j = k" using same body_invD(6) [OF inv, of j k q] by simp
  next
    fix j k q assume "j < length (rrs ?t)" "k < length (rrs ?t)" "rr_response_promise (rrs ?t ! j) = Some q"
    then show "rr_body_promise (rrs ?t ! k) \<noteq> Some q" using same body_invD(8) [OF inv, of j k q] by simp
  qed (use same body_invD(1,5,7) [OF inv] in simp_all)
  moreover have "covered ?t q" if "covered u q" for q
    using that same np v unfolding covered_def by auto
  ultimately show ?thesis using np same by (simp add: progresses_def)
qed

lemma body_reader_progresses:
  assumes inv: "body_inv s" and i: "i < length (rrs s)"
    and a: "after (body_reader_then_handler E i reader arg s) = Some t"
  shows "progresses s t"
proof (cases "arg \<noteq> Some NotUint8Array \<or> \<not> is_request i s")
  case True
  then show ?thesis using frame_after [OF kept.finish_body [OF keeps_refl True] inv a] by blast
next
  case False
  from a False obtain b u where u: "outgoing_body_handle E i s = Ok b u"
    by (cases "outgoing_body_handle E i s") (auto simp: body_reader_then_handler_def outgoing_body_handle_def split: outcome_splits)
  then have k: "keeps s u" using kept.outgoing_body [of s s E i] by simp
  have inv': "body_inv u" using keeps_progresses [OF k inv] by (simp add: progresses_def)
  have req: "is_request i u" using False u
    by (auto simp: outgoing_body_handle_def is_request_def set_host_def split: outcome_splits if_splits)
  with a False u obtain p where p: "rr_response_promise (rrs u ! i) = Some p"
    "t = settle_promise p (PRejected (ReportError ''TypeError'')) u"
    by (auto simp: body_reader_then_handler_def split: option.splits)
  have "i < length (rrs u)" using k i by (simp add: keeps_def)
  from settle_response_progresses [OF inv' this p(1)] show ?thesis
    using keeps_progresses [OF k inv] p(2) by (auto intro: progresses_trans)
qed

lemma append_promise_progresses:
  assumes "body_inv s" and k: "rrs t = rrs s" "pending_reads t = pending_reads s" "promises t = promises s @ [v]"
  shows "progresses s t"
proof -
  have np: "q < length (promises s) \<Longrightarrow> promises t ! q = promises s ! q" for q
    by (simp add: k(3) nth_append)
  have "body_inv t"
  proof (rule body_invI)
    fix j assume "j \<in> set (pending_reads t)"
    then have j: "j \<in> set (pending_reads s)" using k by simp
    from body_invD(4) [OF assms(1) j] obtain q where q: "rr_body_promise (rrs s ! j) = Some q" "promises s ! q = PPending" by blast
    with body_invD(5) [OF assms(1) body_invD(2) [OF assms(1) j] q(1)] np body_invD(2,3) [OF assms(1) j] k
    show "j < length (rrs t) \<and> rr_body_used (rrs t ! j) \<and> (\<exists>q. rr_body_promise (rrs t ! j) = Some q \<and> promises t ! q = PPending)"
      by auto
  next
    fix j q assume "j < length (rrs t)" "rr_body_promise (rrs t ! j) = Some q"
    then show "q < length (promises t)" using k body_invD(5) [OF assms(1), of j q] by simp
  next
    fix j q assume "j < length (rrs t)" "rr_response_promise (rrs t ! j) = Some q"
    then show "q < length (promises t)" using k body_invD(7) [OF assms(1), of j q] by simp
  next
    fix i j q assume "i < length (rrs t)" "j < length (rrs t)" "rr_response_promise (rrs t ! i) = Some q"
    then show "rr_body_promise (rrs t ! j) \<noteq> Some q" using k body_invD(8) [OF assms(1), of i j q] by simp
  next
    fix i j q assume "i < length (rrs t)" "j < length (rrs t)" "rr_body_promise (rrs t ! i) = Some q" "rr_body_promise (rrs t ! j) = Some q"
    then show "i = j" using k body_invD(6) [OF assms(1), of i j q] by simp
  qed (use k body_invD(1) [OF assms(1)] in simp)
  then show ?thesis using np k by (auto simp: progresses_def covered_def)
qed

lemma mark_body_used_sets:
  assumes "after (mark_body_used E i s) = Some t" "i < length (rrs s)"
  shows "rr_body_used (rrs t ! i)"
proof -
  let ?u = "upd_rr i (rr_body_used_update (\<lambda>_. True)) s"
  have "rr_body_used (rrs ?u ! i)" using assms(2) by simp
  moreover have "frame ?u (mark_body_used E i s)"
    by (rule kept.mark_used_after) simp
  then have "keeps ?u t" using assms(1) by (cases "mark_body_used E i s") auto
  ultimately show ?thesis by (simp add: keeps_def)
qed

text \<open>\<open>bodyAll\<close> hands out a promise that is covered.\<close>

lemma bodyAll_progresses:
  assumes inv: "body_inv s" and i: "i < length (rrs s)" and a: "after (bodyAll E kind i s) = Some t"
  shows "progresses s t \<and> (\<forall>p u. bodyAll E kind i s = Ok p u \<longrightarrow> covered u p \<and> length (promises s) \<le> p)"
proof (cases "rr_body_used (rrs s ! i)")
  case True
  then have b: "bodyAll E kind i s = Ok (length (promises s)) t \<and> t = s\<lparr>promises := promises s @
      [PRejected (ReportError ''Body has already been consumed'')]\<rparr>"
    using a by (simp add: bodyAll_def rejected_promise_def)
  then show ?thesis
    using append_promise_progresses [OF inv, of t] by (auto simp: pending_reads_def covered_def)
next
  case unused: False
  let ?p = "length (promises s)"
  define s1 where "s1 = upd_rr i (\<lambda>r. r\<lparr>rr_body_promise := Some ?p\<rparr>) (s\<lparr>promises := promises s @ [PPending]\<rparr>)"
  have s1: "length (rrs s1) = length (rrs s)" "promises s1 = promises s @ [PPending]" "pending_reads s1 = pending_reads s"
    "jobs s1 = jobs s" "reactions s1 = reactions s"
    "rr_body_promise (rrs s1 ! j) = (if j = i then Some ?p else rr_body_promise (rrs s ! j))"
    "rr_response_promise (rrs s1 ! j) = rr_response_promise (rrs s ! j)"
    "rr_body_used (rrs s1 ! j) = rr_body_used (rrs s ! j)" "rr_has_body (rrs s1 ! j) = rr_has_body (rrs s ! j)" for j
    using i by (simp_all add: s1_def upd_rr_def pending_reads_def nth_list_update)
  have started: "progresses s u" if k: "keeps s1 u" for u
    using k s1 by (intro start_progresses [OF inv i unused, of _ PPending "Some ?p"]) (auto simp: keeps_def)
  show ?thesis
  proof (cases "rr_has_body (rrs s ! i)")
    case False
    define v where "v = (case kind of ArrayBuffer \<Rightarrow> PFulfilled (VBuffer [])
        | Text \<Rightarrow> if utf8_ok E [] then PFulfilled (VText []) else PRejected PendingException
        | JSON \<Rightarrow> if \<not> utf8_ok E [] then PRejected PendingException
            else (case json_parse E [] of None \<Rightarrow> PRejected PendingException | Some j \<Rightarrow> PFulfilled (VJson j)))"
    have v: "v \<noteq> PPending" by (auto simp: v_def split: body_read_result.split option.split)
    have b: "bodyAll E kind i s = Ok ?p (settle_promise ?p v (upd_rr i (\<lambda>r. r\<lparr>rr_body_promise := None\<rparr>) s1))"
      using unused False s1(6) [of i] s1(9) [of i]
      by (simp add: bodyAll_def new_pending_promise_def s1_def [symmetric] parse_body_def Let_def v_def)
    then have t: "t = settle_promise ?p v (upd_rr i (\<lambda>r. r\<lparr>rr_body_promise := None\<rparr>) s1)" using a by simp
    have pt: "promises t = promises s @ [v]"
      using s1(2) by (simp add: t settle_promise_def)
    have rt: "rrs t = rrs (upd_rr i (\<lambda>r. r\<lparr>rr_body_promise := None\<rparr>) s1)" "pending_reads t = pending_reads s"
      using s1(3) by (simp_all add: t settle_promise_def pending_reads_def)
    have "progresses s t"
      using s1 i rt pt by (intro start_progresses [OF inv i unused, of _ v None]) auto
    then show ?thesis using b t v pt by (auto simp: covered_def)
  next
    case has: True
    have b: "bodyAll E kind i s = (case mark_body_used E i s1 of
        Throw err u \<Rightarrow> rejected_promise err u
      | Crash \<Rightarrow> Crash | Loops \<Rightarrow> Loops
      | Ok _ u \<Rightarrow> out_bind (case rr_body_stream (rrs u ! i) of Some stream \<Rightarrow> Ok stream u | None \<Rightarrow> create_body_stream E i u)
          (\<lambda>stream u. Ok ?p (u\<lparr>jobs := jobs u @ [ConsumeStream i stream kind]\<rparr>)))"
      using unused has s1(9) [of i]
      by (simp add: bodyAll_def new_pending_promise_def s1_def [symmetric] Let_def cong: outcome.case_cong)
    show ?thesis
    proof (cases "mark_body_used E i s1")
      case (Throw err u)
      have k: "keeps s1 u" using kept.mark_used [of s1 s1 E i] Throw by simp
      have bt: "bodyAll E kind i s = Ok (length (promises u)) t" "t = u\<lparr>promises := promises u @ [PRejected err]\<rparr>"
        using b Throw a by (simp_all add: rejected_promise_def)
      have "progresses u t"
        using started [OF k] bt(2) by (intro append_promise_progresses) (simp_all add: progresses_def pending_reads_def)
      moreover have "length (promises s) \<le> length (promises u)" using started [OF k] by (simp add: progresses_def)
      ultimately show ?thesis
        using progresses_trans [OF started [OF k]] bt by (simp add: covered_def)
    next
      case (Ok x u)
      have k: "keeps s1 u" using kept.mark_used [of s1 s1 E i] Ok by simp
      have used: "rr_body_used (rrs u ! i)" using mark_body_used_sets [of E i s1 u] Ok i s1(1) by simp
      define m where "m = (case rr_body_stream (rrs u ! i) of Some stream \<Rightarrow> Ok stream u | None \<Rightarrow> create_body_stream E i u)"
      have "i < length (rrs u)" using k i s1(1) by (simp add: keeps_def)
      then have fm: "frame u m" by (simp add: m_def split: option.split)
      have bm: "bodyAll E kind i s = out_bind m (\<lambda>stream u. Ok ?p (u\<lparr>jobs := jobs u @ [ConsumeStream i stream kind]\<rparr>))"
        using b Ok by (simp add: m_def)
      show ?thesis
      proof (cases m)
        case (Throw err w)
        then have "keeps s1 t" using fm bm a k by (auto intro: keeps_trans)
        then show ?thesis using started bm Throw by simp
      next
        case Okm: (Ok stream w)
        then have kw: "keeps s1 w" "keeps u w" using fm k by (auto intro: keeps_trans)
        have bt: "bodyAll E kind i s = Ok ?p t" "t = w\<lparr>jobs := jobs w @ [ConsumeStream i stream kind]\<rparr>"
          using bm Okm a by simp_all
        have mt: "mset (pending_reads t) = add_mset i (mset (pending_reads s))"
        proof -
          have "pending_reads w = pending_reads s" using kw(1) s1(3) by (simp add: keeps_def)
          moreover have "mset (pending_reads t) = add_mset i (mset (pending_reads w))"
            using bt(2) by (simp add: pending_reads_def job_self_def)
          ultimately show ?thesis by simp
        qed
        have it: "i \<in> set (pending_reads t)" using mt by (metis set_mset_mset set_mset_add_mset_insert insertI1)
        have ut: "rr_body_used (rrs t ! i)" using used kw(2) bt(2) by (simp add: keeps_def)
        have "progresses s t"
          using kw(1) s1 bt(2) mt ut
          by (intro start_progresses [OF inv i unused, of _ PPending "Some ?p"]) (auto simp: keeps_def)
        moreover have "covered t ?p"
          using kw(1) s1 bt(2) it unfolding covered_def keeps_def by auto
        ultimately show ?thesis using bt(1) by simp
      qed (use a bm in simp_all)
    qed (use a b in simp_all)
  qed
qed

subsection \<open>The state machine\<close>

inductive fb_step :: "('e, 'f, 'h, 'w) fetch_env \<Rightarrow> ('e, 'f, 'h, 'w) fstate \<Rightarrow> ('e, 'f, 'h, 'w) fstate \<Rightarrow> bool" for E where
  Script_body_all: "i < length (rrs s) \<Longrightarrow> after (bodyAll E kind i s) = Some t \<Longrightarrow> fb_step E s t"
| Script_body: "i < length (rrs s) \<Longrightarrow> after (body_get E i create s) = Some t \<Longrightarrow> fb_step E s t"
| Script_pipe: "fb_step E s (pipeTo_prepare E stream target s)"
| Send_body: "after (maybe_stream_body E i s) = Some t \<Longrightarrow> fb_step E s t"
| New_object: "rr_body_promise r = None \<Longrightarrow> rr_response_promise r = None \<Longrightarrow> fb_step E s (s\<lparr>rrs := rrs s @ [r]\<rparr>)"
| Job: "k < length (jobs s) \<Longrightarrow> after (fb_run_job E k s) = Some t \<Longrightarrow> fb_step E s t"
| Reaction: "k < length (reactions s) \<Longrightarrow> after (fb_run_reaction E k res s) = Some t
    \<Longrightarrow> (\<And>j reader. snd (reactions s ! k) = SendBody j reader \<Longrightarrow> j < length (rrs s)) \<Longrightarrow> fb_step E s t"
| Pull: "after (NativeStreamSource_pull E src s) = Some t \<Longrightarrow> fb_step E s t"
| Task: "after (BodyFutureTask_run E src s) = Some t \<Longrightarrow> fb_step E s t"
| World: "fb_step E s (s\<lparr>eng := e, world := w, obodies := b\<rparr>)"
| Event_loop: "set q \<subseteq> set (tasks s) \<union> range AppendTask \<Longrightarrow> fb_step E s (s\<lparr>tasks := q\<rparr>)"

lemma new_object_progresses:
  assumes inv: "body_inv s" and r: "rr_body_promise r = None" "rr_response_promise r = None"
  shows "progresses s (s\<lparr>rrs := rrs s @ [r]\<rparr>)"
proof -
  let ?t = "s\<lparr>rrs := rrs s @ [r]\<rparr>"
  have p: "pending_reads ?t = pending_reads s" by (simp add: pending_reads_def)
  have old: "j < length (rrs s)" "rrs ?t ! j = rrs s ! j" if "j \<in> set (pending_reads s)" for j
    using body_invD(2) [OF inv that] by (simp_all add: nth_append)
  have cases: "j < length (rrs s) \<and> rrs ?t ! j = rrs s ! j \<or> rrs ?t ! j = r" if "j < length (rrs ?t)" for j
    using that by (auto simp: nth_append less_Suc_eq)
  have "body_inv ?t"
  proof (rule body_invI)
    fix j assume "j \<in> set (pending_reads ?t)"
    then have j: "j \<in> set (pending_reads s)" using p by simp
    then show "j < length (rrs ?t) \<and> rr_body_used (rrs ?t ! j)
        \<and> (\<exists>p. rr_body_promise (rrs ?t ! j) = Some p \<and> promises ?t ! p = PPending)"
      using old [OF j] body_invD(3,4) [OF inv j] by auto
  next
    fix j q assume "j < length (rrs ?t)" "rr_body_promise (rrs ?t ! j) = Some q"
    then show "q < length (promises ?t)" using cases [of j] r body_invD(5) [OF inv, of j q] by auto
  next
    fix j k q assume "j < length (rrs ?t)" "k < length (rrs ?t)" "rr_body_promise (rrs ?t ! j) = Some q" "rr_body_promise (rrs ?t ! k) = Some q"
    then show "j = k" using cases [of j] cases [of k] r body_invD(6) [OF inv, of j k q] by auto
  next
    fix j q assume "j < length (rrs ?t)" "rr_response_promise (rrs ?t ! j) = Some q"
    then show "q < length (promises ?t)" using cases [of j] r body_invD(7) [OF inv, of j q] by auto
  next
    fix j k q assume "j < length (rrs ?t)" "k < length (rrs ?t)" "rr_response_promise (rrs ?t ! j) = Some q"
    then show "rr_body_promise (rrs ?t ! k) \<noteq> Some q"
      using cases [of j] cases [of k] r body_invD(8) [OF inv, of j k q] by auto
  qed (use p body_invD(1) [OF inv] in simp)
  then show ?thesis using p old by (auto simp: progresses_def covered_def)
qed

lemma run_reaction_progresses:
  assumes laws: "streams_laws (rs E)" and inv: "body_inv s" and k: "k < length (reactions s)"
    and a: "after (fb_run_reaction E k res s) = Some t"
    and send: "\<And>j reader. snd (reactions s ! k) = SendBody j reader \<Longrightarrow> j < length (rrs s)"
  shows "progresses s t"
proof -
  let ?s = "s\<lparr>reactions := take k (reactions s) @ drop (Suc k) (reactions s)\<rparr>"
  note m = pending_without_reaction [OF k]
  show ?thesis
  proof (cases "snd (reactions s ! k)")
    case (ReadAll rd)
    then have m': "mset (pending_reads s) = add_mset (rd_self rd) (mset (pending_reads ?s))" using m by simp
    have r: "rrs ?s = rrs s" "promises ?s = promises s" by simp_all
    show ?thesis
      using a ReadAll then_handler_progresses [OF laws inv m' r] reject_body_progresses [OF inv m' r]
      by (auto simp: fb_run_reaction_def content_stream_read_catch_handler_def Let_def split: read_result.splits)
  next
    case (SendBody j reader)
    have "progresses s ?s"
      using m SendBody by (intro resume_progresses [OF inv]) simp_all
    moreover from this have inv': "body_inv ?s" by (simp add: progresses_def)
    have "progresses ?s t"
      using a SendBody body_reader_progresses [OF inv', of j E reader] send [OF SendBody] progresses_refl [OF inv']
      by (auto simp: fb_run_reaction_def body_reader_catch_handler_def Let_def split: read_result.splits)
    ultimately show ?thesis by (rule progresses_trans)
  qed
qed

lemma fb_step_progresses:
  assumes laws: "streams_laws (rs E)" and "fb_step E s t" and inv: "body_inv s"
  shows "progresses s t"
  using assms(2)
proof cases
  case (Script_body_all i kind)
  then show ?thesis using bodyAll_progresses [OF inv] by blast
next
  case (Script_pipe stream target)
  have "keeps s (pipeTo_prepare E stream target s)"
    by (simp add: pipeTo_prepare_def set_stream_piped_to_ts_writable_def split: option.split)
  then show ?thesis using Script_pipe keeps_progresses [OF _ inv] by simp
next
  case (New_object r)
  then show ?thesis using new_object_progresses [OF inv] by simp
next
  case (Job k)
  then show ?thesis using run_job_progresses [OF laws inv] by simp
next
  case (Reaction k res)
  then show ?thesis using run_reaction_progresses [OF laws inv] by blast
next
  case World
  then show ?thesis using keeps_progresses [OF _ inv, of t] by (simp add: keeps_def pending_reads_def)
next
  case (Event_loop q)
  then have "keeps s t" by (auto simp: keeps_def pending_reads_def)
  then show ?thesis using keeps_progresses [OF _ inv] by simp
qed (erule frame_after [OF _ inv, rotated], simp)+

lemma fb_steps_progresses:
  assumes "streams_laws (rs E)" "rtranclp (fb_step E) s t" "body_inv s"
  shows "progresses s t"
  using assms(2)
proof induction
  case base
  show ?case using progresses_refl assms(3) .
next
  case (step y z)
  then have "body_inv y" by (simp add: progresses_def)
  from progresses_trans [OF step.IH fb_step_progresses [OF assms(1) step.hyps(2) this]] show ?case .
qed

lemma count_list_distinct: "distinct xs \<Longrightarrow> x \<in> set xs \<Longrightarrow> count_list xs x = 1"
  by (induction xs) auto

text \<open>No body is being read and no response awaited.\<close>

definition at_rest :: "('e, 'f, 'h, 'w) fstate \<Rightarrow> bool" where
  "at_rest s \<longleftrightarrow> pending_reads s = [] \<and> (\<forall>r\<in>set (rrs s). rr_body_promise r = None \<and> rr_response_promise r = None)"

lemma at_rest_inv: "at_rest s \<Longrightarrow> body_inv s"
  by (rule body_invI) (auto simp: at_rest_def)

text \<open>
  C23. A promise that \<open>text()\<close>, \<open>json()\<close> or \<open>arrayBuffer()\<close> returned is never lost: in every later
  state it is settled, for good, or exactly one read of one object whose body is marked as used
  is in progress for it.
\<close>

theorem body_promise_is_covered:
  assumes laws: "streams_laws (rs E)" and rest: "at_rest s0" and reach: "rtranclp (fb_step E) s0 s"
    and all: "i < length (rrs s)" "bodyAll E kind i s = Ok p s1" and later: "rtranclp (fb_step E) s1 s2"
  shows "promises s2 ! p \<noteq> PPending \<and> (promises s1 ! p \<noteq> PPending \<longrightarrow> promises s2 ! p = promises s1 ! p)
    \<or> promises s2 ! p = PPending \<and> (\<exists>j<length (rrs s2). count_list (pending_reads s2) j = 1
        \<and> rr_body_promise (rrs s2 ! j) = Some p \<and> rr_body_used (rrs s2 ! j))"
proof -
  have inv: "body_inv s" using fb_steps_progresses [OF laws reach at_rest_inv [OF rest]] by (simp add: progresses_def)
  have a: "after (bodyAll E kind i s) = Some s1" using all(2) by simp
  have e1: "progresses s s1" and c: "covered s1 p" using bodyAll_progresses [OF inv all(1) a] all(2) by simp_all
  then have inv1: "body_inv s1" by (simp add: progresses_def)
  have e2: "progresses s1 s2" using fb_steps_progresses [OF laws later inv1] .
  then have inv2: "body_inv s2" and c2: "covered s2 p" using c by (simp_all add: progresses_def)
  show ?thesis
  proof (cases "promises s2 ! p = PPending")
    case True
    then obtain j where j: "j \<in> set (pending_reads s2)" "rr_body_promise (rrs s2 ! j) = Some p"
      using c2 by (auto simp: covered_def)
    have "count_list (pending_reads s2) j = 1"
      using body_invD(1) [OF inv2] j(1) by (rule count_list_distinct)
    then show ?thesis using True j body_invD(2,3) [OF inv2 j(1)] by auto
  next
    case False
    then show ?thesis using e2 c by (auto simp: progresses_def covered_def)
  qed
qed

subsection \<open>What is read\<close>

text \<open>Reading the chunks \<open>cs\<close> one after the other, then the end: each read is settled before
  anything else happens.\<close>

fun read_all :: "('e, 'f, 'h, 'w) fetch_env \<Rightarrow> chunk list \<Rightarrow> ('e, 'f, 'h, 'w) fstate
    \<Rightarrow> (unit, 'e, 'f, 'h, 'w) result" where
  "read_all E [] s = fb_run_reaction E (length (reactions s) - 1) ReadDone s"
| "read_all E (c # cs) s = out_bind (fb_run_reaction E (length (reactions s) - 1) (ReadChunk c) s) (\<lambda>_. read_all E cs)"

lemma run_last_reaction:
  "reactions s = l @ [(q, ReadAll rd)] \<Longrightarrow> fb_run_reaction E (length (reactions s) - 1) res s =
     (case res of
        ReadChunk c \<Rightarrow> content_stream_read_then_handler E rd (Some c) (s\<lparr>reactions := l\<rparr>)
      | ReadDone \<Rightarrow> content_stream_read_then_handler E rd None (s\<lparr>reactions := l\<rparr>)
      | ReadError err \<Rightarrow> content_stream_read_catch_handler rd err (s\<lparr>reactions := l\<rparr>))"
  by (simp add: fb_run_reaction_def nth_append Let_def)

lemma read_chunks:
  assumes laws: "streams_laws (rs E)"
  shows "reactions s = l @ [(q, ReadAll rd)] \<Longrightarrow>
    \<exists>q' e. read_all E (map Uint8Array bs @ cs) s =
      read_all E cs (s\<lparr>eng := e, reactions := l @ [(q', ReadAll (rd\<lparr>rd_contents := rd_contents rd @ bs\<rparr>))]\<rparr>)"
proof (induction bs arbitrary: s rd q)
  case Nil
  then have "s\<lparr>eng := eng s, reactions := l @ [(q, ReadAll (rd\<lparr>rd_contents := rd_contents rd @ []\<rparr>))]\<rparr> = s" by simp
  then show ?case by (metis append_Nil list.simps(8))
next
  case (Cons b bs)
  have "rs_read (rs E) (rd_reader rd) (eng s) \<noteq> None" using laws by (simp add: streams_laws_def)
  then obtain q1 e1 where r: "rs_read (rs E) (rd_reader rd) (eng s) = Some (q1, e1)" by auto
  let ?rd = "rd\<lparr>rd_contents := rd_contents rd @ [b]\<rparr>"
  let ?s = "s\<lparr>eng := e1, reactions := l @ [(q1, ReadAll ?rd)]\<rparr>"
  have "fb_run_reaction E (length (reactions s) - 1) (ReadChunk (Uint8Array b)) s = Ok () ?s"
    using run_last_reaction [OF Cons.prems] r
    by (simp add: content_stream_read_then_handler_def read_next_def)
  then have "read_all E (map Uint8Array (b # bs) @ cs) s = read_all E (map Uint8Array bs @ cs) ?s" by simp
  moreover obtain q' e where "read_all E (map Uint8Array bs @ cs) ?s =
      read_all E cs (?s\<lparr>eng := e, reactions := l @ [(q', ReadAll (?rd\<lparr>rd_contents := rd_contents ?rd @ bs\<rparr>))]\<rparr>)"
    using Cons.IH [of ?s q1 ?rd] by auto
  ultimately show ?case by auto
qed


text \<open>
  Once a script has read \<open>body\<close>, so that the stream of an incoming body exists, \<open>text()\<close> and its
  like reject without reading a byte: they mark the body as used, which locks the stream, and the
  job that they queue then finds it locked.  Without the access to \<open>body\<close> the same job reads.
\<close>

theorem touched_body_cannot_be_read:
  assumes laws: "streams_laws (rs E)"
    and new: "\<And>src e. \<exists>st e'. rs_new (rs E) src e = Some (st, e') \<and> rs_source (rs E) st e' = Some src
      \<and> \<not> rs_locked (rs E) st e' \<and> \<not> rs_disturbed (rs E) st e'"
    and i: "i < length (rrs s)" "rr_has_body (rrs s ! i)" "\<not> rr_body_used (rrs s ! i)" "rr_body_stream (rrs s ! i) = None"
  shows "(\<exists>st s1 p s2 t. body_get E i True s = Ok (Some st) s1 \<and> bodyAll E kind i s1 = Ok p s2
      \<and> fb_run_job E (length (jobs s2) - 1) s2 = Ok () t
      \<and> promises t ! p = PRejected (ReportError ''JSMSG_RESPONSE_BODY_DISTURBED_OR_LOCKED'')
      \<and> reactions t = reactions s)
    \<and> (\<exists>p s2 t q rd. bodyAll E kind i s = Ok p s2 \<and> fb_run_job E (length (jobs s2) - 1) s2 = Ok () t
      \<and> promises t ! p = PPending \<and> reactions t = reactions s @ [(q, ReadAll rd)] \<and> rd_self rd = i)"
    (is "?touched \<and> ?untouched")
proof (rule conjI)
  let ?src = "length (sources s)"
  obtain st e where n: "rs_new (rs E) ?src (eng s) = Some (st, e)" "rs_source (rs E) st e = Some ?src"
    "\<not> rs_locked (rs E) st e" "\<not> rs_disturbed (rs E) st e" using new by metis
  obtain reader e2 where g: "rs_get_reader (rs E) st e = Some (reader, e2)" "rs_locked (rs E) st e2"
    using laws n(3) unfolding streams_laws_def by (metis not_None_eq surj_pair)
  show ?touched
    using n g i by (simp add: body_get_def create_body_stream_def NativeStreamSource_create_def bodyAll_def
        new_pending_promise_def mark_body_used_def stream_is_body_def get_stream_source_def lock_stream_def Let_def
        fb_run_job_def consume_content_stream_for_bodyAll_def body_unusable_def reject_body_promise_def
        settle_promise_def nth_append)
  obtain q e3 where r: "rs_read (rs E) reader e2 = Some (q, e3)"
    using laws unfolding streams_laws_def by (metis not_None_eq surj_pair)
  show ?untouched
    using n g i r by (simp add: create_body_stream_def NativeStreamSource_create_def bodyAll_def
        new_pending_promise_def mark_body_used_def Let_def fb_run_job_def
        consume_content_stream_for_bodyAll_def body_unusable_def read_next_def nth_append)
qed

subsection \<open>An instance\<close>

text \<open>The engine's state is the list of locked streams; stream, source, reader and read have the
  same number.\<close>

definition demo_rs :: "nat list streams_engine" where
  "demo_rs = \<lparr>rs_source = (\<lambda>st e. Some st), rs_disturbed = (\<lambda>st e. False), rs_locked = (\<lambda>st e. st \<in> set e),
     rs_get_reader = (\<lambda>st e. if st \<in> set e then None else Some (st, st # e)), rs_reader_closed = (\<lambda>r e. False),
     rs_read = (\<lambda>r e. Some (r, e)), rs_new = (\<lambda>src e. Some (src, removeAll src e)), rs_close = (\<lambda>st e. Some e), rs_pipe_to = (\<lambda>st t e. Some (st # e)),
     ctl_error = (\<lambda>c e. (True, e)), ctl_close = (\<lambda>c e. (True, e)), ctl_enqueue = (\<lambda>c b e. (True, e))\<rparr>"

definition demo_fetch :: "(nat list, wit_fields, nat, nat \<times> byte list \<times> nat) fetch_env" where
  "demo_fetch = \<lparr>io = demo_body_host, rs = demo_rs, hh = wasi_http_headers wit_ops,
     oq = \<lparr>oq_new = (\<lambda>f. 0), oq_set_method = (\<lambda>q m. (True, q)), oq_set_scheme = (\<lambda>q m. (True, q)),
       oq_set_authority = (\<lambda>q m. (True, q)), oq_set_path_with_query = (\<lambda>q m. (True, q)), oq_body = (\<lambda>q. (Some 1, q))\<rparr>,
     op = \<lparr>op_new = (\<lambda>f. 0), op_set_status_code = (\<lambda>p c. (True, p)),
       op_headers = (\<lambda>p. \<lparr>immutable = True, field_list = []\<rparr>), op_body = (\<lambda>p. (Some 1, p))\<rparr>,
     iq = \<lparr>iq_method = (\<lambda>i. Known 2), iq_scheme = (\<lambda>i. None), iq_authority = (\<lambda>i. None),
       iq_path_with_query = (\<lambda>i. None), iq_headers = (\<lambda>i. \<lparr>immutable = True, field_list = []\<rparr>),
       iq_consume = (\<lambda>i. (Some 2, i))\<rparr>,
     ip = \<lparr>ip_status = (\<lambda>i. 200), ip_headers = (\<lambda>i. \<lparr>immutable = True, field_list = []\<rparr>), ip_consume = (\<lambda>i. (Some 2, i))\<rparr>,
     outgoing_handler = (\<lambda>q. Inr 0), future_get = (\<lambda>u w. (None, w)), future_subscribe = (\<lambda>u w. (0, w)),
     utf8_ok = (\<lambda>b. True), json_parse = (\<lambda>b. None), fresh_memory = (\<lambda>n. replicate n 0),
     new_fields = \<lparr>immutable = False, field_list = []\<rparr>, url_parts = (\<lambda>u. (''https:'', ''a.com'', u))\<rparr>"

definition demo_incoming :: "(wit_fields, nat) rr" where
  "demo_incoming = \<lparr>rr_host = InRequest \<lparr>i_resource = 0, i_valid = True, i_headers = None, i_body = None,
       i_method = [], i_url = None\<rparr>,
     rr_headers = None, rr_body_stream = None, rr_has_body = True, rr_body_used = False, rr_body_promise = None,
     rr_url = None, rr_method = ''POST'', rr_response_promise = None, rr_status = 0, rr_status_message = [],
     rr_redirected = False\<rparr>"

definition demo_fstate :: "(nat list, wit_fields, nat, nat \<times> byte list \<times> nat) fstate" where
  "demo_fstate = \<lparr>eng = [], world = (0, [], 0), rrs = [demo_incoming], sources = [], tss = [],
     obodies = (\<lambda>b. Some demo_body), tasks = [], promises = [], reactions = [], jobs = [], response_done = False\<rparr>"

lemma demo_streams_laws: "streams_laws (rs demo_fetch)"
  by (auto simp: streams_laws_def demo_fetch_def demo_rs_def)

lemma demo_at_rest: "at_rest demo_fstate"
  by (simp add: at_rest_def demo_fstate_def demo_incoming_def pending_reads_def)

lemmas body_simps = bodyAll_def new_pending_promise_def mark_body_used_def stream_is_body_def get_stream_source_def
  create_body_stream_def NativeStreamSource_create_def body_get_def Let_def

theorem body_promise_is_covered_witness:
  "\<exists>s1. bodyAll demo_fetch Text 0 demo_fstate = Ok 0 s1 \<and> promises s1 ! 0 = PPending
    \<and> (\<exists>j<length (rrs s1). count_list (pending_reads s1) j = 1 \<and> rr_body_promise (rrs s1 ! j) = Some 0)"
proof -
  obtain s1 where s1: "bodyAll demo_fetch Text 0 demo_fstate = Ok 0 s1" "promises s1 = [PPending]"
    by (simp add: body_simps demo_fetch_def demo_rs_def demo_fstate_def demo_incoming_def upd_rr_def)
  have "0 < length (rrs demo_fstate)" by (simp add: demo_fstate_def)
  from body_promise_is_covered [OF demo_streams_laws demo_at_rest rtranclp.rtrancl_refl this s1(1) rtranclp.rtrancl_refl]
  show ?thesis using s1 by auto
qed

definition demo_reading :: "(nat list, wit_fields, nat, nat \<times> byte list \<times> nat) fstate" where
  "demo_reading = demo_fstate\<lparr>rrs := [demo_incoming\<lparr>rr_body_used := True, rr_body_promise := Some 0\<rparr>], promises := [PPending],
     reactions := [(0, ReadAll \<lparr>rd_self = 0, rd_reader = 0, rd_stream = 0, rd_contents = [], rd_parser = Text\<rparr>)]\<rparr>"


theorem touched_body_cannot_be_read_witness:
  "\<exists>st s1 p s2 t. body_get demo_fetch 0 True demo_fstate = Ok (Some st) s1 \<and> bodyAll demo_fetch Text 0 s1 = Ok p s2
    \<and> fb_run_job demo_fetch (length (jobs s2) - 1) s2 = Ok () t
    \<and> promises t ! p = PRejected (ReportError ''JSMSG_RESPONSE_BODY_DISTURBED_OR_LOCKED'')"
proof -
  have new: "\<exists>st e'. rs_new (rs demo_fetch) src e = Some (st, e') \<and> rs_source (rs demo_fetch) st e' = Some src
      \<and> \<not> rs_locked (rs demo_fetch) st e' \<and> \<not> rs_disturbed (rs demo_fetch) st e'" for src e
    by (simp add: demo_fetch_def demo_rs_def)
  show ?thesis
    using touched_body_cannot_be_read [OF demo_streams_laws new, of 0 demo_fstate Text]
    by (auto simp: demo_fstate_def demo_incoming_def)
qed

end
