(* ===== verification/Request_Response.thy ===== *)
theory Request_Response
  imports Body_Frames
begin

section \<open>Request, Response and fetch\<close>

text \<open>
  The classes \<open>Request\<close> and \<open>Response\<close> of \<open>builtins/web/fetch/request-response.cpp\<close>, the function
  \<open>fetch\<close> and the class \<open>ResponseFutureTask\<close> of \<open>fetch-api.cpp\<close>, on the state of \<open>Fetch_Body\<close>.

  \<^item> Arguments are data: an absent or other \<open>init\<close>, what its getters yield, and for each member
    \<open>None\<close> where it is \<open>undefined\<close> and an inner \<open>None\<close> where its conversion throws.  Strings are
    their UTF-8 encoding.
  \<^item> A URL argument is given by the serialization that \<open>URL\<close> produces for it, see \<open>Url\<close>.
\<close>

subsection \<open>Methods and status messages\<close>

definition normalized_names :: "string list" where
  "normalized_names = [''DELETE'', ''GET'', ''HEAD'', ''OPTIONS'', ''POST'', ''PUT'']"

text \<open>In place: \<open>strcpy\<close> leaves what is after the terminating NUL.\<close>

definition normalize_http_method :: "string \<Rightarrow> bool \<times> string" where
  "normalize_http_method method =
     (case find (strcasecmp_eq method) normalized_names of
        None \<Rightarrow> (False, method)
      | Some name \<Rightarrow>
          if c_string method = name then (False, method)
          else (True, name @ drop (length name) method))"

definition status_phrases :: "(16 word \<times> string) list" where
  "status_phrases =
    [(100, ''Continue''), (101, ''Switching Protocols''), (102, ''Processing''), (200, ''OK''),
     (201, ''Created''), (202, ''Accepted''), (203, ''Non Authoritative Information''),
     (204, ''No Content''), (205, ''Reset Content''), (206, ''Partial Content''),
     (207, ''Multi-Status''), (208, ''Already Reported''), (226, ''IM Used''),
     (300, ''Multiple Choices''), (301, ''Moved Permanently''), (302, ''Found''),
     (303, ''See Other''), (304, ''Not Modified''), (305, ''Use Proxy''),
     (307, ''Temporary Redirect''), (308, ''Permanent Redirect''), (400, ''Bad Request''),
     (401, ''Unauthorized''), (402, ''Payment Required''), (403, ''Forbidden''),
     (404, ''Not Found''), (405, ''Method Not Allowed''), (406, ''Not Acceptable''),
     (407, ''Proxy Authentication Required''), (408, ''Request Timeout''), (409, ''Conflict''),
     (410, ''Gone''), (411, ''Length Required''), (412, ''Precondition Failed''),
     (413, ''Payload Too Large''), (414, ''URI Too Long''), (415, ''Unsupported Media Type''),
     (416, ''Range Not Satisfiable''), (417, ''Expectation Failed''),
     (418, ''I'' @ [CHR 0x27] @ ''m a teapot''), (421, ''Misdirected Request''),
     (422, ''Unprocessable Entity''), (423, ''Locked''), (424, ''Failed Dependency''),
     (426, ''Upgrade Required''), (428, ''Precondition Required''), (429, ''Too Many Requests''),
     (431, ''Request Header Fields Too Large''), (451, ''Unavailable For Legal Reasons''),
     (500, ''Internal Server Error''), (501, ''Not Implemented''), (502, ''Bad Gateway''),
     (503, ''Service Unavailable''), (504, ''Gateway Timeout''),
     (505, ''HTTP Version Not Supported''), (506, ''Variant Also Negotiates''),
     (507, ''Insufficient Storage''), (508, ''Loop Detected''), (510, ''Not Extended''),
     (511, ''Network Authentication Required'')]"

definition status_message_from_code :: "16 word \<Rightarrow> string" where
  "status_message_from_code code =
     (case map_of status_phrases code of Some phrase \<Rightarrow> phrase | None \<Rightarrow> [])"

definition null_body_status :: "16 word \<Rightarrow> bool" where
  "null_body_status status \<longleftrightarrow> status = 204 \<or> status = 205 \<or> status = 304"

subsection \<open>Headers arguments\<close>

text \<open>
  A \<open>headers\<close> member is consumed as a sequence or record.  The \<open>Headers\<close> object of a Request or
  Response is iterated: its values are fetched from its handle, then its entries are converted
  to strings.
\<close>

datatype headers_arg = HeadersInit "string option init_value" | HeadersOf nat

definition entries_init :: "(string \<times> string option) list \<Rightarrow> string option init_value" where
  "entries_init es = InitIterable \<lparr>items = map (\<lambda>(n, v). EntryIterable
     \<lparr>items = [Some n, string_of_entry v], throws_after = False\<rparr>) es, throws_after = False\<rparr>"

text \<open>A handle that is gone only matters when a value has to be fetched.\<close>

definition object_entries :: "('e, 'f, 'h, 'w) fetch_env \<Rightarrow> nat \<Rightarrow> ('e, 'f, 'h, 'w) fstate
    \<Rightarrow> ((string \<times> string option) list, 'e, 'f, 'h, 'w) result" where
  "object_entries E i s =
     (case rr_headers (rrs s ! i) of
        None \<Rightarrow> Crash
      | Some (m, lazy) \<Rightarrow> out_bind (headers_handle E i s) (\<lambda>hndl s.
          (case hndl of
             Moved \<Rightarrow> if lazy \<and> None \<in> snd ` set m then Crash
                      else Ok m (upd_rr i (\<lambda>r. r\<lparr>rr_headers := Some (m, False)\<rparr>) s)
           | Live f \<Rightarrow>
               (case Headers_entries (hh E) \<lparr>backing_map = m, handle = Some f, has_lazy_values = lazy\<rparr> of
                  Inl e \<Rightarrow> Throw e s
                | Inr (es, h) \<Rightarrow>
                    Ok es (upd_rr i (\<lambda>r. r\<lparr>rr_headers := Some (backing_map h, has_lazy_values h)\<rparr>) s)))))"

definition headers_init :: "('e, 'f, 'h, 'w) fetch_env \<Rightarrow> headers_arg \<Rightarrow> ('e, 'f, 'h, 'w) fstate
    \<Rightarrow> (string option init_value, 'e, 'f, 'h, 'w) result" where
  "headers_init E a s =
     (case a of HeadersInit v \<Rightarrow> Ok v s
      | HeadersOf i \<Rightarrow> out_bind (object_entries E i s) (\<lambda>es. Ok (entries_init es)))"

text \<open>A new \<open>Headers\<close> object on new fields.\<close>

definition new_headers :: "('e, 'f, 'h, 'w) fetch_env \<Rightarrow> headers_arg \<Rightarrow> ('e, 'f, 'h, 'w) fstate
    \<Rightarrow> ('f headers_obj, 'e, 'f, 'h, 'w) result" where
  "new_headers E a s =
     out_bind (headers_init E a s) (\<lambda>v s.
       (case Headers_create_from_init (hh E) (\<lambda>x. x) (Some (new_fields E)) v of
          Inl e \<Rightarrow> Throw e s | Inr h \<Rightarrow> Ok h s))"

definition fields_of :: "('e, 'f, 'h, 'w) fetch_env \<Rightarrow> 'f headers_obj option \<Rightarrow> 'f" where
  "fields_of E h = (case h of Some h \<Rightarrow> (case handle h of Some f \<Rightarrow> f | None \<Rightarrow> new_fields E) | None \<Rightarrow> new_fields E)"

definition headers_slot :: "'f headers_obj option \<Rightarrow> ((string \<times> string option) list \<times> bool) option" where
  "headers_slot h = map_option (\<lambda>h. (backing_map h, has_lazy_values h)) h"

subsection \<open>Request\<close>

record request_init =
  ini_method :: "string option option"
  ini_headers :: "headers_arg option"
  ini_body :: "body_value option"

datatype 'i init_arg = InitMissing | InitObject 'i | InitGetterThrows | InitNotObject

datatype request_input = InputRequest nat | InputUrl "string option"

definition new_rr :: "('f, 'h) host_object \<Rightarrow> ('f, 'h) rr" where
  "new_rr h = \<lparr>rr_host = h, rr_headers = None, rr_body_stream = None, rr_has_body = False, rr_body_used = False,
     rr_body_promise = None, rr_url = None, rr_method = ''GET'', rr_response_promise = None, rr_status = 0,
     rr_status_message = [], rr_redirected = False\<rparr>"

definition alloc_rr :: "('f, 'h) rr \<Rightarrow> ('e, 'f, 'h, 'w) fstate \<Rightarrow> nat \<times> ('e, 'f, 'h, 'w) fstate" where
  "alloc_rr r s = (length (rrs s), s\<lparr>rrs := rrs s @ [r]\<rparr>)"

text \<open>The JavaScript method, the method for the host and whether it is GET or HEAD.\<close>

definition request_method :: "string option \<Rightarrow> bool \<Rightarrow> string \<times> string \<times> bool" where
  "request_method method_str needs_normalization =
     (case method_str of
        None \<Rightarrow> (''GET'', [], True)
      | Some m \<Rightarrow>
          if m = ''GET'' then (''GET'', [], True)
          else (let (normalized, m') = (if needs_normalization then normalize_http_method m else (False, m))
                in (if normalized then utf8_of_latin1 m' else m, m', c_string m' = ''GET'' \<or> c_string m' = ''HEAD'')))"


text \<open>\<open>TransformStream::create_rs_proxy\<close>: an identity stream that the input is piped through.  How the
  stream works is modelled in \<open>Transform_Stream\<close>; here it has its slots and its readable end.\<close>

definition create_rs_proxy :: "('e, 'f, 'h, 'w) fetch_env \<Rightarrow> nat \<Rightarrow> ('e, 'f, 'h, 'w) fstate
    \<Rightarrow> (nat \<times> nat, 'e, 'f, 'h, 'w) result" where
  "create_rs_proxy E input_readable s =
     (let t = length (tss s);
          s = s\<lparr>tss := tss s @ [\<lparr>ts_owner = None, ts_used_as_mixin = False, ts_has_transformer = None\<rparr>]\<rparr>
      in (case NativeStreamSource_create (TsOwner t) None s of (src, s) \<Rightarrow>
        (case rs_new (rs E) src (eng s) of
           None \<Rightarrow> Throw PendingException s
         | Some (readable, e) \<Rightarrow>
             (let s = s\<lparr>eng := e\<rparr>
              in if rs_locked (rs E) input_readable (eng s)
                 then Throw (ReportError ''pipeThrough called on a ReadableStream that's already locked'') s
                 else (let s = pipeTo_prepare E input_readable (Some t) s
                       in case rs_pipe_to (rs E) input_readable t (eng s) of
                            None \<Rightarrow> Throw PendingException s
                          | Some e \<Rightarrow> Ok (readable, t) (s\<lparr>eng := e\<rparr>))))))"

text \<open>The body of the input becomes the body of the new request.  The result of appending is
  ignored.\<close>

definition use_input_body :: "('e, 'f, 'h, 'w) fetch_env \<Rightarrow> nat \<Rightarrow> nat \<Rightarrow> ('e, 'f, 'h, 'w) fstate
    \<Rightarrow> (unit, 'e, 'f, 'h, 'w) result" where
  "use_input_body E self input s =
     (if rr_body_used (rrs s ! input)
         \<or> (case rr_body_stream (rrs s ! input) of Some st \<Rightarrow> body_unusable E st s | None \<Rightarrow> False)
      then Throw (ReportError ''Request constructor: the input request's body isn't usable.'') s
      else out_bind
        (case rr_body_stream (rrs s ! input) of
           None \<Rightarrow> (case append_body E self input s of Throw _ s \<Rightarrow> Ok () s | x \<Rightarrow> x)
         | Some st \<Rightarrow> out_bind (create_rs_proxy E st s) (\<lambda>(readable, t) s.
             out_bind (set_readable_used_as_body t self s) (\<lambda>_ s.
               Ok () (upd_rr self (\<lambda>r. r\<lparr>rr_body_stream := Some readable\<rparr>) s))))
        (\<lambda>_ s. Ok () (upd_rr self (\<lambda>r. r\<lparr>rr_has_body := True\<rparr>) s)))"

definition request_url_and_method :: "request_input \<Rightarrow> ('e, 'f, 'h, 'w) fstate
    \<Rightarrow> (string \<times> string option, 'e, 'f, 'h, 'w) result" where
  "request_url_and_method input s =
     (case input of
        InputRequest i \<Rightarrow> (case rr_url (rrs s ! i) of None \<Rightarrow> Crash | Some u \<Rightarrow> Ok (u, Some (rr_method (rrs s ! i))) s)
      | InputUrl None \<Rightarrow> Throw PendingException s
      | InputUrl (Some u) \<Rightarrow> Ok (u, None) s)"

definition read_init :: "string \<Rightarrow> 'i \<Rightarrow> 'i init_arg \<Rightarrow> ('e, 'f, 'h, 'w) fstate \<Rightarrow> ('i, 'e, 'f, 'h, 'w) result" where
  "read_init ctor missing a s =
     (case a of
        InitMissing \<Rightarrow> Ok missing s
      | InitObject i \<Rightarrow> Ok i s
      | InitGetterThrows \<Rightarrow> Throw PendingException s
      | InitNotObject \<Rightarrow> Throw (ReportError (ctor @ '' constructor: |init| parameter can't be converted to a dictionary'')) s)"

definition request_headers :: "('e, 'f, 'h, 'w) fetch_env \<Rightarrow> request_input \<Rightarrow> headers_arg option
    \<Rightarrow> ('e, 'f, 'h, 'w) fstate \<Rightarrow> ('f headers_obj option, 'e, 'f, 'h, 'w) result" where
  "request_headers E input init_headers s =
     (let headers_val = (case (init_headers, input) of
            (Some a, _) \<Rightarrow> Some a
          | (None, InputRequest i) \<Rightarrow> if rr_headers (rrs s ! i) \<noteq> None then Some (HeadersOf i) else None
          | _ \<Rightarrow> None)
      in case headers_val of
           None \<Rightarrow> Ok None s
         | Some a \<Rightarrow> out_bind (new_headers E a s) (\<lambda>h. Ok (Some h)))"

definition request_body :: "('e, 'f, 'h, 'w) fetch_env \<Rightarrow> request_input \<Rightarrow> body_value option \<Rightarrow> nat
    \<Rightarrow> ('e, 'f, 'h, 'w) fstate \<Rightarrow> (unit, 'e, 'f, 'h, 'w) result" where
  "request_body E input init_body self s =
     (case (init_body, input) of
        (Some v, _) \<Rightarrow> extract_body E self v s
      | (None, InputRequest i) \<Rightarrow> if rr_has_body (rrs s ! i) then use_input_body E self i s else Ok () s
      | _ \<Rightarrow> Ok () s)"

definition Request_create :: "('e, 'f, 'h, 'w) fetch_env \<Rightarrow> request_input \<Rightarrow> request_init init_arg
    \<Rightarrow> ('e, 'f, 'h, 'w) fstate \<Rightarrow> (nat, 'e, 'f, 'h, 'w) result" where
  "Request_create E input init s =
     out_bind (request_url_and_method input s) (\<lambda>(url, input_method) s.
     out_bind (read_init ''Request'' \<lparr>ini_method = None, ini_headers = None, ini_body = None\<rparr> init s) (\<lambda>ini s.
       if ini_method ini = Some None then Throw PendingException s
       else
         (let (method_str, host_method, is_get_or_head) =
                (case ini_method ini of Some m \<Rightarrow> request_method m True | None \<Rightarrow> request_method input_method False);
              input_has_body = (case input of InputRequest i \<Rightarrow> rr_has_body (rrs s ! i) | _ \<Rightarrow> False)
          in out_bind (request_headers E input (ini_headers ini) s) (\<lambda>headers s.
             if (input_has_body \<or> ini_body ini \<noteq> None) \<and> is_get_or_head
             then Throw (ReportError ''Request constructor: HEAD or GET Request cannot have a body.'') s
             else
               (case HttpOutgoingRequest_make (oq E) host_method (Some (url_parts E url)) (Live (fields_of E headers)) of
                  Trap \<Rightarrow> Crash
                | Returns q \<Rightarrow>
                    (case alloc_rr ((new_rr (OutRequest q))\<lparr>rr_url := Some url, rr_method := method_str,
                             rr_headers := headers_slot headers\<rparr>) s of (self, s) \<Rightarrow>
                     out_bind (request_body E input (ini_body ini) self s) (\<lambda>_. Ok self)))))))"

definition Request_method_get :: "nat \<Rightarrow> ('e, 'f, 'h, 'w) fstate \<Rightarrow> string" where
  "Request_method_get i s = rr_method (rrs s ! i)"

definition Request_url_get :: "nat \<Rightarrow> ('e, 'f, 'h, 'w) fstate \<Rightarrow> string option" where
  "Request_url_get i s = rr_url (rrs s ! i)"

definition Request_body_get :: "('e, 'f, 'h, 'w) fetch_env \<Rightarrow> nat \<Rightarrow> ('e, 'f, 'h, 'w) fstate
    \<Rightarrow> (nat option, 'e, 'f, 'h, 'w) result" where
  "Request_body_get E i s = body_get E i (is_incoming i s) s"

definition bodyUsed_get :: "nat \<Rightarrow> ('e, 'f, 'h, 'w) fstate \<Rightarrow> bool" where
  "bodyUsed_get i s = rr_body_used (rrs s ! i)"

subsection \<open>Response\<close>

text \<open>\<open>Response::create\<close> fills the slots; those of an incoming response come from the host.\<close>

definition Response_create :: "('e, 'f, 'h, 'w) fetch_env \<Rightarrow> ('f, 'h) host_object \<Rightarrow> ('e, 'f, 'h, 'w) fstate
    \<Rightarrow> (nat, 'e, 'f, 'h, 'w) result" where
  "Response_create E h s =
     (case h of
        InResponse r \<Rightarrow>
          (case HttpIncomingResponse_status (ip E) r of
             (Inl _, _) \<Rightarrow> Crash
           | (Inr status, r) \<Rightarrow>
               (case alloc_rr ((new_rr (InResponse r))\<lparr>rr_status := status,
                        rr_status_message := status_message_from_code status,
                        rr_has_body := \<not> null_body_status status\<rparr>) s of (i, s) \<Rightarrow> Ok i s))
      | _ \<Rightarrow> (case alloc_rr (new_rr h) s of (i, s) \<Rightarrow> Ok i s))"

record response_init =
  ini_status :: "16 word option option"
  ini_status_text :: "string option option"
  ini_resp_headers :: headers_arg

definition Response_constructor :: "('e, 'f, 'h, 'w) fetch_env \<Rightarrow> body_value option \<Rightarrow> response_init init_arg
    \<Rightarrow> ('e, 'f, 'h, 'w) fstate \<Rightarrow> (nat, 'e, 'f, 'h, 'w) result" where
  "Response_constructor E body init s =
     out_bind (read_init ''Response'' \<lparr>ini_status = None, ini_status_text = None,
                 ini_resp_headers = HeadersInit InitUndefined\<rparr> init s) (\<lambda>ini s.
     (case (ini_status ini, ini_status_text ini) of
        (Some None, _) \<Rightarrow> Throw PendingException s
      | (_, Some None) \<Rightarrow> Throw PendingException s
      | (st, txt) \<Rightarrow>
          (let status = (case st of Some (Some x) \<Rightarrow> x | _ \<Rightarrow> 200);
               status_text = (case txt of Some (Some t) \<Rightarrow> t | _ \<Rightarrow> [])
           in if status < 200 \<or> status > 599
              then Throw (ReportError (''Response constructor: invalid status '' @ decimal (unat status))) s
              else out_bind (new_headers E (ini_resp_headers ini) s) (\<lambda>headers s.
                (case HttpOutgoingResponse_make (op E) status (Live (fields_of E (Some headers))) of
                   Trap \<Rightarrow> Crash
                 | Returns p \<Rightarrow>
                     out_bind (Response_create E (OutResponse p) s) (\<lambda>self s.
                     (let s = upd_rr self (\<lambda>r. r\<lparr>rr_headers := headers_slot (Some headers), rr_url := Some [],
                                rr_status := status, rr_status_message := status_text\<rparr>) s
                      in case body of
                           None \<Rightarrow> Ok self s
                         | Some v \<Rightarrow>
                             if null_body_status status
                             then Throw (ReportError ''Response constructor: Response body is given with a null body status.'') s
                             else out_bind (extract_body E self v s) (\<lambda>_ s.
                                  (case rr_host (rrs s ! self) of
                                     OutResponse p \<Rightarrow> (case HttpOutgoingResponse_body (op E) p of
                                         (Inl _, _) \<Rightarrow> Throw PendingException s
                                       | (Inr b, p) \<Rightarrow> Ok self (set_host self (OutResponse p) s))
                                   | _ \<Rightarrow> Crash)))))))))"

definition Response_ok_get :: "nat \<Rightarrow> ('e, 'f, 'h, 'w) fstate \<Rightarrow> bool" where
  "Response_ok_get i s = (let status = rr_status (rrs s ! i) in 200 \<le> status \<and> status < 300)"

definition Response_type_get :: "nat \<Rightarrow> ('e, 'f, 'h, 'w) fstate \<Rightarrow> string" where
  "Response_type_get i s = (if rr_status (rrs s ! i) = 0 then ''error'' else ''default'')"

definition Response_body_get :: "('e, 'f, 'h, 'w) fetch_env \<Rightarrow> nat \<Rightarrow> ('e, 'f, 'h, 'w) fstate
    \<Rightarrow> (nat option, 'e, 'f, 'h, 'w) result" where
  "Response_body_get E i s = body_get E i True s"

definition Response_status_get :: "nat \<Rightarrow> ('e, 'f, 'h, 'w) fstate \<Rightarrow> int" where
  "Response_status_get i s = uint (rr_status (rrs s ! i))"

definition Response_statusText_get :: "nat \<Rightarrow> ('e, 'f, 'h, 'w) fstate \<Rightarrow> string" where
  "Response_statusText_get i s = rr_status_message (rrs s ! i)"

text \<open>Creating the URL value asserts that the slot holds a string.\<close>

definition Response_url_get :: "nat \<Rightarrow> ('e, 'f, 'h, 'w) fstate \<Rightarrow> (string, 'e, 'f, 'h, 'w) result" where
  "Response_url_get i s = (case rr_url (rrs s ! i) of None \<Rightarrow> Crash | Some u \<Rightarrow> Ok u s)"

definition Response_redirected_get :: "nat \<Rightarrow> ('e, 'f, 'h, 'w) fstate \<Rightarrow> bool" where
  "Response_redirected_get i s = rr_redirected (rrs s ! i)"

text \<open>The \<open>Headers\<close> object is that of the slot, made when it is first asked for.\<close>

definition Response_headers_get :: "('e, 'f, 'h, 'w) fetch_env \<Rightarrow> nat \<Rightarrow> ('e, 'f, 'h, 'w) fstate
    \<Rightarrow> (unit, 'e, 'f, 'h, 'w) result" where
  "Response_headers_get E i s = RequestOrResponse_headers E i s"

definition Request_headers_get :: "('e, 'f, 'h, 'w) fetch_env \<Rightarrow> nat \<Rightarrow> ('e, 'f, 'h, 'w) fstate
    \<Rightarrow> (unit, 'e, 'f, 'h, 'w) result" where
  "Request_headers_get E i s = RequestOrResponse_headers E i s"

text \<open>A second request for the headers finds the object of the first and changes nothing.\<close>

lemma headers_get_twice:
  assumes "Response_headers_get E i s = Ok () t" "i < length (rrs s)"
  shows "Response_headers_get E i t = Ok () t"
  using assms
  by (auto simp: Response_headers_get_def RequestOrResponse_headers_def headers_handle_def upd_rr_def set_host_def out_bind_eq_Ok
      split: option.splits host_object.splits prod.splits sum.splits field_handle.splits)

subsection \<open>fetch\<close>

text \<open>What \<open>fetch\<close> does with the request and its promise.\<close>

definition fetch_send :: "('e, 'f, 'h, 'w) fetch_env \<Rightarrow> nat \<Rightarrow> nat \<Rightarrow> ('e, 'f, 'h, 'w) fstate
    \<Rightarrow> (nat, 'e, 'f, 'h, 'w) result" where
  "fetch_send E request response_promise s =
     out_bind (maybe_stream_body E request s) (\<lambda>streaming s.
       (case rr_host (rrs s ! request) of
          OutRequest q \<Rightarrow>
            (case HttpOutgoingRequest_send (outgoing_handler E) q of
               Inl _ \<Rightarrow> rejected_promise PendingException s
             | Inr pending_handle \<Rightarrow>
                 out_bind (if streaming then Ok () s
                           else case pending_handle of
                                  None \<Rightarrow> Crash
                                | Some u \<Rightarrow> (case future_subscribe E u (world s) of
                                    (h, w) \<Rightarrow> queue_task (ResponseTask request u h) (s\<lparr>world := w\<rparr>)))
                   (\<lambda>_ s. Ok response_promise
                            (upd_rr request (\<lambda>r. r\<lparr>rr_response_promise := Some response_promise\<rparr>) s)))
        | _ \<Rightarrow> Crash))"

definition fetch :: "('e, 'f, 'h, 'w) fetch_env \<Rightarrow> request_input \<Rightarrow> request_init init_arg
    \<Rightarrow> ('e, 'f, 'h, 'w) fstate \<Rightarrow> (nat, 'e, 'f, 'h, 'w) result" where
  "fetch E input init s =
     (case Request_create E input init s of
        Throw err s \<Rightarrow> rejected_promise err s
      | Crash \<Rightarrow> Crash
      | Loops \<Rightarrow> Loops
      | Ok request s \<Rightarrow> (case new_pending_promise s of (p, s) \<Rightarrow> fetch_send E request p s))"

definition ResponseFutureTask_run :: "('e, 'f, 'h, 'w) fetch_env \<Rightarrow> nat \<Rightarrow> nat \<Rightarrow> ('e, 'f, 'h, 'w) fstate
    \<Rightarrow> (unit, 'e, 'f, 'h, 'w) result" where
  "ResponseFutureTask_run E request u s =
     (case rr_response_promise (rrs s ! request) of
        None \<Rightarrow> Crash
      | Some p \<Rightarrow>
          (case maybe_response (future_get E u) (world s) of
             (Trap, _) \<Rightarrow> Crash
           | (Returns (Inl _), w) \<Rightarrow> Ok () (settle_promise p
                 (PRejected (ReportError ''NetworkError when attempting to fetch resource.'')) (s\<lparr>world := w\<rparr>))
           | (Returns (Inr None), _) \<Rightarrow> Crash
           | (Returns (Inr (Some r)), w) \<Rightarrow>
               out_bind (Response_create E (InResponse r) (s\<lparr>world := w\<rparr>)) (\<lambda>i s.
                 (case rr_url (rrs s ! request) of
                    None \<Rightarrow> Crash
                  | Some url \<Rightarrow> Ok () (settle_promise p (PFulfilled (VResponse i))
                      (upd_rr i (\<lambda>r. r\<lparr>rr_url := Some url\<rparr>) s))))))"

end
