(* ===== verification/Request_Frames.thy ===== *)
theory Request_Frames
  imports Request_Response
begin

section \<open>What making requests and responses leaves alone\<close>

text \<open>
  The interface of \<open>Body_Frames\<close> for the operations of \<open>Request_Response\<close>, and what a successful
  constructor or \<open>fetch\<close> has done.
\<close>

lemma leaves_caught: "leaves P m \<Longrightarrow> leaves P (case m of Throw e s \<Rightarrow> Ok x s | y \<Rightarrow> y)"
  by (cases m) auto

locale request_ops = body_ops +
  assumes proxy_source [simp]: "P s \<Longrightarrow> t < length (tss s) \<Longrightarrow> P (snd (NativeStreamSource_create (TsOwner t) None s))"
begin

lemma proxy [simp]: "P s \<Longrightarrow> leaves P (create_rs_proxy E st s)"
  using proxy_source [of "s\<lparr>tss := tss s @ [\<lparr>ts_owner = None, ts_used_as_mixin = False, ts_has_transformer = None\<rparr>]\<rparr>"
      "length (tss s)"]
  unfolding create_rs_proxy_def Let_def by (auto simp del: proxy_source split: outcome_splits)

lemma input_body [simp]: "P s \<Longrightarrow> leaves P (use_input_body E self i s)"
  unfolding use_input_body_def
  by (auto intro!: leaves_out_bind leaves_caught split: option.split prod.split)

lemma entries [simp]: "P s \<Longrightarrow> leaves P (object_entries E i s)"
  unfolding object_entries_def
  by (auto intro!: leaves_out_bind split: option.split prod.split field_handle.split sum.split)

lemma fresh_headers [simp]: "P s \<Longrightarrow> leaves P (new_headers E a s)"
  unfolding new_headers_def headers_init_def
  by (auto intro!: leaves_out_bind split: headers_arg.split sum.split)

lemma make_headers [simp]: "P s \<Longrightarrow> leaves P (request_headers E input a s)"
  unfolding request_headers_def Let_def
  by (auto intro!: leaves_out_bind split: option.split request_input.split)

lemma make_body [simp]: "P s \<Longrightarrow> leaves P (request_body E input a self s)"
  unfolding request_body_def by (auto split: option.split request_input.split)

end

subsection \<open>What a successful constructor has done\<close>

text \<open>A new Request: its method, URL and headers, before its body.\<close>

definition initial_request :: "('e, 'f, 'h, 'w) fetch_env \<Rightarrow> string \<Rightarrow> string \<Rightarrow> 'f headers_obj option
    \<Rightarrow> ('f, 'h, nat) http_outgoing_request \<Rightarrow> ('f, 'h) rr" where
  "initial_request E url method headers q =
     (new_rr (OutRequest q))\<lparr>rr_url := Some url, rr_method := method, rr_headers := headers_slot headers\<rparr>"

definition init_members :: "request_init init_arg \<Rightarrow> request_init" where
  "init_members a = (case a of InitObject ini \<Rightarrow> ini | _ \<Rightarrow> \<lparr>ini_method = None, ini_headers = None, ini_body = None\<rparr>)"

definition chosen_method :: "request_input \<Rightarrow> request_init \<Rightarrow> ('e, 'f, 'h, 'w) fstate \<Rightarrow> string \<times> string \<times> bool" where
  "chosen_method input ini s =
     (case ini_method ini of
        Some m \<Rightarrow> request_method m True
      | None \<Rightarrow> request_method (case input of InputRequest j \<Rightarrow> Some (rr_method (rrs s ! j)) | _ \<Rightarrow> None) False)"

definition input_url :: "request_input \<Rightarrow> ('e, 'f, 'h, 'w) fstate \<Rightarrow> string option" where
  "input_url input s = (case input of InputRequest j \<Rightarrow> rr_url (rrs s ! j) | InputUrl u \<Rightarrow> u)"

lemma Request_create_Ok:
  assumes "Request_create E input init s = Ok i t"
  obtains url m hm gh headers s1 q where
    "input_url input s = Some url" "chosen_method input (init_members init) s = (m, hm, gh)"
    "request_headers E input (ini_headers (init_members init)) s = Ok headers s1"
    "HttpOutgoingRequest_make (oq E) hm (Some (url_parts E url)) (Live (fields_of E headers)) = Returns q"
    "i = length (rrs s1)"
    "request_body E input (ini_body (init_members init)) i (s1\<lparr>rrs := rrs s1 @ [initial_request E url m headers q]\<rparr>) = Ok () t"
    "(case input of InputRequest j \<Rightarrow> rr_has_body (rrs s ! j) | _ \<Rightarrow> False) \<or> ini_body (init_members init) \<noteq> None \<Longrightarrow> \<not> gh"
proof -
  have um: "\<exists>url. input_url input s = Some url \<and> request_url_and_method input s
      = Ok (url, case input of InputRequest j \<Rightarrow> Some (rr_method (rrs s ! j)) | _ \<Rightarrow> None) s"
    using assms unfolding Request_create_def
    by (auto simp: request_url_and_method_def input_url_def split: request_input.splits option.splits)
  then obtain url where url: "input_url input s = Some url" "request_url_and_method input s
      = Ok (url, case input of InputRequest j \<Rightarrow> Some (rr_method (rrs s ! j)) | _ \<Rightarrow> None) s" by blast
  have ri: "read_init ''Request'' \<lparr>ini_method = None, ini_headers = None, ini_body = None\<rparr> init s = Ok (init_members init) s"
    using assms url by (auto simp: Request_create_def read_init_def init_members_def split: init_arg.splits)
  obtain m hm gh where cm: "chosen_method input (init_members init) s = (m, hm, gh)" by (metis prod_cases3)
  define ini where "ini = init_members init"
  define has where "has = (case input of InputRequest j \<Rightarrow> rr_has_body (rrs s ! j) | _ \<Rightarrow> False)"
  define make where "make headers s1 =
      (if (has \<or> ini_body ini \<noteq> None) \<and> gh
       then Throw (ReportError ''Request constructor: HEAD or GET Request cannot have a body.'') s1
       else case HttpOutgoingRequest_make (oq E) hm (Some (url_parts E url)) (Live (fields_of E headers)) of
              Trap \<Rightarrow> Crash
            | Returns q \<Rightarrow> out_bind (request_body E input (ini_body ini) (length (rrs s1))
                (s1\<lparr>rrs := rrs s1 @ [initial_request E url m headers q]\<rparr>)) (\<lambda>_. Ok (length (rrs s1))))" for headers s1
  have "Request_create E input init s = (if ini_method ini = Some None then Throw PendingException s
      else out_bind (request_headers E input (ini_headers ini) s) make)"
    using cm unfolding chosen_method_def ini_def [symmetric]
    by (simp add: Request_create_def url(2) ri ini_def [symmetric] Let_def make_def [abs_def] has_def alloc_rr_def
        initial_request_def cong: exec.case_cong if_cong)
  then have "out_bind (request_headers E input (ini_headers ini) s) make = Ok i t"
    using assms by (simp split: if_splits)
  then obtain headers s1 where h: "request_headers E input (ini_headers ini) s = Ok headers s1" "make headers s1 = Ok i t"
    by (auto simp: out_bind_eq_Ok)
  have ok: "\<not> ((has \<or> ini_body ini \<noteq> None) \<and> gh)"
  proof
    assume "(has \<or> ini_body ini \<noteq> None) \<and> gh"
    with h(2) show False unfolding make_def by simp
  qed
  show ?thesis
  proof (cases "HttpOutgoingRequest_make (oq E) hm (Some (url_parts E url)) (Live (fields_of E headers))")
    case (Returns q)
    then have "request_body E input (ini_body ini) (length (rrs s1)) (s1\<lparr>rrs := rrs s1 @ [initial_request E url m headers q]\<rparr>) = Ok () t"
      "i = length (rrs s1)"
      using h(2) ok unfolding make_def by (simp_all only: if_False exec.case out_bind_eq_Ok outcome.inject) auto
    with ok show ?thesis
      by (intro that [OF url(1) cm h(1) [unfolded ini_def] Returns]) (auto simp: ini_def has_def)
  next
    case Trap
    then show ?thesis using h(2) ok unfolding make_def by (simp split: if_splits)
  qed
qed

context request_ops
begin

lemma create_request:
  assumes "Request_create E input init s = Ok i t"
    and "\<And>url m hm gh headers s1 q. input_url input s = Some url \<Longrightarrow> chosen_method input (init_members init) s = (m, hm, gh) \<Longrightarrow>
      request_headers E input (ini_headers (init_members init)) s = Ok headers s1 \<Longrightarrow>
      HttpOutgoingRequest_make (oq E) hm (Some (url_parts E url)) (Live (fields_of E headers)) = Returns q \<Longrightarrow>
      i = length (rrs s1) \<Longrightarrow> P (s1\<lparr>rrs := rrs s1 @ [initial_request E url m headers q]\<rparr>)"
  shows "P t"
proof -
  obtain url m hm gh headers s1 q where c: "input_url input s = Some url" "chosen_method input (init_members init) s = (m, hm, gh)"
    "request_headers E input (ini_headers (init_members init)) s = Ok headers s1"
    "HttpOutgoingRequest_make (oq E) hm (Some (url_parts E url)) (Live (fields_of E headers)) = Returns q"
    "i = length (rrs s1)"
    and b: "request_body E input (ini_body (init_members init)) i (s1\<lparr>rrs := rrs s1 @ [initial_request E url m headers q]\<rparr>) = Ok () t"
    by (rule Request_create_Ok [OF assms(1)])
  from assms(2) [OF c] have "P (s1\<lparr>rrs := rrs s1 @ [initial_request E url m headers q]\<rparr>)" by blast
  from make_body [OF this, of input "ini_body (init_members init)" i] b show ?thesis by simp
qed

end

text \<open>Also kept when an object without promises is made.\<close>

locale request_allocs = request_ops +
  assumes new_object [simp]: "P s \<Longrightarrow> rr_body_promise r = None \<Longrightarrow> rr_response_promise r = None \<Longrightarrow> rrs s = l
    \<Longrightarrow> P (s\<lparr>rrs := l @ [r]\<rparr>)"
    and labels [simp]: "P s \<Longrightarrow> P (upd_rr i (\<lambda>r. r\<lparr>rr_headers := m, rr_url := u, rr_status := st, rr_status_message := x\<rparr>) s)"
    and url_slot [simp]: "P s \<Longrightarrow> P (upd_rr i (\<lambda>r. r\<lparr>rr_url := u\<rparr>) s)"
begin

lemma input_url_method [simp]: "P s \<Longrightarrow> leaves P (request_url_and_method input s)"
  by (simp add: request_url_and_method_def split: request_input.split option.split)

lemma init_read [simp]: "P s \<Longrightarrow> leaves P (read_init ctor d a s)"
  by (simp add: read_init_def split: init_arg.split)

lemma any_request [simp]: "P s \<Longrightarrow> leaves P (Request_create E input init s)"
  unfolding Request_create_def Let_def alloc_rr_def new_rr_def
  by (auto intro!: leaves_out_bind split: prod.split exec.split)

lemma any_response [simp]: "P s \<Longrightarrow> leaves P (Response_create E h s)"
  by (auto simp: Response_create_def alloc_rr_def new_rr_def split: host_object.split prod.split sum.split)

lemma any_constructed_response [simp]: "P s \<Longrightarrow> leaves P (Response_constructor E body init s)"
  unfolding Response_constructor_def Let_def
  by (auto intro!: leaves_out_bind split: prod.split exec.split option.split host_object.split sum.split)

end

end
