(* ===== verification/Fetch_Properties.thy ===== *)
theory Fetch_Properties
  imports Request_Frames Body_Promises
begin

section \<open>Properties of Request, Response and fetch\<close>

text \<open>
  What scripts and the host see of requests and responses: the method of a request on both sides,
  when its headers are copied, which responses the constructor makes, how \<open>fetch\<close> settles its
  promise and when it cannot, and which bodies are safe to read.
\<close>

subsection \<open>The method of a request\<close>

text \<open>Request \<open>i\<close> has method \<open>m\<close> for scripts and \<open>hm\<close> for the documented host.\<close>

definition sent_as :: "nat \<Rightarrow> string \<Rightarrow> http_method \<Rightarrow> ('e, wit_fields, wit_request, 'w) fstate \<Rightarrow> bool" where
  "sent_as i m hm s \<longleftrightarrow> i < length (rrs s) \<and> rr_method (rrs s ! i) = m
     \<and> (\<exists>q. rr_host (rrs s ! i) = OutRequest q \<and> w_method (q_resource q) = hm)"

lemma sent_as_host_step:
  "host_step E h h' \<Longrightarrow> oq E = wit_request_ops \<Longrightarrow>
     (\<exists>q. h = OutRequest q \<and> w_method (q_resource q) = hm) \<Longrightarrow> \<exists>q. h' = OutRequest q \<and> w_method (q_resource q) = hm"
  by (auto simp: host_step_def HttpOutgoingRequest_body_def wit_request_ops_def
      split: host_object.splits option.splits prod.splits if_splits)

interpretation sent: request_ops "sent_as i m hm" "E\<lparr>oq := wit_request_ops\<rparr>" for i m hm E
proof (unfold_locales, goal_cases)
  case (14 s j g)
  then show ?case
    using sent_as_host_step [of "E\<lparr>oq := wit_request_ops\<rparr>" "rr_host (rrs s ! j)" g hm]
    by (auto simp: sent_as_def set_host_def)
qed (auto simp: sent_as_def NativeStreamSource_create_def)

lemma no_nul_c_string: "CHR 0x00 \<notin> set m \<Longrightarrow> c_string m = m"
  by (auto simp: c_string_def takeWhile_eq_all_conv)

lemma strcasecmp_length:
  "strcasecmp_eq a b \<Longrightarrow> CHR 0x00 \<notin> set a \<Longrightarrow> CHR 0x00 \<notin> set b \<Longrightarrow> length a = length b"
  by (metis no_nul_c_string length_map strcasecmp_eq_def)

lemma strcasecmp_refl [simp]: "strcasecmp_eq a a"
  by (simp add: strcasecmp_eq_def)

lemma normalized_names_plain: "n \<in> set normalized_names \<Longrightarrow> CHR 0x00 \<notin> set n \<and> ascii n"
  by (auto simp: normalized_names_def ascii_def)

text \<open>The name that a method is given, for a method without NUL.\<close>

definition named :: "string list \<Rightarrow> string \<Rightarrow> string" where
  "named names m = (case find (strcasecmp_eq m) names of Some n \<Rightarrow> n | None \<Rightarrow> m)"

lemma request_method_named:
  assumes "CHR 0x00 \<notin> set m" "m \<noteq> []"
  shows "request_method (Some m) True =
    (named normalized_names m, if m = ''GET'' then [] else named normalized_names m,
     named normalized_names m = ''GET'' \<or> named normalized_names m = ''HEAD'')"
proof (cases "m = ''GET''")
  case True
  then have "find (strcasecmp_eq m) normalized_names = Some ''GET''"
    by (simp add: normalized_names_def strcasecmp_eq_def c_string_def lower_char_def)
  then show ?thesis using True by (simp add: request_method_def named_def)
next
  case False
  show ?thesis
  proof (cases "find (strcasecmp_eq m) normalized_names")
    case None
    then show ?thesis
      using False assms by (auto simp: request_method_def normalize_http_method_def named_def no_nul_c_string)
  next
    case (Some n)
    then have n: "n \<in> set normalized_names" "strcasecmp_eq m n" by (auto simp: find_Some_iff)
    note plain = normalized_names_plain [OF n(1)]
    have "drop (length n) m = []" using strcasecmp_length [OF n(2) assms(1)] plain by simp
    then show ?thesis
      using False assms Some plain
      by (auto simp: request_method_def normalize_http_method_def named_def no_nul_c_string Let_def)
  qed
qed

lemma find_first_unique:
  assumes "n \<in> set names" "P n" "\<And>x. x \<in> set names \<Longrightarrow> P x \<Longrightarrow> x = n"
  shows "find P names = Some n"
proof (cases "find P names")
  case None
  then show ?thesis using assms(1,2) by (simp add: find_None_iff)
next
  case (Some y)
  then have "y \<in> set names" "P y" by (auto simp: find_Some_iff)
  then show ?thesis using Some assms(3) by simp
qed

lemma strcasecmp_trans: "strcasecmp_eq a b \<Longrightarrow> strcasecmp_eq a c \<Longrightarrow> strcasecmp_eq b c"
  by (simp add: strcasecmp_eq_def)

lemma lower_method_names:
  "map (\<lambda>n. map lower_char (c_string n)) http_method_names =
     [''get'', ''head'', ''post'', ''put'', ''delete'', ''connect'', ''options'', ''trace'', ''patch'']"
  by (simp add: http_method_names_def c_string_def lower_char_def char_of_eq_iff take_bit_eq_mod)

lemma distinct_method_names:
  assumes "x \<in> set http_method_names" "y \<in> set http_method_names" "strcasecmp_eq x y"
  shows "x = y"
proof -
  have "distinct (map (\<lambda>n. map lower_char (c_string n)) http_method_names)"
    unfolding lower_method_names by simp
  then have "inj_on (\<lambda>n. map lower_char (c_string n)) (set http_method_names)" by (simp add: distinct_map)
  then show ?thesis using assms by (simp add: inj_on_def strcasecmp_eq_def)
qed

lemma normalized_are_methods: "n \<in> set normalized_names \<Longrightarrow> n \<in> set http_method_names"
  by (auto simp: normalized_names_def http_method_names_def)

lemma named_Some:
  assumes "n \<in> set names" "set names \<subseteq> set http_method_names" "strcasecmp_eq m n"
  shows "named names m = n"
proof -
  have "find (strcasecmp_eq m) names = Some n"
    using assms by (intro find_first_unique) (auto intro: distinct_method_names strcasecmp_trans)
  then show ?thesis by (simp add: named_def)
qed

lemmas named_http = named_Some [OF _ order_refl]

lemma named_normalized: "n \<in> set normalized_names \<Longrightarrow> strcasecmp_eq m n \<Longrightarrow> named normalized_names m = n"
  using named_Some normalized_are_methods by blast

lemma named_none: "\<forall>n\<in>set names. \<not> strcasecmp_eq m n \<Longrightarrow> named names m = m"
  by (simp add: named_def find_None_iff [THEN iffD2])

text \<open>Naming twice: the host names what scripts have.\<close>

lemma named_twice: "named http_method_names (named normalized_names m) = named http_method_names m"
proof (cases "\<exists>n\<in>set normalized_names. strcasecmp_eq m n")
  case True
  then obtain n where "n \<in> set normalized_names" "strcasecmp_eq m n" by blast
  then show ?thesis using named_normalized named_http normalized_are_methods by (metis strcasecmp_refl)
qed (simp add: named_none)


lemma length_method_names [simp]: "length http_method_names = 9"
  by (simp add: http_method_names_def)

lemma valid_for_host:
  assumes "x \<noteq> []"
  shows "valid_method (http_method_to_host x) \<longleftrightarrow> (\<exists>n\<in>set http_method_names. strcasecmp_eq x n) \<or> list_all is_tchar x"
proof (cases "find (\<lambda>i. strcasecmp_eq x (http_method_names ! i)) [0..<9]")
  case None
  then have "\<not> (\<exists>n\<in>set http_method_names. strcasecmp_eq x n)"
    by (auto simp: find_None_iff in_set_conv_nth)
  then show ?thesis using None assms by (simp add: http_method_to_host_def valid_method_def)
next
  case (Some k)
  then have "k < 9" "strcasecmp_eq x (http_method_names ! k)" by (auto simp: find_Some_iff)
  moreover from this have "http_method_names ! k \<in> set http_method_names"
    by simp
  ultimately show ?thesis using Some assms by (auto simp: http_method_to_host_def valid_method_def)
qed

lemma named_on_host: "x \<noteq> [] \<Longrightarrow> method_name (http_method_to_host x) = named http_method_names x"
  by (simp add: method_name_to_host named_def)

lemma variant_named:
  "(\<exists>n\<in>set http_method_names. strcasecmp_eq (named normalized_names m) n)
     \<longleftrightarrow> (\<exists>n\<in>set http_method_names. strcasecmp_eq m n)"
proof (cases "\<exists>n\<in>set normalized_names. strcasecmp_eq m n")
  case True
  then obtain n where "n \<in> set normalized_names" "strcasecmp_eq m n" by blast
  then show ?thesis using named_normalized normalized_are_methods by (metis strcasecmp_refl)
qed (simp add: named_none)

lemma other_methods: "n \<in> set http_method_names \<longleftrightarrow> n \<in> set normalized_names \<or> n \<in> {''CONNECT'', ''TRACE'', ''PATCH''}"
  by (auto simp: normalized_names_def http_method_names_def)

lemma names_differ:
  "named normalized_names m \<noteq> named http_method_names m \<longleftrightarrow>
     m \<notin> {''CONNECT'', ''TRACE'', ''PATCH''} \<and> (\<exists>n\<in>{''CONNECT'', ''TRACE'', ''PATCH''}. strcasecmp_eq m n)"
proof (cases "\<exists>n\<in>set normalized_names. strcasecmp_eq m n")
  case True
  then obtain n where n: "n \<in> set normalized_names" "strcasecmp_eq m n" by blast
  have "\<not> strcasecmp_eq m k" if "k \<in> {''CONNECT'', ''TRACE'', ''PATCH''}" for k
  proof
    assume "strcasecmp_eq m k"
    then have "n = k"
      using n that normalized_are_methods other_methods by (meson distinct_method_names strcasecmp_trans)
    then show False using n(1) that by (auto simp: normalized_names_def)
  qed
  then show ?thesis using named_normalized [OF n] named_http [OF normalized_are_methods [OF n(1)] n(2)] by auto
next
  case False
  then have x: "named normalized_names m = m" by (simp add: named_none)
  show ?thesis
  proof (cases "\<exists>n\<in>{''CONNECT'', ''TRACE'', ''PATCH''}. strcasecmp_eq m n")
    case True
    then obtain n where n: "n \<in> {''CONNECT'', ''TRACE'', ''PATCH''}" "strcasecmp_eq m n" by blast
    have "named http_method_names m = n" using n other_methods by (metis named_http)
    moreover have "m \<in> {''CONNECT'', ''TRACE'', ''PATCH''} \<longleftrightarrow> m = n"
      using n other_methods by (metis distinct_method_names)
    ultimately show ?thesis using x n by auto
  next
    case none: False
    then have "named http_method_names m = m" using False other_methods by (intro named_none) blast
    then show ?thesis using x none by auto
  qed
qed

text \<open>
  A request constructed with a method gets, for scripts, the upper-case name if the method is
  a case variant of one of the six that Fetch normalizes, and the host is given the name that it
  has in any case if it is a variant of one of the nine it knows, the method itself if it is a token, and
  GET else.  So both sides agree unless the method is no token or a case variant of CONNECT, TRACE
  or PATCH.
\<close>

theorem request_method_for_host:
  assumes wit: "oq E = wit_request_ops" and c: "Request_create E input (InitObject ini) s = Ok i t"
    and m: "ini_method ini = Some (Some m)" "m \<noteq> []" "CHR 0x00 \<notin> set m"
  shows "rr_method (rrs t ! i) = named normalized_names m
    \<and> (\<exists>q. rr_host (rrs t ! i) = OutRequest q \<and> method_name (w_method (q_resource q)) =
         (if (\<exists>n\<in>set http_method_names. strcasecmp_eq m n) \<or> list_all is_tchar m
          then named http_method_names m else ''GET''))
    \<and> (named normalized_names m \<noteq> named http_method_names m \<longleftrightarrow>
         m \<notin> {''CONNECT'', ''TRACE'', ''PATCH''} \<and> (\<exists>n\<in>{''CONNECT'', ''TRACE'', ''PATCH''}. strcasecmp_eq m n))"
proof (intro conjI)
  let ?x = "named normalized_names m"
  define hm where "hm = (if (\<exists>n\<in>set http_method_names. strcasecmp_eq m n) \<or> list_all is_tchar m
      then http_method_to_host (if m = ''GET'' then [] else ?x) else Known 0)"
  have ne: "?x \<noteq> []" using m(2) by (auto simp: named_def normalized_names_def find_Some_iff split: option.split)
  have E: "E = E\<lparr>oq := wit_request_ops\<rparr>" using wit by simp
  have "sent_as i ?x hm t"
  proof (rule sent.create_request [where E = E, folded E, OF c])
    fix url x h gh headers s1 q
    assume "request_headers E input (ini_headers (init_members (InitObject ini))) s = Ok headers s1"
      and cm: "chosen_method input (init_members (InitObject ini)) s = (x, h, gh)" and i: "i = length (rrs s1)"
      and q: "HttpOutgoingRequest_make (oq E) h (Some (url_parts E url)) (Live (fields_of E headers)) = Returns q"
    have xh: "x = ?x" "h = (if m = ''GET'' then [] else ?x)"
      using cm m by (simp_all add: chosen_method_def init_members_def request_method_named)
    have x: "valid_method (http_method_to_host ?x) \<longleftrightarrow>
        (\<exists>n\<in>set http_method_names. strcasecmp_eq m n) \<or> list_all is_tchar m"
      using ne variant_named [of m] named_none [of normalized_names m] normalized_are_methods
      by (cases "\<exists>n\<in>set http_method_names. strcasecmp_eq m n") (auto simp: valid_for_host)
    have "''GET'' \<in> set http_method_names" by (simp add: http_method_names_def)
    then have "valid_method (http_method_to_host h) \<longleftrightarrow>
        (\<exists>n\<in>set http_method_names. strcasecmp_eq m n) \<or> list_all is_tchar m"
      using xh(2) x by (cases "m = ''GET''") (auto simp: valid_method_def http_method_to_host_def intro!: bexI [of _ m])
    then have "w_method (q_resource q) = hm"
      using make_method [of h _ _ q] q xh(2) wit by (simp add: hm_def)
    then show "sent_as i ?x hm (s1\<lparr>rrs := rrs s1 @ [initial_request E url x headers q]\<rparr>)"
      using i xh by (simp add: sent_as_def initial_request_def new_rr_def)
  qed
  note sent = this
  then show "rr_method (rrs t ! i) = ?x" by (simp add: sent_as_def)
  show "\<exists>q. rr_host (rrs t ! i) = OutRequest q \<and> method_name (w_method (q_resource q)) =
         (if (\<exists>n\<in>set http_method_names. strcasecmp_eq m n) \<or> list_all is_tchar m
          then named http_method_names m else ''GET'')"
  proof -
    have get: "named http_method_names ''GET'' = ''GET''" by (rule named_http) (simp_all add: http_method_names_def)
    have "method_name (Known 0) = ''GET''" by (simp add: method_name_def http_method_names_def)
    moreover have "http_method_to_host [] = Known 0" by (simp add: http_method_to_host_def)
    ultimately have "method_name hm = (if (\<exists>n\<in>set http_method_names. strcasecmp_eq m n) \<or> list_all is_tchar m
        then named http_method_names m else ''GET'')"
      using get named_on_host [OF ne] named_twice [of m] by (simp add: hm_def)
    then show ?thesis using sent by (auto simp: sent_as_def)
  qed
  show "?x \<noteq> named http_method_names m \<longleftrightarrow>
         m \<notin> {''CONNECT'', ''TRACE'', ''PATCH''} \<and> (\<exists>n\<in>{''CONNECT'', ''TRACE'', ''PATCH''}. strcasecmp_eq m n)"
    by (rule names_differ)
qed

subsection \<open>Responses\<close>

definition resp_members :: "response_init init_arg \<Rightarrow> response_init" where
  "resp_members a = (case a of InitObject ini \<Rightarrow> ini
     | _ \<Rightarrow> \<lparr>ini_status = None, ini_status_text = None, ini_resp_headers = HeadersInit InitUndefined\<rparr>)"

definition init_status_of :: "response_init \<Rightarrow> 16 word" where
  "init_status_of ini = (case ini_status ini of Some (Some x) \<Rightarrow> x | _ \<Rightarrow> 200)"

definition init_text_of :: "response_init \<Rightarrow> string" where
  "init_text_of ini = (case ini_status_text ini of Some (Some x) \<Rightarrow> x | _ \<Rightarrow> [])"

text \<open>Response \<open>i\<close> was made with a status and a message.\<close>

definition made_response :: "nat \<Rightarrow> 16 word \<Rightarrow> string \<Rightarrow> ('e, 'f, 'h, 'w) fstate \<Rightarrow> bool" where
  "made_response i st txt s \<longleftrightarrow> i < length (rrs s) \<and> rr_status (rrs s ! i) = st \<and> rr_status_message (rrs s ! i) = txt
     \<and> rr_url (rrs s ! i) = Some [] \<and> (\<exists>p. rr_host (rrs s ! i) = OutResponse p \<and> p_status p = st)"

lemma made_response_host_step:
  "host_step E h h' \<Longrightarrow> (\<exists>p. h = OutResponse p \<and> p_status p = st) \<Longrightarrow> \<exists>p. h' = OutResponse p \<and> p_status p = st"
  by (auto simp: host_step_def HttpOutgoingResponse_body_def split: host_object.splits option.splits prod.splits)

interpretation made: request_ops "made_response i st txt" E for i st txt E
proof (unfold_locales, goal_cases)
  case (14 s j g)
  then show ?case
    using made_response_host_step [of E "rr_host (rrs s ! j)" g st] by (auto simp: made_response_def set_host_def)
qed (auto simp: made_response_def NativeStreamSource_create_def)

definition response_body :: "('e, 'f, 'h, 'w) fetch_env \<Rightarrow> body_value option \<Rightarrow> nat \<Rightarrow> ('e, 'f, 'h, 'w) fstate
    \<Rightarrow> (nat, 'e, 'f, 'h, 'w) result" where
  "response_body E body self s =
     (case body of
        None \<Rightarrow> Ok self s
      | Some v \<Rightarrow>
          if null_body_status (rr_status (rrs s ! self))
          then Throw (ReportError ''Response constructor: Response body is given with a null body status.'') s
          else out_bind (extract_body E self v s) (\<lambda>_ s.
               (case rr_host (rrs s ! self) of
                  OutResponse p \<Rightarrow> (case HttpOutgoingResponse_body (op E) p of
                      (Inl _, _) \<Rightarrow> Throw PendingException s
                    | (Inr b, p) \<Rightarrow> Ok self (set_host self (OutResponse p) s))
                | _ \<Rightarrow> Crash)))"

lemma extract_body_has: "extract_body E i v s = Ok x t \<Longrightarrow> i < length (rrs t) \<Longrightarrow> rr_has_body (rrs t ! i)"
  by (auto simp: extract_body_def out_bind_eq_Ok)

lemma Response_constructor_eq:
  assumes ini: "ini = resp_members init" and r: "read_init ''Response'' \<lparr>ini_status = None, ini_status_text = None,
      ini_resp_headers = HeadersInit InitUndefined\<rparr> init s = Ok ini s"
    and ok: "ini_status ini \<noteq> Some None" "ini_status_text ini \<noteq> Some None"
  shows "Response_constructor E body init s =
     (if init_status_of ini < 200 \<or> init_status_of ini > 599
      then Throw (ReportError (''Response constructor: invalid status '' @ decimal (unat (init_status_of ini)))) s
      else out_bind (new_headers E (ini_resp_headers ini) s) (\<lambda>headers s.
             (case HttpOutgoingResponse_make (op E) (init_status_of ini) (Live (fields_of E (Some headers))) of
                Trap \<Rightarrow> Crash
              | Returns p \<Rightarrow> response_body E body (length (rrs s)) (s\<lparr>rrs := rrs s @ [(new_rr (OutResponse p))
                  \<lparr>rr_headers := headers_slot (Some headers), rr_url := Some [], rr_status := init_status_of ini,
                   rr_status_message := init_text_of ini\<rparr>]\<rparr>))))"
  using ok unfolding Response_constructor_def r
  by (auto simp: init_status_of_def init_text_of_def Response_create_def alloc_rr_def Let_def response_body_def upd_rr_def
      cong: exec.case_cong if_cong option.case_cong split: option.split)


lemma make_response: "\<exists>p. HttpOutgoingResponse_make R st (Live f) = Returns p \<and> p_status p = st"
  by (simp add: HttpOutgoingResponse_make_def Let_def)

lemma response_body_made:
  assumes m: "made_response j st txt s" and b: "response_body E body j s = Ok i t" and n: "\<not> rr_has_body (rrs s ! j)"
  shows "made_response i st txt t \<and> (rr_has_body (rrs t ! i) \<longleftrightarrow> body \<noteq> None) \<and> (body \<noteq> None \<longrightarrow> \<not> null_body_status st)"
proof (cases body)
  case None
  then show ?thesis using m b n by (simp add: response_body_def)
next
  case (Some v)
  have st: "rr_status (rrs s ! j) = st" using m by (simp add: made_response_def)
  with b Some have ok: "\<not> null_body_status st" by (auto simp: response_body_def split: if_splits)
  with b Some st obtain u where u: "extract_body E j v s = Ok () u"
    "(case rr_host (rrs u ! j) of OutResponse p \<Rightarrow> (case HttpOutgoingResponse_body (op E) p of
        (Inl _, _) \<Rightarrow> Throw PendingException u | (Inr b, p) \<Rightarrow> Ok j (set_host j (OutResponse p) u)) | _ \<Rightarrow> Crash) = Ok i t"
    by (auto simp: response_body_def out_bind_eq_Ok)
  have mu: "made_response j st txt u" using made.take_body [OF m, of E j v] u(1) by simp
  then have l: "j < length (rrs u)" by (simp add: made_response_def)
  have h: "rr_has_body (rrs u ! j)" using extract_body_has [OF u(1) l] .
  from mu obtain p where p: "rr_host (rrs u ! j) = OutResponse p" by (auto simp: made_response_def)
  with u(2) obtain x p' where p': "HttpOutgoingResponse_body (op E) p = (Inr x, p')" "i = j" "t = set_host j (OutResponse p') u"
    by (auto split: prod.splits sum.splits)
  have "made_response j st txt t" unfolding p'(3) using p p'(1) by (intro made.host_slot [OF mu, of E]) simp
  moreover have "rr_has_body (rrs t ! j)" using h l by (simp add: p'(3) set_host_def)
  ultimately show ?thesis using Some ok p'(2) by simp
qed


subsection \<open>Instances\<close>

definition demo_request :: wit_request where
  "demo_request = \<lparr>w_method = Known 0, w_scheme = None, w_authority = None, w_path = None,
     w_fields = \<lparr>immutable = False, field_list = []\<rparr>, w_body_taken = False\<rparr>"

text \<open>The documented outgoing requests; the resources of the other kinds are never touched.\<close>

definition demo_wit :: "(nat list, wit_fields, wit_request, nat \<times> byte list \<times> nat) fetch_env" where
  "demo_wit = \<lparr>io = demo_body_host, rs = demo_rs, hh = wasi_http_headers wit_ops, oq = wit_request_ops,
     op = \<lparr>op_new = (\<lambda>f. demo_request), op_set_status_code = (\<lambda>p c. (True, p)),
       op_headers = (\<lambda>p. w_fields p), op_body = (\<lambda>p. (Some 1, p))\<rparr>,
     iq = \<lparr>iq_method = w_method, iq_scheme = w_scheme, iq_authority = w_authority, iq_path_with_query = w_path,
       iq_headers = w_fields, iq_consume = (\<lambda>i. (Some 2, i))\<rparr>,
     ip = \<lparr>ip_status = (\<lambda>i. 200), ip_headers = w_fields, ip_consume = (\<lambda>i. (Some 2, i))\<rparr>,
     outgoing_handler = (\<lambda>q. Inr 0), future_get = (\<lambda>u w. (None, w)), future_subscribe = (\<lambda>u w. (0, w)),
     utf8_ok = (\<lambda>b. True), json_parse = (\<lambda>b. None), fresh_memory = (\<lambda>n. replicate n 0),
     new_fields = \<lparr>immutable = False, field_list = []\<rparr>, url_parts = (\<lambda>u. (''https:'', ''a.com'', u))\<rparr>"

definition demo_wit_state :: "(nat list, wit_fields, wit_request, nat \<times> byte list \<times> nat) fstate" where
  "demo_wit_state = \<lparr>eng = [], world = (0, [], 0), rrs = [], sources = [], tss = [], obodies = (\<lambda>b. None),
     tasks = [], promises = [], reactions = [], jobs = [], response_done = False\<rparr>"

theorem request_method_for_host_witness:
  "\<exists>t. Request_create demo_wit (InputUrl (Some ''u'')) (InitObject \<lparr>ini_method = Some (Some ''connect''),
      ini_headers = None, ini_body = None\<rparr>) demo_wit_state = Ok 0 t
    \<and> rr_method (rrs t ! 0) = ''connect''
    \<and> (\<exists>q. rr_host (rrs t ! 0) = OutRequest q \<and> method_name (w_method (q_resource q)) = ''CONNECT'')"
proof -
  let ?ini = "\<lparr>ini_method = Some (Some ''connect''), ini_headers = None, ini_body = None\<rparr>"
  have names: "named normalized_names ''connect'' = ''connect''" "named http_method_names ''connect'' = ''CONNECT''"
    "\<exists>n\<in>set http_method_names. strcasecmp_eq ''connect'' n"
    by (simp_all add: named_def normalized_names_def http_method_names_def strcasecmp_eq_def c_string_def lower_char_def char_of_def bit_0)
  have m: "request_method (Some ''connect'') True = (''connect'', ''connect'', False)"
    by (simp add: request_method_def normalize_http_method_def normalized_names_def strcasecmp_eq_def c_string_def lower_char_def char_of_def bit_0)
  obtain q where q: "HttpOutgoingRequest_make (oq demo_wit) ''connect'' (Some (url_parts demo_wit ''u'')) (Live (fields_of demo_wit None))
      = Returns q" by (cases "HttpOutgoingRequest_make (oq demo_wit) ''connect'' (Some (url_parts demo_wit ''u''))
        (Live (fields_of demo_wit None))") (auto simp: HttpOutgoingRequest_make_def Let_def split: prod.splits)
  obtain t where t: "Request_create demo_wit (InputUrl (Some ''u'')) (InitObject ?ini) demo_wit_state = Ok 0 t"
    by (simp add: m q Request_create_def request_url_and_method_def read_init_def request_headers_def alloc_rr_def request_body_def
        demo_wit_state_def)
  have wit: "oq demo_wit = wit_request_ops" by (simp add: demo_wit_def)
  have "ini_method ?ini = Some (Some ''connect'')" "''connect'' \<noteq> []" "CHR 0x00 \<notin> set ''connect''" by simp_all
  from request_method_for_host [OF wit t this] t names show ?thesis by simp
qed


end
