(* ===== verification/Fetch_Promises.thy ===== *)
theory Fetch_Promises
  imports Request_Frames Body_Promises
begin

section \<open>The promise of fetch\<close>

text \<open>
  How \<open>fetch\<close> settles the promise it returns: the task it queues does when the host has the
  response.  A request whose body is streamed has no such task, so its promise is never fulfilled.
\<close>

subsection \<open>What does not settle a response\<close>

text \<open>
  From \<open>a\<close> to \<open>s\<close> objects and promises were only added, no task for a response was queued, no object
  changed its response promise, and a promise of \<open>a\<close> that is no body's is as before or rejected.
\<close>

definition quiet :: "('e, 'f, 'h, 'w) fstate \<Rightarrow> ('e, 'f, 'h, 'w) fstate \<Rightarrow> bool" where
  "quiet a s \<longleftrightarrow> length (rrs a) \<le> length (rrs s) \<and> length (promises a) \<le> length (promises s)
     \<and> (\<forall>i<length (rrs s). rr_response_promise (rrs s ! i) =
          (if i < length (rrs a) then rr_response_promise (rrs a ! i) else None))
     \<and> (\<forall>i u h. ResponseTask i u h \<in> set (tasks s) \<longrightarrow> ResponseTask i u h \<in> set (tasks a))
     \<and> (\<forall>i<length (rrs s). \<forall>q<length (promises a). rr_body_promise (rrs s ! i) = Some q \<longrightarrow>
          (\<exists>j<length (rrs a). rr_body_promise (rrs a ! j) = Some q))
     \<and> (\<forall>q<length (promises a). (\<forall>j<length (rrs a). rr_body_promise (rrs a ! j) \<noteq> Some q) \<longrightarrow>
          promises s ! q = promises a ! q \<or> (\<exists>e. promises s ! q = PRejected e))"

lemma quietI:
  assumes "length (rrs a) \<le> length (rrs s)" "length (promises a) \<le> length (promises s)"
    and "\<And>i. i < length (rrs s) \<Longrightarrow> rr_response_promise (rrs s ! i) =
          (if i < length (rrs a) then rr_response_promise (rrs a ! i) else None)"
    and "\<And>i u h. ResponseTask i u h \<in> set (tasks s) \<Longrightarrow> ResponseTask i u h \<in> set (tasks a)"
    and "\<And>i q. i < length (rrs s) \<Longrightarrow> q < length (promises a) \<Longrightarrow> rr_body_promise (rrs s ! i) = Some q \<Longrightarrow>
          \<exists>j<length (rrs a). rr_body_promise (rrs a ! j) = Some q"
    and "\<And>q. q < length (promises a) \<Longrightarrow> (\<And>j. j < length (rrs a) \<Longrightarrow> rr_body_promise (rrs a ! j) \<noteq> Some q) \<Longrightarrow>
          promises s ! q = promises a ! q \<or> (\<exists>e. promises s ! q = PRejected e)"
  shows "quiet a s"
  unfolding quiet_def using assms by blast

lemma quietD:
  assumes "quiet a s"
  shows "length (rrs a) \<le> length (rrs s)" "length (promises a) \<le> length (promises s)"
    and "i < length (rrs s) \<Longrightarrow> rr_response_promise (rrs s ! i) =
          (if i < length (rrs a) then rr_response_promise (rrs a ! i) else None)"
    and "ResponseTask i u h \<in> set (tasks s) \<Longrightarrow> ResponseTask i u h \<in> set (tasks a)"
    and "i < length (rrs s) \<Longrightarrow> q < length (promises a) \<Longrightarrow> rr_body_promise (rrs s ! i) = Some q \<Longrightarrow>
          \<exists>j<length (rrs a). rr_body_promise (rrs a ! j) = Some q"
    and "q < length (promises a) \<Longrightarrow> (\<And>j. j < length (rrs a) \<Longrightarrow> rr_body_promise (rrs a ! j) \<noteq> Some q) \<Longrightarrow>
          promises s ! q = promises a ! q \<or> (\<exists>e. promises s ! q = PRejected e)"
  using assms unfolding quiet_def by blast+

lemma quiet_refl [simp]: "quiet s s"
  by (rule quietI) auto

lemma quiet_same:
  assumes "quiet a s" "length (rrs t) = length (rrs s)" "promises t = promises s"
    "\<And>i u h. ResponseTask i u h \<in> set (tasks t) \<Longrightarrow> ResponseTask i u h \<in> set (tasks s)"
    "\<And>i. rr_response_promise (rrs t ! i) = rr_response_promise (rrs s ! i)"
    "\<And>i. rr_body_promise (rrs t ! i) = rr_body_promise (rrs s ! i)"
  shows "quiet a t"
  using assms(2-) quietD [OF assms(1)] by (intro quietI) auto

interpretation still: body_streams "quiet a" E for a :: "('e, 'f, 'h, 'w) fstate" and E
  by unfold_locales (erule quiet_same; auto simp: set_host_def NativeStreamSource_create_def)+

lemma quiet_alloc:
  assumes "quiet a s" "rr_body_promise r = None" "rr_response_promise r = None"
  shows "quiet a (s\<lparr>rrs := rrs s @ [r]\<rparr>)"
  using assms(2,3) quietD [OF assms(1)] by (intro quietI) (auto simp: nth_append less_Suc_eq split: if_splits)

interpretation still: request_allocs "quiet a" E for a :: "('e, 'f, 'h, 'w) fstate" and E
proof (unfold_locales, goal_cases)
  case (2 s r l)
  then show ?case using quiet_alloc by blast
qed (erule quiet_same; simp add: NativeStreamSource_create_def)+

lemma quiet_trans:
  assumes "quiet a s" "quiet s t"
  shows "quiet a t"
proof (rule quietI)
  fix q assume q: "q < length (promises a)" "\<And>j. j < length (rrs a) \<Longrightarrow> rr_body_promise (rrs a ! j) \<noteq> Some q"
  have n: "rr_body_promise (rrs s ! j) \<noteq> Some q" if "j < length (rrs s)" for j
    using quietD(5) [OF assms(1) that q(1)] q(2) by blast
  have l: "q < length (promises s)" using q(1) quietD(2) [OF assms(1)] by simp
  show "promises t ! q = promises a ! q \<or> (\<exists>e. promises t ! q = PRejected e)"
    using quietD(6) [OF assms(1) q] quietD(6) [OF assms(2) l n] by auto
next
  fix i q assume "i < length (rrs t)" "q < length (promises a)" "rr_body_promise (rrs t ! i) = Some q"
  then show "\<exists>j<length (rrs a). rr_body_promise (rrs a ! j) = Some q"
    using quietD(2) [OF assms(1)] quietD(5) [OF assms(1)] quietD(5) [OF assms(2)] by (meson order.strict_trans2)
qed (use quietD(1-4) [OF assms(1)] quietD(1-4) [OF assms(2)] in auto)

lemma nth_settle: "promises (settle_promise p v s) ! q =
    (if q = p \<and> p < length (promises s) \<and> promises s ! p = PPending then v else promises s ! q)"
  by (cases "p < length (promises s)") (auto simp: settle_promise_def list_update_beyond)

lemma settle_other [simp]:
  "rrs (settle_promise p v s) = rrs s" "tasks (settle_promise p v s) = tasks s"
  "length (promises (settle_promise p v s)) = length (promises s)"
  by (simp_all add: settle_promise_def)

lemma quiet_settle_body:
  assumes "quiet a s" "rr_body_promise (rrs s ! i) = Some p" "i < length (rrs s)"
  shows "quiet a (settle_promise p v (upd_rr i (\<lambda>r. r\<lparr>rr_body_promise := None\<rparr>) s))"
proof (rule quietI)
  fix q assume q: "q < length (promises a)" "\<And>j. j < length (rrs a) \<Longrightarrow> rr_body_promise (rrs a ! j) \<noteq> Some q"
  then have "q \<noteq> p" using quietD(5) [OF assms(1,3) _ assms(2)] by blast
  then show "promises (settle_promise p v (upd_rr i (\<lambda>r. r\<lparr>rr_body_promise := None\<rparr>) s)) ! q = promises a ! q
      \<or> (\<exists>e. promises (settle_promise p v (upd_rr i (\<lambda>r. r\<lparr>rr_body_promise := None\<rparr>) s)) ! q = PRejected e)"
    using quietD(6) [OF assms(1) q] by (simp add: nth_settle)
qed (use quietD(1-5) [OF assms(1)] in \<open>auto split: if_splits\<close>)

lemma quiet_reject: "quiet a s \<Longrightarrow> quiet a (settle_promise p (PRejected e) s)"
  using quietD [of a s] by (intro quietI) (auto simp: nth_settle)

lemma quiet_new_promise:
  "quiet a s \<Longrightarrow> quiet a (s\<lparr>promises := promises s @ [v]\<rparr>)"
  "quiet a s \<Longrightarrow> quiet a (upd_rr i (\<lambda>r. r\<lparr>rr_body_promise := Some (length (promises s))\<rparr>) (s\<lparr>promises := promises s @ [v]\<rparr>))"
  unfolding quiet_def by (auto simp: nth_append)

lemma quiet_jobs [simp]: "quiet a (s\<lparr>jobs := j\<rparr>) = quiet a s" "quiet a (s\<lparr>reactions := l\<rparr>) = quiet a s"
  by (simp_all add: quiet_def)

lemma quiet_parse_body: "quiet a s \<Longrightarrow> i < length (rrs s) \<Longrightarrow> leaves (quiet a) (parse_body E kind i bytes s)"
  by (simp add: parse_body_def Let_def quiet_settle_body split: option.split)

lemma quiet_reject_body: "quiet a s \<Longrightarrow> i < length (rrs s) \<Longrightarrow> leaves (quiet a) (reject_body_promise i err s)"
  by (simp add: reject_body_promise_def quiet_settle_body split: option.split)

lemma quiet_read_next: "quiet a s \<Longrightarrow> leaves (quiet a) (read_next E reader r s)"
  by (simp add: read_next_def quiet_same split: option.split)

lemma quiet_consume: "quiet a s \<Longrightarrow> i < length (rrs s) \<Longrightarrow> leaves (quiet a) (consume_content_stream_for_bodyAll E i st kind s)"
  unfolding consume_content_stream_for_bodyAll_def
  by (auto simp: quiet_reject_body quiet_read_next split: option.split)

lemma quiet_then_handler:
  "quiet a s \<Longrightarrow> rd_self rd < length (rrs s) \<Longrightarrow> leaves (quiet a) (content_stream_read_then_handler E rd arg s)"
  unfolding content_stream_read_then_handler_def
  by (auto simp: quiet_reject_body quiet_read_next quiet_parse_body split: option.split chunk.split)

lemma quiet_bodyAll:
  assumes "quiet a s" "i < length (rrs s)"
  shows "leaves (quiet a) (bodyAll E kind i s)"
proof -
  define s1 where "s1 = upd_rr i (\<lambda>r. r\<lparr>rr_body_promise := Some (length (promises s))\<rparr>) (s\<lparr>promises := promises s @ [PPending]\<rparr>)"
  have q: "quiet a s1" "i < length (rrs s1)" using assms quiet_new_promise(2) by (auto simp: s1_def)
  have "leaves (quiet a) (case mark_body_used E i s1 of Throw err s \<Rightarrow> rejected_promise err s | Crash \<Rightarrow> Crash | Loops \<Rightarrow> Loops
      | Ok _ s \<Rightarrow> out_bind (case rr_body_stream (rrs s ! i) of Some stream \<Rightarrow> Ok stream s | None \<Rightarrow> create_body_stream E i s)
          (\<lambda>stream s. Ok (length (promises s)) (s\<lparr>jobs := jobs s @ [ConsumeStream i stream kind]\<rparr>)))"
  proof (cases "mark_body_used E i s1")
    case (Ok x u)
    then have u: "quiet a u" using still.mark_used [OF q(1), of E i] by simp
    have "keeps s1 u" using kept.mark_used [of s1 s1 E i] Ok by simp
    then have l: "i < length (rrs u)" using q(2) by (simp add: keeps_def)
    show ?thesis using Ok u l by (auto intro!: leaves_out_bind split: option.split)
  next
    case (Throw e u)
    then show ?thesis using still.mark_used [OF q(1), of E i] by (simp add: rejected_promise_def quiet_new_promise)
  qed simp_all
  then have m: "leaves (quiet a) (case mark_body_used E i s1 of Throw err s \<Rightarrow> rejected_promise err s | Crash \<Rightarrow> Crash | Loops \<Rightarrow> Loops
      | Ok _ s \<Rightarrow> out_bind (case rr_body_stream (rrs s ! i) of Some stream \<Rightarrow> Ok stream s | None \<Rightarrow> create_body_stream E i s)
          (\<lambda>stream s. Ok p (s\<lparr>jobs := jobs s @ [ConsumeStream i stream kind]\<rparr>)))" for p
    by (cases "mark_body_used E i s1") (auto simp: leaves_def out_bind_def split: outcome.splits option.splits)
  show ?thesis
    using assms q m quiet_parse_body [OF q, of E kind "[]"] unfolding bodyAll_def new_pending_promise_def
    by (auto simp: s1_def [symmetric] Let_def rejected_promise_def quiet_new_promise intro!: leaves_out_bind)
qed

lemma quiet_body_reader: "quiet a s \<Longrightarrow> leaves (quiet a) (body_reader_then_handler E i reader arg s)"
proof (cases "arg \<noteq> Some NotUint8Array \<or> \<not> is_request i s")
  case False
  assume q: "quiet a s"
  have req: "is_request i t = is_request i s" if "outgoing_body_handle E i s = Ok b t" for b t
    using that by (auto simp: outgoing_body_handle_def is_request_def set_host_def split: outcome_splits if_splits)
  show ?thesis
  proof (cases "outgoing_body_handle E i s")
    case (Ok b t)
    then have "quiet a t" using still.outgoing_body [OF q, of E i] by simp
    then show ?thesis using False Ok req by (auto simp: body_reader_then_handler_def quiet_reject split: option.split)
  next
    case (Throw e t)
    then show ?thesis using still.outgoing_body [OF q, of E i] by (simp add: body_reader_then_handler_def)
  qed (simp_all add: body_reader_then_handler_def)
qed (rule still.finish_body)

lemma leaves_after: "leaves P m \<Longrightarrow> after m = Some t \<Longrightarrow> P t"
  by (cases m) auto

lemma quiet_step:
  assumes "fb_step E s t" and inv: "body_inv s"
  shows "quiet s t"
  using assms(1)
proof cases
  case (Script_body_all i kind)
  then have "leaves (quiet s) (bodyAll E kind i s)" by (simp add: quiet_bodyAll)
  then show ?thesis using Script_body_all by (blast intro: leaves_after)
next
  case (Script_body i create)
  then have "leaves (quiet s) (body_get E i create s)" by simp
  then show ?thesis using Script_body by (blast intro: leaves_after)
next
  case (Send_body i)
  moreover have "leaves (quiet s) (maybe_stream_body E i s)" by simp
  ultimately show ?thesis by (blast intro: leaves_after)
next
  case (New_object r)
  then show ?thesis using quiet_alloc [OF quiet_refl] by simp
next
  case (Job k)
  obtain i st kind where j: "jobs s ! k = ConsumeStream i st kind" by (cases "jobs s ! k")
  have "i \<in> set (pending_reads s)" using Job(1) j nth_mem [OF Job(1)] by (force simp: pending_reads_def job_self_def)
  then have "i < length (rrs (s\<lparr>jobs := take k (jobs s) @ drop (Suc k) (jobs s)\<rparr>))" using body_invD(2) [OF inv] by simp
  then show ?thesis
    using Job(2) j quiet_consume [of s "s\<lparr>jobs := take k (jobs s) @ drop (Suc k) (jobs s)\<rparr>" i E st kind]
    by (cases "fb_run_job E k s") (auto simp: fb_run_job_def Let_def)
next
  case (Reaction k res)
  let ?s = "s\<lparr>reactions := take k (reactions s) @ drop (Suc k) (reactions s)\<rparr>"
  have "leaves (quiet s) (fb_run_reaction E k res s)"
  proof (cases "snd (reactions s ! k)")
    case (ReadAll rd)
    have "rd_self rd \<in> set (pending_reads s)"
      using nth_mem [OF Reaction(1)] ReadAll by (force simp: pending_reads_def reads_of_def)
    then have "rd_self rd < length (rrs ?s)" using body_invD(2) [OF inv] by simp
    then show ?thesis
      using ReadAll quiet_then_handler [of s ?s rd E] quiet_reject_body [of s ?s "rd_self rd"]
      by (auto simp: fb_run_reaction_def content_stream_read_catch_handler_def Let_def split: read_result.split)
  next
    case (SendBody j reader)
    then show ?thesis
      using quiet_body_reader [of s ?s E j reader]
      by (auto simp: fb_run_reaction_def body_reader_catch_handler_def Let_def split: read_result.split)
  qed
  then show ?thesis using Reaction(2) by (blast intro: leaves_after)
next
  case (Pull src)
  moreover have "leaves (quiet s) (NativeStreamSource_pull E src s)" by simp
  ultimately show ?thesis by (blast intro: leaves_after)
next
  case (Task src)
  moreover have "leaves (quiet s) (BodyFutureTask_run E src s)" by simp
  ultimately show ?thesis by (blast intro: leaves_after)
next
  case (Event_loop q)
  then show ?thesis by (intro quiet_same [OF quiet_refl]) auto
qed simp_all

subsection \<open>The invariant of the body promises\<close>

lemma progresses_keeps: "progresses a s \<Longrightarrow> keeps s t \<Longrightarrow> progresses a t"
  using keeps_progresses progresses_trans by (metis progresses_def)

interpretation sound: request_allocs "progresses a" E for a :: "('e, 'f, 'h, 'w) fstate" and E
proof (unfold_locales, goal_cases)
  case (16 s r l)
  then have "body_inv s" by (simp add: progresses_def)
  with 16 show ?case using new_object_progresses progresses_trans by blast
qed (erule progresses_keeps; auto simp: keeps_def pending_reads_def set_host_def NativeStreamSource_create_def)+

text \<open>Making the promise of a response.\<close>

lemma response_promise_progresses:
  assumes p: "progresses a s" and q: "length (promises a) \<le> q" "q < length (promises s)"
    and fresh: "\<And>j. j < length (rrs s) \<Longrightarrow> rr_body_promise (rrs s ! j) \<noteq> Some q"
  shows "progresses a (upd_rr i (\<lambda>r. r\<lparr>rr_response_promise := Some q\<rparr>) s)"
proof -
  let ?t = "upd_rr i (\<lambda>r. r\<lparr>rr_response_promise := Some q\<rparr>) s"
  have inv: "body_inv s" using p by (simp add: progresses_def)
  have same: "pending_reads ?t = pending_reads s" by (simp add: pending_reads_def)
  have "body_inv ?t"
  proof (rule body_invI)
    fix j assume "j \<in> set (pending_reads ?t)"
    then show "j < length (rrs ?t) \<and> rr_body_used (rrs ?t ! j)
        \<and> (\<exists>p. rr_body_promise (rrs ?t ! j) = Some p \<and> promises ?t ! p = PPending)"
      using same body_invD(2-4) [OF inv, of j] by auto
  next
    fix j k p assume "j < length (rrs ?t)" "k < length (rrs ?t)" "rr_body_promise (rrs ?t ! j) = Some p" "rr_body_promise (rrs ?t ! k) = Some p"
    then show "j = k" using body_invD(6) [OF inv, of j k p] by (auto split: if_splits)
  next
    fix j k p assume "j < length (rrs ?t)" "k < length (rrs ?t)" "rr_response_promise (rrs ?t ! j) = Some p"
    then show "rr_body_promise (rrs ?t ! k) \<noteq> Some p"
      using fresh [of k] body_invD(8) [OF inv, of j k p] by (auto split: if_splits)
  qed (use same q(2) body_invD(1) [OF inv] body_invD(5) [OF inv] body_invD(7) [OF inv] in \<open>auto split: if_splits\<close>)
  moreover have "covered ?t k = covered s k" for k
  proof -
    have "rr_body_promise (rrs ?t ! j) = rr_body_promise (rrs s ! j)" for j by simp
    then show ?thesis unfolding covered_def same by simp
  qed
  ultimately show ?thesis using p by (simp add: progresses_def)
qed

lemma progresses_promise: "progresses a s \<Longrightarrow> progresses a (s\<lparr>promises := promises s @ [v]\<rparr>)"
  using append_promise_progresses [of s "s\<lparr>promises := promises s @ [v]\<rparr>" v] progresses_trans
  by (fastforce simp: progresses_def pending_reads_def)


lemma progresses_tasks: "progresses a s \<Longrightarrow> progresses a (s\<lparr>tasks := z\<rparr>)"
proof -
  assume p: "progresses a s"
  then have "progresses s (s\<lparr>tasks := z\<rparr>)"
    by (intro resume_progresses) (simp_all add: progresses_def pending_reads_def)
  then show ?thesis using p progresses_trans by blast
qed

subsection \<open>Fetching\<close>

lemma Request_create_new:
  assumes "Request_create E input init s = Ok r t"
  shows "length (rrs s) \<le> r \<and> r < length (rrs t)"
proof -
  obtain a headers s1 v b where h: "request_headers E input a s = Ok headers s1" "r = length (rrs s1)"
    "request_body E input b r (s1\<lparr>rrs := rrs s1 @ [v]\<rparr>) = Ok () t"
    by (rule Request_create_Ok [OF assms])
  have "leaves (quiet s) (request_headers E input a s)"
    "leaves (quiet (s1\<lparr>rrs := rrs s1 @ [v]\<rparr>)) (request_body E input b r (s1\<lparr>rrs := rrs s1 @ [v]\<rparr>))" by simp_all
  then have "quiet s s1" "quiet (s1\<lparr>rrs := rrs s1 @ [v]\<rparr>) t" unfolding h(1,3) by simp_all
  then show ?thesis using quietD(1) [of s s1] quietD(1) [of "s1\<lparr>rrs := rrs s1 @ [v]\<rparr>" t] h(2) by simp
qed

text \<open>The state after \<open>fetch\<close>: nothing was sent, or a new object with a new promise was.\<close>

lemma fetch_send_cases:
  assumes q: "quiet a s" and p: "progresses a s" and n: "length (promises a) \<le> rp" "rp < length (promises s)"
    "\<And>j. j < length (rrs s) \<Longrightarrow> rr_body_promise (rrs s ! j) \<noteq> Some rp"
    and t: "after (fetch_send E r rp s) = Some t"
  shows "(quiet a t \<or> (\<exists>u w z. t = upd_rr r (\<lambda>x. x\<lparr>rr_response_promise := Some rp\<rparr>) (u\<lparr>world := w, tasks := z\<rparr>)
      \<and> quiet a u \<and> (z = tasks u \<or> (\<exists>f h. z = tasks u @ [ResponseTask r f h])))) \<and> progresses a t"
proof -
  have m: "leaves (quiet a) (maybe_stream_body E r s)" "leaves (progresses a) (maybe_stream_body E r s)"
    "leaves (quiet s) (maybe_stream_body E r s)" using q p by simp_all
  show ?thesis
  proof (cases "maybe_stream_body E r s")
    case (Throw e u)
    then show ?thesis using m t by (simp add: fetch_send_def)
  next
    case (Ok streaming u)
    then have u: "quiet a u" "progresses a u" "quiet s u" using m by simp_all
    have fresh: "rr_body_promise (rrs u ! j) \<noteq> Some rp" if "j < length (rrs u)" for j
      using quietD(5) [OF u(3) that n(2)] n(3) by blast
    have rest: "progresses a (upd_rr r (\<lambda>x. x\<lparr>rr_response_promise := Some rp\<rparr>) (u\<lparr>world := w, tasks := z\<rparr>))" for w z
      using u(2) n quietD(2) [OF u(3)] fresh
      by (intro response_promise_progresses) (simp_all add: progresses_tasks)
    from t Ok obtain oq where oq: "rr_host (rrs u ! r) = OutRequest oq"
      by (cases "rr_host (rrs u ! r)") (simp_all add: fetch_send_def)
    show ?thesis
    proof (cases "HttpOutgoingRequest_send (outgoing_handler E) oq")
      case (Inl e)
      then show ?thesis
        using t Ok oq u by (auto simp: fetch_send_def rejected_promise_def quiet_new_promise progresses_promise)
    next
      case (Inr handle)
      let ?t = "\<lambda>w z. upd_rr r (\<lambda>x. x\<lparr>rr_response_promise := Some rp\<rparr>) (u\<lparr>world := w, tasks := z\<rparr>)"
      have "\<exists>w z. t = ?t w z \<and> (z = tasks u \<or> (\<exists>f h. z = tasks u @ [ResponseTask r f h]))"
      proof (cases streaming)
        case True
        then have "t = ?t (world u) (tasks u)" using t Ok oq Inr by (simp add: fetch_send_def)
        then show ?thesis by blast
      next
        case False
        with t Ok oq Inr obtain f where f: "handle = Some f" by (cases handle) (simp_all add: fetch_send_def)
        obtain h w where "future_subscribe E f (world u) = (h, w)" by fastforce
        then have "t = ?t w (tasks u @ [ResponseTask r f h])"
          using t Ok oq Inr False f by (simp add: fetch_send_def queue_task_def)
        then show ?thesis by blast
      qed
      then show ?thesis using u(1) rest by blast
    qed
  qed (use t in \<open>simp_all add: fetch_send_def\<close>)
qed


lemma fetch_cases:
  assumes inv: "body_inv s" and t: "after (fetch E input init s) = Some t"
  shows "progresses s t \<and> (quiet s t \<or> (\<exists>r rp u w z. t = upd_rr r (\<lambda>x. x\<lparr>rr_response_promise := Some rp\<rparr>) (u\<lparr>world := w, tasks := z\<rparr>)
      \<and> quiet s u \<and> length (rrs s) \<le> r \<and> r < length (rrs t) \<and> length (promises s) \<le> rp \<and> (z = tasks u \<or> (\<exists>f h. z = tasks u @ [ResponseTask r f h]))))"
proof -
  have c: "leaves (quiet s) (Request_create E input init s)" "leaves (progresses s) (Request_create E input init s)"
    using progresses_refl [OF inv] by simp_all
  show ?thesis
  proof (cases "Request_create E input init s")
    case (Throw err u)
    then show ?thesis
      using c t by (auto simp: fetch_def rejected_promise_def quiet_new_promise progresses_promise)
  next
    case (Ok r u)
    let ?u = "u\<lparr>promises := promises u @ [PPending]\<rparr>"
    have q: "quiet s u" "progresses s u" using c Ok by simp_all
    then have inv': "body_inv u" by (simp add: progresses_def)
    have u: "quiet s ?u" "progresses s ?u" using q quiet_new_promise(1) progresses_promise by blast+
    have n: "length (promises s) \<le> length (promises u)" using quietD(2) [OF q(1)] .
    have fresh: "rr_body_promise (rrs ?u ! j) \<noteq> Some (length (promises u))" if "j < length (rrs ?u)" for j
      using body_invD(5) [OF inv', of j "length (promises u)"] that by auto
    have t': "after (fetch_send E r (length (promises u)) ?u) = Some t"
      using t Ok by (simp add: fetch_def new_pending_promise_def)
    have r: "length (rrs s) \<le> r" "r < length (rrs u)" using Request_create_new [OF Ok] by simp_all
    let ?sent = "\<lambda>a. (quiet a t \<or> (\<exists>v w z. t = upd_rr r (\<lambda>x. x\<lparr>rr_response_promise := Some (length (promises u))\<rparr>)
        (v\<lparr>world := w, tasks := z\<rparr>) \<and> quiet a v \<and> (z = tasks v \<or> (\<exists>f h. z = tasks v @ [ResponseTask r f h])))) \<and> progresses a t"
    have sent: "?sent a" if "quiet a ?u" "progresses a ?u" "length (promises a) \<le> length (promises u)" for a
      by (rule fetch_send_cases [OF that _ fresh t']) simp_all
    have "quiet u ?u" "progresses u ?u" using quiet_new_promise(1) progresses_promise progresses_refl [OF inv'] quiet_refl by blast+
    then have "length (rrs u) \<le> length (rrs t)" using sent [of u] by (auto dest: quietD(1))
    then have lt: "r < length (rrs t)" using r(2) by simp
    have pr: "progresses s t" using sent [OF u n] by blast
    from sent [OF u n] show ?thesis using pr lt r(1) n by blast
  qed (use t in \<open>simp_all add: fetch_def\<close>)
qed

text \<open>The steps of scripts and of the loop; the task of a response is run for its request.\<close>

inductive fetch_step :: "('e, 'f, 'h, 'w) fetch_env \<Rightarrow> ('e, 'f, 'h, 'w) fstate \<Rightarrow> ('e, 'f, 'h, 'w) fstate \<Rightarrow> bool" for E where
  Body_step: "fb_step E s t \<Longrightarrow> fetch_step E s t"
| Fetch: "after (fetch E input init s) = Some t \<Longrightarrow> fetch_step E s t"
| New_request: "after (Request_create E input init s) = Some t \<Longrightarrow> fetch_step E s t"
| New_response: "after (Response_constructor E body rinit s) = Some t \<Longrightarrow> fetch_step E s t"
| Response_task: "ResponseTask i u h \<in> set (tasks s)
    \<Longrightarrow> after (ResponseFutureTask_run E i u s) = Some t \<Longrightarrow> fetch_step E s t"

text \<open>Tasks for responses belong to existing objects.\<close>

definition tasks_ok :: "('e, 'f, 'h, 'w) fstate \<Rightarrow> bool" where
  "tasks_ok s \<longleftrightarrow> (\<forall>i u h. ResponseTask i u h \<in> set (tasks s) \<longrightarrow> i < length (rrs s))"

lemma tasks_okD: "tasks_ok s \<Longrightarrow> ResponseTask i u h \<in> set (tasks s) \<Longrightarrow> i < length (rrs s)"
  unfolding tasks_ok_def by blast

lemma tasks_okI: "(\<And>i u h. ResponseTask i u h \<in> set (tasks s) \<Longrightarrow> i < length (rrs s)) \<Longrightarrow> tasks_ok s"
  by (auto simp: tasks_ok_def)

lemma quiet_tasks_ok: "quiet s t \<Longrightarrow> tasks_ok s \<Longrightarrow> tasks_ok t"
  unfolding tasks_ok_def using quietD(1) quietD(4) by (meson order.strict_trans2)

text \<open>Request \<open>i\<close> awaits a response in vain: no task will settle its promise \<open>p\<close>.\<close>

definition in_vain :: "nat \<Rightarrow> nat \<Rightarrow> ('e, 'f, 'h, 'w) fstate \<Rightarrow> bool" where
  "in_vain i p s \<longleftrightarrow> i < length (rrs s) \<and> p < length (promises s) \<and> rr_response_promise (rrs s ! i) = Some p
     \<and> (\<forall>j<length (rrs s). rr_response_promise (rrs s ! j) = Some p \<longrightarrow> j = i)
     \<and> (\<forall>u h. ResponseTask i u h \<notin> set (tasks s)) \<and> (\<forall>v. promises s ! p \<noteq> PFulfilled v)"

lemma in_vainI:
  assumes "i < length (rrs s)" "p < length (promises s)" "rr_response_promise (rrs s ! i) = Some p"
    "\<And>j. j < length (rrs s) \<Longrightarrow> rr_response_promise (rrs s ! j) = Some p \<Longrightarrow> j = i"
    "\<And>u h. ResponseTask i u h \<notin> set (tasks s)" "\<And>v. promises s ! p \<noteq> PFulfilled v"
  shows "in_vain i p s"
  unfolding in_vain_def using assms by blast

lemma in_vainD:
  assumes "in_vain i p s"
  shows "i < length (rrs s)" "p < length (promises s)" "rr_response_promise (rrs s ! i) = Some p"
    "j < length (rrs s) \<Longrightarrow> rr_response_promise (rrs s ! j) = Some p \<Longrightarrow> j = i"
    "ResponseTask i u h \<notin> set (tasks s)" "promises s ! p \<noteq> PFulfilled v"
  using assms unfolding in_vain_def by blast+

lemma quiet_in_vain:
  assumes q: "quiet s t" and inv: "body_inv s" and v: "in_vain i p s"
  shows "in_vain i p t"
proof (rule in_vainI)
  show "i < length (rrs t)" "p < length (promises t)"
    using quietD(1,2) [OF q] in_vainD(1,2) [OF v] by simp_all
  then show "rr_response_promise (rrs t ! i) = Some p"
    using quietD(3) [OF q, of i] in_vainD(1,3) [OF v] by simp
  fix j assume "j < length (rrs t)" "rr_response_promise (rrs t ! j) = Some p"
  then show "j = i" using quietD(3) [OF q, of j] in_vainD(4) [OF v, of j] by (simp split: if_splits)
next
  show "ResponseTask i u h \<notin> set (tasks t)" for u h using quietD(4) [OF q] in_vainD(5) [OF v] by blast
  have "rr_body_promise (rrs s ! j) \<noteq> Some p" if "j < length (rrs s)" for j
    using body_invD(8) [OF inv in_vainD(1) [OF v] that in_vainD(3) [OF v]] .
  then show "promises t ! p \<noteq> PFulfilled v" for v
    using quietD(6) [OF q in_vainD(2) [OF v]] in_vainD(6) [OF v] by auto
qed


lemma response_task_cases:
  fixes E :: "('e, 'f, 'h, 'w) fetch_env"
  assumes inv: "body_inv s" and j: "j < length (rrs s)" and t: "after (ResponseFutureTask_run E j u s) = Some t"
  shows "progresses s t \<and> (\<exists>rp v s1. rr_response_promise (rrs s ! j) = Some rp \<and> quiet s s1 \<and> t = settle_promise rp v s1 \<and> v \<noteq> PPending)"
proof -
  obtain rp where rp: "rr_response_promise (rrs s ! j) = Some rp"
    using t by (cases "rr_response_promise (rrs s ! j)") (auto simp: ResponseFutureTask_run_def)
  have "\<exists>v s1. quiet s s1 \<and> progresses s s1 \<and> t = settle_promise rp v s1 \<and> v \<noteq> PPending"
  proof -
    obtain res :: "('f, 'h, nat) http_incoming_response option api_result exec" and w
      where g: "maybe_response (future_get E u) (world s) = (res, w)" by fastforce
    have w: "quiet s (s\<lparr>world := w\<rparr>)" "progresses s (s\<lparr>world := w\<rparr>)" using progresses_refl [OF inv] by simp_all
    consider e where "res = Returns (Inl e)" | r where "res = Returns (Inr (Some r))"
      using t by (cases res) (auto simp: ResponseFutureTask_run_def rp g split: sum.splits option.splits)
    then show ?thesis
    proof cases
      case 1
      then have "t = settle_promise rp (PRejected (ReportError ''NetworkError when attempting to fetch resource.'')) (s\<lparr>world := w\<rparr>)"
        using t rp g by (simp add: ResponseFutureTask_run_def)
      then show ?thesis using w by (blast intro: promise_state.distinct(4))
    next
      case 2
      have c: "leaves (quiet s) (Response_create E (InResponse r) (s\<lparr>world := w\<rparr>))"
        "leaves (progresses s) (Response_create E (InResponse r) (s\<lparr>world := w\<rparr>))" using w by simp_all
      show ?thesis
      proof (cases "Response_create E (InResponse r) (s\<lparr>world := w\<rparr>)")
        case (Ok k s1)
        then obtain url where url: "rr_url (rrs s1 ! j) = Some url"
          using t rp g 2 by (cases "rr_url (rrs s1 ! j)") (auto simp: ResponseFutureTask_run_def)
        have "t = settle_promise rp (PFulfilled (VResponse k)) (upd_rr k (\<lambda>r. r\<lparr>rr_url := Some url\<rparr>) s1)"
          using t rp g 2 Ok url by (simp add: ResponseFutureTask_run_def)
        moreover have "quiet s (upd_rr k (\<lambda>r. r\<lparr>rr_url := Some url\<rparr>) s1)"
          "progresses s (upd_rr k (\<lambda>r. r\<lparr>rr_url := Some url\<rparr>) s1)" using c Ok by simp_all
        ultimately show ?thesis by (blast intro: promise_state.distinct(2))
      qed (use t rp g 2 in \<open>auto simp: ResponseFutureTask_run_def Response_create_def split: prod.splits sum.splits\<close>)
    qed
  qed
  then obtain v s1 where s1: "quiet s s1" "progresses s s1" "t = settle_promise rp v s1" "v \<noteq> PPending" by blast
  have j1: "j < length (rrs s1)" using quietD(1) [OF s1(1)] j by simp
  then have "rr_response_promise (rrs s1 ! j) = Some rp" using quietD(3) [OF s1(1) j1] j rp by simp
  with s1(2) have "progresses s1 t"
    using settle_response_progresses [of s1 j rp v] j1 s1(3,4) by (simp add: progresses_def)
  then show ?thesis using s1 rp progresses_trans by blast
qed

text \<open>A step settles no response, sends a new request, or runs the task of a response.\<close>

lemma fetch_step_cases [consumes 4, case_names quiet sent answered]:
  assumes laws: "streams_laws (rs E)" and st: "fetch_step E s t" and inv: "body_inv s" "tasks_ok s"
  obtains "quiet s t" "progresses s t"
  | r rp u w z where "t = upd_rr r (\<lambda>x. x\<lparr>rr_response_promise := Some rp\<rparr>) (u\<lparr>world := w, tasks := z\<rparr>)"
      "quiet s u" "progresses s t" "length (rrs s) \<le> r" "r < length (rrs t)" "length (promises s) \<le> rp"
      "z = tasks u \<or> (\<exists>f h. z = tasks u @ [ResponseTask r f h])"
  | i f h rp v u where "ResponseTask i f h \<in> set (tasks s)" "i < length (rrs s)"
      "rr_response_promise (rrs s ! i) = Some rp" "quiet s u" "progresses s t" "t = settle_promise rp v u"
  using st
proof cases
  case Body_step
  then show ?thesis using that(1) quiet_step [OF _ inv(1)] fb_step_progresses [OF laws _ inv(1)] by blast
next
  case (Fetch input init)
  then show ?thesis using that(1,2) fetch_cases [OF inv(1) Fetch] by blast
next
  case (New_request input init)
  moreover have "leaves (quiet s) (Request_create E input init s)" "leaves (progresses s) (Request_create E input init s)"
    using progresses_refl [OF inv(1)] by simp_all
  ultimately show ?thesis using that(1) leaves_after by blast
next
  case (New_response body rinit)
  moreover have "leaves (quiet s) (Response_constructor E body rinit s)"
    "leaves (progresses s) (Response_constructor E body rinit s)"
    using progresses_refl [OF inv(1)] by simp_all
  ultimately show ?thesis using that(1) leaves_after by blast
next
  case (Response_task i f h)
  have i: "i < length (rrs s)" using tasks_okD [OF inv(2) Response_task(1)] .
  from response_task_cases [OF inv(1) i Response_task(2)] show ?thesis using that(3) Response_task(1) i by blast
qed

lemma fetch_step_inv:
  assumes laws: "streams_laws (rs E)" and st: "fetch_step E s t" and inv: "body_inv s" "tasks_ok s"
  shows "body_inv t \<and> tasks_ok t"
  using laws st inv
proof (cases rule: fetch_step_cases)
  case quiet
  then show ?thesis using inv quiet_tasks_ok by (simp add: progresses_def)
next
  case (sent r rp u w z)
  then have u: "tasks_ok u" using inv quiet_tasks_ok by blast
  have "tasks_ok t" using sent(1,5,7) by (intro tasks_okI) (auto dest: tasks_okD [OF u])
  then show ?thesis using sent(3) by (simp add: progresses_def)
next
  case (answered i f h rp v u)
  then have "tasks_ok u" using inv quiet_tasks_ok by blast
  then have "tasks_ok t" using answered(6) by (simp add: tasks_ok_def)
  then show ?thesis using answered(5) by (simp add: progresses_def)
qed

lemma fetch_steps_inv:
  assumes "streams_laws (rs E)" "rtranclp (fetch_step E) s t" "body_inv s" "tasks_ok s"
  shows "body_inv t \<and> tasks_ok t"
  using assms(2)
proof induction
  case (step u v)
  then show ?case using fetch_step_inv [OF assms(1)] by blast
qed (use assms in simp)

text \<open>The promise of a request that was sent stays.\<close>

lemma fetch_step_slot:
  assumes laws: "streams_laws (rs E)" and st: "fetch_step E s t" and inv: "body_inv s" "tasks_ok s"
    and slot: "i < length (rrs s)" "rr_response_promise (rrs s ! i) = Some p"
  shows "i < length (rrs t) \<and> rr_response_promise (rrs t ! i) = Some p"
proof -
  have q: "i < length (rrs u) \<and> rr_response_promise (rrs u ! i) = Some p" if "quiet s u" for u
    using quietD(1) [OF that] quietD(3) [OF that, of i] slot by simp
  from laws st inv show ?thesis
  proof (cases rule: fetch_step_cases)
    case (sent r rp u w z)
    then show ?thesis using q [of u] slot(1) by simp
  qed (use q in simp_all)
qed

lemma fetch_steps_slot:
  assumes laws: "streams_laws (rs E)" and "rtranclp (fetch_step E) s t" and inv: "body_inv s" "tasks_ok s"
    and slot: "i < length (rrs s)" "rr_response_promise (rrs s ! i) = Some p"
  shows "i < length (rrs t) \<and> rr_response_promise (rrs t ! i) = Some p"
  using assms(2)
proof induction
  case (step u v)
  then show ?case using fetch_step_slot [OF laws step(2)] fetch_steps_inv [OF laws step(1) inv] by blast
qed (use slot in simp)

lemma fetch_step_in_vain:
  assumes laws: "streams_laws (rs E)" and st: "fetch_step E s t" and inv: "body_inv s" "tasks_ok s" and v: "in_vain i p s"
  shows "in_vain i p t"
  using laws st inv
proof (cases rule: fetch_step_cases)
  case quiet
  then show ?thesis using quiet_in_vain [OF _ inv(1) v] by blast
next
  case (sent r rp x w z)
  have x: "in_vain i p x" using quiet_in_vain [OF sent(2) inv(1) v] .
  have ne: "i \<noteq> r" "p \<noteq> rp" using in_vainD(1,2) [OF v] sent(4,6) by auto
  show ?thesis unfolding sent(1)
  proof (rule in_vainI)
    fix j assume "j < length (rrs (upd_rr r (\<lambda>y. y\<lparr>rr_response_promise := Some rp\<rparr>) (x\<lparr>world := w, tasks := z\<rparr>)))"
      "rr_response_promise (rrs (upd_rr r (\<lambda>y. y\<lparr>rr_response_promise := Some rp\<rparr>) (x\<lparr>world := w, tasks := z\<rparr>)) ! j) = Some p"
    then show "j = i" using ne(2) in_vainD(4) [OF x, of j] by (auto split: if_splits)
  qed (use in_vainD(1,2,3,5,6) [OF x] ne sent(7) in auto)
next
  case (answered j f h rp w x)
  have x: "in_vain i p x" using quiet_in_vain [OF answered(4) inv(1) v] .
  have "j \<noteq> i" using answered(1) in_vainD(5) [OF v] by blast
  then have "rp \<noteq> p" using in_vainD(4) [OF v answered(2)] answered(3) by blast
  show ?thesis unfolding answered(6)
  proof (rule in_vainI)
    fix k assume "k < length (rrs (settle_promise rp w x))" "rr_response_promise (rrs (settle_promise rp w x) ! k) = Some p"
    then show "k = i" using in_vainD(4) [OF x, of k] by simp
  next
    show "promises (settle_promise rp w x) ! p \<noteq> PFulfilled v" for v
      using \<open>rp \<noteq> p\<close> in_vainD(6) [OF x] by (simp add: nth_settle)
  qed (use in_vainD(1,2,3,5) [OF x] in simp_all)
qed

lemma fetch_steps_in_vain:
  assumes laws: "streams_laws (rs E)" and "rtranclp (fetch_step E) s t" and inv: "body_inv s" "tasks_ok s"
    and v: "in_vain i p s"
  shows "in_vain i p t"
  using assms(2)
proof induction
  case (step u v)
  then show ?case using fetch_step_in_vain [OF laws step(2)] fetch_steps_inv [OF laws step(1) inv] by blast
qed (use v in simp)

subsection \<open>A streamed request\<close>

lemma fetch_after_create:
  "Request_create E input init s = Ok i sa \<Longrightarrow>
     fetch E input init s = fetch_send E i (length (promises sa)) (snd (new_pending_promise sa))"
  by (simp add: fetch_def new_pending_promise_def)

lemma fetch_send_streamed:
  assumes "maybe_stream_body E i u = Ok True v" "fetch_send E i rp u = Ok p t" "promises t ! p = PPending"
  shows "p = rp \<and> t = upd_rr i (\<lambda>x. x\<lparr>rr_response_promise := Some rp\<rparr>) v"
  using assms by (auto simp: fetch_send_def rejected_promise_def split: host_object.splits sum.splits)

lemma streamed_in_vain:
  assumes inv: "body_inv s" "tasks_ok s" and c: "Request_create E input init s = Ok i sa"
    and str: "maybe_stream_body E i (snd (new_pending_promise sa)) = Ok True sb"
    and f: "fetch E input init s = Ok p t" "promises t ! p = PPending"
  shows "in_vain i p t"
proof -
  let ?u = "sa\<lparr>promises := promises sa @ [PPending]\<rparr>"
  have l: "leaves (quiet s) (Request_create E input init s)" "leaves (progresses s) (Request_create E input init s)"
    using progresses_refl [OF inv(1)] by simp_all
  have sa: "quiet s sa" "body_inv sa" using l c by (simp_all add: progresses_def)
  have str': "maybe_stream_body E i ?u = Ok True sb" using str by (simp add: new_pending_promise_def)
  have "leaves (quiet ?u) (maybe_stream_body E i ?u)" by simp
  then have q: "quiet ?u sb" using str' by simp
  have t: "p = length (promises sa)" "t = upd_rr i (\<lambda>x. x\<lparr>rr_response_promise := Some p\<rparr>) sb"
    using fetch_send_streamed [OF str', of "length (promises sa)" p t] f fetch_after_create [OF c]
    by (simp_all add: new_pending_promise_def)
  have i: "length (rrs s) \<le> i" "i < length (rrs sb)"
    using Request_create_new [OF c] quietD(1) [OF q] by simp_all
  have p: "p < length (promises ?u)" using t(1) by simp
  have old: "rr_response_promise (rrs sb ! j) \<noteq> Some p" if "j < length (rrs sb)" for j
    using quietD(3) [OF q that] body_invD(7) [OF sa(2), of j p] t(1) by (auto split: if_splits)
  show ?thesis
  proof (rule in_vainI)
    show "i < length (rrs t)" "p < length (promises t)" using i(2) p quietD(2) [OF q] t(2) by simp_all
    show "rr_response_promise (rrs t ! i) = Some p" using i(2) t(2) by simp
  next
    fix j assume "j < length (rrs t)" "rr_response_promise (rrs t ! j) = Some p"
    then show "j = i" using old [of j] t(2) by (auto split: if_splits)
  next
    show "ResponseTask i u h \<notin> set (tasks t)" for u h
      using quietD(4) [OF q] quietD(4) [OF sa(1)] tasks_okD [OF inv(2)] i(1) t(2) by fastforce
  next
    show "promises t ! p \<noteq> PFulfilled v" for v using f(2) by simp
  qed
qed


subsection \<open>The answer of the host\<close>

lemma fetch_queued:
  assumes inv: "body_inv s" and f: "fetch E input init s = Ok p t"
    and task: "ResponseTask i u h \<in> set (tasks t)" "ResponseTask i u h \<notin> set (tasks s)"
  shows "i < length (rrs t) \<and> rr_response_promise (rrs t ! i) = Some p"
proof -
  have l: "leaves (quiet s) (Request_create E input init s)" by simp
  show ?thesis
  proof (cases "Request_create E input init s")
    case (Throw err sa)
    then show ?thesis using l f task by (auto simp: fetch_def rejected_promise_def dest: quietD(4))
  next
    case (Ok r sa)
    let ?u = "sa\<lparr>promises := promises sa @ [PPending]\<rparr>"
    have old: "ResponseTask i u h \<notin> set (tasks ?u)" using l Ok task(2) by (auto dest: quietD(4))
    have f': "fetch_send E r (length (promises sa)) ?u = Ok p t"
      using f fetch_after_create [OF Ok] by (simp add: new_pending_promise_def)
    then obtain b v where v: "maybe_stream_body E r ?u = Ok b v" by (auto simp: fetch_send_def out_bind_eq_Ok)
    have "leaves (quiet ?u) (maybe_stream_body E r ?u)" by simp
    then have q: "quiet ?u v" using v by simp
    have none: "ResponseTask i u h \<notin> set (tasks v)" using old quietD(4) [OF q] by blast
    have r: "r < length (rrs v)" using Request_create_new [OF Ok] quietD(1) [OF q] by simp
    show ?thesis
      using f' v none r task(1)
      by (auto simp: fetch_send_def rejected_promise_def queue_task_def out_bind_eq_Ok
          split: host_object.splits sum.splits if_splits option.splits prod.splits)
  qed (use f in \<open>simp_all add: fetch_def\<close>)
qed

text \<open>
  C26. The promise of a request that was sent at once follows the host's answer: the task that
  \<open>fetch\<close> queued, whenever it runs, rejects the promise with a NetworkError if the exchange
  failed, and else fulfils it with a new Response that has the status of the host's, the message
  that belongs to it, a body unless the status excludes one, and the URL of the request.
\<close>

theorem fetch_settles_when_host_answers:
  assumes laws: "streams_laws (rs E)" and rest: "at_rest s0" "tasks s0 = []"
    and reach: "rtranclp (fetch_step E) s0 s" and fetched: "fetch E input init s = Ok p s1"
    and queued: "ResponseTask i u h \<in> set (tasks s1)" "ResponseTask i u h \<notin> set (tasks s)"
    and later: "rtranclp (fetch_step E) s1 s2" "promises s2 ! p = PPending" "rr_url (rrs s2 ! i) = Some url"
    and answer: "future_get E u (world s2) = (Some (Inr a), w)"
  shows "\<exists>t. ResponseFutureTask_run E i u s2 = Ok () t
    \<and> (case a of
         Inl e \<Rightarrow> promises t ! p = PRejected (ReportError ''NetworkError when attempting to fetch resource.'')
       | Inr resource \<Rightarrow> \<exists>k. k = length (rrs s2) \<and> promises t ! p = PFulfilled (VResponse k)
           \<and> rr_status (rrs t ! k) = ip_status (ip E) resource
           \<and> rr_status_message (rrs t ! k) = status_message_from_code (ip_status (ip E) resource)
           \<and> (rr_has_body (rrs t ! k) \<longleftrightarrow> \<not> null_body_status (ip_status (ip E) resource))
           \<and> rr_url (rrs t ! k) = Some url)"
proof -
  have inv: "body_inv s" "tasks_ok s"
    using fetch_steps_inv [OF laws reach at_rest_inv [OF rest(1)]] rest(2) by (simp_all add: tasks_ok_def)
  have "fetch_step E s s1" using fetched by (intro fetch_step.Fetch [of E input init]) simp
  then have "body_inv s1" "tasks_ok s1" using fetch_step_inv [OF laws _ inv] by blast+
  then have slot: "i < length (rrs s2)" "rr_response_promise (rrs s2 ! i) = Some p"
    using fetch_steps_slot [OF laws later(1)] fetch_queued [OF inv(1) fetched queued] by blast+
  have "body_inv s2" using fetch_steps_inv [OF laws later(1)] \<open>body_inv s1\<close> \<open>tasks_ok s1\<close> by blast
  then have p: "p < length (promises s2)" using body_invD(7) slot by blast
  show ?thesis
  proof (cases a)
    case (Inl e)
    then show ?thesis
      using slot p answer later(2) by (simp add: ResponseFutureTask_run_def maybe_response_def settle_promise_def)
  next
    case (Inr resource)
    then show ?thesis
      using slot p answer later(2,3)
      by (simp add: ResponseFutureTask_run_def maybe_response_def settle_promise_def Response_create_def
          HttpIncomingResponse_status_def HttpIncomingResponse_new_def alloc_rr_def new_rr_def nth_append Let_def)
  qed
qed

subsection \<open>Instances\<close>

lemmas request_simps = Request_create_def request_url_and_method_def read_init_def request_headers_def HttpOutgoingRequest_make_def fields_of_def alloc_rr_def new_rr_def
  headers_slot_def request_body_def Let_def

lemma post_method [simp]: "request_method (Some ''POST'') True = (''POST'', ''POST'', False)"
  by (simp add: request_method_def normalize_http_method_def normalized_names_def strcasecmp_eq_def c_string_def lower_char_def)

lemma default_method [simp]: "request_method None b = (''GET'', [], True)"
  by (simp add: request_method_def)

definition demo_streams :: "(nat list, wit_fields, nat, nat \<times> byte list \<times> nat) fetch_env" where
  "demo_streams = demo_fetch\<lparr>rs := demo_rs\<lparr>rs_source := (\<lambda>st e. None)\<rparr>\<rparr>"

definition demo_answers :: "(nat list, wit_fields, nat, nat \<times> byte list \<times> nat) fetch_env" where
  "demo_answers = demo_fetch\<lparr>future_get := (\<lambda>u w. (Some (Inr (Inr 7)), w))\<rparr>"

definition post_stream :: "request_init init_arg" where
  "post_stream = InitObject \<lparr>ini_method = Some (Some ''POST''), ini_headers = None, ini_body = Some (BodyStream 5)\<rparr>"

lemmas demo_run = request_simps fetch_def demo_streams_def demo_answers_def demo_fetch_def demo_rs_def demo_fstate_def
  extract_body_def extract_stream_def body_unusable_def upd_rr_def new_pending_promise_def maybe_stream_body_def
  fetch_send_def is_incoming_def ts_from_readable_def get_stream_source_def stream_is_body_def read_next_def
  HttpOutgoingRequest_send_def fb_run_reaction_def body_reader_catch_handler_def queue_task_def

lemma demo_idle: "tasks demo_fstate = []"
  by (simp add: demo_fstate_def)


theorem fetch_settles_when_host_answers_witness:
  "\<exists>s1 t. fetch demo_answers (InputUrl (Some ''u'')) InitMissing demo_fstate = Ok 0 s1
    \<and> ResponseFutureTask_run demo_answers 1 0 s1 = Ok () t \<and> promises t ! 0 = PFulfilled (VResponse 2)
    \<and> rr_status_message (rrs t ! 2) = ''OK'' \<and> rr_url (rrs t ! 2) = Some ''u''"
proof -
  have laws: "streams_laws (rs demo_answers)"
    by (auto simp: streams_laws_def demo_answers_def demo_fetch_def demo_rs_def)
  obtain s1 where s: "fetch demo_answers (InputUrl (Some ''u'')) InitMissing demo_fstate = Ok 0 s1"
    "ResponseTask 1 0 0 \<in> set (tasks s1)" "promises s1 ! 0 = PPending" "rr_url (rrs s1 ! 1) = Some ''u''" "length (rrs s1) = 2"
    by (simp add: demo_run)
  have "ResponseTask 1 0 0 \<notin> set (tasks demo_fstate)" by (simp add: demo_idle)
  moreover have "future_get demo_answers 0 (world s1) = (Some (Inr (Inr 7)), world s1)" by (simp add: demo_answers_def)
  ultimately show ?thesis
    using fetch_settles_when_host_answers [OF laws demo_at_rest demo_idle rtranclp.rtrancl_refl s(1,2) _ rtranclp.rtrancl_refl s(3,4)] s
    by (fastforce simp: demo_answers_def demo_fetch_def status_message_from_code_def status_phrases_def)
qed

end
