(* ===== verification/Crypto_Key.thy ===== *)
theory Crypto_Key
  imports Base64
begin

section \<open>Cryptographic keys\<close>

text \<open>
  \<open>builtins/web/crypto/crypto-key.cpp\<close> with its components, and \<open>json-web-key.cpp\<close>: the usages of
  a key as a mask of eight bits, parsing of JSON Web Keys, and the objects that keys are.

  \<^item> A function that fails reports an exception (\<open>Raise\<close>), or it returns a null pointer without
    one (\<open>NoException\<close>); \<open>Undefined\<close> is an abort or undefined behaviour.  Debug assertions are not
    modelled.
  \<^item> What properties of script objects yield is data.  An array buffer has a number; a key of a
    raw HMAC import points into one.
  \<^item> OpenSSL is the record \<open>openssl\<close>.  An \<open>EVP_PKEY\<close> is an element of \<open>'k\<close>.
\<close>

datatype crypto_error = Pending | JsError string | DomError string string

datatype 'a crypto = Done 'a | Raise crypto_error | NoException | Undefined

definition cbind :: "'a crypto \<Rightarrow> ('a \<Rightarrow> 'b crypto) \<Rightarrow> 'b crypto" where
  "cbind m f = (case m of Done x \<Rightarrow> f x | Raise e \<Rightarrow> Raise e | NoException \<Rightarrow> NoException | Undefined \<Rightarrow> Undefined)"

lemma cbind_simps [simp]:
  "cbind (Done x) f = f x" "cbind (Raise e) f = Raise e" "cbind NoException f = NoException" "cbind Undefined f = Undefined"
  by (simp_all add: cbind_def)

lemma cbind_eq_Done: "cbind m f = Done y \<longleftrightarrow> (\<exists>x. m = Done x \<and> f x = Done y)"
  by (cases m) auto

lemma cbind_eq_NoException: "cbind m f = NoException \<longleftrightarrow> m = NoException \<or> (\<exists>x. m = Done x \<and> f x = NoException)"
  by (cases m) auto

lemma cbind_eq_Undefined: "cbind m f = Undefined \<longleftrightarrow> m = Undefined \<or> (\<exists>x. m = Done x \<and> f x = Undefined)"
  by (cases m) auto

lemma cbind_cong [fundef_cong]:
  "m = m' \<Longrightarrow> (\<And>x. m' = Done x \<Longrightarrow> f x = f' x) \<Longrightarrow> cbind m f = cbind m' f'"
  by (cases m') auto

subsection \<open>Usages\<close>

definition encrypt_flag :: byte where "encrypt_flag = push_bit 0 1"
definition decrypt_flag :: byte where "decrypt_flag = push_bit 1 1"
definition sign_flag :: byte where "sign_flag = push_bit 2 1"
definition verify_flag :: byte where "verify_flag = push_bit 3 1"
definition derive_key_flag :: byte where "derive_key_flag = push_bit 4 1"
definition derive_bits_flag :: byte where "derive_bits_flag = push_bit 5 1"
definition wrap_key_flag :: byte where "wrap_key_flag = push_bit 6 1"
definition unwrap_key_flag :: byte where "unwrap_key_flag = push_bit 7 1"

lemmas flag_defs = encrypt_flag_def decrypt_flag_def sign_flag_def verify_flag_def derive_key_flag_def
  derive_bits_flag_def wrap_key_flag_def unwrap_key_flag_def

text \<open>The chain of comparisons that both functions \<open>from\<close> have.\<close>

definition usage_flags :: "(string \<times> byte) list" where
  "usage_flags =
    [(''encrypt'', encrypt_flag), (''decrypt'', decrypt_flag), (''sign'', sign_flag), (''verify'', verify_flag),
     (''deriveKey'', derive_key_flag), (''deriveBits'', derive_bits_flag), (''wrapKey'', wrap_key_flag),
     (''unwrapKey'', unwrap_key_flag)]"

definition usages_from_strings :: "string list \<Rightarrow> byte" where
  "usages_from_strings key_usages =
     foldl (\<lambda>bits usage. case map_of usage_flags usage of Some flag \<Rightarrow> bits OR flag | None \<Rightarrow> bits) 0 key_usages"

text \<open>Arrays: an element is \<open>None\<close> if converting it to a string throws.\<close>

datatype 'a array_arg = NotArray | ArrayThrows | ArrayOf "'a list"

fun usages_loop :: "byte \<Rightarrow> string option list \<Rightarrow> byte crypto" where
  "usages_loop bits [] = Done bits"
| "usages_loop bits (None # vs) = Raise Pending"
| "usages_loop bits (Some usage # vs) =
     (case map_of usage_flags usage of
        Some flag \<Rightarrow> usages_loop (bits OR flag) vs
      | None \<Rightarrow> Raise (JsError ''SubtleCrypto.importKey: Invalid keyUsages argument''))"

definition usages_from :: "string option array_arg \<Rightarrow> byte crypto" where
  "usages_from key_usages =
     (case key_usages of
        ArrayThrows \<Rightarrow> Raise Pending
      | NotArray \<Rightarrow> Raise (JsError ''The provided value cannot be converted to a sequence'')
      | ArrayOf vs \<Rightarrow> usages_loop 0 vs)"

definition isEmpty :: "byte \<Rightarrow> bool" where "isEmpty bits \<longleftrightarrow> bits = 0"
definition isSuperSetOf :: "byte \<Rightarrow> byte \<Rightarrow> bool" where "isSuperSetOf bits other \<longleftrightarrow> bits AND other \<noteq> 0"
definition can :: "byte \<Rightarrow> byte \<Rightarrow> bool" where "can flag bits \<longleftrightarrow> bits AND flag \<noteq> 0"
definition canOnlySign :: "byte \<Rightarrow> bool" where "canOnlySign bits \<longleftrightarrow> bits = sign_flag"
definition canOnlyVerify :: "byte \<Rightarrow> bool" where "canOnlyVerify bits \<longleftrightarrow> bits = verify_flag"
definition canOnlySignOrVerify :: "byte \<Rightarrow> bool" where
  "canOnlySignOrVerify bits \<longleftrightarrow> bits AND (sign_flag OR verify_flag) \<noteq> 0"

text \<open>The array that the getter \<open>usages\<close> makes.\<close>

definition usages_get :: "byte \<Rightarrow> string list" where
  "usages_get bits =
     (if can decrypt_flag bits then [''decrypt''] else []) @
     (if can derive_bits_flag bits then [''deriveBits''] else []) @
     (if can derive_key_flag bits then [''deriveKey''] else []) @
     (if can encrypt_flag bits then [''encrypt''] else []) @
     (if can sign_flag bits then [''sign''] else []) @
     (if can unwrap_key_flag bits then [''unwrapKey''] else []) @
     (if can verify_flag bits then [''verify''] else []) @
     (if can wrap_key_flag bits then [''wrapKey''] else [])"

subsection \<open>JSON Web Keys\<close>

record other_prime =
  prime_r :: string
  prime_d :: string
  prime_t :: string

record json_web_key =
  jwk_kty :: string
  jwk_use :: "string option"
  jwk_key_ops :: "string list"
  jwk_alg :: "string option"
  jwk_ext :: "bool option"
  jwk_crv :: "string option"
  jwk_x :: "string option"
  jwk_y :: "string option"
  jwk_n :: "string option"
  jwk_e :: "string option"
  jwk_d :: "string option"
  jwk_p :: "string option"
  jwk_q :: "string option"
  jwk_dp :: "string option"
  jwk_dq :: "string option"
  jwk_qi :: "string option"
  jwk_oth :: "other_prime list"
  jwk_k :: "string option"

text \<open>
  What a script object has under a name: nothing, something whose \<open>has\<close> check, read or conversion
  throws, or a value.  An explicit \<open>undefined\<close> is a value, the string ''undefined''.
\<close>

datatype 'a js_prop = Absent | PropThrows | Has 'a

definition extractStringPropertyFromObject :: "string js_prop \<Rightarrow> string option crypto" where
  "extractStringPropertyFromObject p =
     (case p of Absent \<Rightarrow> Done None | PropThrows \<Rightarrow> Raise Pending | Has s \<Rightarrow> Done (Some s))"

text \<open>An element of \<open>oth\<close>: whether each of its getters returns, and its conversion to a string.\<close>

datatype oth_arg = OthNotObject | OthObject bool bool bool "string option"

record jwk_arg =
  a_kty :: "string js_prop"
  a_use :: "string js_prop"
  a_alg :: "string js_prop"
  a_crv :: "string js_prop"
  a_x :: "string js_prop"
  a_y :: "string js_prop"
  a_d :: "string js_prop"
  a_n :: "string js_prop"
  a_e :: "string js_prop"
  a_p :: "string js_prop"
  a_q :: "string js_prop"
  a_dp :: "string js_prop"
  a_dq :: "string js_prop"
  a_qi :: "string js_prop"
  a_k :: "string js_prop"
  a_ext :: "bool js_prop"
  a_key_ops :: "string option array_arg js_prop"
  a_oth :: "oth_arg array_arg js_prop"

definition key_operations :: "string list" where
  "key_operations = [''encrypt'', ''decrypt'', ''sign'', ''verify'', ''deriveKey'', ''deriveBits'', ''wrapKey'', ''unwrapKey'']"

fun key_ops_loop :: "string list \<Rightarrow> string option list \<Rightarrow> string list crypto" where
  "key_ops_loop acc [] = Done acc"
| "key_ops_loop acc (None # vs) = Raise Pending"
| "key_ops_loop acc (Some op # vs) =
     (if op \<notin> set key_operations then Raise (JsError ''Invalid keyUsages argument'')
      else if op \<in> set acc
      then Raise (JsError ''The 'key_ops' member of the JWK dictionary contains duplicate usages'')
      else key_ops_loop (acc @ [op]) vs)"

definition parse_key_ops :: "string option array_arg js_prop \<Rightarrow> string list crypto" where
  "parse_key_ops p =
     (case p of
        Absent \<Rightarrow> Done []
      | PropThrows \<Rightarrow> Raise Pending
      | Has ArrayThrows \<Rightarrow> Raise Pending
      | Has NotArray \<Rightarrow> Raise (JsError ''Failed to read the 'key_ops' property from 'JsonWebKey': The provided value cannot be converted to a sequence'')
      | Has (ArrayOf vs) \<Rightarrow> key_ops_loop [] vs)"

text \<open>Each of the three strings is the conversion of the element itself.\<close>

definition oth_failed :: crypto_error where
  "oth_failed = JsError (''Failed to read the 'oth' property from 'JsonWebKey': The provided value is not of type 'RsaOtherPrimesInfo'' @ [CHR 0x27])"

definition parse_oth_element :: "oth_arg \<Rightarrow> other_prime crypto" where
  "parse_oth_element a =
     (case a of
        OthNotObject \<Rightarrow> Raise oth_failed
      | OthObject r_ok d_ok t_ok conv \<Rightarrow>
          if \<not> r_ok then Raise Pending
          else (case conv of
             None \<Rightarrow> Raise oth_failed
           | Some s \<Rightarrow> if \<not> d_ok \<or> \<not> t_ok then Raise Pending else Done \<lparr>prime_r = s, prime_d = s, prime_t = s\<rparr>))"

fun oth_loop :: "oth_arg list \<Rightarrow> other_prime list crypto" where
  "oth_loop [] = Done []"
| "oth_loop (a # as) = cbind (parse_oth_element a) (\<lambda>x. cbind (oth_loop as) (\<lambda>xs. Done (x # xs)))"

definition parse_oth :: "oth_arg array_arg js_prop \<Rightarrow> other_prime list crypto" where
  "parse_oth p =
     (case p of
        Absent \<Rightarrow> Done []
      | PropThrows \<Rightarrow> Raise Pending
      | Has ArrayThrows \<Rightarrow> Raise Pending
      | Has NotArray \<Rightarrow> Raise (JsError ''Failed to read the 'oth' property from 'JsonWebKey': The provided value cannot be converted to a sequence'')
      | Has (ArrayOf as) \<Rightarrow> oth_loop as)"

definition JsonWebKey_parse :: "jwk_arg option \<Rightarrow> string \<Rightarrow> json_web_key crypto" where
  "JsonWebKey_parse v required_kty =
     (case v of
        None \<Rightarrow> Raise (JsError ''The provided value is not of type JsonWebKey'')
      | Some a \<Rightarrow>
          cbind (extractStringPropertyFromObject (a_kty a)) (\<lambda>kty_option.
          (case kty_option of
             None \<Rightarrow> Raise (JsError ''The required JWK member 'kty' was missing'')
           | Some ty \<Rightarrow>
               if ty \<noteq> required_kty then Raise (JsError (''The JWK 'kty' member was not '' @ [CHR 0x27] @ required_kty @ [CHR 0x27]))
               else
                 cbind (extractStringPropertyFromObject (a_use a)) (\<lambda>use'.
                 cbind (extractStringPropertyFromObject (a_alg a)) (\<lambda>alg'.
                 cbind (extractStringPropertyFromObject (a_crv a)) (\<lambda>crv'.
                 cbind (extractStringPropertyFromObject (a_x a)) (\<lambda>x.
                 cbind (extractStringPropertyFromObject (a_y a)) (\<lambda>y.
                 cbind (extractStringPropertyFromObject (a_d a)) (\<lambda>d.
                 cbind (extractStringPropertyFromObject (a_n a)) (\<lambda>n.
                 cbind (extractStringPropertyFromObject (a_e a)) (\<lambda>e.
                 cbind (extractStringPropertyFromObject (a_p a)) (\<lambda>p.
                 cbind (extractStringPropertyFromObject (a_q a)) (\<lambda>q.
                 cbind (extractStringPropertyFromObject (a_dp a)) (\<lambda>dp.
                 cbind (extractStringPropertyFromObject (a_dq a)) (\<lambda>dq.
                 cbind (extractStringPropertyFromObject (a_qi a)) (\<lambda>qi.
                 cbind (extractStringPropertyFromObject (a_k a)) (\<lambda>k.
                 cbind (case a_ext a of Absent \<Rightarrow> Done None | PropThrows \<Rightarrow> Raise Pending | Has b \<Rightarrow> Done (Some b)) (\<lambda>ext'.
                 cbind (parse_key_ops (a_key_ops a)) (\<lambda>ops.
                 cbind (parse_oth (a_oth a)) (\<lambda>others.
                 Done \<lparr>jwk_kty = ty, jwk_use = use', jwk_key_ops = ops, jwk_alg = alg', jwk_ext = ext', jwk_crv = crv', jwk_x = x, jwk_y = y,
                   jwk_n = n, jwk_e = e, jwk_d = d, jwk_p = p, jwk_q = q, jwk_dp = dp, jwk_dq = dq, jwk_qi = qi,
                   jwk_oth = others, jwk_k = k\<rparr>))))))))))))))))))))"

end
