(* ===== verification/Crypto_Algorithm.thy ===== *)
theory Crypto_Algorithm
  imports Crypto_Key
begin

section \<open>Cryptographic algorithms\<close>

text \<open>
  \<open>builtins/web/crypto/crypto-algorithm.cpp\<close> and the functions of \<open>crypto-key.cpp\<close> that create
  keys: normalization of an algorithm argument, digests, import of HMAC, ECDSA and RSA keys,
  signing and verification.

  \<^item> The state has the memory of array buffers (\<open>None\<close> when detached), the algorithm objects of
    keys, which scripts get from the getter \<open>algorithm\<close> and may change, and the keys.
  \<^item> Byte strings are of type \<open>string\<close>.  An \<open>std::optional::value\<close> without a value aborts.
\<close>

datatype algorithm_identifier =
  RSASSA_PKCS1_v1_5 | RSA_PSS | RSA_OAEP | ECDSA | ECDH | AES_CTR | AES_CBC | AES_GCM | AES_KW | HMAC
  | MD5 | SHA_1 | SHA_256 | SHA_384 | SHA_512 | HKDF | PBKDF2

datatype named_curve = P256 | P384 | P521

datatype key_type = Public | Private | Secret

datatype key_format = Raw | Spki | Pkcs8 | Jwk

text \<open>\<open>EVP_MD\<close>\<close>

datatype md = Md5 | Sha1 | Sha224 | Sha256 | Sha384 | Sha512

text \<open>What a script finds as the \<open>hash\<close> of an algorithm object: the name of an object, if it can be
  read and converted.\<close>

datatype hash_slot = HashNotObject | HashObject "string option"

record algorithm_object =
  ao_name :: "string option"
  ao_hash :: hash_slot
  ao_length :: "32 word option"
  ao_curve :: "string option"
  ao_modulus_length :: "nat option"
  ao_exponent :: "string option"

text \<open>Where the data of an HMAC key is: in an array buffer, or in a vector that is gone.\<close>

datatype memory_span = BufferView nat nat nat | FreedVector nat

record 'k crypto_key =
  key_algorithm :: nat
  key_kind :: key_type
  key_extractable :: bool
  key_usages :: byte
  key_pkey :: "'k option"
  key_data :: "memory_span option"

record 'k crypto_state =
  buffers :: "string option list"
  algorithms :: "algorithm_object list"
  crypto_keys :: "'k crypto_key list"

text \<open>
  OpenSSL.  A digest, an HMAC or a signature can fail; \<open>pkey_verify\<close> is \<open>None\<close> when a preparing
  call fails.  The functions that make keys get the big-endian numbers of the code.
\<close>

record 'k openssl =
  evp_digest :: "md \<Rightarrow> string \<Rightarrow> string option"
  digest_length :: "md \<Rightarrow> nat"
  hmac_sign :: "md \<Rightarrow> string \<Rightarrow> string \<Rightarrow> string option"
  pkey_sign :: "'k \<Rightarrow> md \<Rightarrow> string \<Rightarrow> string option"
  pkey_verify :: "'k \<Rightarrow> md \<Rightarrow> string \<Rightarrow> string \<Rightarrow> bool option"
  rsa_public :: "string \<Rightarrow> string \<Rightarrow> 'k option"
  rsa_private :: "string \<Rightarrow> string \<Rightarrow> string \<Rightarrow> string \<Rightarrow> string \<Rightarrow> string option \<Rightarrow> string option \<Rightarrow> string option \<Rightarrow> 'k option"
  bn_num_bytes :: "string \<Rightarrow> nat"
  ec_pkey :: "named_curve \<Rightarrow> string \<Rightarrow> string \<Rightarrow> string option \<Rightarrow> 'k option"
  group_degree :: "named_curve \<Rightarrow> nat"

definition dom_raise :: "string \<Rightarrow> 'a crypto" where
  "dom_raise name = Raise (DomError name name)"

definition data_error :: "'a crypto" where
  "data_error = Raise (DomError ''Data provided to an operation does not meet requirements'' ''DataError'')"

definition not_permitted :: "'a crypto" where
  "not_permitted = Raise (DomError ''Operation not permitted'' ''DataError'')"

subsection \<open>Names\<close>

definition upper_char :: "char \<Rightarrow> char" where
  "upper_char c = (let n = (of_char c :: nat) in if 97 \<le> n \<and> n \<le> 122 then char_of (n - 32) else c)"

definition identifiers :: "(string \<times> algorithm_identifier) list" where
  "identifiers =
    [(''RSASSA-PKCS1-V1_5'', RSASSA_PKCS1_v1_5), (''RSA-PSS'', RSA_PSS), (''RSA-OAEP'', RSA_OAEP), (''ECDSA'', ECDSA),
     (''ECDH'', ECDH), (''AES-CTR'', AES_CTR), (''AES-CBC'', AES_CBC), (''AES-GCM'', AES_GCM), (''AES-KW'', AES_KW),
     (''HMAC'', HMAC), (''MD5'', MD5), (''SHA-1'', SHA_1), (''SHA-256'', SHA_256), (''SHA-384'', SHA_384),
     (''SHA-512'', SHA_512), (''HKDF'', HKDF), (''PBKDF2'', PBKDF2)]"

definition algorithmName :: "algorithm_identifier \<Rightarrow> string" where
  "algorithmName a =
     (case a of RSASSA_PKCS1_v1_5 \<Rightarrow> ''RSASSA-PKCS1-v1_5'' | RSA_PSS \<Rightarrow> ''RSA-PSS'' | RSA_OAEP \<Rightarrow> ''RSA-OAEP''
      | ECDSA \<Rightarrow> ''ECDSA'' | ECDH \<Rightarrow> ''ECDH'' | AES_CTR \<Rightarrow> ''AES-CTR'' | AES_CBC \<Rightarrow> ''AES-CBC'' | AES_GCM \<Rightarrow> ''AES-GCM''
      | AES_KW \<Rightarrow> ''AES-KW'' | HMAC \<Rightarrow> ''HMAC'' | MD5 \<Rightarrow> ''MD5'' | SHA_1 \<Rightarrow> ''SHA-1'' | SHA_256 \<Rightarrow> ''SHA-256''
      | SHA_384 \<Rightarrow> ''SHA-384'' | SHA_512 \<Rightarrow> ''SHA-512'' | HKDF \<Rightarrow> ''HKDF'' | PBKDF2 \<Rightarrow> ''PBKDF2'')"

definition curveName :: "named_curve \<Rightarrow> string" where
  "curveName c = (case c of P256 \<Rightarrow> ''P-256'' | P384 \<Rightarrow> ''P-384'' | P521 \<Rightarrow> ''P-521'')"

definition toNamedCurve :: "string \<Rightarrow> named_curve option" where
  "toNamedCurve name =
     (if name = ''P-256'' then Some P256 else if name = ''P-384'' then Some P384 else if name = ''P-521'' then Some P521 else None)"

subsection \<open>Normalizing an algorithm\<close>

text \<open>
  An argument that names an algorithm: a string, an object, or something else, with the string
  that reading and converting gives, or \<open>None\<close> when that throws.  Of an object the parameters
  matter: \<open>hash\<close> is the name that normalizing its value sees.  The numeric length is \<open>None\<close> when it
  is no finite number.
\<close>

datatype length_arg = NoLength | LengthThrows | LengthNotNumber | LengthNumber "int option"

record alg_params =
  prm_name :: "string option"
  prm_hash :: "string option"
  prm_length :: length_arg
  prm_curve :: "string option"

datatype alg_arg = AlgString string | AlgOther "string option" | AlgObject alg_params

definition alg_name :: "alg_arg \<Rightarrow> string option" where
  "alg_name v = (case v of AlgString n \<Rightarrow> Some n | AlgOther n \<Rightarrow> n | AlgObject p \<Rightarrow> prm_name p)"

definition normalizeIdentifier :: "string option \<Rightarrow> algorithm_identifier crypto" where
  "normalizeIdentifier name =
     (case name of
        None \<Rightarrow> Raise Pending
      | Some n \<Rightarrow> (case map_of identifiers (map upper_char n) of
           Some i \<Rightarrow> Done i
         | None \<Rightarrow> Raise (DomError ''Algorithm: Unrecognized name'' ''NotSupportedError'')))"

text \<open>The parameters: of a string, a plain object with the name; else the object, or null.\<close>

definition alg_parameters :: "alg_arg \<Rightarrow> alg_params option" where
  "alg_parameters v =
     (case v of
        AlgString n \<Rightarrow> Some \<lparr>prm_name = Some n, prm_hash = Some ''undefined'', prm_length = NoLength, prm_curve = Some ''undefined''\<rparr>
      | AlgObject p \<Rightarrow> Some p
      | AlgOther _ \<Rightarrow> None)"

definition is_digest :: "algorithm_identifier \<Rightarrow> bool" where
  "is_digest i \<longleftrightarrow> i \<in> {MD5, SHA_1, SHA_256, SHA_384, SHA_512}"

definition CryptoAlgorithmDigest_normalize :: "string option \<Rightarrow> algorithm_identifier crypto" where
  "CryptoAlgorithmDigest_normalize name =
     cbind (normalizeIdentifier name) (\<lambda>i.
       if is_digest i then Done i
       else Raise (DomError ''Supplied algorithm does not support the digest operation'' ''NotSupportedError''))"

definition toHashIdentifier :: "string option \<Rightarrow> algorithm_identifier crypto" where
  "toHashIdentifier name = CryptoAlgorithmDigest_normalize name"

datatype sign_verify = SignRSASSA | SignHMAC | SignECDSA algorithm_identifier

definition sign_verify_identifier :: "sign_verify \<Rightarrow> algorithm_identifier" where
  "sign_verify_identifier a = (case a of SignRSASSA \<Rightarrow> RSASSA_PKCS1_v1_5 | SignHMAC \<Rightarrow> HMAC | SignECDSA _ \<Rightarrow> ECDSA)"

definition CryptoAlgorithmSignVerify_normalize :: "alg_arg \<Rightarrow> sign_verify crypto" where
  "CryptoAlgorithmSignVerify_normalize v =
     cbind (normalizeIdentifier (alg_name v)) (\<lambda>i.
       (case i of
          RSASSA_PKCS1_v1_5 \<Rightarrow> Done SignRSASSA
        | HMAC \<Rightarrow> Done SignHMAC
        | ECDSA \<Rightarrow> (case alg_parameters v of
              None \<Rightarrow> Undefined
            | Some p \<Rightarrow> cbind (toHashIdentifier (prm_hash p)) (\<lambda>h. Done (SignECDSA h)))
        | RSA_PSS \<Rightarrow> Raise (DomError ''Supplied algorithm is not yet supported'' ''NotSupportedError'')
        | _ \<Rightarrow> NoException))"

datatype import_alg = ImportRSASSA algorithm_identifier | ImportHMAC algorithm_identifier "32 word option" | ImportECDSA named_curve

text \<open>The number is converted to \<open>unsigned long\<close>, which is undefined outside its range.\<close>

definition HMAC_fromParameters :: "alg_params \<Rightarrow> import_alg crypto" where
  "HMAC_fromParameters p =
     cbind (toHashIdentifier (prm_hash p)) (\<lambda>h.
       (case prm_length p of
          NoLength \<Rightarrow> Done (ImportHMAC h None)
        | LengthThrows \<Rightarrow> Raise Pending
        | LengthNotNumber \<Rightarrow> NoException
        | LengthNumber (Some x) \<Rightarrow> if 0 \<le> x \<and> x < 2 ^ 32 then Done (ImportHMAC h (Some (word_of_int x))) else Undefined
        | LengthNumber None \<Rightarrow> Undefined))"

definition ECDSA_fromParameters :: "alg_params \<Rightarrow> import_alg crypto" where
  "ECDSA_fromParameters p =
     (case prm_curve p of
        None \<Rightarrow> Raise Pending
      | Some n \<Rightarrow> (case toNamedCurve n of Some c \<Rightarrow> Done (ImportECDSA c) | None \<Rightarrow> NoException))"

definition CryptoAlgorithmImportKey_normalize :: "alg_arg \<Rightarrow> import_alg crypto" where
  "CryptoAlgorithmImportKey_normalize v =
     cbind (normalizeIdentifier (alg_name v)) (\<lambda>i.
       if i = RSASSA_PKCS1_v1_5 \<or> i = HMAC \<or> i = ECDSA
       then (case alg_parameters v of
               None \<Rightarrow> Undefined
             | Some p \<Rightarrow>
                 if i = HMAC then HMAC_fromParameters p
                 else if i = ECDSA then ECDSA_fromParameters p
                 else cbind (toHashIdentifier (prm_hash p)) (\<lambda>h. Done (ImportRSASSA h)))
       else if is_digest i
       then Raise (DomError ''Supplied algorithm does not support the importKey operation'' ''NotSupportedError'')
       else Raise (DomError ''Supplied algorithm is not yet supported'' ''NotSupportedError''))"

subsection \<open>Digests\<close>

definition read_memory :: "'k crypto_state \<Rightarrow> memory_span \<Rightarrow> string crypto" where
  "read_memory s m =
     (case m of
        FreedVector n \<Rightarrow> Undefined
      | BufferView b off len \<Rightarrow>
          if len = 0 then Done []
          else (case buffers s ! b of
             None \<Rightarrow> Undefined
           | Some bytes \<Rightarrow> if off + len \<le> length bytes then Done (take len (drop off bytes)) else Undefined))"

definition md_of :: "algorithm_identifier \<Rightarrow> md option" where
  "md_of i = (case i of MD5 \<Rightarrow> Some Md5 | SHA_1 \<Rightarrow> Some Sha1 | SHA_256 \<Rightarrow> Some Sha256 | SHA_384 \<Rightarrow> Some Sha384
     | SHA_512 \<Rightarrow> Some Sha512 | _ \<Rightarrow> None)"

text \<open>The buffer for the digest has the length that belongs to the algorithm.\<close>

definition raw_digest :: "'k openssl \<Rightarrow> string \<Rightarrow> md \<Rightarrow> nat \<Rightarrow> string crypto" where
  "raw_digest L data md len =
     (case evp_digest L md data of
        None \<Rightarrow> Raise (DomError ''SubtleCrypto.digest: failed to create digest'' ''OperationError'')
      | Some bs \<Rightarrow> if length bs \<le> len then Done (bs @ replicate (len - length bs) (CHR 0x00)) else Undefined)"

definition digest_with :: "'k openssl \<Rightarrow> string \<Rightarrow> md \<Rightarrow> nat \<Rightarrow> string crypto" where
  "digest_with L data md len =
     (case evp_digest L md data of
        None \<Rightarrow> Raise (DomError ''SubtleCrypto.digest: failed to create digest'' ''OperationError'')
      | Some bs \<Rightarrow> if length bs \<le> len then Done bs else Undefined)"

definition algorithm_digest :: "'k openssl \<Rightarrow> algorithm_identifier \<Rightarrow> string \<Rightarrow> string crypto" where
  "algorithm_digest L i data =
     (case md_of i of Some md \<Rightarrow> digest_with L data md (digest_length L md) | None \<Rightarrow> NoException)"

text \<open>The digest that the algorithm object of a key names.\<close>

definition md_names :: "(string \<times> md) list" where
  "md_names = [(''MD5'', Md5), (''SHA-1'', Sha1), (''SHA-224'', Sha224), (''SHA-256'', Sha256), (''SHA-384'', Sha384), (''SHA-512'', Sha512)]"

definition createDigestAlgorithm :: "'k crypto_state \<Rightarrow> nat \<Rightarrow> md option" where
  "createDigestAlgorithm s key =
     (case ao_hash (algorithms s ! key_algorithm (crypto_keys s ! key)) of
        HashNotObject \<Rightarrow> None
      | HashObject None \<Rightarrow> None
      | HashObject (Some name) \<Rightarrow> map_of md_names name)"

subsection \<open>Signing and verifying\<close>

text \<open>Slots of a key that were not set are \<open>undefined\<close>; taking a pointer from one is undefined.\<close>

definition hmacKeyData :: "'k crypto_state \<Rightarrow> nat \<Rightarrow> string crypto" where
  "hmacKeyData s key =
     (case key_data (crypto_keys s ! key) of None \<Rightarrow> Undefined | Some m \<Rightarrow> read_memory s m)"

definition HMAC_signature :: "string \<Rightarrow> 'k openssl \<Rightarrow> 'k crypto_state \<Rightarrow> nat \<Rightarrow> string \<Rightarrow> string crypto" where
  "HMAC_signature what L s key data =
     (case createDigestAlgorithm s key of
        None \<Rightarrow> dom_raise ''OperationError''
      | Some md \<Rightarrow> cbind (hmacKeyData s key) (\<lambda>k.
          (case hmac_sign L md k data of
             None \<Rightarrow> Raise (DomError what ''OperationError'')
           | Some mac \<Rightarrow> Done mac)))"

definition HMAC_sign :: "'k openssl \<Rightarrow> 'k crypto_state \<Rightarrow> nat \<Rightarrow> string \<Rightarrow> string crypto" where
  "HMAC_sign L s key data = HMAC_signature ''SubtleCrypto.sign: failed to sign'' L s key data"

definition HMAC_verify :: "'k openssl \<Rightarrow> 'k crypto_state \<Rightarrow> nat \<Rightarrow> string \<Rightarrow> string \<Rightarrow> bool crypto" where
  "HMAC_verify L s key signature data =
     cbind (HMAC_signature ''SubtleCrypto.verify: failed to verify'' L s key data) (\<lambda>mac. Done (mac = signature))"

definition RSASSA_sign :: "'k openssl \<Rightarrow> 'k crypto_state \<Rightarrow> nat \<Rightarrow> string \<Rightarrow> string crypto" where
  "RSASSA_sign L s key data =
     (if key_kind (crypto_keys s ! key) \<noteq> Private then dom_raise ''InvalidAccessError''
      else case createDigestAlgorithm s key of
             None \<Rightarrow> dom_raise ''OperationError''
           | Some md \<Rightarrow>
               (case raw_digest L data md (digest_length L md) of
                  Done d \<Rightarrow>
                    (case key_pkey (crypto_keys s ! key) of
                       None \<Rightarrow> Undefined
                     | Some k \<Rightarrow> (case pkey_sign L k md d of None \<Rightarrow> dom_raise ''OperationError'' | Some sig \<Rightarrow> Done sig))
                | Undefined \<Rightarrow> Undefined
                | _ \<Rightarrow> dom_raise ''OperationError''))"

text \<open>Without a digest algorithm the size of the digest is that of a null pointer.\<close>

definition RSASSA_verify :: "'k openssl \<Rightarrow> 'k crypto_state \<Rightarrow> nat \<Rightarrow> string \<Rightarrow> string \<Rightarrow> bool crypto" where
  "RSASSA_verify L s key signature data =
     (if key_kind (crypto_keys s ! key) \<noteq> Public then dom_raise ''InvalidAccessError''
      else case createDigestAlgorithm s key of
             None \<Rightarrow> Undefined
           | Some md \<Rightarrow>
               (case raw_digest L data md (digest_length L md) of
                  Done d \<Rightarrow>
                    (case key_pkey (crypto_keys s ! key) of
                       None \<Rightarrow> Undefined
                     | Some k \<Rightarrow> (case pkey_verify L k md signature d of None \<Rightarrow> dom_raise ''OperationError'' | Some b \<Rightarrow> Done b))
                | Undefined \<Rightarrow> Undefined
                | _ \<Rightarrow> dom_raise ''OperationError''))"

definition algorithm_sign :: "'k openssl \<Rightarrow> 'k crypto_state \<Rightarrow> sign_verify \<Rightarrow> nat \<Rightarrow> string \<Rightarrow> string crypto" where
  "algorithm_sign L s a key data =
     (case a of
        SignRSASSA \<Rightarrow> RSASSA_sign L s key data
      | SignHMAC \<Rightarrow> HMAC_sign L s key data
      | SignECDSA _ \<Rightarrow> NoException)"

definition algorithm_verify :: "'k openssl \<Rightarrow> 'k crypto_state \<Rightarrow> sign_verify \<Rightarrow> nat \<Rightarrow> string \<Rightarrow> string \<Rightarrow> bool crypto" where
  "algorithm_verify L s a key signature data =
     (case a of
        SignRSASSA \<Rightarrow> RSASSA_verify L s key signature data
      | SignHMAC \<Rightarrow> HMAC_verify L s key signature data
      | SignECDSA _ \<Rightarrow> Raise (DomError ''SubtleCrypto.verify: failed to verify'' ''OperationError''))"

subsection \<open>Creating keys\<close>

definition alloc_key :: "algorithm_object \<Rightarrow> (nat \<Rightarrow> 'k crypto_key) \<Rightarrow> 'k crypto_state \<Rightarrow> nat \<times> 'k crypto_state" where
  "alloc_key ao k s =
     (length (crypto_keys s),
      s\<lparr>algorithms := algorithms s @ [ao], crypto_keys := crypto_keys s @ [k (length (algorithms s))]\<rparr>)"

definition HMAC_toObject :: "algorithm_identifier \<Rightarrow> 32 word \<Rightarrow> algorithm_object" where
  "HMAC_toObject h len =
     \<lparr>ao_name = Some ''HMAC'', ao_hash = HashObject (Some (algorithmName h)), ao_length = Some len, ao_curve = None,
      ao_modulus_length = None, ao_exponent = None\<rparr>"

definition ECDSA_toObject :: "named_curve \<Rightarrow> algorithm_object" where
  "ECDSA_toObject c =
     \<lparr>ao_name = Some ''ECDSA'', ao_hash = HashNotObject, ao_length = None, ao_curve = Some (curveName c),
      ao_modulus_length = None, ao_exponent = None\<rparr>"

definition RSASSA_toObject :: "algorithm_identifier \<Rightarrow> algorithm_object" where
  "RSASSA_toObject h =
     \<lparr>ao_name = Some ''RSASSA-PKCS1-v1_5'', ao_hash = HashObject (Some (algorithmName h)), ao_length = None, ao_curve = None,
      ao_modulus_length = None, ao_exponent = None\<rparr>"

text \<open>The key keeps the span, and all of it whatever the length in bits.\<close>

definition createHMAC :: "algorithm_identifier \<Rightarrow> memory_span \<Rightarrow> 32 word \<Rightarrow> bool \<Rightarrow> byte \<Rightarrow> 'k crypto_state
    \<Rightarrow> (nat \<times> 'k crypto_state) crypto" where
  "createHMAC h data len extractable usages s =
     Done (alloc_key (HMAC_toObject h len) (\<lambda>n. \<lparr>key_algorithm = n, key_kind = Secret, key_extractable = extractable,
        key_usages = usages, key_pkey = None, key_data = Some data\<rparr>) s)"

record ec_components =
  ec_x :: string
  ec_y :: string
  ec_d :: "string option"

definition numBitsToBytes :: "nat \<Rightarrow> nat" where
  "numBitsToBytes x = x div 8 + (7 + x mod 8) div 8"

text \<open>\<open>ec_d\<close> is present in a private key.  \<open>ec_pkey\<close> covers setting the numbers, and \<open>EC_KEY_check_key\<close>.\<close>

definition createECDSA :: "'k openssl \<Rightarrow> named_curve \<Rightarrow> ec_components \<Rightarrow> bool \<Rightarrow> byte \<Rightarrow> 'k crypto_state
    \<Rightarrow> (nat \<times> 'k crypto_state) crypto" where
  "createECDSA L c k extractable usages s =
     (let kind = (if ec_d k = None then Public else Private);
          degree_bytes = numBitsToBytes (group_degree L c)
      in if ec_d k = Some [] then NoException
         else if ec_x k = [] \<or> ec_y k = [] then NoException
         else if length (ec_x k) \<noteq> degree_bytes \<or> length (ec_y k) \<noteq> degree_bytes then NoException
         else if (case ec_d k of Some d \<Rightarrow> length d \<noteq> degree_bytes | None \<Rightarrow> False) then NoException
         else case ec_pkey L c (ec_x k) (ec_y k) (ec_d k) of
                None \<Rightarrow> NoException
              | Some p \<Rightarrow> Done (alloc_key (ECDSA_toObject c) (\<lambda>n. \<lparr>key_algorithm = n, key_kind = kind,
                    key_extractable = extractable, key_usages = usages, key_pkey = Some p, key_data = None\<rparr>) s))"

text \<open>The additional numbers of a private RSA key, if it has them: \<open>p\<close> with \<open>dp\<close>, \<open>q\<close> with \<open>dq\<close> and
  \<open>qi\<close>, and the primes beyond two.\<close>

record rsa_components =
  rsa_modulus :: string
  rsa_exponent :: string
  rsa_private_exponent :: "string option"
  rsa_primes :: "(string \<times> string \<times> string \<times> string \<times> string) option"
  rsa_other_primes :: "other_prime list"

definition nonempty_number :: "string \<Rightarrow> string option" where
  "nonempty_number x = (if x = [] then None else Some x)"

definition createRSA :: "'k openssl \<Rightarrow> algorithm_identifier \<Rightarrow> rsa_components \<Rightarrow> bool \<Rightarrow> byte \<Rightarrow> 'k crypto_state
    \<Rightarrow> (nat \<times> 'k crypto_state) crypto" where
  "createRSA L h k extractable usages s =
     (let n = rsa_modulus k; e = rsa_exponent k;
          pkey = (case rsa_private_exponent k of
             None \<Rightarrow>
               if rsa_other_primes k \<noteq> [] \<or> n = [] \<or> e = [] then None
               else map_option (\<lambda>x. (Public, x)) (rsa_public L n e)
           | Some d \<Rightarrow>
               (case rsa_primes k of
                  None \<Rightarrow> None
                | Some (p, dp, q, dq, qi) \<Rightarrow>
                    if rsa_other_primes k \<noteq> [] \<or> n = [] \<or> e = [] \<or> d = [] \<or> p = [] \<or> q = [] then None
                    else map_option (\<lambda>x. (Private, x))
                      (rsa_private L n e d p q (nonempty_number dp) (nonempty_number dq) (nonempty_number qi))))
      in case pkey of
           None \<Rightarrow> NoException
         | Some (kind, x) \<Rightarrow>
             Done (alloc_key ((RSASSA_toObject h)\<lparr>ao_modulus_length := Some (bn_num_bytes L n * 8), ao_exponent := Some e\<rparr>)
               (\<lambda>i. \<lparr>key_algorithm = i, key_kind = kind, key_extractable = extractable, key_usages = usages,
                  key_pkey = Some x, key_data = None\<rparr>) s))"

subsection \<open>Importing keys\<close>

definition base64url :: "string \<Rightarrow> string option" where
  "base64url v = (case forgivingBase64Decode v base64URLDecodeTable of Inl _ \<Rightarrow> None | Inr x \<Rightarrow> Some x)"

definition decode_member :: "string \<Rightarrow> string \<Rightarrow> string crypto" where
  "decode_member name v =
     (case base64url v of
        Some x \<Rightarrow> Done x
      | None \<Rightarrow> Raise (DomError (''The JWK member '' @ [CHR 0x27] @ name @ [CHR 0x27]
            @ '' could not be base64url decoded or contained padding'') ''DataError''))"

text \<open>An \<open>optional\<close> whose value is taken without a test.\<close>

definition opt_value :: "'a option \<Rightarrow> 'a crypto" where
  "opt_value v = (case v of Some x \<Rightarrow> Done x | None \<Rightarrow> Undefined)"

text \<open>The modulus loses a first character \<open>0\<close>, the digit.\<close>

definition strip_zero :: "string \<Rightarrow> string" where
  "strip_zero m = (if m \<noteq> [] \<and> hd m = CHR ''0'' then tl m else m)"

text \<open>The exponent is converted from a string of bytes.\<close>

definition exponent_bytes :: "string \<Rightarrow> string option" where
  "exponent_bytes v =
     (case convertJSValueToByteString (\<lambda>x :: unit. None) (VString (Latin1 (map byte_of v))) of
        Inl _ \<Rightarrow> None | Inr x \<Rightarrow> Some x)"

definition createRSAPublicKeyFromJWK :: "json_web_key \<Rightarrow> rsa_components crypto" where
  "createRSAPublicKeyFromJWK jwk =
     (case (jwk_n jwk, jwk_e jwk) of
        (Some n, Some e) \<Rightarrow>
          cbind (decode_member ''n'' n) (\<lambda>modulus.
          (case exponent_bytes e of
             None \<Rightarrow> data_error
           | Some bytes \<Rightarrow> cbind (decode_member ''e'' bytes) (\<lambda>ex.
               Done \<lparr>rsa_modulus = strip_zero modulus, rsa_exponent = ex, rsa_private_exponent = None,
                 rsa_primes = None, rsa_other_primes = []\<rparr>)))
      | _ \<Rightarrow> data_error)"

text \<open>A prime beyond two whose numbers do not decode makes the import fail without an exception.\<close>

fun decode_primes :: "other_prime list \<Rightarrow> other_prime list crypto" where
  "decode_primes [] = Done []"
| "decode_primes (v # vs) =
     (case (base64url (prime_r v), base64url (prime_d v), base64url (prime_t v)) of
        (Some r, Some d, Some t) \<Rightarrow> cbind (decode_primes vs) (\<lambda>xs. Done (\<lparr>prime_r = r, prime_d = d, prime_t = t\<rparr> # xs))
      | _ \<Rightarrow> NoException)"

definition createRSAPrivateKeyFromJWK :: "json_web_key \<Rightarrow> rsa_components crypto" where
  "createRSAPrivateKeyFromJWK jwk =
     cbind (opt_value (jwk_n jwk)) (\<lambda>n.
     cbind (decode_member ''n'' n) (\<lambda>modulus.
     cbind (opt_value (jwk_e jwk)) (\<lambda>e.
     cbind (opt_value (exponent_bytes e)) (\<lambda>bytes.
     cbind (decode_member ''e'' bytes) (\<lambda>ex.
     cbind (opt_value (jwk_d jwk)) (\<lambda>d_text.
     cbind (decode_member ''d'' d_text) (\<lambda>d.
       if jwk_p jwk = None \<and> jwk_q jwk = None \<and> jwk_dp jwk = None \<and> jwk_qi jwk = None
       then Done \<lparr>rsa_modulus = strip_zero modulus, rsa_exponent = ex, rsa_private_exponent = Some d,
              rsa_primes = None, rsa_other_primes = []\<rparr>
       else (case (jwk_p jwk, jwk_q jwk, jwk_dp jwk, jwk_dq jwk, jwk_qi jwk) of
          (Some p', Some q', Some dp', Some dq', Some qi') \<Rightarrow>
             cbind (decode_member ''p'' p') (\<lambda>p.
             cbind (decode_member ''dp'' dp') (\<lambda>dp.
             cbind (decode_member ''q'' q') (\<lambda>q.
             cbind (decode_member ''dq'' dq') (\<lambda>dq.
             cbind (decode_member ''qi'' qi') (\<lambda>qi.
             cbind (decode_primes (jwk_oth jwk)) (\<lambda>others.
               Done \<lparr>rsa_modulus = strip_zero modulus, rsa_exponent = ex, rsa_private_exponent = Some d,
                 rsa_primes = Some (p, dp, q, dq, qi), rsa_other_primes = others\<rparr>))))))
        | _ \<Rightarrow> data_error))))))))"

definition createECKeyFromJWK :: "bool \<Rightarrow> json_web_key \<Rightarrow> ec_components crypto" where
  "createECKeyFromJWK private jwk =
     (case (jwk_x jwk, jwk_y jwk, jwk_d jwk) of
        (Some x', Some y', d_text) \<Rightarrow>
          if private \<and> d_text = None then data_error
          else cbind (decode_member ''x'' x') (\<lambda>x. cbind (decode_member ''y'' y') (\<lambda>y.
            if private
            then cbind (decode_member ''d'' (the d_text)) (\<lambda>d. Done \<lparr>ec_x = x, ec_y = y, ec_d = Some d\<rparr>)
            else Done \<lparr>ec_x = x, ec_y = y, ec_d = None\<rparr>))
      | _ \<Rightarrow> data_error)"

text \<open>The checks that the three algorithms have in common: the mask of \<open>key_ops\<close> and \<open>ext\<close>.\<close>

definition ops_error :: "'a crypto" where
  "ops_error = Raise (DomError (''The JWK 'key_ops' member was inconsistent with that specified by the ''
     @ ''Web Crypto call. The JWK usage must be a superset of those requested'') ''DataError'')"

definition check_key_ops :: "json_web_key \<Rightarrow> bool \<Rightarrow> byte \<Rightarrow> unit crypto" where
  "check_key_ops jwk extractable usages =
     (if jwk_key_ops jwk \<noteq> [] \<and> \<not> isSuperSetOf (usages_from_strings (jwk_key_ops jwk)) usages then ops_error
      else if jwk_ext jwk = Some False \<and> extractable then data_error
      else Done ())"

text \<open>The argument \<open>keyData\<close>: a buffer, an object read as a JSON Web Key, or something else.\<close>

datatype key_data_arg = DataBuffer nat nat nat | DataJwk jwk_arg | DataOther

definition data_jwk :: "key_data_arg \<Rightarrow> jwk_arg option" where
  "data_jwk v = (case v of DataJwk a \<Rightarrow> Some a | _ \<Rightarrow> None)"

text \<open>A buffer is an object too; for \<open>JsonWebKey::parse\<close> it has no member \<open>kty\<close>.\<close>

definition parse_key_data :: "key_data_arg \<Rightarrow> string \<Rightarrow> json_web_key crypto" where
  "parse_key_data v required_kty =
     (case v of
        DataBuffer _ _ _ \<Rightarrow> Raise (JsError ''The required JWK member 'kty' was missing'')
      | _ \<Rightarrow> JsonWebKey_parse (data_jwk v) required_kty)"

definition value_to_span :: "string \<Rightarrow> key_data_arg \<Rightarrow> memory_span crypto" where
  "value_to_span what v =
     (case v of
        DataBuffer b off len \<Rightarrow> Done (BufferView b off len)
      | _ \<Rightarrow> Raise (JsError (what @ '' must be of type ArrayBuffer or ArrayBufferView'')))"

definition span_size :: "memory_span \<Rightarrow> nat" where
  "span_size m = (case m of BufferView _ _ len \<Rightarrow> len | FreedVector len \<Rightarrow> len)"

definition hmac_alg :: "algorithm_identifier \<Rightarrow> string option" where
  "hmac_alg h = (case h of SHA_1 \<Rightarrow> Some ''HS1'' | SHA_256 \<Rightarrow> Some ''HS256'' | SHA_384 \<Rightarrow> Some ''HS384''
     | SHA_512 \<Rightarrow> Some ''HS512'' | _ \<Rightarrow> None)"

text \<open>The vector with the decoded key is local to the case for JSON Web Keys.\<close>

definition HMAC_import_jwk :: "algorithm_identifier \<Rightarrow> json_web_key \<Rightarrow> bool \<Rightarrow> byte \<Rightarrow> memory_span crypto" where
  "HMAC_import_jwk h jwk extractable usages =
     cbind (opt_value (jwk_k jwk)) (\<lambda>k.
     cbind (decode_member ''k'' k) (\<lambda>bytes.
       (case hmac_alg h of
          None \<Rightarrow> not_permitted
        | Some name \<Rightarrow>
            if jwk_alg jwk \<noteq> None \<and> jwk_alg jwk \<noteq> Some name then not_permitted
            else if \<not> isEmpty usages \<and> jwk_use jwk \<noteq> None \<and> jwk_use jwk \<noteq> Some ''sign'' then not_permitted
            else cbind (check_key_ops jwk extractable usages) (\<lambda>_. Done (FreedVector (length bytes))))))"

definition HMAC_length_error :: "'a crypto" where
  "HMAC_length_error = Raise (DomError
     ''The optional HMAC key length must be shorter than the key data, and by no more than 7 bits.'' ''DataError'')"

text \<open>Lengths in bits are of type \<open>size_t\<close>, of 32 bits.\<close>

definition HMAC_length :: "32 word option \<Rightarrow> nat \<Rightarrow> 32 word crypto" where
  "HMAC_length requested bytes =
     (let len = (of_nat bytes :: 32 word) * 8
      in if len = 0 then Raise (DomError ''Supplied keyData can not have a length of 0.'' ''DataError'')
         else case requested of
                None \<Rightarrow> Done len
              | Some l \<Rightarrow> if l > len then HMAC_length_error
                          else if l \<le> len - 8 then HMAC_length_error
                          else Done l)"

text \<open>
  Each algorithm has two functions \<open>importKey\<close>: one takes the value apart, by the format, and gives the
  key data to the other, here \<open>import_data\<close>.
\<close>

type_synonym import_data = "json_web_key + memory_span"

definition HMAC_import_data :: "algorithm_identifier \<Rightarrow> 32 word option \<Rightarrow> import_data
    \<Rightarrow> bool \<Rightarrow> byte \<Rightarrow> 'k crypto_state \<Rightarrow> (nat \<times> 'k crypto_state) crypto" where
  "HMAC_import_data h requested d extractable usages s =
     (if \<not> canOnlySignOrVerify usages
      then Raise (JsError ''HMAC keys only support 'sign' and 'verify' operations'')
      else cbind (case d of Inl jwk \<Rightarrow> HMAC_import_jwk h jwk extractable usages | Inr m \<Rightarrow> Done m) (\<lambda>m.
           cbind (HMAC_length requested (span_size m)) (\<lambda>len. createHMAC h m len extractable usages s)))"

definition HMAC_importKey :: "'k openssl \<Rightarrow> algorithm_identifier \<Rightarrow> 32 word option \<Rightarrow> key_format \<Rightarrow> key_data_arg
    \<Rightarrow> bool \<Rightarrow> byte \<Rightarrow> 'k crypto_state \<Rightarrow> (nat \<times> 'k crypto_state) crypto" where
  "HMAC_importKey L h requested format v extractable usages s =
     (if format \<noteq> Raw \<and> format \<noteq> Jwk then NoException
      else cbind (if format = Jwk then cbind (parse_key_data v ''oct'') (\<lambda>jwk. Done (Inl jwk))
                  else cbind (value_to_span [] v) (\<lambda>m. Done (Inr m))) (\<lambda>d.
           HMAC_import_data h requested d extractable usages s))"

definition required_d_length :: "named_curve \<Rightarrow> nat" where
  "required_d_length c = (case c of P256 \<Rightarrow> 32 | P384 \<Rightarrow> 48 | P521 \<Rightarrow> 66)"

definition ECDSA_import_data :: "'k openssl \<Rightarrow> named_curve \<Rightarrow> json_web_key
    \<Rightarrow> bool \<Rightarrow> byte \<Rightarrow> 'k crypto_state \<Rightarrow> (nat \<times> 'k crypto_state) crypto" where
  "ECDSA_import_data L c jwk extractable usages s =
     (if (jwk_d jwk \<noteq> None \<and> \<not> isEmpty usages \<and> \<not> canOnlySign usages)
         \<or> (jwk_d jwk = None \<and> \<not> isEmpty usages \<and> \<not> canOnlyVerify usages)
      then Raise (DomError ''EC keys only support 'sign' and 'verify' operations'' ''SyntaxError'')
      else if \<not> isEmpty usages \<and> jwk_use jwk \<noteq> None \<and> jwk_use jwk \<noteq> Some ''sig'' then not_permitted
      else cbind (check_key_ops jwk extractable usages) (\<lambda>_.
           cbind (opt_value (jwk_crv jwk)) (\<lambda>name.
             if toNamedCurve name \<noteq> Some c
             then Raise (DomError ''The JWK's \"crv\" member specifies a different curve than requested'' ''DataError'')
             else if jwk_alg jwk \<noteq> None \<and> toNamedCurve name \<noteq> Some c then Raise (DomError ''Oopsie'' ''DataError'')
             else cbind (case jwk_d jwk of
                    None \<Rightarrow> createECKeyFromJWK False jwk
                  | Some d_text \<Rightarrow> cbind (decode_member ''d'' d_text) (\<lambda>d.
                      if length d \<noteq> required_d_length c
                      then Raise (DomError (''The JWK's \"d\" member defines an octet string of length ''
                             @ decimal (length d) @ '' bytes but should be '' @ decimal (required_d_length c)) ''SyntaxError'')
                      else createECKeyFromJWK True jwk))
               (\<lambda>k. createECDSA L c k extractable usages s))))"

definition ECDSA_importKey :: "'k openssl \<Rightarrow> named_curve \<Rightarrow> key_format \<Rightarrow> key_data_arg
    \<Rightarrow> bool \<Rightarrow> byte \<Rightarrow> 'k crypto_state \<Rightarrow> (nat \<times> 'k crypto_state) crypto" where
  "ECDSA_importKey L c format v extractable usages s =
     (if format \<noteq> Jwk then Raise (DomError ''Supplied format is not yet supported'' ''NotSupportedError'')
      else cbind (parse_key_data v ''EC'') (\<lambda>jwk. ECDSA_import_data L c jwk extractable usages s))"

definition rsa_alg :: "algorithm_identifier \<Rightarrow> string option" where
  "rsa_alg h = (case h of SHA_1 \<Rightarrow> Some ''RS1'' | SHA_256 \<Rightarrow> Some ''RS256'' | SHA_384 \<Rightarrow> Some ''RS384''
     | SHA_512 \<Rightarrow> Some ''RS512'' | _ \<Rightarrow> None)"

definition RSASSA_import_data :: "'k openssl \<Rightarrow> algorithm_identifier \<Rightarrow> import_data
    \<Rightarrow> bool \<Rightarrow> byte \<Rightarrow> 'k crypto_state \<Rightarrow> (nat \<times> 'k crypto_state) crypto" where
  "RSASSA_import_data L h d extractable usages s =
     (case d of
        Inr _ \<Rightarrow> Raise (DomError ''Supplied format is not supported'' ''DataError'')
      | Inl jwk \<Rightarrow>
          if \<not> (if jwk_d jwk \<noteq> None then canOnlySign usages else canOnlyVerify usages)
          then Raise (JsError (''The JWK 'key_ops' member was inconsistent with that specified by the ''
                 @ ''Web Crypto call. The JWK usage must be a superset of those requested''))
          else if \<not> isEmpty usages \<and> jwk_use jwk \<noteq> None \<and> jwk_use jwk \<noteq> Some ''sig'' then not_permitted
          else cbind (check_key_ops jwk extractable usages) (\<lambda>_.
            if rsa_alg h = None \<or> (jwk_alg jwk \<noteq> None \<and> jwk_alg jwk \<noteq> rsa_alg h)
            then Raise (JsError ''The JWK 'alg' member was inconsistent with that specified by the Web Crypto call'')
            else cbind (if jwk_d jwk \<noteq> None then createRSAPrivateKeyFromJWK jwk else createRSAPublicKeyFromJWK jwk) (\<lambda>k.
                 createRSA L h k extractable usages s)))"

definition RSASSA_importKey :: "'k openssl \<Rightarrow> algorithm_identifier \<Rightarrow> key_format \<Rightarrow> key_data_arg
    \<Rightarrow> bool \<Rightarrow> byte \<Rightarrow> 'k crypto_state \<Rightarrow> (nat \<times> 'k crypto_state) crypto" where
  "RSASSA_importKey L h format v extractable usages s =
     (if format = Raw then NoException
      else cbind (if format = Jwk then cbind (parse_key_data v ''RSA'') (\<lambda>jwk. Done (Inl jwk))
                  else cbind (value_to_span [] v) (\<lambda>m. Done (Inr m))) (\<lambda>d.
           RSASSA_import_data L h d extractable usages s))"

definition algorithm_importKey :: "'k openssl \<Rightarrow> import_alg \<Rightarrow> key_format \<Rightarrow> key_data_arg \<Rightarrow> bool \<Rightarrow> byte
    \<Rightarrow> 'k crypto_state \<Rightarrow> (nat \<times> 'k crypto_state) crypto" where
  "algorithm_importKey L a format v extractable usages s =
     (case a of
        ImportHMAC h l \<Rightarrow> HMAC_importKey L h l format v extractable usages s
      | ImportECDSA c \<Rightarrow> ECDSA_importKey L c format v extractable usages s
      | ImportRSASSA h \<Rightarrow> RSASSA_importKey L h format v extractable usages s)"

end
