(* ===== verification/Subtle_Crypto.thy ===== *)
theory Subtle_Crypto
  imports Crypto_Algorithm
begin

section \<open>The crypto object\<close>

text \<open>
  The methods of \<open>builtins/web/crypto/subtle-crypto.cpp\<close> and \<open>crypto.cpp\<close>.  A method of
  \<open>SubtleCrypto\<close> returns a promise that is already settled.  To reject it, or to return a rejected
  one, a pending exception is needed: without one the method fails and the script is terminated
  (\<open>Uncatchable\<close>).
\<close>

datatype 'a settled = Resolved 'a | Rejected crypto_error | Uncatchable | Aborted

definition settle_call :: "'a crypto \<Rightarrow> 'a settled" where
  "settle_call m = (case m of Done x \<Rightarrow> Resolved x | Raise e \<Rightarrow> Rejected e | NoException \<Rightarrow> Uncatchable | Undefined \<Rightarrow> Aborted)"

lemma settle_call_simps [simp]:
  "settle_call m = Resolved x \<longleftrightarrow> m = Done x" "settle_call m = Rejected e \<longleftrightarrow> m = Raise e"
  "settle_call m = Uncatchable \<longleftrightarrow> m = NoException" "settle_call m = Aborted \<longleftrightarrow> m = Undefined"
  by (cases m; auto simp: settle_call_def)+

subsection \<open>SubtleCrypto\<close>

definition receiver_ok :: "bool \<Rightarrow> unit crypto" where
  "receiver_ok recv = (if recv then Done () else Raise (JsError ''JSMSG_INCOMPATIBLE_INSTANCE''))"

definition enough_args :: "nat \<Rightarrow> nat \<Rightarrow> unit crypto" where
  "enough_args argc n = (if n \<le> argc then Done () else Raise Pending)"

definition subtle_digest :: "'k openssl \<Rightarrow> 'k crypto_state \<Rightarrow> bool \<Rightarrow> nat \<Rightarrow> alg_arg \<Rightarrow> key_data_arg \<Rightarrow> string settled" where
  "subtle_digest L s recv argc alg data = settle_call
     (cbind (receiver_ok recv) (\<lambda>_. cbind (enough_args argc 2) (\<lambda>_.
      cbind (value_to_span ''SubtleCrypto.digest: data'' data) (\<lambda>m.
      cbind (CryptoAlgorithmDigest_normalize (alg_name alg)) (\<lambda>i.
      cbind (read_memory s m) (\<lambda>bytes. algorithm_digest L i bytes))))))"

definition parse_format :: "string option \<Rightarrow> key_format crypto" where
  "parse_format format =
     (case format of
        None \<Rightarrow> Raise Pending
      | Some f \<Rightarrow>
          if f = [] then NoException
          else if f = ''spki'' then Done Spki
          else if f = ''pkcs8'' then Done Pkcs8
          else if f = ''jwk'' then Done Jwk
          else if f = ''raw'' then Done Raw
          else Raise (JsError (''Provided format parameter is not supported. Supported formats are: ''
                 @ '''spki', 'pkcs8', 'jwk', and 'raw' '')))"

definition subtle_importKey :: "'k openssl \<Rightarrow> 'k crypto_state \<Rightarrow> bool \<Rightarrow> nat \<Rightarrow> string option \<Rightarrow> key_data_arg \<Rightarrow> alg_arg
    \<Rightarrow> bool \<Rightarrow> string option array_arg \<Rightarrow> nat settled \<times> 'k crypto_state" where
  "subtle_importKey L s recv argc format data alg extractable usages =
     (let r = cbind (enough_args argc 5) (\<lambda>_. cbind (receiver_ok recv) (\<lambda>_.
              cbind (parse_format format) (\<lambda>f. cbind (usages_from usages) (\<lambda>u.
              cbind (CryptoAlgorithmImportKey_normalize alg) (\<lambda>a.
              algorithm_importKey L a f data extractable u s)))))
      in case r of
           Done (k, s') \<Rightarrow> (Resolved k, s')
         | Raise e \<Rightarrow> (Rejected e, s)
         | NoException \<Rightarrow> (Uncatchable, s)
         | Undefined \<Rightarrow> (Aborted, s))"

datatype key_arg = KeyArg nat | NoKey

definition the_key :: "key_arg \<Rightarrow> nat crypto" where
  "the_key v = (case v of KeyArg k \<Rightarrow> Done k | NoKey \<Rightarrow> Raise (JsError ''parameter 2 is not of type 'CryptoKey' ''))"

definition is_algorithm :: "'k crypto_state \<Rightarrow> nat \<Rightarrow> algorithm_identifier \<Rightarrow> bool" where
  "is_algorithm s key i \<longleftrightarrow> ao_name (algorithms s ! key_algorithm (crypto_keys s ! key)) = Some (algorithmName i)"

definition check_key :: "'k crypto_state \<Rightarrow> nat \<Rightarrow> sign_verify \<Rightarrow> byte \<Rightarrow> string \<Rightarrow> unit crypto" where
  "check_key s key a flag what =
     (if \<not> is_algorithm s key (sign_verify_identifier a)
      then Raise (DomError ''CryptoKey doesn't match AlgorithmIdentifier'' ''InvalidAccessError'')
      else if \<not> can flag (key_usages (crypto_keys s ! key))
      then Raise (DomError (''CryptoKey doesn't support '' @ what) ''InvalidAccessError'')
      else Done ())"

definition subtle_sign :: "'k openssl \<Rightarrow> 'k crypto_state \<Rightarrow> bool \<Rightarrow> nat \<Rightarrow> alg_arg \<Rightarrow> key_arg \<Rightarrow> key_data_arg \<Rightarrow> string settled" where
  "subtle_sign L s recv argc alg key data = settle_call
     (cbind (enough_args argc 3) (\<lambda>_. cbind (receiver_ok recv) (\<lambda>_.
      cbind (the_key key) (\<lambda>k.
      cbind (value_to_span ''SubtleCrypto.sign: data'' data) (\<lambda>m.
      cbind (CryptoAlgorithmSignVerify_normalize alg) (\<lambda>a.
      cbind (check_key s k a sign_flag ''signing'') (\<lambda>_.
      cbind (read_memory s m) (\<lambda>bytes. algorithm_sign L s a k bytes))))))))"

definition subtle_verify :: "'k openssl \<Rightarrow> 'k crypto_state \<Rightarrow> bool \<Rightarrow> nat \<Rightarrow> alg_arg \<Rightarrow> key_arg \<Rightarrow> key_data_arg \<Rightarrow> key_data_arg
    \<Rightarrow> bool settled" where
  "subtle_verify L s recv argc alg key signature data = settle_call
     (cbind (enough_args argc 4) (\<lambda>_. cbind (receiver_ok recv) (\<lambda>_.
      cbind (the_key key) (\<lambda>k.
      cbind (value_to_span ''SubtleCrypto.verify: signature (argument 3)'' signature) (\<lambda>ms.
      cbind (value_to_span ''SubtleCrypto.verify: data (argument 4)'' data) (\<lambda>m.
      cbind (CryptoAlgorithmSignVerify_normalize alg) (\<lambda>a.
      cbind (check_key s k a verify_flag ''verification'') (\<lambda>_.
      cbind (read_memory s ms) (\<lambda>sig.
      cbind (read_memory s m) (\<lambda>bytes. algorithm_verify L s a k sig bytes))))))))))"

subsection \<open>Crypto\<close>

definition MAX_BYTE_LENGTH :: nat where "MAX_BYTE_LENGTH = 65536"

text \<open>The argument: an integer typed array, as its buffer, offset and length in bytes, or another value.
  \<open>random\<close> gives that many bytes of the host.\<close>

definition get_random_values :: "(nat \<Rightarrow> string) \<Rightarrow> (nat \<times> nat \<times> nat) option \<Rightarrow> 'k crypto_state \<Rightarrow> 'k crypto_state crypto" where
  "get_random_values random v s =
     (case v of
        None \<Rightarrow> Raise (DomError ''crypto.getRandomValues: input must be an integer-typed TypedArray'' ''TypeMismatchError'')
      | Some (b, off, len) \<Rightarrow>
          if len > MAX_BYTE_LENGTH
          then Raise (DomError (''crypto.getRandomValues: input byteLength must be at most '' @ decimal MAX_BYTE_LENGTH
                 @ '', but is '' @ decimal len) ''QuotaExceededError'')
          else if len = 0 then Done s
          else (case buffers s ! b of
             None \<Rightarrow> Undefined
           | Some bytes \<Rightarrow> Done (s\<lparr>buffers := (buffers s)[b := Some (take off bytes @ take len (random len) @ drop (off + len) bytes)]\<rparr>)))"

record uuid =
  time_low :: "32 word"
  time_mid :: "16 word"
  time_high_and_version :: "16 word"
  clock_seq_and_reserved :: byte
  clock_seq_low :: byte
  node :: "byte list"

text \<open>The struct is filled bytewise, little endian.\<close>

definition uuid_of_bytes :: "byte list \<Rightarrow> uuid" where
  "uuid_of_bytes b =
     \<lparr>time_low = ucast (b ! 0) OR push_bit 8 (ucast (b ! 1)) OR push_bit 16 (ucast (b ! 2)) OR push_bit 24 (ucast (b ! 3)),
      time_mid = ucast (b ! 4) OR push_bit 8 (ucast (b ! 5)),
      time_high_and_version = ucast (b ! 6) OR push_bit 8 (ucast (b ! 7)),
      clock_seq_and_reserved = b ! 8, clock_seq_low = b ! 9, node = take 6 (drop 10 b)\<rparr>"

definition hex_digit :: "nat \<Rightarrow> char" where
  "hex_digit n = char_of (if n < 10 then 48 + n else 87 + n)"

text \<open>\<open>printf\<close> of a number with \<open>%0wx\<close> that has no more than \<open>w\<close> digits.\<close>

definition hex :: "nat \<Rightarrow> nat \<Rightarrow> string" where
  "hex w n = map (\<lambda>i. hex_digit (n div 16 ^ (w - 1 - i) mod 16)) [0..<w]"

definition random_uuid :: "byte list \<Rightarrow> string" where
  "random_uuid bytes =
     (let u = uuid_of_bytes bytes;
          clock = (clock_seq_and_reserved u AND 0x3f) OR 0x80;
          high = (time_high_and_version u AND 0x0fff) OR 0x4000
      in hex 8 (unat (time_low u)) @ ''-'' @ hex 4 (unat (time_mid u)) @ ''-'' @ hex 4 (unat high) @ ''-''
         @ hex 2 (unat clock) @ hex 2 (unat (clock_seq_low u)) @ ''-'' @ concat (map (\<lambda>b. hex 2 (unat b)) (node u)))"

subsection \<open>Getters\<close>

text \<open>
  A getter called on the prototype of its class passes the check of the receiver; this is \<open>None\<close>.
  The getter of \<open>crypto\<close> accepts \<open>undefined\<close> and the global object.
\<close>

definition CryptoKeyUsages_flags :: "bool \<Rightarrow> bool \<Rightarrow> bool \<Rightarrow> bool \<Rightarrow> bool \<Rightarrow> bool \<Rightarrow> bool \<Rightarrow> bool \<Rightarrow> byte" where
  "CryptoKeyUsages_flags encrypt decrypt sign verify derive_key derive_bits wrap_key unwrap_key =
     foldl (\<lambda>mask (on, flag). if on then mask OR flag else mask) 0
       [(encrypt, encrypt_flag), (decrypt, decrypt_flag), (sign, sign_flag), (verify, verify_flag),
        (derive_key, derive_key_flag), (derive_bits, derive_bits_flag), (wrap_key, wrap_key_flag), (unwrap_key, unwrap_key_flag)]"

definition CryptoKey_algorithm_get :: "'k crypto_state \<Rightarrow> nat option \<Rightarrow> nat crypto" where
  "CryptoKey_algorithm_get s self =
     (case self of
        None \<Rightarrow> Raise (JsError ''Method algorithm_get called on receiver that's not an instance of CryptoKey'')
      | Some k \<Rightarrow> Done (key_algorithm (crypto_keys s ! k)))"

definition CryptoKey_extractable_get :: "'k crypto_state \<Rightarrow> nat option \<Rightarrow> bool crypto" where
  "CryptoKey_extractable_get s self =
     (case self of
        None \<Rightarrow> Raise (JsError ([CHR 0x27] @ ''extractable get'' @ [CHR 0x27] @ '' called on an object that does not implement interface CryptoKey''))
      | Some k \<Rightarrow> Done (key_extractable (crypto_keys s ! k)))"

definition CryptoKey_type_get :: "'k crypto_state \<Rightarrow> nat option \<Rightarrow> string crypto" where
  "CryptoKey_type_get s self =
     (case self of
        None \<Rightarrow> Raise (JsError ([CHR 0x27] @ ''type get'' @ [CHR 0x27] @ '' called on an object that does not implement interface CryptoKey''))
      | Some k \<Rightarrow> Done (case key_kind (crypto_keys s ! k) of
            Private \<Rightarrow> ''private'' | Public \<Rightarrow> ''public'' | Secret \<Rightarrow> ''secret''))"

definition CryptoKey_canSign :: "'k crypto_state \<Rightarrow> nat \<Rightarrow> bool" where
  "CryptoKey_canSign s k = can sign_flag (key_usages (crypto_keys s ! k))"

definition CryptoKey_canVerify :: "'k crypto_state \<Rightarrow> nat \<Rightarrow> bool" where
  "CryptoKey_canVerify s k = can verify_flag (key_usages (crypto_keys s ! k))"

definition Crypto_subtle_get :: "bool \<Rightarrow> 'o \<Rightarrow> 'o crypto" where
  "Crypto_subtle_get is_crypto subtle =
     (if is_crypto then Done subtle
      else Raise (JsError ([CHR 0x27] @ ''subtle get'' @ [CHR 0x27] @ '' called on an object that does not implement interface Crypto'')))"

definition crypto_get :: "'o \<Rightarrow> 'o \<Rightarrow> 'o option \<Rightarrow> 'o crypto" where
  "crypto_get global crypto this =
     (if this = None \<or> this = Some global then Done crypto
      else Raise (JsError ([CHR 0x27] @ ''crypto get'' @ [CHR 0x27] @ '' called on an object that does not implement interface Window'')))"

text \<open>The constructor of usages from flags and the getter of a key are inverse to each other.\<close>

lemma usages_of_flags:
  "can encrypt_flag (CryptoKeyUsages_flags e d s v dk db w u) = e"
  "can decrypt_flag (CryptoKeyUsages_flags e d s v dk db w u) = d"
  "can sign_flag (CryptoKeyUsages_flags e d s v dk db w u) = s"
  "can verify_flag (CryptoKeyUsages_flags e d s v dk db w u) = v"
  "can derive_key_flag (CryptoKeyUsages_flags e d s v dk db w u) = dk"
  "can derive_bits_flag (CryptoKeyUsages_flags e d s v dk db w u) = db"
  "can wrap_key_flag (CryptoKeyUsages_flags e d s v dk db w u) = w"
  "can unwrap_key_flag (CryptoKeyUsages_flags e d s v dk db w u) = u"
  by (simp_all add: CryptoKeyUsages_flags_def can_def flag_defs)

lemma usages_get_of_flags:
  "usages_get (CryptoKeyUsages_flags e d s v dk db w u) = map fst (filter snd
     [(''decrypt'', d), (''deriveBits'', db), (''deriveKey'', dk), (''encrypt'', e), (''sign'', s), (''unwrapKey'', u),
      (''verify'', v), (''wrapKey'', w)])"
  by (simp add: usages_get_def usages_of_flags)

end
