(* ===== verification/Crypto_Properties.thy ===== *)
theory Crypto_Properties
  imports Subtle_Crypto
begin

section \<open>Properties of the crypto object\<close>

text \<open>
  Usages and their mask, which keys a signing operation gets, what is signed and verified, when an
  import or a signature fails without an exception or aborts, and the form of a random UUID.
\<close>

subsection \<open>Usages\<close>

lemma flags_are_masks:
  "encrypt_flag = 1" "decrypt_flag = 2" "sign_flag = 4" "verify_flag = 8" "derive_key_flag = 16"
  "derive_bits_flag = 32" "wrap_key_flag = 64" "unwrap_key_flag = 128"
  by (simp_all add: flag_defs)

definition usage_names :: "string list" where
  "usage_names = [''decrypt'', ''deriveBits'', ''deriveKey'', ''encrypt'', ''sign'', ''unwrapKey'', ''verify'', ''wrapKey'']"

definition flag_of :: "string \<Rightarrow> byte" where
  "flag_of n = the (map_of usage_flags n)"

lemma usages_get_filter: "usages_get m = filter (\<lambda>n. m AND flag_of n \<noteq> 0) usage_names"
  by (simp add: usages_get_def usage_names_def flag_of_def usage_flags_def can_def)

definition mask_of :: "string set \<Rightarrow> byte" where
  "mask_of A = foldr (\<lambda>n m. if n \<in> A then flag_of n OR m else m) usage_names 0"

lemma flag_of_simps [simp]:
  "flag_of ''decrypt'' = 2" "flag_of ''deriveBits'' = 32" "flag_of ''deriveKey'' = 16" "flag_of ''encrypt'' = 1"
  "flag_of ''sign'' = 4" "flag_of ''unwrapKey'' = 128" "flag_of ''verify'' = 8" "flag_of ''wrapKey'' = 64"
  by (simp_all add: flag_of_def usage_flags_def flags_are_masks)

lemma flags_disjoint_all: "list_all (\<lambda>n. list_all (\<lambda>n'. flag_of n AND flag_of n' \<noteq> 0 \<longleftrightarrow> n = n') usage_names) usage_names"
  by (simp add: usage_names_def)

lemma flags_disjoint:
  "n \<in> set usage_names \<Longrightarrow> n' \<in> set usage_names \<Longrightarrow> flag_of n AND flag_of n' \<noteq> 0 \<longleftrightarrow> n = n'"
  using flags_disjoint_all by (simp add: list_all_iff)

lemma usage_flag: "n \<in> set usage_names \<Longrightarrow> map_of usage_flags n = Some (flag_of n)"
  by (auto simp: usage_names_def usage_flags_def flag_of_def)

lemma usages_loop_ok:
  "set vs \<subseteq> set usage_names \<Longrightarrow> usages_loop m (map Some vs) = Done (foldl (\<lambda>m n. m OR flag_of n) m vs)"
  by (induction vs arbitrary: m) (auto simp: usage_flag)

lemma fold_flags:
  assumes "set vs \<subseteq> set usage_names" "n \<in> set usage_names"
  shows "foldl (\<lambda>m n. m OR flag_of n) m vs AND flag_of n \<noteq> 0 \<longleftrightarrow> m AND flag_of n \<noteq> 0 \<or> n \<in> set vs"
  using assms(1)
proof (induction vs arbitrary: m)
  case (Cons v vs)
  have "(m OR flag_of v) AND flag_of n \<noteq> 0 \<longleftrightarrow> m AND flag_of n \<noteq> 0 \<or> v = n"
    using flags_disjoint [of v n] Cons.prems assms(2) by (auto simp: bit.conj_disj_distrib2 or_eq_0_iff)
  then show ?case using Cons by auto
qed simp

lemma usages_mask:
  assumes "set vs \<subseteq> set usage_names"
  shows "usages_from (ArrayOf (map Some vs)) = Done (usages_from_strings vs)"
    and "usages_from_strings vs = foldl (\<lambda>m n. m OR flag_of n) 0 vs"
proof -
  have "foldl (\<lambda>m u. case map_of usage_flags u of Some f \<Rightarrow> m OR f | None \<Rightarrow> m) a vs = foldl (\<lambda>m n. m OR flag_of n) a vs" for a
    using assms by (induction vs arbitrary: a) (auto simp: usage_flag)
  then show "usages_from_strings vs = foldl (\<lambda>m n. m OR flag_of n) 0 vs" by (simp add: usages_from_strings_def)
  then show "usages_from (ArrayOf (map Some vs)) = Done (usages_from_strings vs)"
    using usages_loop_ok [OF assms] by (simp add: usages_from_def)
qed

lemma mask_has:
  "set vs \<subseteq> set usage_names \<Longrightarrow> n \<in> set usage_names \<Longrightarrow> usages_from_strings vs AND flag_of n \<noteq> 0 \<longleftrightarrow> n \<in> set vs"
  using fold_flags [of vs n 0] by (simp add: usages_mask)

lemma meets_mask:
  "m AND foldl (\<lambda>m n. m OR flag_of n) a vs \<noteq> 0 \<longleftrightarrow> m AND a \<noteq> 0 \<or> (\<exists>n\<in>set vs. m AND flag_of n \<noteq> 0)"
  by (induction vs arbitrary: a) (auto simp: bit.conj_disj_distrib or_eq_0_iff)

lemma mask_single: "set vs \<subseteq> {n} \<Longrightarrow> foldl (\<lambda>m n. m OR flag_of n) a vs = (if vs = [] then a else a OR flag_of n)"
proof (induction vs arbitrary: a)
  case (Cons v vs)
  have "(a OR flag_of n) OR flag_of n = a OR flag_of n" by (simp add: or.assoc)
  with Cons show ?case by simp
qed simp

lemma mask_is_single:
  assumes "set vs \<subseteq> set usage_names" "n \<in> set usage_names"
  shows "usages_from_strings vs = flag_of n \<longleftrightarrow> set vs = {n}"
proof
  assume m: "usages_from_strings vs = flag_of n"
  have "n' \<in> set vs \<longleftrightarrow> n = n'" if "n' \<in> set usage_names" for n'
    using mask_has [OF assms(1) that] flags_disjoint [OF assms(2) that] m by simp
  then show "set vs = {n}" using assms by auto
next
  assume single: "set vs = {n}"
  have v: "set vs \<subseteq> {n}" unfolding single ..
  have "set vs \<noteq> {}" unfolding single by (rule insert_not_empty)
  then have ne: "vs \<noteq> []" unfolding set_empty .
  show "usages_from_strings vs = flag_of n"
    unfolding usages_mask(2) [OF assms(1)] mask_single [OF v] using ne by simp
qed

text \<open>
  C29. The mask of a list of key usages holds exactly the usages of the list: the getter gives them
  back in alphabetical order without duplicates.  Of the tests on masks, emptiness and
  \<open>canOnlySign\<close> are what they are called, but \<open>isSuperSetOf\<close> only asks for one common usage, and
  \<open>canOnlySignOrVerify\<close> accepts any list with one of the two.
\<close>

theorem key_usages_round_trip:
  assumes vs: "set vs \<subseteq> set usage_names" and ws: "set ws \<subseteq> set usage_names"
    and m: "usages_from (ArrayOf (map Some vs)) = Done m"
  shows "usages_get m = filter (\<lambda>n. n \<in> set vs) usage_names
    \<and> (isEmpty m \<longleftrightarrow> vs = []) \<and> (canOnlySign m \<longleftrightarrow> set vs = {''sign''}) \<and> (canOnlyVerify m \<longleftrightarrow> set vs = {''verify''})
    \<and> (isSuperSetOf m (usages_from_strings ws) \<longleftrightarrow> set vs \<inter> set ws \<noteq> {})
    \<and> (canOnlySignOrVerify m \<longleftrightarrow> set vs \<inter> {''sign'', ''verify''} \<noteq> {})"
proof -
  have m': "m = usages_from_strings vs" using m usages_mask(1) [OF vs] by simp
  have names: "''sign'' \<in> set usage_names" "''verify'' \<in> set usage_names" by (simp_all add: usage_names_def)
  have flags: "sign_flag = flag_of ''sign''" "verify_flag = flag_of ''verify''" by (simp_all add: flags_are_masks)
  have get: "usages_get m = filter (\<lambda>n. n \<in> set vs) usage_names"
    unfolding usages_get_filter m' by (rule filter_cong) (simp_all add: mask_has [OF vs])
  have empty: "isEmpty m \<longleftrightarrow> vs = []"
    using mask_has [OF vs, of "hd vs"] vs usages_mask(2) [OF vs] by (cases vs) (auto simp: m' isEmpty_def)
  have super: "isSuperSetOf m (usages_from_strings ws) \<longleftrightarrow> set vs \<inter> set ws \<noteq> {}"
    unfolding isSuperSetOf_def usages_mask(2) [OF ws] meets_mask using mask_has [OF vs] ws by (auto simp: m')
  have either: "canOnlySignOrVerify m \<longleftrightarrow> set vs \<inter> {''sign'', ''verify''} \<noteq> {}"
    unfolding canOnlySignOrVerify_def flags m' bit.conj_disj_distrib or_eq_0_iff
    using mask_has [OF vs names(1)] mask_has [OF vs names(2)] by blast
  show ?thesis
    using get empty super either mask_is_single [OF vs names(1)] mask_is_single [OF vs names(2)]
    by (simp add: m' canOnlySign_def canOnlyVerify_def flags_are_masks)
qed

theorem key_usages_round_trip_witness:
  "usages_get (encrypt_flag OR sign_flag) = [''encrypt'', ''sign''] \<and> canOnlySignOrVerify (encrypt_flag OR sign_flag)
    \<and> isSuperSetOf (encrypt_flag OR sign_flag) (usages_from_strings [''sign'', ''verify''])"
proof -
  have "usages_from (ArrayOf (map Some [''sign'', ''encrypt''])) = Done (encrypt_flag OR sign_flag)"
    by (simp add: usages_from_def usage_flags_def flags_are_masks)
  from key_usages_round_trip [OF _ _ this, of "[''sign'', ''verify'']"] show ?thesis
    by (simp add: usage_names_def)
qed

subsection \<open>Failing without an exception\<close>

lemma HMAC_signature_raises: "HMAC_signature what L s k data \<noteq> NoException"
  by (auto simp: HMAC_signature_def dom_raise_def hmacKeyData_def read_memory_def cbind_eq_NoException
      split: option.splits memory_span.splits if_splits)

lemma RSASSA_sign_raises: "RSASSA_sign L s k data \<noteq> NoException"
  by (auto simp: RSASSA_sign_def dom_raise_def split: option.splits crypto.splits if_splits)

lemma normalize_raises: "normalizeIdentifier n \<noteq> NoException" "toHashIdentifier n \<noteq> NoException"
  "normalizeIdentifier n \<noteq> Undefined" "toHashIdentifier n \<noteq> Undefined"
proof -
  show n: "normalizeIdentifier m \<noteq> NoException" "normalizeIdentifier m \<noteq> Undefined" for m
    by (simp_all add: normalizeIdentifier_def split: option.split)
  show "toHashIdentifier n \<noteq> NoException" "toHashIdentifier n \<noteq> Undefined"
    using n by (auto simp: toHashIdentifier_def CryptoAlgorithmDigest_normalize_def cbind_eq_NoException cbind_eq_Undefined
        split: if_splits)
qed

text \<open>The identifiers that signing has no case for.\<close>

definition no_signature :: "algorithm_identifier \<Rightarrow> bool" where
  "no_signature i \<longleftrightarrow> i \<notin> {RSASSA_PKCS1_v1_5, HMAC, ECDSA, RSA_PSS}"

lemma sign_normalize_cases:
  assumes "alg_parameters alg = Some p"
  shows "CryptoAlgorithmSignVerify_normalize alg = NoException \<longleftrightarrow> (\<exists>i. normalizeIdentifier (alg_name alg) = Done i \<and> no_signature i)"
    and "CryptoAlgorithmSignVerify_normalize alg = Done (SignECDSA h) \<longleftrightarrow>
       normalizeIdentifier (alg_name alg) = Done ECDSA \<and> toHashIdentifier (prm_hash p) = Done h"
    and "CryptoAlgorithmSignVerify_normalize alg \<noteq> Undefined"
proof -
  let ?m = "CryptoAlgorithmSignVerify_normalize alg"
  have "(?m = NoException \<longleftrightarrow> (\<exists>i. normalizeIdentifier (alg_name alg) = Done i \<and> no_signature i))
      \<and> (?m = Done (SignECDSA h) \<longleftrightarrow> normalizeIdentifier (alg_name alg) = Done ECDSA \<and> toHashIdentifier (prm_hash p) = Done h)
      \<and> ?m \<noteq> Undefined"
  proof (cases "normalizeIdentifier (alg_name alg)")
    case (Done i)
    then show ?thesis
      using assms normalize_raises(2,4) [of "prm_hash p"]
      by (cases i; cases "toHashIdentifier (prm_hash p)") (simp_all add: CryptoAlgorithmSignVerify_normalize_def no_signature_def)
  qed (use normalize_raises(1,3) [of "alg_name alg"] in \<open>simp_all add: CryptoAlgorithmSignVerify_normalize_def\<close>)
  then show "?m = NoException \<longleftrightarrow> (\<exists>i. normalizeIdentifier (alg_name alg) = Done i \<and> no_signature i)"
    "?m = Done (SignECDSA h) \<longleftrightarrow> normalizeIdentifier (alg_name alg) = Done ECDSA \<and> toHashIdentifier (prm_hash p) = Done h"
    "?m \<noteq> Undefined" by blast+
qed

text \<open>
  C30. When \<open>sign\<close> fails without an exception, so that the script is terminated instead of the
  promise rejected: exactly if the name is known but of no signature algorithm, as AES-CBC, or the
  algorithm is ECDSA and the key one that may sign with it.  So no ECDSA key ever signs.
\<close>

theorem sign_fails_silently_iff:
  assumes argc: "3 \<le> argc" and p: "alg_parameters alg = Some p"
    and data: "data = DataBuffer b off len" "read_memory s (BufferView b off len) = Done bytes"
  shows "subtle_sign L s True argc alg (KeyArg k) data = Uncatchable \<longleftrightarrow>
     (\<exists>i. normalizeIdentifier (alg_name alg) = Done i \<and> no_signature i)
     \<or> normalizeIdentifier (alg_name alg) = Done ECDSA \<and> (\<exists>h. toHashIdentifier (prm_hash p) = Done h)
        \<and> is_algorithm s k ECDSA \<and> can sign_flag (key_usages (crypto_keys s ! k))"
proof -
  have "subtle_sign L s True argc alg (KeyArg k) data = Uncatchable \<longleftrightarrow>
      CryptoAlgorithmSignVerify_normalize alg = NoException
      \<or> (\<exists>a. CryptoAlgorithmSignVerify_normalize alg = Done a \<and> check_key s k a sign_flag ''signing'' = Done ()
            \<and> algorithm_sign L s a k bytes = NoException)"
    using argc data by (auto simp: subtle_sign_def enough_args_def receiver_ok_def the_key_def value_to_span_def
        cbind_eq_NoException check_key_def)
  also have "\<dots> \<longleftrightarrow> CryptoAlgorithmSignVerify_normalize alg = NoException
      \<or> (\<exists>h. CryptoAlgorithmSignVerify_normalize alg = Done (SignECDSA h) \<and> is_algorithm s k ECDSA
            \<and> can sign_flag (key_usages (crypto_keys s ! k)))"
  proof -
    have e: "algorithm_sign L s a k bytes = NoException \<longleftrightarrow> (\<exists>h. a = SignECDSA h)" for a
      using HMAC_signature_raises RSASSA_sign_raises by (cases a) (simp_all add: algorithm_sign_def HMAC_sign_def)
    have c: "check_key s k (SignECDSA h) sign_flag ''signing'' = Done ()
        \<longleftrightarrow> is_algorithm s k ECDSA \<and> can sign_flag (key_usages (crypto_keys s ! k))" for h
      by (simp add: check_key_def sign_verify_identifier_def)
    show ?thesis unfolding e using c by (auto simp del: split_paired_Ex)
  qed
  also have "\<dots> \<longleftrightarrow> (\<exists>i. normalizeIdentifier (alg_name alg) = Done i \<and> no_signature i)
     \<or> normalizeIdentifier (alg_name alg) = Done ECDSA \<and> (\<exists>h. toHashIdentifier (prm_hash p) = Done h)
        \<and> is_algorithm s k ECDSA \<and> can sign_flag (key_usages (crypto_keys s ! k))"
    by (simp add: sign_normalize_cases(1) [OF p] sign_normalize_cases(2) [OF p])
  finally show ?thesis .
qed

subsection \<open>Keys and their material\<close>

text \<open>The algorithm object of a key says which slot of the key is set, and names a digest.\<close>

definition names_digest :: "algorithm_object \<Rightarrow> bool" where
  "names_digest ao \<longleftrightarrow> (\<exists>h. is_digest h \<and> ao_hash ao = HashObject (Some (algorithmName h)))"

definition fits :: "algorithm_object \<Rightarrow> 'k crypto_key \<Rightarrow> bool" where
  "fits ao k \<longleftrightarrow>
     ao_name ao = Some (algorithmName HMAC) \<and> names_digest ao \<and> key_kind k = Secret \<and> key_data k \<noteq> None
   \<or> ao_name ao = Some (algorithmName RSASSA_PKCS1_v1_5) \<and> names_digest ao \<and> key_kind k \<noteq> Secret \<and> key_pkey k \<noteq> None \<and> key_data k = None
   \<or> ao_name ao = Some (algorithmName ECDSA) \<and> key_kind k \<noteq> Secret \<and> key_pkey k \<noteq> None"

definition keys_ok :: "'k crypto_state \<Rightarrow> bool" where
  "keys_ok s \<longleftrightarrow> (\<forall>k\<in>set (crypto_keys s). key_algorithm k < length (algorithms s) \<and> fits (algorithms s ! key_algorithm k) k)"

lemma alloc_key_ok:
  assumes "keys_ok s" "\<And>n. key_algorithm (f n) = n" "fits ao (f (length (algorithms s)))"
  shows "keys_ok (snd (alloc_key ao f s))"
  using assms by (auto simp: keys_ok_def alloc_key_def nth_append)

lemma names_digest_name: "is_digest h \<Longrightarrow> ao_hash ao = HashObject (Some (algorithmName h)) \<Longrightarrow> names_digest ao"
  by (auto simp: names_digest_def)

lemma createHMAC_ok:
  assumes "keys_ok s" "is_digest h" "createHMAC h m len ex u s = Done r"
  shows "keys_ok (snd r)"
proof -
  have "r = alloc_key (HMAC_toObject h len) (\<lambda>n. \<lparr>key_algorithm = n, key_kind = Secret, key_extractable = ex,
        key_usages = u, key_pkey = None, key_data = Some m\<rparr>) s"
    using assms(3) by (simp add: createHMAC_def)
  then show ?thesis
    using names_digest_name [OF assms(2), of "HMAC_toObject h len"]
    by (simp add: alloc_key_ok [OF assms(1)] fits_def HMAC_toObject_def algorithmName_def)
qed

lemma createECDSA_ok:
  assumes "keys_ok s" "createECDSA L c x ex u s = Done r"
  shows "keys_ok (snd r)"
proof -
  obtain kind p where "kind \<noteq> Secret" and
    "r = alloc_key (ECDSA_toObject c) (\<lambda>n. \<lparr>key_algorithm = n, key_kind = kind,
      key_extractable = ex, key_usages = u, key_pkey = Some p, key_data = None\<rparr>) s"
    using assms(2) unfolding createECDSA_def Let_def
    by (fastforce split: if_split_asm option.split_asm)
  then show ?thesis by (simp add: alloc_key_ok [OF assms(1)] fits_def ECDSA_toObject_def algorithmName_def)
qed

lemma createRSA_ok:
  assumes "keys_ok s" "is_digest h" "createRSA L h x ex u s = Done r"
  shows "keys_ok (snd r)"
proof -
  obtain kind p n e where "kind \<noteq> Secret" and
    r: "r = alloc_key ((RSASSA_toObject h)\<lparr>ao_modulus_length := n, ao_exponent := e\<rparr>) (\<lambda>n. \<lparr>key_algorithm = n, key_kind = kind,
      key_extractable = ex, key_usages = u, key_pkey = Some p, key_data = None\<rparr>) s"
    using assms(3) unfolding createRSA_def Let_def
    by (fastforce split: if_split_asm option.split_asm prod.split_asm)
  then show ?thesis
    using names_digest_name [OF assms(2), of "(RSASSA_toObject h)\<lparr>ao_modulus_length := n, ao_exponent := e\<rparr>"]
    by (simp add: alloc_key_ok [OF assms(1)] fits_def RSASSA_toObject_def algorithmName_def)
qed

lemma toHashIdentifier_digest: "toHashIdentifier n = Done h \<Longrightarrow> is_digest h"
  by (auto simp: toHashIdentifier_def CryptoAlgorithmDigest_normalize_def cbind_eq_Done split: if_splits)

definition import_digest :: "import_alg \<Rightarrow> bool" where
  "import_digest a = (case a of ImportRSASSA h \<Rightarrow> is_digest h | ImportHMAC h _ \<Rightarrow> is_digest h | ImportECDSA _ \<Rightarrow> True)"

lemma fromParameters_digest:
  "HMAC_fromParameters p = Done a \<Longrightarrow> import_digest a" "ECDSA_fromParameters p = Done a \<Longrightarrow> import_digest a"
proof -
  assume "HMAC_fromParameters p = Done a"
  then obtain h l where "toHashIdentifier (prm_hash p) = Done h" "a = ImportHMAC h l"
    by (cases "prm_length p") (auto simp: HMAC_fromParameters_def cbind_eq_Done split: if_split_asm option.split_asm)
  then show "import_digest a" using toHashIdentifier_digest by (simp add: import_digest_def)
next
  assume "ECDSA_fromParameters p = Done a"
  then show "import_digest a" by (auto simp: ECDSA_fromParameters_def import_digest_def split: option.split_asm)
qed

lemma import_normalize_digest: "CryptoAlgorithmImportKey_normalize alg = Done a \<Longrightarrow> import_digest a"
  unfolding CryptoAlgorithmImportKey_normalize_def cbind_eq_Done
  using fromParameters_digest toHashIdentifier_digest
  by (fastforce simp: cbind_eq_Done import_digest_def split: if_split_asm option.split_asm)

lemma algorithm_importKey_ok:
  assumes "keys_ok s" "import_digest a" "algorithm_importKey L a f v ex u s = Done r"
  shows "keys_ok (snd r)"
proof (cases a)
  case (ImportRSASSA h)
  then show ?thesis
    using assms
    by (auto intro: createRSA_ok simp: algorithm_importKey_def RSASSA_importKey_def RSASSA_import_data_def import_digest_def cbind_eq_Done not_permitted_def split: if_split_asm)
next
  case (ImportHMAC h l)
  then show ?thesis
    using assms
    by (auto intro: createHMAC_ok simp: algorithm_importKey_def HMAC_importKey_def HMAC_import_data_def import_digest_def cbind_eq_Done split: if_split_asm)
next
  case (ImportECDSA c)
  then show ?thesis
    using assms
    by (auto intro: createECDSA_ok simp: algorithm_importKey_def ECDSA_importKey_def ECDSA_import_data_def cbind_eq_Done not_permitted_def split: if_split_asm)
qed

text \<open>
  What scripts do with keys: imports, and any use of the memory of array buffers.  Changing an
  algorithm object is left out.
\<close>

inductive crypto_step :: "'k openssl \<Rightarrow> 'k crypto_state \<Rightarrow> 'k crypto_state \<Rightarrow> bool" for L where
  import_step: "subtle_importKey L s recv argc format data alg extractable usages = (r, t) \<Longrightarrow> crypto_step L s t"
| memory_step: "crypto_step L s (s\<lparr>buffers := bs\<rparr>)"

definition no_keys :: "string option list \<Rightarrow> 'k crypto_state" where
  "no_keys bs = \<lparr>buffers = bs, algorithms = [], crypto_keys = []\<rparr>"

lemma subtle_importKey_ok:
  assumes "keys_ok s" "subtle_importKey L s recv argc format data alg extractable usages = (r, t)"
  shows "keys_ok t"
proof -
  define m where "m = cbind (enough_args argc 5) (\<lambda>_. cbind (receiver_ok recv) (\<lambda>_.
              cbind (parse_format format) (\<lambda>f. cbind (usages_from usages) (\<lambda>u.
              cbind (CryptoAlgorithmImportKey_normalize alg) (\<lambda>a.
              algorithm_importKey L a f data extractable u s)))))"
  have "keys_ok (snd x)" if "m = Done x" for x
    using that assms(1) by (auto simp: m_def cbind_eq_Done intro: algorithm_importKey_ok import_normalize_digest)
  moreover have "t = (case m of Done x \<Rightarrow> snd x | _ \<Rightarrow> s)"
    using assms(2) by (auto simp: subtle_importKey_def m_def Let_def split: crypto.splits prod.splits)
  ultimately show ?thesis using assms(1) by (cases m) auto
qed

lemma crypto_steps_ok: "(crypto_step L)\<^sup>*\<^sup>* (no_keys bs) s \<Longrightarrow> keys_ok s"
proof (induction rule: rtranclp_induct)
  case base
  show ?case by (simp add: keys_ok_def no_keys_def)
next
  case (step s t)
  from step.hyps(2) show ?case
  proof cases
    case (import_step recv argc format data alg extractable usages r)
    with step.IH show ?thesis using subtle_importKey_ok by blast
  next
    case (memory_step bs)
    with step.IH show ?thesis by (simp add: keys_ok_def)
  qed
qed

lemma names_digest_md: "names_digest (algorithms s ! key_algorithm (crypto_keys s ! k)) \<Longrightarrow> createDigestAlgorithm s k \<noteq> None"
  by (auto simp: names_digest_def createDigestAlgorithm_def is_digest_def algorithmName_def md_names_def)

lemma key_cases:
  assumes "keys_ok s" "k < length (crypto_keys s)"
  shows "is_algorithm s k HMAC \<Longrightarrow> createDigestAlgorithm s k \<noteq> None \<and> key_data (crypto_keys s ! k) \<noteq> None"
    and "is_algorithm s k RSASSA_PKCS1_v1_5 \<Longrightarrow> createDigestAlgorithm s k \<noteq> None \<and> key_pkey (crypto_keys s ! k) \<noteq> None"
proof -
  let ?ao = "algorithms s ! key_algorithm (crypto_keys s ! k)"
  have f: "fits ?ao (crypto_keys s ! k)"
    using assms by (simp add: keys_ok_def)
  show "is_algorithm s k HMAC \<Longrightarrow> createDigestAlgorithm s k \<noteq> None \<and> key_data (crypto_keys s ! k) \<noteq> None"
    "is_algorithm s k RSASSA_PKCS1_v1_5 \<Longrightarrow> createDigestAlgorithm s k \<noteq> None \<and> key_pkey (crypto_keys s ! k) \<noteq> None"
    using f names_digest_md [of s k] by (auto simp: fits_def is_algorithm_def algorithmName_def)
qed

lemma HMAC_signature_aborts:
  "keys_ok s \<Longrightarrow> k < length (crypto_keys s) \<Longrightarrow> is_algorithm s k HMAC \<Longrightarrow>
     HMAC_signature what L s k data = Undefined \<longleftrightarrow> hmacKeyData s k = Undefined"
  using key_cases(1) [of s k] by (auto simp: HMAC_signature_def cbind_eq_Undefined split: option.splits)

lemma RSASSA_never_aborts:
  assumes "keys_ok s" "k < length (crypto_keys s)" "is_algorithm s k RSASSA_PKCS1_v1_5"
    and "\<And>m d x. evp_digest L m d = Some x \<Longrightarrow> length x \<le> digest_length L m"
  shows "RSASSA_sign L s k data \<noteq> Undefined" "RSASSA_verify L s k sg data \<noteq> Undefined"
  using key_cases(2) [OF assms(1-3)] assms(4)
  by (auto simp: RSASSA_sign_def RSASSA_verify_def raw_digest_def dom_raise_def split: option.splits crypto.splits if_splits)

lemma check_key_Done:
  "check_key s k a f w = Done () \<longleftrightarrow> is_algorithm s k (sign_verify_identifier a) \<and> can f (key_usages (crypto_keys s ! k))"
  "check_key s k a f w \<noteq> Undefined"
  by (auto simp: check_key_def)

lemma sign_normalize_done:
  "CryptoAlgorithmSignVerify_normalize alg = Done a \<Longrightarrow> normalizeIdentifier (alg_name alg) = Done (sign_verify_identifier a)"
  "normalizeIdentifier (alg_name alg) = Done HMAC \<Longrightarrow> CryptoAlgorithmSignVerify_normalize alg = Done SignHMAC"
proof -
  assume a: "CryptoAlgorithmSignVerify_normalize alg = Done a"
  then obtain i where i: "normalizeIdentifier (alg_name alg) = Done i"
    by (auto simp: CryptoAlgorithmSignVerify_normalize_def cbind_eq_Done)
  with a show "normalizeIdentifier (alg_name alg) = Done (sign_verify_identifier a)"
    by (cases i) (auto simp: CryptoAlgorithmSignVerify_normalize_def sign_verify_identifier_def cbind_eq_Done split: option.splits)
qed (simp add: CryptoAlgorithmSignVerify_normalize_def)

lemma value_to_span_done:
  "value_to_span w v = Done m \<longleftrightarrow> (\<exists>b off len. v = DataBuffer b off len \<and> m = BufferView b off len)"
  "value_to_span w v \<noteq> Undefined"
  by (cases v; auto simp: value_to_span_def)+

lemma algorithm_sign_aborts:
  assumes ok: "keys_ok s" "k < length (crypto_keys s)" "is_algorithm s k (sign_verify_identifier a)"
    and len: "\<And>m d x. evp_digest L m d = Some x \<Longrightarrow> length x \<le> digest_length L m"
  shows "algorithm_sign L s a k data = Undefined \<longleftrightarrow> a = SignHMAC \<and> hmacKeyData s k = Undefined"
    and "algorithm_verify L s a k sg data = Undefined \<longleftrightarrow> a = SignHMAC \<and> hmacKeyData s k = Undefined"
  using ok(3) RSASSA_never_aborts [OF ok(1,2) _ len] HMAC_signature_aborts [OF ok(1,2)]
  by (cases a; auto simp: algorithm_sign_def algorithm_verify_def HMAC_sign_def HMAC_verify_def sign_verify_identifier_def
      cbind_eq_Undefined)+

text \<open>A buffer argument with memory, as the view of a buffer that is not detached has.\<close>

definition readable :: "'k crypto_state \<Rightarrow> key_data_arg \<Rightarrow> bool" where
  "readable s v = (case v of DataBuffer b off len \<Rightarrow> \<exists>x. read_memory s (BufferView b off len) = Done x | _ \<Rightarrow> True)"


lemma read_memory_cong: "buffers t = buffers s \<Longrightarrow> read_memory t m = read_memory s m"
  by (cases m) (simp_all add: read_memory_def)

lemma normalize_HMAC: "normalizeIdentifier (Some ''HMAC'') = Done HMAC"
proof -
  have "map upper_char ''HMAC'' = ''HMAC''" by (simp add: upper_char_def Let_def of_char_def)
  then show ?thesis by (simp add: normalizeIdentifier_def identifiers_def)
qed

lemma sign_normalize_HMAC: "CryptoAlgorithmSignVerify_normalize (AlgString ''HMAC'') = Done SignHMAC"
  by (rule sign_normalize_done(2)) (simp add: alg_name_def normalize_HMAC)

lemma sign_HMAC:
  assumes "3 \<le> argc" "data = DataBuffer b off len" "read_memory s (BufferView b off len) = Done bytes"
    and "CryptoAlgorithmSignVerify_normalize alg = Done SignHMAC"
    and "is_algorithm s k HMAC" "can sign_flag (key_usages (crypto_keys s ! k))"
  shows "subtle_sign L s True argc alg (KeyArg k) data = settle_call (HMAC_sign L s k bytes)"
proof -
  have "check_key s k SignHMAC sign_flag ''signing'' = Done ()"
    using assms(5,6) by (simp add: check_key_Done sign_verify_identifier_def)
  with assms show ?thesis
    by (simp add: subtle_sign_def enough_args_def receiver_ok_def the_key_def value_to_span_def algorithm_sign_def)
qed

text \<open>
  Scripts can break that: a key hands out its algorithm object, which signing reads again.  An
  RSA key whose algorithm object gets the name HMAC passes the check of the key, and signing takes
  the data of an HMAC key from a slot that was never set.
\<close>

theorem renamed_key_aborts:
  assumes reach: "(crypto_step L)\<^sup>*\<^sup>* (no_keys bs) s" and k: "k < length (crypto_keys s)"
    and rsa: "is_algorithm s k RSASSA_PKCS1_v1_5" and usage: "can sign_flag (key_usages (crypto_keys s ! k))"
    and t: "t = s\<lparr>algorithms := (algorithms s)[a := (algorithms s ! a)\<lparr>ao_name := Some ''HMAC''\<rparr>]\<rparr>"
      "a = key_algorithm (crypto_keys s ! k)"
    and data: "read_memory s (BufferView b off len) = Done bytes"
  shows "subtle_sign L t True 3 (AlgString ''HMAC'') (KeyArg k) (DataBuffer b off len) = Aborted"
proof -
  let ?key = "crypto_keys s ! k"
  have a: "a < length (algorithms s)" and f: "fits (algorithms s ! a) ?key"
    using crypto_steps_ok [OF reach] k t(2) by (auto simp: keys_ok_def)
  have none: "key_data ?key = None" using f rsa t(2) by (auto simp: fits_def is_algorithm_def algorithmName_def)
  have t': "crypto_keys t = crypto_keys s" "buffers t = buffers s" "ao_hash (algorithms t ! a) = ao_hash (algorithms s ! a)"
    "ao_name (algorithms t ! a) = Some ''HMAC''" using a by (simp_all add: t(1))
  have alg: "is_algorithm t k HMAC" using t'(1,4) t(2) by (simp add: is_algorithm_def algorithmName_def)
  have "createDigestAlgorithm t k = createDigestAlgorithm s k"
    using t'(1,3) t(2) by (simp add: createDigestAlgorithm_def)
  moreover have "createDigestAlgorithm s k \<noteq> None" using key_cases(2) [OF crypto_steps_ok [OF reach] k rsa] by simp
  ultimately have "HMAC_sign L t k bytes = Undefined"
    using t'(1) none by (auto simp: HMAC_sign_def HMAC_signature_def hmacKeyData_def)
  moreover have "read_memory t (BufferView b off len) = Done bytes" using data by (simp add: read_memory_cong [OF t'(2)])
  moreover have "can sign_flag (key_usages (crypto_keys t ! k))" using usage t'(1) by simp
  ultimately show ?thesis
    by (simp add: sign_HMAC [OF _ refl _ sign_normalize_HMAC alg])
qed

text \<open>
  C31. An HMAC signature verifies: of the same data under the same key and algorithm, \<open>verify\<close>
  resolves, and says whether the given signature is the one that \<open>sign\<close> made.
\<close>

theorem hmac_verify_accepts_signature_only:
  assumes sign: "subtle_sign L s True argc alg (KeyArg k) (DataBuffer b off len) = Resolved mac"
    and alg: "normalizeIdentifier (alg_name alg) = Done HMAC" and argc: "4 \<le> argc"
    and usage: "can verify_flag (key_usages (crypto_keys s ! k))"
    and sg: "read_memory s (BufferView b' off' len') = Done signature"
  shows "subtle_verify L s True argc alg (KeyArg k) (DataBuffer b' off' len') (DataBuffer b off len) = Resolved (signature = mac)"
proof -
  have n: "CryptoAlgorithmSignVerify_normalize alg = Done SignHMAC" by (rule sign_normalize_done(2)) (rule alg)
  obtain bytes where bytes: "read_memory s (BufferView b off len) = Done bytes"
    and key: "is_algorithm s k HMAC" and mac: "HMAC_sign L s k bytes = Done mac"
    using sign n by (auto simp: subtle_sign_def cbind_eq_Done enough_args_def receiver_ok_def the_key_def value_to_span_def
        check_key_Done sign_verify_identifier_def algorithm_sign_def)
  have "HMAC_verify L s k signature bytes = Done (signature = mac)"
    using mac by (auto simp: HMAC_verify_def HMAC_sign_def HMAC_signature_def cbind_eq_Done dom_raise_def split: option.splits)
  moreover have "check_key s k SignHMAC verify_flag ''verification'' = Done ()"
    using key usage by (simp add: check_key_Done sign_verify_identifier_def)
  ultimately show ?thesis
    using argc sg bytes n by (simp add: subtle_verify_def enough_args_def receiver_ok_def the_key_def value_to_span_def algorithm_verify_def)
qed

lemma import_raw_HMAC:
  assumes imp: "subtle_importKey L s recv argc (Some ''raw'') (DataBuffer b off len) alg ex usages = (Resolved k, t)"
    and alg: "CryptoAlgorithmImportKey_normalize alg = Done (ImportHMAC h l)"
  obtains l' u where "(k, t) = alloc_key (HMAC_toObject h l') (\<lambda>n. \<lparr>key_algorithm = n, key_kind = Secret, key_extractable = ex,
      key_usages = u, key_pkey = None, key_data = Some (BufferView b off len)\<rparr>) s"
proof -
  from imp alg have "\<exists>u. HMAC_importKey L h l Raw (DataBuffer b off len) ex u s = Done (k, t)"
    by (auto simp: subtle_importKey_def Let_def cbind_eq_Done parse_format_def algorithm_importKey_def split: crypto.split_asm)
  then obtain u l' where "createHMAC h (BufferView b off len) l' ex u s = Done (k, t)"
    by (auto simp: HMAC_importKey_def HMAC_import_data_def cbind_eq_Done value_to_span_def split: if_split_asm)
  then show thesis using that unfolding createHMAC_def by (metis crypto.inject(1))
qed

text \<open>
  The data of a raw HMAC key is not copied: signing takes as the key what the script's buffer
  holds then, whatever was written to it since the import.
\<close>

theorem raw_hmac_key_follows_buffer:
  assumes imp: "subtle_importKey L s recv argc (Some ''raw'') (DataBuffer b off len) alg ex usages = (Resolved k, t)"
    and alg: "CryptoAlgorithmImportKey_normalize alg = Done (ImportHMAC h l)"
    and usage: "can sign_flag (key_usages (crypto_keys t ! k))"
    and v: "v = t\<lparr>buffers := bs\<rparr>" "read_memory v (BufferView b off len) = Done key"
    and data: "read_memory v (BufferView b' off' len') = Done msg"
  shows "subtle_sign L v True 3 (AlgString ''HMAC'') (KeyArg k) (DataBuffer b' off' len') =
    (case hmac_sign L (the (md_of h)) key msg of
       Some mac \<Rightarrow> Resolved mac | None \<Rightarrow> Rejected (DomError ''SubtleCrypto.sign: failed to sign'' ''OperationError''))"
proof -
  obtain l' u where t: "(k, t) = alloc_key (HMAC_toObject h l') (\<lambda>n. \<lparr>key_algorithm = n, key_kind = Secret, key_extractable = ex,
      key_usages = u, key_pkey = None, key_data = Some (BufferView b off len)\<rparr>) s"
    using import_raw_HMAC [OF imp alg] .
  have ao: "algorithms v ! key_algorithm (crypto_keys v ! k) = HMAC_toObject h l'"
    and kd: "key_data (crypto_keys v ! k) = Some (BufferView b off len)" and same: "crypto_keys v = crypto_keys t"
    using t v(1) by (simp_all add: alloc_key_def)
  have "is_digest h" using import_normalize_digest [OF alg] by (simp add: import_digest_def)
  then have "createDigestAlgorithm v k = md_of h \<and> md_of h \<noteq> None"
    by (auto simp: createDigestAlgorithm_def ao HMAC_toObject_def is_digest_def algorithmName_def md_names_def md_of_def)
  then have "HMAC_sign L v k msg = (case hmac_sign L (the (md_of h)) key msg of
      None \<Rightarrow> Raise (DomError ''SubtleCrypto.sign: failed to sign'' ''OperationError'') | Some mac \<Rightarrow> Done mac)"
    using v(2) by (auto simp: HMAC_sign_def HMAC_signature_def hmacKeyData_def kd)
  moreover have "is_algorithm v k HMAC" by (simp add: is_algorithm_def ao HMAC_toObject_def algorithmName_def)
  ultimately show ?thesis
    using usage same by (simp add: sign_HMAC [OF _ refl data sign_normalize_HMAC] settle_call_def split: option.split)
qed

subsection \<open>Imports that abort\<close>

lemma decode_member_defined: "decode_member n x \<noteq> Undefined"
  by (simp add: decode_member_def split: option.split)

lemma check_key_ops_defined: "check_key_ops jwk ex u \<noteq> Undefined"
  by (simp add: check_key_ops_def ops_error_def data_error_def)

lemma create_defined: "createHMAC h m len ex u s \<noteq> Undefined" "createECDSA L c x ex u s \<noteq> Undefined"
  by (auto simp: createHMAC_def createECDSA_def Let_def split: option.splits)

lemma HMAC_length_defined: "HMAC_length r n \<noteq> Undefined"
  by (auto simp: HMAC_length_def HMAC_length_error_def Let_def split: option.split)

lemma opt_value_Undefined: "opt_value v = Undefined \<longleftrightarrow> v = None"
  by (simp add: opt_value_def split: option.split)

lemma createECKeyFromJWK_defined: "createECKeyFromJWK p jwk \<noteq> Undefined"
  using decode_member_defined
  by (auto simp: createECKeyFromJWK_def data_error_def cbind_eq_Undefined split: option.split)

text \<open>
  Importing a JSON Web Key whose members were read aborts, instead of rejecting it, if a member
  that the type of key requires is missing: \<open>k\<close> of an HMAC key with usages to sign or verify, and
  \<open>crv\<close> of an elliptic curve key whose usages pass the checks.  Otherwise it does not abort.
\<close>

theorem import_aborts_without_member:
  assumes hmac: "parse_key_data v ''oct'' = Done jwk" and ec: "parse_key_data v' ''EC'' = Done jwk'"
  shows "(algorithm_importKey L (ImportHMAC h l) Jwk v ex u s = Undefined \<longleftrightarrow> canOnlySignOrVerify u \<and> jwk_k jwk = None)
    \<and> (algorithm_importKey L (ImportECDSA c) Jwk v' ex u s = Undefined \<longleftrightarrow>
         jwk_crv jwk' = None \<and> check_key_ops jwk' ex u = Done ()
         \<and> (isEmpty u \<or> (if jwk_d jwk' = None then canOnlyVerify u else canOnlySign u) \<and> jwk_use jwk' \<in> {None, Some ''sig''}))"
proof
  have "HMAC_import_jwk h jwk ex u = Undefined \<longleftrightarrow> jwk_k jwk = None"
    using decode_member_defined check_key_ops_defined
    by (auto simp: HMAC_import_jwk_def cbind_eq_Undefined opt_value_def not_permitted_def split: option.split)
  then show "algorithm_importKey L (ImportHMAC h l) Jwk v ex u s = Undefined \<longleftrightarrow> canOnlySignOrVerify u \<and> jwk_k jwk = None"
    using hmac HMAC_length_defined
    by (auto simp: create_defined algorithm_importKey_def HMAC_importKey_def HMAC_import_data_def cbind_eq_Undefined)
  have "(case jwk_d jwk' of None \<Rightarrow> createECKeyFromJWK False jwk' | Some d_text \<Rightarrow> cbind (decode_member ''d'' d_text) (\<lambda>d.
      if length d \<noteq> required_d_length c then Raise (DomError (''The JWK's \"d\" member defines an octet string of length ''
         @ decimal (length d) @ '' bytes but should be '' @ decimal (required_d_length c)) ''SyntaxError'')
      else createECKeyFromJWK True jwk')) \<noteq> Undefined"
    using createECKeyFromJWK_defined decode_member_defined by (auto simp: cbind_eq_Undefined split: option.split)
  then show "algorithm_importKey L (ImportECDSA c) Jwk v' ex u s = Undefined \<longleftrightarrow>
         jwk_crv jwk' = None \<and> check_key_ops jwk' ex u = Done ()
         \<and> (isEmpty u \<or> (if jwk_d jwk' = None then canOnlyVerify u else canOnlySign u) \<and> jwk_use jwk' \<in> {None, Some ''sig''})"
    using ec check_key_ops_defined
    by (auto simp: create_defined(2) algorithm_importKey_def ECDSA_importKey_def ECDSA_import_data_def cbind_eq_Undefined opt_value_Undefined not_permitted_def)
qed

subsection \<open>Random UUIDs\<close>

definition hex_chars :: "string" where
  "hex_chars = ''0123456789abcdef''"

lemma hex_digit_chars: "n < 16 \<Longrightarrow> hex_digit n \<in> set hex_chars"
proof -
  have "list_all (\<lambda>n. hex_digit n \<in> set hex_chars) [0..<16]"
    by (simp add: hex_digit_def hex_chars_def upt_rec char_of_def bit_0 bit_Suc)
  then show "n < 16 \<Longrightarrow> hex_digit n \<in> set hex_chars" by (simp add: list_all_iff)
qed

lemma hex_form: "length (hex w n) = w" "set (hex w n) \<subseteq> set hex_chars"
  by (auto simp: hex_def intro!: hex_digit_chars)

lemma hex_first: "0 < w \<Longrightarrow> hex w n = hex_digit (n div 16 ^ (w - 1) mod 16) # tl (hex w n)"
  by (simp add: hex_def upt_rec [of 0])

lemma variant_chars: "n \<in> {8, 9, 10, 11} \<Longrightarrow> hex_digit n \<in> set ''89ab''"
proof -
  have "list_all (\<lambda>n. hex_digit n \<in> set ''89ab'') [8, 9, 10, 11]"
    by (simp add: hex_digit_def char_of_def bit_0 bit_Suc)
  then have "\<forall>n\<in>set [8, 9, 10, 11]. hex_digit n \<in> set ''89ab''" unfolding list_all_iff .
  moreover assume "n \<in> {8, 9, 10, 11}"
  ultimately show "hex_digit n \<in> set ''89ab''" unfolding list.set by blast
qed

lemma version_digit: "unat ((x AND 0x0fff OR 0x4000) :: 16 word) div 4096 mod 16 = 4"
proof -
  have "drop_bit 12 ((x AND 0x0fff OR 0x4000) :: 16 word) = 4"
    unfolding drop_bit_or drop_bit_and
    by (simp add: drop_bit_eq_div [of 12 "0xfff"] drop_bit_eq_div [of 12 "0x4000"])
  then have "unat (drop_bit 12 ((x AND 0x0fff OR 0x4000) :: 16 word)) = 4" by simp
  then have "unat ((x AND 0x0fff OR 0x4000) :: 16 word) div 2 ^ 12 = 4"
    unfolding drop_bit_eq_div unat_div_distrib by simp
  then show ?thesis by simp
qed

lemma variant_digit: "unat ((x AND 0x3f OR 0x80) :: byte) div 16 mod 16 \<in> {8, 9, 10, 11}"
proof -
  let ?y = "drop_bit 4 x AND 3"
  have "drop_bit 4 ((x AND 0x3f OR 0x80) :: byte) = ?y OR 8"
    unfolding drop_bit_or drop_bit_and
    by (simp add: drop_bit_eq_div [of 4 "0x3f"] drop_bit_eq_div [of 4 "0x80"])
  then have d: "unat ((x AND 0x3f OR 0x80) :: byte) div 16 = unat (?y OR 8)"
    using unat_drop_bit_eq [of 4 "(x AND 0x3f OR 0x80) :: byte"] by (simp add: drop_bit_eq_div)
  have "?y = take_bit 2 (drop_bit 4 x)" by (simp add: take_bit_eq_mask mask_eq_decr_exp and.commute)
  then have "unat ?y < 4" using take_bit_nat_less_exp [of 2 "unat (drop_bit 4 x)"] by (simp add: unsigned_take_bit_eq)
  then have "?y \<in> {0, 1, 2, 3}" by (auto simp: word_unat_eq_iff)
  then show ?thesis unfolding d by auto
qed

text \<open>
  A random UUID has the form of version 4, whatever the random bytes are: groups of 8, 4, 4, 4
  and 12 lower case hexadecimal digits, the third starting with 4, the fourth with 8, 9, a or b.
\<close>

theorem random_uuid_is_version_4:
  assumes "length bytes = 16"
  shows "\<exists>a b c v d e. random_uuid bytes = a @ ''-'' @ b @ ''-4'' @ c @ ''-'' @ v # d @ ''-'' @ e
     \<and> map length [a, b, c, d, e] = [8, 4, 3, 3, 12] \<and> v \<in> set ''89ab'' \<and> set (a @ b @ c @ d @ e) \<subseteq> set hex_chars"
proof -
  define u where "u = uuid_of_bytes bytes"
  define high where "high = unat ((time_high_and_version u AND 0x0fff) OR 0x4000)"
  define clock where "clock = unat ((clock_seq_and_reserved u AND 0x3f) OR 0x80)"
  let ?a = "hex 8 (unat (time_low u))" and ?b = "hex 4 (unat (time_mid u))" and ?c = "tl (hex 4 high)"
    and ?d = "tl (hex 2 clock) @ hex 2 (unat (clock_seq_low u))" and ?e = "concat (map (\<lambda>b. hex 2 (unat b)) (node u))"
  have "hex_digit 4 = CHR ''4''" by (simp add: hex_digit_def char_of_def bit_0 bit_Suc)
  then have high: "hex 4 high = CHR ''4'' # ?c"
    using hex_first [of 4 high] version_digit [of "time_high_and_version u"] by (simp add: high_def)
  obtain v where clock: "hex 2 clock = v # tl (hex 2 clock)" and v: "v \<in> set ''89ab''"
  proof
    show "hex 2 clock = hex_digit (clock div 16 mod 16) # tl (hex 2 clock)" using hex_first [of 2 clock] by simp
    show "hex_digit (clock div 16 mod 16) \<in> set ''89ab''"
      using variant_digit [of "clock_seq_and_reserved u"] unfolding clock_def by (rule variant_chars)
  qed
  have len: "length (tl (hex w n)) = w - 1" for w n by (simp add: hex_form)
  have "length (concat (map (\<lambda>b. hex 2 (unat b)) ns)) = 2 * length ns" for ns :: "byte list"
    by (induction ns) (simp_all add: hex_form)
  then have e: "length ?e = 12" using assms by (simp add: u_def uuid_of_bytes_def)
  have chars: "set (tl (hex w n)) \<subseteq> set hex_chars" for w n
    using hex_form(2) [of w n] by (cases "hex w n") auto
  have "set ?e \<subseteq> set hex_chars" using hex_form(2) by fastforce
  then have s: "set (?a @ ?b @ ?c @ ?d @ ?e) \<subseteq> set hex_chars" using hex_form(2) chars by auto
  have "random_uuid bytes = ?a @ ''-'' @ ?b @ ''-4'' @ ?c @ ''-'' @ v # ?d @ ''-'' @ ?e"
    unfolding random_uuid_def Let_def u_def [symmetric] high_def [symmetric] clock_def [symmetric]
    by (subst high, subst clock) simp
  moreover have "map length [?a, ?b, ?c, ?d, ?e] = [8, 4, 3, 3, 12]"
    unfolding list.map e by (simp add: hex_form(1))
  ultimately show ?thesis using v s by (intro exI conjI)
qed

theorem random_uuid_is_version_4_witness:
  "\<exists>a b c v d e. random_uuid (replicate 16 255) = a @ ''-'' @ b @ ''-4'' @ c @ ''-'' @ v # d @ ''-'' @ e
     \<and> map length [a, b, c, d, e] = [8, 4, 3, 3, 12] \<and> v \<in> set ''89ab'' \<and> set (a @ b @ c @ d @ e) \<subseteq> set hex_chars"
  by (rule random_uuid_is_version_4) simp

subsection \<open>Concrete keys\<close>

text \<open>A stand-in for OpenSSL: a digest is the first four bytes, an HMAC is the key before the data.\<close>

definition demo_openssl :: "nat openssl" where
  "demo_openssl = \<lparr>evp_digest = \<lambda>_ d. Some (take 4 d), digest_length = \<lambda>_. 4, hmac_sign = \<lambda>_ k d. Some (k @ d),
     pkey_sign = \<lambda>_ _ d. Some d, pkey_verify = \<lambda>_ _ s d. Some (s = d), rsa_public = \<lambda>_ _. Some 1,
     rsa_private = \<lambda>_ _ _ _ _ _ _ _. Some 2, bn_num_bytes = length, ec_pkey = \<lambda>_ _ _ _. Some 3, group_degree = \<lambda>_. 256\<rparr>"

definition demo_alg :: "string \<Rightarrow> alg_arg" where
  "demo_alg n = AlgObject \<lparr>prm_name = Some n, prm_hash = Some ''SHA-256'', prm_length = NoLength, prm_curve = Some ''P-256''\<rparr>"

definition demo_buffers :: "string option list" where
  "demo_buffers = [Some ''secret'', Some ''message'', Some ''secretmessage'']"

definition hmac_state :: "nat crypto_state" where
  "hmac_state = \<lparr>buffers = demo_buffers, algorithms = [HMAC_toObject SHA_256 48],
     crypto_keys = [\<lparr>key_algorithm = 0, key_kind = Secret, key_extractable = True, key_usages = 12, key_pkey = None,
       key_data = Some (BufferView 0 0 6)\<rparr>]\<rparr>"

lemma demo_names:
  "normalizeIdentifier (Some ''SHA-256'') = Done SHA_256" "normalizeIdentifier (Some ''AES-CBC'') = Done AES_CBC"
  "normalizeIdentifier (Some ''RSASSA-PKCS1-v1_5'') = Done RSASSA_PKCS1_v1_5"
proof -
  have "map upper_char ''SHA-256'' = ''SHA-256''" "map upper_char ''AES-CBC'' = ''AES-CBC''"
    "map upper_char ''RSASSA-PKCS1-v1_5'' = ''RSASSA-PKCS1-V1_5''"
    by (simp_all add: upper_char_def Let_def of_char_def char_of_def bit_0 bit_Suc)
  then show "normalizeIdentifier (Some ''SHA-256'') = Done SHA_256" "normalizeIdentifier (Some ''AES-CBC'') = Done AES_CBC"
    "normalizeIdentifier (Some ''RSASSA-PKCS1-v1_5'') = Done RSASSA_PKCS1_v1_5"
    by (simp_all add: normalizeIdentifier_def identifiers_def)
qed

lemma demo_hash: "toHashIdentifier (Some ''SHA-256'') = Done SHA_256"
  by (simp add: toHashIdentifier_def CryptoAlgorithmDigest_normalize_def demo_names is_digest_def)

lemma demo_import_alg:
  "CryptoAlgorithmImportKey_normalize (demo_alg ''HMAC'') = Done (ImportHMAC SHA_256 None)"
  "CryptoAlgorithmImportKey_normalize (demo_alg ''RSASSA-PKCS1-v1_5'') = Done (ImportRSASSA SHA_256)"
  by (simp_all add: CryptoAlgorithmImportKey_normalize_def demo_alg_def alg_name_def alg_parameters_def normalize_HMAC
      demo_names demo_hash HMAC_fromParameters_def)

definition demo_usages :: "string option array_arg" where
  "demo_usages = ArrayOf [Some ''sign'', Some ''verify'']"

lemma demo_import_HMAC:
  "subtle_importKey demo_openssl (no_keys demo_buffers) True 5 (Some ''raw'') (DataBuffer 0 0 6) (demo_alg ''HMAC'') True demo_usages
     = (Resolved 0, hmac_state)"
proof -
  have u: "usages_from demo_usages = Done 12"
    by (simp add: demo_usages_def usages_from_def usage_flags_def flags_are_masks)
  have c: "canOnlySignOrVerify 12" by (simp add: canOnlySignOrVerify_def flags_are_masks)
  have "HMAC_importKey demo_openssl SHA_256 None Raw (DataBuffer 0 0 6) True 12 (no_keys demo_buffers) = Done (0, hmac_state)"
    by (simp add: HMAC_importKey_def HMAC_import_data_def value_to_span_def c HMAC_length_def span_size_def createHMAC_def alloc_key_def no_keys_def
        hmac_state_def)
  then show ?thesis
    by (simp add: subtle_importKey_def enough_args_def receiver_ok_def parse_format_def u demo_import_alg algorithm_importKey_def)
qed

lemma demo_reach: "(crypto_step demo_openssl)\<^sup>*\<^sup>* (no_keys demo_buffers) (hmac_state\<lparr>buffers := bs\<rparr>)"
  using crypto_step.import_step [OF demo_import_HMAC] crypto_step.memory_step [of demo_openssl hmac_state bs]
  by (meson rtranclp.rtrancl_into_rtrancl rtranclp.rtrancl_refl)

lemma demo_can: "can sign_flag (key_usages (crypto_keys hmac_state ! 0))" "can verify_flag (key_usages (crypto_keys hmac_state ! 0))"
  by (simp_all add: hmac_state_def can_def flags_are_masks)

lemma demo_alg_name: "alg_name (demo_alg n) = Some n" "alg_parameters (demo_alg n) \<noteq> None"
  by (simp_all add: alg_name_def alg_parameters_def demo_alg_def)

text \<open>The buffer with the key was transferred.\<close>

definition transferred_state :: "nat crypto_state" where
  "transferred_state = hmac_state\<lparr>buffers := [None, Some ''message'', Some ''secretmessage'']\<rparr>"


theorem sign_fails_silently_iff_witness:
  "subtle_sign demo_openssl hmac_state True 3 (AlgString ''AES-CBC'') (KeyArg 0) (DataBuffer 1 0 7) = Uncatchable"
proof -
  have "no_signature AES_CBC" by (simp add: no_signature_def)
  moreover have "read_memory hmac_state (BufferView 1 0 7) = Done ''message''"
    by (simp add: read_memory_def hmac_state_def demo_buffers_def)
  ultimately show ?thesis
    by (subst sign_fails_silently_iff [OF _ _ refl]) (auto simp: alg_parameters_def alg_name_def demo_names)
qed

lemma demo_sign:
  "subtle_sign demo_openssl hmac_state True 4 (demo_alg ''HMAC'') (KeyArg 0) (DataBuffer 1 0 7) = Resolved ''secretmessage''"
proof -
  have "is_algorithm hmac_state 0 HMAC"
    by (simp add: is_algorithm_def hmac_state_def HMAC_toObject_def algorithmName_def)
  moreover have "CryptoAlgorithmSignVerify_normalize (demo_alg ''HMAC'') = Done SignHMAC"
    by (rule sign_normalize_done(2)) (simp add: demo_alg_name normalize_HMAC)
  moreover have "read_memory hmac_state (BufferView 1 0 7) = Done ''message''"
    by (simp add: read_memory_def hmac_state_def demo_buffers_def)
  moreover have "HMAC_sign demo_openssl hmac_state 0 ''message'' = Done ''secretmessage''"
    by (simp add: HMAC_sign_def HMAC_signature_def hmacKeyData_def hmac_state_def demo_buffers_def read_memory_def
        createDigestAlgorithm_def HMAC_toObject_def algorithmName_def md_names_def demo_openssl_def)
  ultimately show ?thesis
    using demo_can by (simp add: sign_HMAC [OF _ refl, where bytes = "''message''"])
qed

theorem hmac_verify_accepts_signature_only_witness:
  "subtle_verify demo_openssl hmac_state True 4 (demo_alg ''HMAC'') (KeyArg 0) (DataBuffer 2 0 13) (DataBuffer 1 0 7) = Resolved True"
proof -
  have "read_memory hmac_state (BufferView 2 0 13) = Done ''secretmessage''"
    by (simp add: read_memory_def hmac_state_def demo_buffers_def)
  from hmac_verify_accepts_signature_only [OF demo_sign _ _ demo_can(2) this] show ?thesis
    by (simp add: demo_alg_name normalize_HMAC)
qed

theorem raw_hmac_key_follows_buffer_witness:
  "subtle_sign demo_openssl (hmac_state\<lparr>buffers := [Some ''public'', Some ''message'']\<rparr>) True 3 (AlgString ''HMAC'') (KeyArg 0)
     (DataBuffer 1 0 7) = Resolved ''publicmessage''"
proof -
  have "read_memory (hmac_state\<lparr>buffers := [Some ''public'', Some ''message'']\<rparr>) (BufferView 0 0 6) = Done ''public''"
    "read_memory (hmac_state\<lparr>buffers := [Some ''public'', Some ''message'']\<rparr>) (BufferView 1 0 7) = Done ''message''"
    by (simp_all add: read_memory_def)
  from raw_hmac_key_follows_buffer [OF demo_import_HMAC demo_import_alg(1) demo_can(1) refl this]
  show ?thesis by (simp add: demo_openssl_def)
qed

definition bare_jwk :: "string \<Rightarrow> jwk_arg" where
  "bare_jwk ty = \<lparr>a_kty = Has ty, a_use = Absent, a_alg = Absent, a_crv = Absent, a_x = Absent, a_y = Absent, a_d = Absent,
     a_n = Absent, a_e = Absent, a_p = Absent, a_q = Absent, a_dp = Absent, a_dq = Absent, a_qi = Absent, a_k = Absent,
     a_ext = Absent, a_key_ops = Absent, a_oth = Absent\<rparr>"

definition bare_key :: "string \<Rightarrow> json_web_key" where
  "bare_key ty = \<lparr>jwk_kty = ty, jwk_use = None, jwk_key_ops = [], jwk_alg = None, jwk_ext = None, jwk_crv = None, jwk_x = None,
     jwk_y = None, jwk_n = None, jwk_e = None, jwk_d = None, jwk_p = None, jwk_q = None, jwk_dp = None, jwk_dq = None,
     jwk_qi = None, jwk_oth = [], jwk_k = None\<rparr>"

lemmas parse_simps = parse_key_data_def data_jwk_def JsonWebKey_parse_def extractStringPropertyFromObject_def parse_key_ops_def
  parse_oth_def

lemma bare_parse: "parse_key_data (DataJwk (bare_jwk ty)) ty = Done (bare_key ty)"
  by (simp add: parse_simps bare_jwk_def bare_key_def)

theorem import_aborts_without_member_witness:
  "algorithm_importKey demo_openssl (ImportHMAC SHA_256 None) Jwk (DataJwk (bare_jwk ''oct'')) True 4 (no_keys []) = Undefined
    \<and> algorithm_importKey demo_openssl (ImportECDSA P256) Jwk (DataJwk (bare_jwk ''EC'')) True 0 (no_keys []) = Undefined"
proof -
  note aborts = import_aborts_without_member [OF bare_parse bare_parse, where L = demo_openssl and s = "no_keys []"]
  have "canOnlySignOrVerify 4" "isEmpty 0" by (simp_all add: canOnlySignOrVerify_def isEmpty_def flags_are_masks)
  then show ?thesis using aborts [of SHA_256 None True 4 P256] aborts [of SHA_256 None True 0 P256]
    by (simp add: bare_key_def check_key_ops_def)
qed

lemma demo_decode: "base64url ''AQAB'' = Some [CHR 0x01, CHR 0x00, CHR 0x01]"
  by code_simp

lemma demo_exponent: "exponent_bytes ''AQAB'' = Some ''AQAB''"
  by code_simp

definition rsa_jwk :: jwk_arg where
  "rsa_jwk = (bare_jwk ''RSA'')\<lparr>a_n := Has ''AQAB'', a_e := Has ''AQAB'', a_d := Has ''AQAB'', a_p := Has ''AQAB'', a_q := Has ''AQAB'',
     a_dp := Has ''AQAB'', a_dq := Has ''AQAB'', a_qi := Has ''AQAB''\<rparr>"

definition rsa_state :: "nat crypto_state" where
  "rsa_state = \<lparr>buffers = demo_buffers,
     algorithms = [(RSASSA_toObject SHA_256)\<lparr>ao_modulus_length := Some 24, ao_exponent := Some [CHR 0x01, CHR 0x00, CHR 0x01]\<rparr>],
     crypto_keys = [\<lparr>key_algorithm = 0, key_kind = Private, key_extractable = True, key_usages = 4, key_pkey = Some 2, key_data = None\<rparr>]\<rparr>"

lemma demo_import_RSA:
  "subtle_importKey demo_openssl (no_keys demo_buffers) True 5 (Some ''jwk'') (DataJwk rsa_jwk) (demo_alg ''RSASSA-PKCS1-v1_5'') True
     (ArrayOf [Some ''sign'']) = (Resolved 0, rsa_state)"
proof -
  let ?b = "[CHR 0x01, CHR 0x00, CHR 0x01]"
  define jwk where "jwk = (bare_key ''RSA'')\<lparr>jwk_n := Some ''AQAB'', jwk_e := Some ''AQAB'', jwk_d := Some ''AQAB'',
      jwk_p := Some ''AQAB'', jwk_q := Some ''AQAB'', jwk_dp := Some ''AQAB'', jwk_dq := Some ''AQAB'', jwk_qi := Some ''AQAB''\<rparr>"
  have parse: "parse_key_data (DataJwk rsa_jwk) ''RSA'' = Done jwk"
    by (simp add: parse_simps rsa_jwk_def bare_jwk_def bare_key_def jwk_def)
  have member: "decode_member name ''AQAB'' = Done ?b" for name
    by (simp add: decode_member_def demo_decode)
  have strip: "strip_zero ?b = ?b" by (simp add: strip_zero_def char_of_def bit_0 bit_Suc)
  have made: "createRSAPrivateKeyFromJWK jwk = Done \<lparr>rsa_modulus = ?b, rsa_exponent = ?b, rsa_private_exponent = Some ?b,
      rsa_primes = Some (?b, ?b, ?b, ?b, ?b), rsa_other_primes = []\<rparr>"
    by (simp add: createRSAPrivateKeyFromJWK_def jwk_def bare_key_def opt_value_def member demo_exponent strip)
  have u: "usages_from (ArrayOf [Some ''sign'']) = Done 4"
    by (simp add: usages_from_def usage_flags_def flags_are_masks)
  have c: "canOnlySign 4" by (simp add: canOnlySign_def flags_are_masks)
  have members: "jwk_d jwk = Some ''AQAB''" "jwk_use jwk = None" "jwk_alg jwk = None" "jwk_key_ops jwk = []" "jwk_ext jwk = None"
    by (simp_all add: jwk_def bare_key_def)
  have "RSASSA_importKey demo_openssl SHA_256 Jwk (DataJwk rsa_jwk) True 4 (no_keys demo_buffers) = Done (0, rsa_state)"
    using members
    by (simp add: RSASSA_importKey_def RSASSA_import_data_def parse c check_key_ops_def rsa_alg_def made createRSA_def Let_def
        demo_openssl_def alloc_key_def no_keys_def rsa_state_def)
  then show ?thesis
    by (simp add: subtle_importKey_def enough_args_def receiver_ok_def parse_format_def u demo_import_alg algorithm_importKey_def)
qed

theorem renamed_key_aborts_witness:
  "subtle_sign demo_openssl (rsa_state\<lparr>algorithms := (algorithms rsa_state)[0 := (algorithms rsa_state ! 0)\<lparr>ao_name := Some ''HMAC''\<rparr>]\<rparr>)
     True 3 (AlgString ''HMAC'') (KeyArg 0) (DataBuffer 1 0 7) = Aborted"
proof -
  have "(crypto_step demo_openssl)\<^sup>*\<^sup>* (no_keys demo_buffers) rsa_state"
    using crypto_step.import_step [OF demo_import_RSA] by blast
  moreover have "0 < length (crypto_keys rsa_state)" "is_algorithm rsa_state 0 RSASSA_PKCS1_v1_5"
    "can sign_flag (key_usages (crypto_keys rsa_state ! 0))" "0 = key_algorithm (crypto_keys rsa_state ! 0)"
    "read_memory rsa_state (BufferView 1 0 7) = Done ''message''"
    by (simp_all add: rsa_state_def is_algorithm_def RSASSA_toObject_def algorithmName_def can_def flags_are_masks
        read_memory_def demo_buffers_def)
  ultimately show ?thesis
    by (rule renamed_key_aborts [OF _ _ _ _ refl])
qed

end
