(* ===== verification/Script_Loader.thy ===== *)
theory Script_Loader
  imports Prelude
begin

section \<open>The script loader\<close>

text \<open>
  \<open>runtime/script_loader.cpp\<close>: paths, reading of scripts, the registry of modules and the hook
  that the engine calls for each import.

  \<^item> The engine compiles a module to its requests, the specifiers in the order of its imports.
    \<open>ModuleLink\<close> asks the hook for each of them in turn and then sets up the bindings.
  \<^item> The hook compiles and links the module that it is asked for, so linking is recursive.  The
    first argument of the three functions is the depth of the stack that is left; \<open>None\<close> is
    an overflow.
  \<^item> A failure without an exception is \<open>LoadFailed\<close>; messages on the error stream are kept.
\<close>

datatype load_error = LoadFailed | LoadException

text \<open>What \<open>fopen\<close>, \<open>fseek\<close>, \<open>ftell\<close> and \<open>fread\<close> do with a file.\<close>

datatype file_state = NoFile | NoSeek | ShortRead | Contents string

record 'v script_engine =
  file_system :: "string \<Rightarrow> file_state"
  compile_module :: "string \<Rightarrow> string \<Rightarrow> string list option"
  bind_imports :: "string \<Rightarrow> nat list \<Rightarrow> bool"
  compile_script :: "string \<Rightarrow> string \<Rightarrow> bool"
  evaluate_module :: "nat \<Rightarrow> 'v option"
  execute_script :: "string \<Rightarrow> 'v option"

text \<open>The private value of a module has its path.\<close>

record module =
  module_path :: string
  requests :: "string list"
  linked_to :: "nat list option"

record loader =
  moduleRegistry :: "string \<rightharpoonup> nat"
  modules :: "module list"
  BASE_PATH :: string
  messages :: "string list"

subsection \<open>Paths and files\<close>

definition resolve_path :: "string \<Rightarrow> string \<Rightarrow> string" where
  "resolve_path path base =
     (if path \<noteq> [] \<and> path ! 0 = CHR ''/'' then path
      else base @ (if 2 \<le> length path \<and> path ! 0 = CHR ''.'' \<and> path ! 1 = CHR ''/'' then drop 2 path else path))"

definition say :: "string \<Rightarrow> loader \<Rightarrow> loader" where
  "say m s = s\<lparr>messages := messages s @ [m]\<rparr>"

definition load_script :: "'v script_engine \<Rightarrow> string \<Rightarrow> string \<Rightarrow> loader \<Rightarrow> (load_error + string) \<times> loader" where
  "load_script E script_path resolved s =
     (case file_system E resolved of
        NoFile \<Rightarrow> (Inl LoadFailed, say (''Error opening file '' @ script_path @ '' (resolved to '' @ resolved @ '')'') s)
      | NoSeek \<Rightarrow> (Inl LoadFailed, say (''Error seeking file '' @ script_path) s)
      | ShortRead \<Rightarrow> (Inl LoadFailed, say (''Error reading file '' @ script_path) s)
      | Contents text \<Rightarrow> (Inr text, s))"

definition ScriptLoader_load_script :: "'v script_engine \<Rightarrow> string \<Rightarrow> loader \<Rightarrow> (load_error + string) \<times> loader" where
  "ScriptLoader_load_script E script_path s = load_script E script_path (resolve_path script_path (BASE_PATH s)) s"

subsection \<open>Modules\<close>

definition new_module :: "string \<Rightarrow> string list \<Rightarrow> loader \<Rightarrow> loader" where
  "new_module path rs s = s\<lparr>modules := modules s @ [\<lparr>module_path = path, requests = rs, linked_to = None\<rparr>]\<rparr>"

definition register_module :: "string \<Rightarrow> nat \<Rightarrow> nat list \<Rightarrow> loader \<Rightarrow> loader" where
  "register_module path m ms s =
     s\<lparr>modules := (modules s)[m := (modules s ! m)\<lparr>linked_to := Some ms\<rparr>], moduleRegistry := (moduleRegistry s)(path \<mapsto> m)\<rparr>"

fun get_module :: "nat \<Rightarrow> 'v script_engine \<Rightarrow> string \<Rightarrow> string \<Rightarrow> loader \<Rightarrow> ((load_error + nat) \<times> loader) option"
  and module_resolve_hook :: "nat \<Rightarrow> 'v script_engine \<Rightarrow> string \<Rightarrow> loader \<Rightarrow> ((load_error + nat) \<times> loader) option"
  and link_requests :: "nat \<Rightarrow> 'v script_engine \<Rightarrow> string list \<Rightarrow> loader \<Rightarrow> ((load_error + nat list) \<times> loader) option"
where
  "get_module 0 E path resolved s = None"
| "get_module (Suc n) E path resolved s =
     (case moduleRegistry s path of
        Some m \<Rightarrow> Some (Inr m, s)
      | None \<Rightarrow>
          (case load_script E path resolved s of
             (Inl e, s') \<Rightarrow> Some (Inl e, s')
           | (Inr text, s') \<Rightarrow>
               (case compile_module E path text of
                  None \<Rightarrow> Some (Inl LoadException, s')
                | Some rs \<Rightarrow>
                    let m = length (modules s')
                    in case link_requests n E rs (new_module path rs s') of
                         None \<Rightarrow> None
                       | Some (Inl e, t) \<Rightarrow> Some (Inl e, t)
                       | Some (Inr ms, t) \<Rightarrow>
                           if bind_imports E text ms then Some (Inr m, register_module path m ms t)
                           else Some (Inl LoadException, t))))"
| "module_resolve_hook n E specifier s =
     (let path = c_string specifier in get_module n E path (resolve_path path (BASE_PATH s)) s)"
| "link_requests n E [] s = Some (Inr [], s)"
| "link_requests n E (r # rs) s =
     (case module_resolve_hook n E r s of
        None \<Rightarrow> None
      | Some (Inl e, s') \<Rightarrow> Some (Inl e, s')
      | Some (Inr m, s') \<Rightarrow>
          (case link_requests n E rs s' of
             None \<Rightarrow> None
           | Some (Inl e, t) \<Rightarrow> Some (Inl e, t)
           | Some (Inr ms, t) \<Rightarrow> Some (Inr (m # ms), t)))"

subsection \<open>The top level\<close>

text \<open>The path up to its last slash.\<close>

definition base_of :: "string \<Rightarrow> string" where
  "base_of path = (if CHR ''/'' \<in> set path then rev (dropWhile (\<lambda>c. c \<noteq> CHR ''/'') (rev path)) else ''./'')"

definition to_evaluated :: "'v option \<Rightarrow> load_error + 'v" where
  "to_evaluated r = (case r of Some v \<Rightarrow> Inr v | None \<Rightarrow> Inl LoadException)"

definition load_top_level_script :: "nat \<Rightarrow> 'v script_engine \<Rightarrow> bool \<Rightarrow> string \<Rightarrow> loader \<Rightarrow> ((load_error + 'v) \<times> loader) option" where
  "load_top_level_script n E module_mode path s =
     (let s = s\<lparr>BASE_PATH := base_of path\<rparr>
      in if module_mode
         then (case get_module n E path path s of
                 None \<Rightarrow> None
               | Some (Inl e, t) \<Rightarrow> Some (Inl e, t)
               | Some (Inr m, t) \<Rightarrow> Some (to_evaluated (evaluate_module E m), t))
         else (case load_script E path path s of
                 (Inl e, t) \<Rightarrow> Some (Inl e, t)
               | (Inr text, t) \<Rightarrow>
                   if compile_script E path text then Some (to_evaluated (execute_script E text), t)
                   else Some (Inl LoadException, t)))"

end
