(* ===== verification/Module_Loading.thy ===== *)
theory Module_Loading
  imports Script_Loader
begin

section \<open>Loading of modules\<close>

text \<open>
  When loading returns, what the registry holds afterwards, and which imports share a module.
\<close>

lemma c_string_idem [simp]: "c_string (c_string s) = c_string s"
  by (simp add: c_string_def)

lemma new_module_simps [simp]:
  "moduleRegistry (new_module p rs s) = moduleRegistry s" "BASE_PATH (new_module p rs s) = BASE_PATH s"
  "modules (new_module p rs s) = modules s @ [\<lparr>module_path = p, requests = rs, linked_to = None\<rparr>]"
  by (simp_all add: new_module_def)

lemma register_module_simps [simp]:
  "moduleRegistry (register_module p m ms s) = (moduleRegistry s)(p \<mapsto> m)" "BASE_PATH (register_module p m ms s) = BASE_PATH s"
  "modules (register_module p m ms s) = (modules s)[m := (modules s ! m)\<lparr>linked_to := Some ms\<rparr>]"
  by (simp_all add: register_module_def)

lemma say_simps [simp]:
  "moduleRegistry (say m s) = moduleRegistry s" "BASE_PATH (say m s) = BASE_PATH s" "modules (say m s) = modules s"
  by (simp_all add: say_def)

lemma load_script_same:
  assumes "load_script E p res s = (r, t)"
  shows "moduleRegistry t = moduleRegistry s" "BASE_PATH t = BASE_PATH s" "modules t = modules s"
    and "r = Inr text \<longleftrightarrow> file_system E res = Contents text"
  using assms by (auto simp: load_script_def split: file_state.splits)

subsection \<open>The imports of a path\<close>

text \<open>Paths are taken against one base, as after the start.\<close>

definition requires :: "'v script_engine \<Rightarrow> string \<Rightarrow> string \<Rightarrow> string \<Rightarrow> bool" where
  "requires E b r p \<longleftrightarrow> (\<exists>text rs. file_system E (resolve_path p b) = Contents text \<and> compile_module E p text = Some rs
     \<and> r \<in> c_string ` set rs)"

text \<open>A path whose imports are well-founded: no chain of imports goes on forever.\<close>

abbreviation finite_imports :: "'v script_engine \<Rightarrow> string \<Rightarrow> string \<Rightarrow> bool" where
  "finite_imports E b \<equiv> Wellfounded.accp (requires E b)"

text \<open>\<open>imports_of E b q p\<close>: \<open>q\<close> is \<open>p\<close> or one of its direct and indirect imports.\<close>

abbreviation imports_of :: "'v script_engine \<Rightarrow> string \<Rightarrow> string \<Rightarrow> string \<Rightarrow> bool" where
  "imports_of E b \<equiv> (requires E b)\<^sup>*\<^sup>*"

lemma tranclp_last: "R\<^sup>+\<^sup>+ x y \<Longrightarrow> \<exists>z. R\<^sup>*\<^sup>* x z \<and> R z y"
  by (induction rule: tranclp.induct) (blast intro: tranclp_into_rtranclp)+

lemma finite_imports_no_cycle: "finite_imports E b p \<Longrightarrow> requires E b r p \<Longrightarrow> \<not> imports_of E b p r"
proof -
  assume r: "requires E b r p" and "finite_imports E b p"
  from this(2) have "\<not> (requires E b)\<^sup>+\<^sup>+ p p"
  proof (induction rule: accp.induct)
    case (accI p)
    show ?case
    proof
      assume "(requires E b)\<^sup>+\<^sup>+ p p"
      then obtain y where "imports_of E b p y" "requires E b y p" by (auto dest: tranclp_last)
      then show False using accI.IH [of y] rtranclp_into_tranclp2 [of "requires E b" y p y] by blast
    qed
  qed
  with r show "\<not> imports_of E b p r" by (blast intro: rtranclp_into_tranclp1)
qed

subsection \<open>One module\<close>

definition finish_module :: "'v script_engine \<Rightarrow> string \<Rightarrow> string \<Rightarrow> nat \<Rightarrow> (load_error + nat list) \<times> loader \<Rightarrow> (load_error + nat) \<times> loader" where
  "finish_module E p text m yt =
     (case yt of (Inl e, t) \<Rightarrow> (Inl e, t)
      | (Inr ms, t) \<Rightarrow> if bind_imports E text ms then (Inr m, register_module p m ms t) else (Inl LoadException, t))"

lemma get_module_eqs:
  "moduleRegistry s p = Some m \<Longrightarrow> get_module (Suc n) E p res s = Some (Inr m, s)"
  "moduleRegistry s p = None \<Longrightarrow> load_script E p res s = (Inl e, s') \<Longrightarrow> get_module (Suc n) E p res s = Some (Inl e, s')"
  "moduleRegistry s p = None \<Longrightarrow> file_system E res = Contents text \<Longrightarrow> compile_module E p text = None
     \<Longrightarrow> get_module (Suc n) E p res s = Some (Inl LoadException, s)"
  "moduleRegistry s p = None \<Longrightarrow> file_system E res = Contents text \<Longrightarrow> compile_module E p text = Some rs
     \<Longrightarrow> get_module (Suc n) E p res s = map_option (finish_module E p text (length (modules s))) (link_requests n E rs (new_module p rs s))"
proof -
  show "moduleRegistry s p = None \<Longrightarrow> file_system E res = Contents text \<Longrightarrow> compile_module E p text = Some rs
     \<Longrightarrow> get_module (Suc n) E p res s = map_option (finish_module E p text (length (modules s))) (link_requests n E rs (new_module p rs s))"
    by (cases "link_requests n E rs (new_module p rs s)")
      (auto simp: load_script_def finish_module_def Let_def split: sum.split)
qed (simp_all add: load_script_def)

declare get_module.simps(2) [simp del]

lemma get_module_cases:
  obtains (registered) m where "moduleRegistry s p = Some m"
  | (unread) e s' where "moduleRegistry s p = None" "load_script E p res s = (Inl e, s')"
  | (uncompiled) src where "moduleRegistry s p = None" "file_system E res = Contents src" "compile_module E p src = None"
  | (compiled) src rs where "moduleRegistry s p = None" "file_system E res = Contents src" "compile_module E p src = Some rs"
proof (cases "moduleRegistry s p")
  case None
  show thesis
  proof (cases "file_system E res")
    case (Contents src)
    then show thesis using None uncompiled compiled by (cases "compile_module E p src") auto
  qed (use None unread in \<open>simp_all add: load_script_def\<close>)
qed (rule registered)

lemma link_requests_Cons:
  "link_requests n E (r # rs) s = Some (y, t) \<longleftrightarrow>
     (\<exists>e. module_resolve_hook n E r s = Some (Inl e, t) \<and> y = Inl e)
     \<or> (\<exists>m s' y'. module_resolve_hook n E r s = Some (Inr m, s') \<and> link_requests n E rs s' = Some (y', t)
          \<and> y = (case y' of Inl e \<Rightarrow> Inl e | Inr ms \<Rightarrow> Inr (m # ms)))"
  by (auto split: option.splits sum.splits prod.splits)

subsection \<open>More stack changes nothing\<close>

lemma load_fuel_step:
  "get_module n E p res s = Some x \<Longrightarrow> get_module (Suc n) E p res s = Some x"
  "module_resolve_hook n E sp s = Some x \<Longrightarrow> module_resolve_hook (Suc n) E sp s = Some x"
  "link_requests n E rs s = Some y \<Longrightarrow> link_requests (Suc n) E rs s = Some y"
proof (induction n E p res s and n E sp s and n E rs s arbitrary: x and x and y
    rule: get_module_module_resolve_hook_link_requests.induct)
  case (2 n E p res s)
  show ?case
  proof (cases rule: get_module_cases [where s = s and p = p and E = E and res = res])
    case (compiled src rs)
    then obtain y where y: "link_requests n E rs (new_module p rs s) = Some y" "x = finish_module E p src (length (modules s)) y"
      using "2.prems" by (auto simp: get_module_eqs(4))
    have "load_script E p res s = (Inr src, s)" using compiled by (simp add: load_script_def)
    with compiled y have "link_requests (Suc n) E rs (new_module p rs s) = Some y"
      using "2.IH" [of "Inr src" s src rs "length (modules s)" y] by simp
    with compiled y show ?thesis by (simp add: get_module_eqs(4))
  qed (use "2.prems" in \<open>simp_all add: get_module_eqs\<close>)
next
  case (5 n E r rs s)
  obtain y' t where y: "y = (y', t)" by (cases y)
  have later: "module_resolve_hook n E r s = Some (Inr m, s') \<Longrightarrow> link_requests n E rs s' = Some z \<Longrightarrow> link_requests (Suc n) E rs s' = Some z"
    for m s' z using "5.IH"(2) [OF _ refl refl] .
  from "5.prems" have "(\<exists>e. module_resolve_hook n E r s = Some (Inl e, t) \<and> y' = Inl e)
     \<or> (\<exists>m s' z. module_resolve_hook n E r s = Some (Inr m, s') \<and> link_requests n E rs s' = Some (z, t)
          \<and> y' = (case z of Inl e \<Rightarrow> Inl e | Inr ms \<Rightarrow> Inr (m # ms)))"
    unfolding y link_requests_Cons .
  then show ?case
    unfolding y link_requests_Cons using "5.IH"(1) later by blast
qed (simp_all add: Let_def)

lemma load_fuel:
  "n \<le> k \<Longrightarrow> get_module n E p res s = Some x \<Longrightarrow> get_module k E p res s = Some x"
  "n \<le> k \<Longrightarrow> module_resolve_hook n E sp s = Some x \<Longrightarrow> module_resolve_hook k E sp s = Some x"
  "n \<le> k \<Longrightarrow> link_requests n E rs s = Some y \<Longrightarrow> link_requests k E rs s = Some y"
  by (induction k rule: dec_induct; blast intro: load_fuel_step)+

subsection \<open>What is registered\<close>

definition registered_ok :: "'v script_engine \<Rightarrow> string \<Rightarrow> loader \<Rightarrow> bool" where
  "registered_ok E b s \<longleftrightarrow> BASE_PATH s = b \<and> (\<forall>q\<in>dom (moduleRegistry s). finite_imports E b q)"

text \<open>A load adds only what the paths asked for import, and a path that was loaded is registered.\<close>

definition adds :: "'v script_engine \<Rightarrow> string set \<Rightarrow> loader \<Rightarrow> loader \<Rightarrow> bool" where
  "adds E P s t \<longleftrightarrow> dom (moduleRegistry s) \<subseteq> dom (moduleRegistry t)
     \<and> (\<forall>q\<in>dom (moduleRegistry t). q \<in> dom (moduleRegistry s) \<or> (\<exists>p\<in>P. imports_of E (BASE_PATH s) q p))"

lemma adds_refl: "moduleRegistry t = moduleRegistry s \<Longrightarrow> adds E P s t"
  by (simp add: adds_def)

lemma adds_trans: "adds E P s t \<Longrightarrow> adds E Q t u \<Longrightarrow> BASE_PATH t = BASE_PATH s \<Longrightarrow> adds E (P \<union> Q) s u"
  unfolding adds_def by (metis UnCI subset_iff)

lemma adds_imports:
  assumes "adds E P s t" "\<And>r. r \<in> P \<Longrightarrow> requires E (BASE_PATH s) r p"
  shows "adds E {p} s t"
  using assms unfolding adds_def by (blast intro: rtranclp.rtrancl_into_rtrancl)

lemma adds_new: "adds E P (new_module p rs s) t \<longleftrightarrow> adds E P s t"
  by (simp add: adds_def)

lemma adds_register: "adds E {p} s t \<Longrightarrow> adds E {p} s (register_module p m ms t)"
  by (auto simp: adds_def)

lemma requires_iff:
  "file_system E (resolve_path p b) = Contents src \<Longrightarrow> compile_module E p src = Some rs \<Longrightarrow> requires E b r p \<longleftrightarrow> r \<in> c_string ` set rs"
  by (auto simp: requires_def)

lemma load_registers:
  "get_module n E p res s = Some (x, t) \<Longrightarrow> file_system E res = file_system E (resolve_path p (BASE_PATH s)) \<Longrightarrow> registered_ok E b s
     \<Longrightarrow> registered_ok E b t \<and> adds E {p} s t \<and> (\<forall>m. x = Inr m \<longrightarrow> p \<in> dom (moduleRegistry t))"
  "module_resolve_hook n E sp s = Some (x, t) \<Longrightarrow> registered_ok E b s
     \<Longrightarrow> registered_ok E b t \<and> adds E {c_string sp} s t \<and> (\<forall>m. x = Inr m \<longrightarrow> c_string sp \<in> dom (moduleRegistry t))"
  "link_requests n E rs s = Some (y, t) \<Longrightarrow> registered_ok E b s
     \<Longrightarrow> registered_ok E b t \<and> adds E (c_string ` set rs) s t
       \<and> (\<forall>ms. y = Inr ms \<longrightarrow> c_string ` set rs \<subseteq> dom (moduleRegistry t))"
proof (induction n E p res s and n E sp s and n E rs s arbitrary: x t and x t and y t
    rule: get_module_module_resolve_hook_link_requests.induct)
  case (2 n E p res s)
  show ?case
  proof (cases rule: get_module_cases [where s = s and p = p and E = E and res = res])
    case (compiled src rs)
    obtain y u where l: "link_requests n E rs (new_module p rs s) = Some (y, u)"
      and f: "(x, t) = finish_module E p src (length (modules s)) (y, u)"
      using "2.prems"(1) compiled by (auto simp: get_module_eqs(4))
    have "load_script E p res s = (Inr src, s)" using compiled by (simp add: load_script_def)
    from "2.IH" [OF compiled(1) this [symmetric] refl compiled(3) refl l] "2.prems"(3)
    have u: "registered_ok E b u" "adds E (c_string ` set rs) s u" "\<forall>ms. y = Inr ms \<longrightarrow> c_string ` set rs \<subseteq> dom (moduleRegistry u)"
      by (auto simp: registered_ok_def adds_new)
    have b: "BASE_PATH s = b" "BASE_PATH u = b" using "2.prems"(3) u(1) by (auto simp: registered_ok_def)
    have req: "requires E b r p \<longleftrightarrow> r \<in> c_string ` set rs" for r
      using compiled "2.prems"(2) b by (auto intro!: requires_iff)
    have adds: "adds E {p} s u" using adds_imports [OF u(2)] req b by simp
    show ?thesis
    proof (cases "\<exists>ms. y = Inr ms \<and> bind_imports E src ms")
      case True
      then obtain ms where t: "t = register_module p (length (modules s)) ms u" "y = Inr ms"
        using f by (auto simp: finish_module_def)
      have "finite_imports E b p"
      proof (rule accp.accI)
        fix r
        assume "requires E b r p"
        then show "finite_imports E b r" using u(1,3) t(2) by (auto simp: req registered_ok_def)
      qed
      then show ?thesis using t(1) u(1) adds_register [OF adds] by (auto simp: registered_ok_def)
    next
      case False
      then have "t = u" "\<forall>m. x \<noteq> Inr m" using f by (auto simp: finish_module_def split: sum.splits)
      then show ?thesis using u adds by auto
    qed
  qed (use "2.prems" in \<open>auto simp: get_module_eqs registered_ok_def load_script_same intro!: adds_refl\<close>)
next
  case (5 n E r rs s)
  from "5.prems"(1) show ?case unfolding link_requests_Cons
  proof (elim disjE exE conjE)
    fix e
    assume "module_resolve_hook n E r s = Some (Inl e, t)" "y = Inl e"
    then show ?thesis using "5.IH"(1) "5.prems"(2) by (auto simp: adds_def)
  next
    fix m s' z
    assume h: "module_resolve_hook n E r s = Some (Inr m, s')" and l: "link_requests n E rs s' = Some (z, t)"
      and y: "y = (case z of Inl e \<Rightarrow> Inl e | Inr ms \<Rightarrow> Inr (m # ms))"
    have s': "registered_ok E b s'" "adds E {c_string r} s s'" "c_string r \<in> dom (moduleRegistry s')"
      using "5.IH"(1) [OF h "5.prems"(2)] by auto
    have t: "registered_ok E b t" "adds E (c_string ` set rs) s' t"
      "\<forall>ms. z = Inr ms \<longrightarrow> c_string ` set rs \<subseteq> dom (moduleRegistry t)"
      using "5.IH"(2) [OF h refl refl l s'(1)] by auto
    have b: "BASE_PATH s' = BASE_PATH s" using s'(1) "5.prems"(2) by (simp add: registered_ok_def)
    have "adds E (c_string ` set (r # rs)) s t" using adds_trans [OF s'(2) t(2) b] by simp
    moreover have "c_string r \<in> dom (moduleRegistry t)" using s'(3) t(2) by (auto simp: adds_def)
    ultimately show ?thesis using t y by (auto split: sum.splits)
  qed
next
  case (3 n E sp s)
  then show ?case by (simp add: Let_def)
qed (auto intro: adds_refl)

subsection \<open>Loading returns exactly on finite imports\<close>

lemma get_module_returns:
  "finite_imports E b p \<Longrightarrow> registered_ok E b s \<Longrightarrow> file_system E res = file_system E (resolve_path p b)
     \<Longrightarrow> \<exists>n x t. get_module n E p res s = Some (x, t)"
proof (induction arbitrary: s res rule: accp.induct)
  case (accI p)
  have link: "\<exists>n y t. link_requests n E rs s = Some (y, t)" if "c_string ` set rs \<subseteq> {r. requires E b r p}" "registered_ok E b s" for rs s
    using that
  proof (induction rs arbitrary: s)
    case (Cons r rs)
    have "BASE_PATH s = b" using Cons.prems(2) by (simp add: registered_ok_def)
    moreover have "requires E b (c_string r) p" using Cons.prems(1) by simp
    ultimately obtain n x s' where g: "module_resolve_hook n E r s = Some (x, s')"
      using accI.IH [OF _ Cons.prems(2) refl] by (fastforce simp: Let_def)
    have "registered_ok E b s'" using load_registers(2) [OF g Cons.prems(2)] by simp
    then obtain k y t where l: "link_requests k E rs s' = Some (y, t)"
      using Cons.IH [of s'] Cons.prems(1) by auto
    have "module_resolve_hook (max n k) E r s = Some (x, s')" by (rule load_fuel(2) [OF _ g]) simp
    moreover have "link_requests (max n k) E rs s' = Some (y, t)" by (rule load_fuel(3) [OF _ l]) simp
    ultimately show ?case by (cases x) (auto intro!: exI [of _ "max n k"] split: sum.split)
  qed simp
  show ?case
  proof (cases rule: get_module_cases [where s = s and p = p and E = E and res = res])
    case (compiled src rs)
    have "c_string ` set rs \<subseteq> {r. requires E b r p}" using compiled accI.prems(2) requires_iff [of E p b src rs] by auto
    moreover have "registered_ok E b (new_module p rs s)" using accI.prems(1) by (simp add: registered_ok_def)
    ultimately obtain n y t where "link_requests n E rs (new_module p rs s) = Some (y, t)" using link by blast
    then have "get_module (Suc n) E p res s = Some (finish_module E p src (length (modules s)) (y, t))"
      using compiled by (simp add: get_module_eqs(4))
    then show ?thesis by (metis surj_pair)
  qed (use get_module_eqs in \<open>metis surj_pair\<close>)+
qed

subsection \<open>Linked modules\<close>

text \<open>A registered module is linked, to the modules that are registered for its requests.\<close>

definition modules_ok :: "loader \<Rightarrow> bool" where
  "modules_ok s \<longleftrightarrow> (\<forall>p m. moduleRegistry s p = Some m \<longrightarrow> m < length (modules s) \<and> module_path (modules s ! m) = p
     \<and> (\<exists>ms. linked_to (modules s ! m) = Some ms \<and> map (\<lambda>r. moduleRegistry s (c_string r)) (requests (modules s ! m)) = map Some ms))"

definition extends :: "loader \<Rightarrow> loader \<Rightarrow> bool" where
  "extends s t \<longleftrightarrow> moduleRegistry s \<subseteq>\<^sub>m moduleRegistry t \<and> length (modules s) \<le> length (modules t)
     \<and> (\<forall>i<length (modules s). modules t ! i = modules s ! i)"

lemma extends_trans: "extends s t \<Longrightarrow> extends t u \<Longrightarrow> extends s u"
  unfolding extends_def using map_le_trans by (metis order.strict_trans2 order.trans)

lemma modules_okD:
  assumes "modules_ok s" "moduleRegistry s p = Some m"
  shows "m < length (modules s)" "module_path (modules s ! m) = p" "linked_to (modules s ! m) \<noteq> None"
  using assms by (auto simp: modules_ok_def)

lemma register_ok:
  assumes ok: "modules_ok u" and m: "m < length (modules u)" "modules u ! m = \<lparr>module_path = p, requests = rs, linked_to = None\<rparr>"
    and free: "p \<notin> dom (moduleRegistry u)" and ms: "map (\<lambda>r. moduleRegistry u (c_string r)) rs = map Some ms"
  shows "modules_ok (register_module p m ms u)"
proof -
  have same: "map (\<lambda>r. ((moduleRegistry u)(p \<mapsto> m)) (c_string r)) xs = map Some ys"
    if "map (\<lambda>r. moduleRegistry u (c_string r)) xs = map Some ys" for xs ys
  proof -
    have "c_string r \<noteq> p" if "r \<in> set xs" for r
    proof -
      have "moduleRegistry u (c_string r) \<in> set (map Some ys)" using that \<open>map _ xs = map Some ys\<close> by (metis image_eqI list.set_map)
      then show ?thesis using free by auto
    qed
    then have "map (\<lambda>r. ((moduleRegistry u)(p \<mapsto> m)) (c_string r)) xs = map (\<lambda>r. moduleRegistry u (c_string r)) xs" by auto
    then show ?thesis using that by simp
  qed
  show ?thesis
    unfolding modules_ok_def
  proof (intro allI impI)
    fix q m'
    assume q: "moduleRegistry (register_module p m ms u) q = Some m'"
    show "m' < length (modules (register_module p m ms u)) \<and> module_path (modules (register_module p m ms u) ! m') = q
      \<and> (\<exists>ys. linked_to (modules (register_module p m ms u) ! m') = Some ys
        \<and> map (\<lambda>r. moduleRegistry (register_module p m ms u) (c_string r)) (requests (modules (register_module p m ms u) ! m')) = map Some ys)"
    proof (cases "q = p")
      case True
      then have "m' = m" using q by simp
      with True m same [OF ms] show ?thesis by simp
    next
      case False
      then have r: "moduleRegistry u q = Some m'" using q by simp
      then have "m' \<noteq> m" using modules_okD(3) [OF ok r] m(2) by auto
      moreover obtain ys where "linked_to (modules u ! m') = Some ys"
        "map (\<lambda>r. moduleRegistry u (c_string r)) (requests (modules u ! m')) = map Some ys"
        using ok r unfolding modules_ok_def by blast
      moreover from this(2) have "map (\<lambda>r. ((moduleRegistry u)(p \<mapsto> m)) (c_string r)) (requests (modules u ! m')) = map Some ys"
        by (rule same)
      ultimately show ?thesis using modules_okD(1,2) [OF ok r] by simp
    qed
  qed
qed

lemma load_modules:
  "get_module n E p res s = Some (x, t) \<Longrightarrow> file_system E res = file_system E (resolve_path p (BASE_PATH s)) \<Longrightarrow> registered_ok E b s
     \<Longrightarrow> modules_ok s \<Longrightarrow> modules_ok t \<and> extends s t \<and> (\<forall>m. x = Inr m \<longrightarrow> moduleRegistry t p = Some m)"
  "module_resolve_hook n E sp s = Some (x, t) \<Longrightarrow> registered_ok E b s
     \<Longrightarrow> modules_ok s \<Longrightarrow> modules_ok t \<and> extends s t \<and> (\<forall>m. x = Inr m \<longrightarrow> moduleRegistry t (c_string sp) = Some m)"
  "link_requests n E rs s = Some (y, t) \<Longrightarrow> registered_ok E b s
     \<Longrightarrow> modules_ok s \<Longrightarrow> modules_ok t \<and> extends s t \<and> (\<forall>ms. y = Inr ms \<longrightarrow> map (\<lambda>r. moduleRegistry t (c_string r)) rs = map Some ms)"
proof (induction n E p res s and n E sp s and n E rs s arbitrary: x t and x t and y t
    rule: get_module_module_resolve_hook_link_requests.induct)
  case (2 n E p res s)
  show ?case
  proof (cases rule: get_module_cases [where s = s and p = p and E = E and res = res])
    case (compiled src rs)
    obtain y u where l: "link_requests n E rs (new_module p rs s) = Some (y, u)"
      and f: "(x, t) = finish_module E p src (length (modules s)) (y, u)"
      using "2.prems"(1) compiled by (auto simp: get_module_eqs(4))
    have load: "(Inr src, s) = load_script E p res s" using compiled by (simp add: load_script_def)
    have new: "registered_ok E b (new_module p rs s)" "modules_ok (new_module p rs s)"
      using "2.prems"(3,4) by (auto simp: registered_ok_def modules_ok_def nth_append intro: less_SucI)
    have u: "modules_ok u" "extends (new_module p rs s) u"
      "\<forall>ms. y = Inr ms \<longrightarrow> map (\<lambda>r. moduleRegistry u (c_string r)) rs = map Some ms"
      using "2.IH" [OF compiled(1) load refl compiled(3) refl l new] by auto
    have b: "BASE_PATH s = b" using "2.prems"(3) by (simp add: registered_ok_def)
    have at: "length (modules s) < length (modules u)" "modules u ! length (modules s) = \<lparr>module_path = p, requests = rs, linked_to = None\<rparr>"
      using u(2) by (auto simp: extends_def)
    have ext: "extends s u" using u(2) by (auto simp: extends_def nth_append)
    show ?thesis
    proof (cases "\<exists>ms. y = Inr ms \<and> bind_imports E src ms")
      case True
      then obtain ms where t: "t = register_module p (length (modules s)) ms u" "y = Inr ms" "x = Inr (length (modules s))"
        using f by (auto simp: finish_module_def)
      have req: "requires E b r p \<longleftrightarrow> r \<in> c_string ` set rs" for r
        using compiled "2.prems"(2) b by (auto intro!: requires_iff)
      have "p \<in> dom (moduleRegistry t) \<and> registered_ok E b t" using load_registers(1) [OF "2.prems"(1-3)] t(3) by blast
      then have fin: "finite_imports E b p" by (auto simp: registered_ok_def)
      have "adds E (c_string ` set rs) s u"
        using load_registers(3) [OF l new(1)] by (simp add: adds_new)
      then have free: "p \<notin> dom (moduleRegistry u)"
        using finite_imports_no_cycle [OF fin] compiled(1) unfolding adds_def req b by blast
      have "modules_ok t" unfolding t(1) by (rule register_ok [OF u(1) at free]) (use u(3) t(2) in simp)
      moreover have "extends s t"
        using ext at free t(1) compiled(1) by (auto simp: extends_def map_le_def nth_list_update)
      ultimately show ?thesis using t by simp
    next
      case False
      then have "t = u" "\<forall>m. x \<noteq> Inr m" using f by (auto simp: finish_module_def split: sum.splits)
      then show ?thesis using u ext by simp
    qed
  qed (use "2.prems" in \<open>auto simp: get_module_eqs extends_def modules_ok_def load_script_same\<close>)
next
  case (3 n E sp s)
  then show ?case by (simp add: Let_def)
next
  case (5 n E r rs s)
  from "5.prems"(1) show ?case unfolding link_requests_Cons
  proof (elim disjE exE conjE)
    fix e
    assume "module_resolve_hook n E r s = Some (Inl e, t)" "y = Inl e"
    then show ?thesis using "5.IH"(1) "5.prems"(2,3) by auto
  next
    fix m s' z
    assume h: "module_resolve_hook n E r s = Some (Inr m, s')" and l: "link_requests n E rs s' = Some (z, t)"
      and y: "y = (case z of Inl e \<Rightarrow> Inl e | Inr ms \<Rightarrow> Inr (m # ms))"
    have s': "modules_ok s'" "extends s s'" "moduleRegistry s' (c_string r) = Some m"
      using "5.IH"(1) [OF h "5.prems"(2,3)] by auto
    have "registered_ok E b s'" using load_registers(2) [OF h "5.prems"(2)] by simp
    then have t: "modules_ok t" "extends s' t" "\<forall>ms. z = Inr ms \<longrightarrow> map (\<lambda>r. moduleRegistry t (c_string r)) rs = map Some ms"
      using "5.IH"(2) [OF h refl refl l _ s'(1)] by auto
    have "moduleRegistry t (c_string r) = Some m" using s'(3) t(2) by (auto simp: extends_def map_le_def dom_def)
    then show ?thesis using t y extends_trans [OF s'(2) t(2)] by (auto split: sum.splits)
  qed
qed (auto simp: extends_def)

subsection \<open>Runs of the loader\<close>

definition no_modules :: loader where
  "no_modules = \<lparr>moduleRegistry = Map.empty, modules = [], BASE_PATH = [], messages = []\<rparr>"

text \<open>
  The entry point is loaded first, then the engine asks for modules as they are imported.  The entry
  point is meant to be the file that an import of its path from the top would open.
\<close>

inductive loader_run :: "'v script_engine \<Rightarrow> loader \<Rightarrow> bool" for E where
  top: "load_top_level_script n E module_mode path no_modules = Some (r, s)
     \<Longrightarrow> file_system E (resolve_path path (base_of path)) = file_system E path \<Longrightarrow> loader_run E s"
| dynamic: "loader_run E s \<Longrightarrow> module_resolve_hook n E specifier s = Some (r, t) \<Longrightarrow> loader_run E t"

lemma fresh_loader_ok: "registered_ok E b (no_modules\<lparr>BASE_PATH := b\<rparr>)" "modules_ok (no_modules\<lparr>BASE_PATH := b\<rparr>)"
  by (simp_all add: no_modules_def registered_ok_def modules_ok_def)

lemma loader_run_ok: "loader_run E s \<Longrightarrow> \<exists>b. registered_ok E b s \<and> modules_ok s"
proof (induction rule: loader_run.induct)
  case (top n module_mode path r s)
  let ?s = "no_modules\<lparr>BASE_PATH := base_of path\<rparr>"
  show ?case
  proof (cases module_mode)
    case True
    then obtain x where g: "get_module n E path path ?s = Some (x, s)"
      using top(1) by (auto simp: load_top_level_script_def split: option.splits sum.splits)
    have f: "file_system E path = file_system E (resolve_path path (BASE_PATH ?s))" using top(2) by simp
    show ?thesis using load_registers(1) [OF g f fresh_loader_ok(1)] load_modules(1) [OF g f fresh_loader_ok] by blast
  next
    case False
    then obtain x where "load_script E path path ?s = (x, s)"
      using top(1) by (auto simp: load_top_level_script_def split: prod.splits sum.splits if_splits)
    from load_script_same(1-3) [OF this] fresh_loader_ok(1) [of E "base_of path"] fresh_loader_ok(2) [of "base_of path"] show ?thesis
      by (auto simp: registered_ok_def modules_ok_def)
  qed
next
  case (dynamic s n specifier r t)
  then obtain b where ok: "registered_ok E b s" "modules_ok s" by blast
  then show ?case
    using load_registers(2) [OF dynamic.hyps(2) ok(1)] load_modules(2) [OF dynamic.hyps(2) ok] by blast
qed



text \<open>
  The same file can be two modules: the registry compares specifiers, and a path with and without
  a leading \<open>./\<close> is the same file.
\<close>

theorem same_file_two_modules:
  assumes run: "loader_run E s" and p: "c_string p = p" "p \<noteq> []" "p ! 0 \<noteq> CHR ''/''"
    "\<not> (2 \<le> length p \<and> p ! 0 = CHR ''.'' \<and> p ! 1 = CHR ''/'')"
    and one: "module_resolve_hook n E p s = Some (Inr m, t)"
    and two: "module_resolve_hook k E (''./'' @ p) t = Some (Inr m', u)"
  shows "resolve_path p (BASE_PATH s) = resolve_path (''./'' @ p) (BASE_PATH s) \<and> m \<noteq> m'"
proof -
  have "moduleRegistry t p = Some m" using loader_run_ok [OF run] load_modules(2) [OF one] p(1) by auto
  obtain b where u: "modules_ok u" "extends t u" "moduleRegistry u (c_string (''./'' @ p)) = Some m'"
    using loader_run_ok [OF loader_run.dynamic [OF run one]] load_modules(2) [OF two] by blast
  have "moduleRegistry u p = Some m" using \<open>moduleRegistry t p = Some m\<close> u(2) by (auto simp: extends_def map_le_def dom_def)
  moreover have "c_string (''./'' @ p) = ''./'' @ p" using p(1) by (simp add: c_string_def)
  then have "moduleRegistry u (''./'' @ p) = Some m'" using u(3) by simp
  ultimately have "m \<noteq> m'" using modules_okD(2) [OF u(1)] by (metis append_self_conv2 list.distinct(1))
  moreover have "resolve_path p (BASE_PATH s) = resolve_path (''./'' @ p) (BASE_PATH s)"
    using p(2-4) by (auto simp: resolve_path_def)
  ultimately show ?thesis by simp
qed

subsection \<open>A program\<close>

text \<open>\<open>main.js\<close> imports \<open>b.js\<close>, and \<open>c.js\<close> imports itself.\<close>

definition demo_engine :: "nat script_engine" where
  "demo_engine = \<lparr>file_system = (\<lambda>f. if f = ''/app/main.js'' then Contents ''M'' else if f = ''/app/b.js'' then Contents ''B''
       else if f = ''/app/c.js'' then Contents ''C'' else NoFile),
     compile_module = (\<lambda>p t. Some (if t = ''M'' then [''./b.js''] else if t = ''C'' then [''c.js''] else [])),
     bind_imports = (\<lambda>_ _. True), compile_script = (\<lambda>_ _. True), evaluate_module = Some, execute_script = (\<lambda>_. Some 0)\<rparr>"

definition demo_loaded :: loader where
  "demo_loaded = \<lparr>moduleRegistry = [''./b.js'' \<mapsto> 1, ''/app/main.js'' \<mapsto> 0],
     modules = [\<lparr>module_path = ''/app/main.js'', requests = [''./b.js''], linked_to = Some [1]\<rparr>,
                \<lparr>module_path = ''./b.js'', requests = [], linked_to = Some []\<rparr>],
     BASE_PATH = ''/app/'', messages = []\<rparr>"

lemma demo_strings: "c_string ''./b.js'' = ''./b.js''" "c_string ''b.js'' = ''b.js''" "c_string ''c.js'' = ''c.js''"
  "base_of ''/app/main.js'' = ''/app/''"
  by (simp_all add: c_string_def base_of_def)

lemma demo_load: "load_top_level_script 3 demo_engine True ''/app/main.js'' no_modules = Some (Inr 0, demo_loaded)"
  by (simp add: load_top_level_script_def demo_strings no_modules_def demo_engine_def numeral_3_eq_3 get_module.simps(2)
      load_script_def resolve_path_def new_module_def register_module_def to_evaluated_def demo_loaded_def Let_def)

lemma demo_loader_run: "loader_run demo_engine demo_loaded"
  by (rule loader_run.top [OF demo_load]) (simp add: demo_strings resolve_path_def)

lemma demo_cycle: "requires demo_engine ''/app/'' ''c.js'' ''c.js''"
  by (simp add: requires_def resolve_path_def demo_engine_def demo_strings)



definition demo_twice :: loader where
  "demo_twice = demo_loaded\<lparr>moduleRegistry := (moduleRegistry demo_loaded)(''b.js'' \<mapsto> 2),
     modules := modules demo_loaded @ [\<lparr>module_path = ''b.js'', requests = [], linked_to = Some []\<rparr>]\<rparr>"

theorem same_file_two_modules_witness:
  "resolve_path ''b.js'' ''/app/'' = resolve_path ''./b.js'' ''/app/'' \<and> (2::nat) \<noteq> 1
    \<and> module_resolve_hook 1 demo_engine ''./b.js'' demo_twice = Some (Inr 1, demo_twice)"
proof -
  have "module_resolve_hook 1 demo_engine ''b.js'' demo_loaded = Some (Inr 2, demo_twice)"
    by (simp add: demo_strings get_module.simps(2) demo_loaded_def demo_twice_def demo_engine_def load_script_def resolve_path_def
        new_module_def register_module_def Let_def numeral_2_eq_2)
  moreover have two: "module_resolve_hook 1 demo_engine (''./'' @ ''b.js'') demo_twice = Some (Inr 1, demo_twice)"
    by (simp add: demo_strings get_module.simps(2) demo_loaded_def demo_twice_def Let_def)
  ultimately have "resolve_path ''b.js'' (BASE_PATH demo_loaded) = resolve_path (''./'' @ ''b.js'') (BASE_PATH demo_loaded) \<and> (2::nat) \<noteq> 1"
    by (intro same_file_two_modules [OF demo_loader_run]) (simp_all add: demo_strings)
  then show ?thesis using two by (simp add: demo_loaded_def)
qed

end
