(* ===== verification/Engine.thy ===== *)
theory Engine
  imports Complex_Main Module_Loading Event_Loop
begin

section \<open>The engine\<close>

text \<open>
  \<open>runtime/engine.cpp\<close> and \<open>runtime/js.cpp\<close>: what is printed of values, exceptions and promises,
  the promises that were rejected without a handler, the evaluation of the program and the start of
  the component.

  \<^item> The state of the JavaScript engine, which the event loop passes through, has the loader, the
    set of rejected promises in the order of insertion, the pending exception, what was printed on
    the error stream, and the rest.
  \<^item> \<open>spidermonkey\<close> has what is asked of the engine about values and promises, and what running the
    program does to the state.  Printing a value has no other effect.
  \<^item> \<open>exit\<close> ends the process: \<open>Exited\<close>.  A trap of the event loop is \<open>Stopped\<close>.
\<close>

record ('p, 'v, 'w) engine_state =
  loader_state :: loader
  unhandledRejectedPromises :: "'p list"
  pending_exception :: "'v option"
  stderr_lines :: "string list"
  world :: 'w

record ('p, 'v, 'w) spidermonkey =
  value_to_source :: "'v \<Rightarrow> string option"
  error_message :: "'v \<Rightarrow> string option"
  exception_stack :: "'v \<Rightarrow> nat option"
  resolution_site :: "'p \<Rightarrow> nat option"
  exception_retrieved :: "'v \<Rightarrow> bool"
  pending_stack :: "'v \<Rightarrow> nat option"
  stack_text :: "nat option \<Rightarrow> string option"
  promise_result :: "'p \<Rightarrow> 'v"
  undefined_value :: 'v
  after_load :: "load_error + 'v \<Rightarrow> ('v, ('p, 'v, 'w) engine_state) loop_state \<Rightarrow> ('v, ('p, 'v, 'w) engine_state) loop_state"

type_synonym ('p, 'v, 'w) run_state = "('v, ('p, 'v, 'w) engine_state) loop_state"

definition newline :: string where "newline = [char_of (10 :: nat)]"

definition print_line :: "string \<Rightarrow> ('p, 'v, 'w) engine_state \<Rightarrow> ('p, 'v, 'w) engine_state" where
  "print_line x e = e\<lparr>stderr_lines := stderr_lines e @ [x]\<rparr>"

subsection \<open>Printing\<close>

definition dump_value :: "('p, 'v, 'w) spidermonkey \<Rightarrow> 'v \<Rightarrow> ('p, 'v, 'w) engine_state \<Rightarrow> ('p, 'v, 'w) engine_state" where
  "dump_value J v e = (case value_to_source J v of None \<Rightarrow> e | Some x \<Rightarrow> print_line (x @ newline) e)"

text \<open>\<open>stack_text\<close> is what \<open>BuildStackString\<close> makes of a stack, which may be a null pointer.\<close>

definition print_stack :: "('p, 'v, 'w) spidermonkey \<Rightarrow> nat option \<Rightarrow> ('p, 'v, 'w) engine_state \<Rightarrow> ('p, 'v, 'w) engine_state" where
  "print_stack J stack e = (case stack_text J stack of None \<Rightarrow> e | Some x \<Rightarrow> print_line (x @ newline) e)"

definition dump_promise_rejection :: "('p, 'v, 'w) spidermonkey \<Rightarrow> 'v \<Rightarrow> 'p \<Rightarrow> ('p, 'v, 'w) engine_state \<Rightarrow> ('p, 'v, 'w) engine_state" where
  "dump_promise_rejection J reason promise e =
     (let e = (case error_message J reason of Some m \<Rightarrow> print_line (m @ newline) e | None \<Rightarrow> dump_value J reason e);
          stack = (case exception_stack J reason of Some x \<Rightarrow> Some x | None \<Rightarrow> resolution_site J promise)
      in case stack of None \<Rightarrow> e | Some _ \<Rightarrow> print_stack J stack (print_line (''Stack:'' @ newline) e))"

definition DumpPendingException :: "('p, 'v, 'w) spidermonkey \<Rightarrow> string \<Rightarrow> ('p, 'v, 'w) engine_state \<Rightarrow> ('p, 'v, 'w) engine_state" where
  "DumpPendingException J description e =
     (case pending_exception e of
        None \<Rightarrow> e
      | Some v \<Rightarrow>
          if \<not> exception_retrieved J v
          then print_line (''Error: exception pending after '' @ description @ '', but got another error ''
                 @ ''when trying to retrieve it. Aborting.'' @ newline) e
          else print_stack J (pending_stack J v) (dump_value J v (print_line (''Exception while '' @ description @ '': '') e)))"

subsection \<open>Rejected promises\<close>

datatype 'p rejection_event = Unhandled 'p | Handled 'p

definition rejection_tracker :: "'p rejection_event \<Rightarrow> ('p, 'v, 'w) engine_state \<Rightarrow> ('p, 'v, 'w) engine_state" where
  "rejection_tracker ev e =
     (case ev of
        Unhandled p \<Rightarrow> if p \<in> set (unhandledRejectedPromises e) then e
                       else e\<lparr>unhandledRejectedPromises := unhandledRejectedPromises e @ [p]\<rparr>
      | Handled p \<Rightarrow> e\<lparr>unhandledRejectedPromises := removeAll p (unhandledRejectedPromises e)\<rparr>)"

definition report_unhandled_promise_rejections :: "('p, 'v, 'w) spidermonkey \<Rightarrow> ('p, 'v, 'w) engine_state \<Rightarrow> ('p, 'v, 'w) engine_state" where
  "report_unhandled_promise_rejections J e =
     fold (\<lambda>p e. dump_promise_rejection J (promise_result J p) p (print_line ''Promise rejected but never handled: '' e))
       (unhandledRejectedPromises e) e"

definition abort :: "('p, 'v, 'w) spidermonkey \<Rightarrow> string \<Rightarrow> ('p, 'v, 'w) engine_state \<Rightarrow> ('p, 'v, 'w) engine_state" where
  "abort J description e =
     (let e = (if pending_exception e \<noteq> None then DumpPendingException J description e
               else print_line (''Error while '' @ description @ '', but no exception is pending. ''
                      @ ''Aborting, since that doesn't seem recoverable at all.'' @ newline) e)
      in if unhandledRejectedPromises e \<noteq> []
         then report_unhandled_promise_rejections J
                (print_line (''Additionally, some promises were rejected, but the rejection never handled:'' @ newline) e)
         else e)"

subsection \<open>Math.random\<close>

definition random_get_u32 :: "64 word \<Rightarrow> 32 word" where
  "random_get_u32 x = ucast x"

definition math_random :: "64 word \<Rightarrow> rat" where
  "math_random x = of_nat (unat (random_get_u32 x)) / 2 ^ 32"

subsection \<open>Evaluating the program\<close>

datatype 's ended = Returned bool 's | Exited 's | Stopped

partial_function (option) run_reactions :: "('p, 'v, 'w) spidermonkey \<Rightarrow> ('v, ('p, 'v, 'w) engine_state) host
    \<Rightarrow> ('p, 'v, 'w) run_state \<Rightarrow> ('p, 'v, 'w) run_state ended option" where
  "run_reactions J h st =
     (if has_jobs h (engine st)
      then let st = run_jobs h st
           in if pending_exception (engine st) \<noteq> None
              then Some (Exited (st\<lparr>engine := abort J ''running Promise reactions'' (engine st)\<rparr>))
              else run_reactions J h st
      else Some (Returned True st))"

definition Engine_eval_toplevel :: "nat \<Rightarrow> 'v script_engine \<Rightarrow> ('p, 'v, 'w) spidermonkey \<Rightarrow> ('v, ('p, 'v, 'w) engine_state) host
    \<Rightarrow> bool \<Rightarrow> string \<Rightarrow> ('p, 'v, 'w) run_state \<Rightarrow> ('v \<times> ('p, 'v, 'w) run_state ended) option" where
  "Engine_eval_toplevel n E J h module_mode path st =
     (case load_top_level_script n E module_mode path (loader_state (engine st)) of
        None \<Rightarrow> None
      | Some (r, l) \<Rightarrow>
          let st = after_load J r (st\<lparr>engine := (engine st)\<lparr>loader_state := l\<rparr>\<rparr>)
          in case r of
               Inl _ \<Rightarrow> Some (undefined_value J, Returned False st)
             | Inr v \<Rightarrow>
                 (case run_reactions J h st of
                    None \<Rightarrow> None
                  | Some (Returned b st) \<Rightarrow>
                      Some (v, Returned True (if unhandledRejectedPromises (engine st) \<noteq> []
                        then st\<lparr>engine := report_unhandled_promise_rejections J (engine st)\<rparr> else st))
                  | Some other \<Rightarrow> Some (v, other)))"

definition end_of_loop :: "stop + bool \<times> 's \<Rightarrow> 's ended" where
  "end_of_loop r = (case r of Inl _ \<Rightarrow> Stopped | Inr (b, st) \<Rightarrow> Returned b st)"

text \<open>The end of \<open>initialize\<close>: messages about a pending exception and about a failure.\<close>

definition report_end :: "('p, 'v, 'w) spidermonkey \<Rightarrow> 'v \<Rightarrow> bool \<Rightarrow> ('p, 'v, 'w) run_state \<Rightarrow> ('p, 'v, 'w) run_state" where
  "report_end J result success st =
     (let e = (if pending_exception (engine st) \<noteq> None then DumpPendingException J ''Error evaluating code: '' (engine st) else engine st);
          e = (if success then e else dump_value J result (print_line ''Error running event loop: '' e))
      in st\<lparr>engine := e\<rparr>)"

definition initialize :: "nat \<Rightarrow> 'v script_engine \<Rightarrow> ('p, 'v, 'w) spidermonkey \<Rightarrow> ('v, ('p, 'v, 'w) engine_state) host
    \<Rightarrow> bool \<Rightarrow> string \<Rightarrow> ('p, 'v, 'w) run_state \<Rightarrow> ('p, 'v, 'w) run_state ended option" where
  "initialize n E J h installed filename st =
     (if \<not> installed then Some (Returned False st)
      else case Engine_eval_toplevel n E J h True filename st of
             None \<Rightarrow> None
           | Some (result, Returned False st) \<Rightarrow> Some (Returned False (report_end J result False st))
           | Some (result, Returned True st) \<Rightarrow>
               (case run_event_loop h st of
                  None \<Rightarrow> None
                | Some r \<Rightarrow> Some (case end_of_loop r of Returned b st \<Rightarrow> Returned b (report_end J result b st) | other \<Rightarrow> other))
           | Some (result, other) \<Rightarrow> Some other)"

definition exports_wasi_cli_run_run :: "nat \<Rightarrow> 'v script_engine \<Rightarrow> ('p, 'v, 'w) spidermonkey \<Rightarrow> ('v, ('p, 'v, 'w) engine_state) host
    \<Rightarrow> bool \<Rightarrow> ('p, 'v, 'w) run_state \<Rightarrow> ('p, 'v, 'w) run_state ended option" where
  "exports_wasi_cli_run_run n E J h installed st = initialize n E J h installed ''filename'' st"

text \<open>The start before the snapshot: a failure ends the process, else the engine is marked.\<close>

datatype mode = PreWizening | PostWizening

definition wizen :: "nat \<Rightarrow> 'v script_engine \<Rightarrow> ('p, 'v, 'w) spidermonkey \<Rightarrow> ('v, ('p, 'v, 'w) engine_state) host
    \<Rightarrow> bool \<Rightarrow> string \<Rightarrow> ('p, 'v, 'w) run_state \<Rightarrow> (mode \<times> ('p, 'v, 'w) run_state ended) option" where
  "wizen n E J h installed filename st =
     (case initialize n E J h installed filename st of
        None \<Rightarrow> None
      | Some (Returned True st) \<Rightarrow> Some (PostWizening, Returned True st)
      | Some (Returned False st) \<Rightarrow> Some (PreWizening, Exited st)
      | Some other \<Rightarrow> Some (PreWizening, other))"

subsection \<open>Rejected promises that stay\<close>

text \<open>The last word about a promise in a run of the tracker.\<close>

definition still_unhandled :: "'p list \<Rightarrow> 'p rejection_event list \<Rightarrow> 'p \<Rightarrow> bool" where
  "still_unhandled start evs p \<longleftrightarrow>
     (case filter (\<lambda>ev. ev = Unhandled p \<or> ev = Handled p) (rev evs) of
        [] \<Rightarrow> p \<in> set start
      | ev # _ \<Rightarrow> ev = Unhandled p)"

lemma still_unhandled_snoc:
  "still_unhandled start (evs @ [ev]) p \<longleftrightarrow> (if ev = Unhandled p then True else if ev = Handled p then False else still_unhandled start evs p)"
  by (auto simp: still_unhandled_def)

text \<open>
  C34. The set of promises that the engine reports as rejected without a handler has exactly the
  promises of which the engine said so last, each once.
\<close>

theorem rejected_promises_tracked:
  assumes "distinct (unhandledRejectedPromises e)"
  shows "distinct (unhandledRejectedPromises (fold rejection_tracker evs e))
    \<and> set (unhandledRejectedPromises (fold rejection_tracker evs e)) = {p. still_unhandled (unhandledRejectedPromises e) evs p}"
proof (induction evs rule: rev_induct)
  case Nil
  show ?case using assms by (simp add: still_unhandled_def)
next
  case (snoc ev evs)
  then show ?case
    by (cases ev) (auto simp: rejection_tracker_def still_unhandled_snoc distinct_removeAll)
qed

theorem rejected_promises_tracked_witness:
  "set (unhandledRejectedPromises (fold rejection_tracker [Unhandled 1, Unhandled 2, Handled 1]
     \<lparr>loader_state = no_modules, unhandledRejectedPromises = [], pending_exception = None :: nat option, stderr_lines = [], world = ()\<rparr>)) = {2 :: nat}"
proof -
  let ?e = "\<lparr>loader_state = no_modules, unhandledRejectedPromises = [] :: nat list, pending_exception = None :: nat option, stderr_lines = [], world = ()\<rparr>"
  have "still_unhandled [] [Unhandled 1, Unhandled 2, Handled 1] p \<longleftrightarrow> p = 2" for p :: nat
    by (auto simp: still_unhandled_def)
  then show ?thesis using rejected_promises_tracked [of ?e "[Unhandled 1, Unhandled 2, Handled 1]"] by simp
qed

subsection \<open>A successful start\<close>

lemma run_event_loop_quiet:
  "run_event_loop h st = Some (Inr (True, t)) \<Longrightarrow> \<not> has_jobs h (engine t) \<and> tasks t = []"
proof -
  assume ret: "run_event_loop h st = Some (Inr (True, t))"
  have "\<forall>t. r = Inr (True, t) \<longrightarrow> \<not> has_jobs h (engine t) \<and> tasks t = []" if "run_event_loop h st = Some r" for r
  proof (rule run_event_loop.raw_induct [where P = "\<lambda>h st r. \<forall>t. r = Inr (True, t) \<longrightarrow> \<not> has_jobs h (engine t) \<and> tasks t = []", OF _ that])
    fix f h st r
    assume IH: "\<And>h st r. f h st = Some r \<Longrightarrow> \<forall>t. r = Inr (True, t) \<longrightarrow> \<not> has_jobs h (engine t) \<and> tasks t = []"
      and eq: "(case drain_jobs h st of None \<Rightarrow> None | Some (Inl e) \<Rightarrow> Some (Inl e)
        | Some (Inr st) \<Rightarrow> (case (if has_pending_async_tasks st then process_task h st else Inr (True, st)) of
             Inl e \<Rightarrow> Some (Inl e)
           | Inr (ok, st) \<Rightarrow> if \<not> ok then Some (Inr (False, st))
               else if has_jobs h (engine st) \<or> has_pending_async_tasks st then f h st else Some (Inr (True, st)))) = Some r"
    show "\<forall>t. r = Inr (True, t) \<longrightarrow> \<not> has_jobs h (engine t) \<and> tasks t = []"
    proof (intro allI impI)
      fix t
      assume r: "r = Inr (True, t)"
      then obtain st1 st2 where "drain_jobs h st = Some (Inr st1)"
        and two: "(if has_pending_async_tasks st1 then process_task h st1 else Inr (True, st1)) = Inr (True, st2)"
        and last: "(if has_jobs h (engine st2) \<or> has_pending_async_tasks st2 then f h st2 else Some (Inr (True, st2))) = Some r"
        using eq by (auto split: option.splits sum.splits prod.splits if_split_asm)
      from last show "\<not> has_jobs h (engine t) \<and> tasks t = []"
        using IH [of h st2 r] r by (auto simp: has_pending_async_tasks_def split: if_split_asm)
    qed
  qed
  with ret show ?thesis by blast
qed


subsection \<open>A start\<close>

definition demo_spidermonkey :: "(nat, nat, unit) spidermonkey" where
  "demo_spidermonkey = \<lparr>value_to_source = (\<lambda>v. Some (decimal v)), error_message = (\<lambda>_. None), exception_stack = (\<lambda>_. None),
     resolution_site = (\<lambda>_. None), exception_retrieved = (\<lambda>_. True), pending_stack = (\<lambda>_. None), stack_text = (\<lambda>_. None), promise_result = id, undefined_value = 0, after_load = (\<lambda>_ st. st)\<rparr>"

definition quiet_host :: "(nat, (nat, nat, unit) engine_state) host" where
  "quiet_host = \<lparr>clock_now = (\<lambda>_. 0), fresh_handle = (\<lambda>_. 0), poll = (\<lambda>_ e. ([0], e)), call_js = (\<lambda>_ _ st. (True, st)),
     has_jobs = (\<lambda>_. False), run_jobs = (\<lambda>st. st), exception_pending = (\<lambda>e. pending_exception e \<noteq> None),
     is_callable = (\<lambda>_. True), to_int32 = (\<lambda>_. None)\<rparr>"

definition started :: "loader \<Rightarrow> (nat, nat, unit) run_state" where
  "started l = \<lparr>heap = Map.empty, next_ref = 0, tasks = [], pollables = [],
     engine = \<lparr>loader_state = l, unhandledRejectedPromises = [], pending_exception = None, stderr_lines = [], world = ()\<rparr>\<rparr>"

lemma demo_start: "initialize 3 demo_engine demo_spidermonkey quiet_host True ''/app/main.js'' (started no_modules)
    = Some (Returned True (started demo_loaded))"
  by (simp add: initialize_def Engine_eval_toplevel_def demo_load started_def demo_spidermonkey_def quiet_host_def
      run_reactions.simps run_event_loop.simps drain_jobs.simps has_pending_async_tasks_def end_of_loop_def report_end_def)


subsection \<open>Math.random\<close>

lemma math_random_range: "0 \<le> math_random x \<and> math_random x < 1"
proof -
  define k where "k = unat (random_get_u32 x)"
  have "k < 2 ^ 32" unfolding k_def using unsigned_less [of "random_get_u32 x", where 'a = nat] by simp
  then have "(of_nat k :: rat) < of_nat (2 ^ 32)" by (simp only: of_nat_less_iff)
  then show ?thesis by (simp add: math_random_def k_def [symmetric])
qed

end
