(* ===== verification/Text_Codec.thy ===== *)
theory Text_Codec
  imports Prelude
begin

section \<open>TextDecoder and TextEncoder\<close>

text \<open>
  \<open>builtins/web/text-codec\<close>.

  \<^item> \<open>codec_engine\<close> has what is not in the repository: the decoders of \<open>encoding_rs\<close>, which are
    values here (\<open>encoding_new_decoder_..._into\<close> overwrites one), conversions to strings, and the
    partial encoder of the engine.  A decoding step gets the bytes, the size of its output buffer
    and whether they are the last ones; it answers with a result code, the output and the decoder.
  \<^item> A script value is what the builtins look at: whether it is a buffer, and what the members of an
    object convert to.
  \<^item> Two error messages are formatted with an argument that is not a string or not there;
    \<open>stray_argument\<close> is what the formatter reads then.
\<close>

type_synonym units = "16 word list"

record script_object =
  buffer_bytes :: "byte list option"
  byte_view :: "byte list option"
  is_view :: bool
  is_large_view :: bool
  boolean_member :: "string \<Rightarrow> js_error + bool"

datatype script_value = Undefined | Null | Str units | Primitive | Object script_object

record ('e, 'd) codec_engine =
  encoding_for_label_no_replacement :: "string \<Rightarrow> 'e option"
  encoding_name :: "'e \<Rightarrow> string"
  decoder_without_bom_handling :: "'e \<Rightarrow> 'd"
  decoder_with_bom_removal :: "'e \<Rightarrow> 'd"
  decoder_max_utf16_buffer_length :: "'d \<Rightarrow> nat \<Rightarrow> nat"
  decoder_decode_to_utf16 :: "'d \<Rightarrow> byte list \<Rightarrow> nat \<Rightarrow> bool \<Rightarrow> 32 word \<times> units \<times> 'd"
  decode_without_replacement :: "'d \<Rightarrow> byte list \<Rightarrow> nat \<Rightarrow> bool \<Rightarrow> 32 word \<times> units \<times> 'd"
  to_utf8 :: "script_value \<Rightarrow> string option"
  to_units :: "script_value \<Rightarrow> units option"
  encode_partial :: "units \<Rightarrow> nat \<Rightarrow> (nat \<times> byte list) option"
  stray_argument :: string

record ('e, 'd) text_decoder =
  dec :: 'd
  enc :: 'e
  Fatal :: bool
  IgnoreBOM :: bool

subsection \<open>Arguments\<close>

definition argument :: "nat \<Rightarrow> script_value list \<Rightarrow> script_value" where
  "argument i args = (if i < length args then args ! i else Undefined)"

definition has_defined :: "nat \<Rightarrow> script_value list \<Rightarrow> bool" where
  "has_defined i args \<longleftrightarrow> i < length args \<and> args ! i \<noteq> Undefined"

definition value_to_buffer_bytes :: "('e, 'd) codec_engine \<Rightarrow> string \<Rightarrow> script_value \<Rightarrow> js_error + byte list" where
  "value_to_buffer_bytes E what v =
     (case (case v of Object ob \<Rightarrow> buffer_bytes ob | _ \<Rightarrow> None) of
        None \<Rightarrow> Inl (ReportError (what @ '' must be of type ArrayBuffer or ArrayBufferView but got '' @ [CHR 0x22] @ stray_argument E @ [CHR 0x22]))
      | Some bytes \<Rightarrow> Inr bytes)"

definition interface_error :: "string \<Rightarrow> string \<Rightarrow> js_error" where
  "interface_error called class_name =
     ReportError ([CHR 0x27] @ called @ [CHR 0x27] @ '' called on an object that does not implement interface '' @ class_name)"

subsection \<open>TextDecoder\<close>

definition new_decoder :: "('e, 'd) codec_engine \<Rightarrow> 'e \<Rightarrow> bool \<Rightarrow> 'd" where
  "new_decoder E encoding ignoreBOM =
     (if ignoreBOM then decoder_without_bom_handling E encoding else decoder_with_bom_removal E encoding)"

definition decoder_options :: "script_value list \<Rightarrow> js_error + bool \<times> bool" where
  "decoder_options args =
     (if \<not> has_defined 1 args then Inr (False, False)
      else case argument 1 args of
             Object options \<Rightarrow>
               rbind (boolean_member options ''fatal'') (\<lambda>fatal.
               rbind (boolean_member options ''ignoreBOM'') (\<lambda>ignoreBOM. Inr (fatal, ignoreBOM)))
           | Null \<Rightarrow> Inr (False, False)
           | _ \<Rightarrow> Inl (ReportError ''TextDecoder constructor: options argument can't be converted to a dictionary.''))"

definition invalid_encoding :: "('e, 'd) codec_engine \<Rightarrow> js_error" where
  "invalid_encoding E =
     ReportError (''TextDecoder constructor: The given encoding '' @ [CHR 0x27] @ stray_argument E @ [CHR 0x27] @ '' is not supported.'')"

definition TextDecoder_constructor :: "('e, 'd) codec_engine \<Rightarrow> script_value list \<Rightarrow> js_error + ('e, 'd) text_decoder" where
  "TextDecoder_constructor E args =
     rbind (if argument 0 args = Undefined then Inr (encoding_for_label_no_replacement E ''UTF-8'')
            else case to_utf8 E (argument 0 args) of
                   None \<Rightarrow> Inl PendingException
                 | Some label \<Rightarrow> Inr (encoding_for_label_no_replacement E label)) (\<lambda>found.
       case found of
         None \<Rightarrow> Inl (invalid_encoding E)
       | Some encoding \<Rightarrow>
           rbind (decoder_options args) (\<lambda>(fatal, ignoreBOM).
             Inr \<lparr>dec = new_decoder E encoding ignoreBOM, enc = encoding, Fatal = fatal, IgnoreBOM = ignoreBOM\<rparr>))"

definition decode_stream_flag :: "script_value list \<Rightarrow> js_error + bool" where
  "decode_stream_flag args =
     (if \<not> has_defined 1 args then Inr False
      else case argument 1 args of
             Object options \<Rightarrow> boolean_member options ''stream''
           | _ \<Rightarrow> Inl (ReportError ''TextDecoder.decode: options argument can't be converted to a dictionary.''))"

text \<open>The decoder that is left goes with both outcomes: it is a slot of the object.\<close>

definition decode_bytes :: "('e, 'd) codec_engine \<Rightarrow> ('e, 'd) text_decoder \<Rightarrow> byte list \<Rightarrow> bool
    \<Rightarrow> (js_error + units) \<times> ('e, 'd) text_decoder" where
  "decode_bytes E self src stream =
     (let destLen = decoder_max_utf16_buffer_length E (dec self) (length src);
          (result, dest, d) = (if Fatal self then decode_without_replacement E (dec self) src destLen (\<not> stream)
                               else decoder_decode_to_utf16 E (dec self) src destLen (\<not> stream));
          self = self\<lparr>dec := d\<rparr>
      in if Fatal self \<and> result \<noteq> 0 then (Inl (ReportError ''TextDecoder.decode: Decoding failed.''), self)
         else (Inr dest, if \<not> stream then self\<lparr>dec := new_decoder E (enc self) (IgnoreBOM self)\<rparr> else self))"

definition TextDecoder_decode :: "('e, 'd) codec_engine \<Rightarrow> ('e, 'd) text_decoder \<Rightarrow> script_value list
    \<Rightarrow> (js_error + units) \<times> ('e, 'd) text_decoder" where
  "TextDecoder_decode E self args =
     (case (if argument 0 args = Undefined then Inr [] else value_to_buffer_bytes E ''TextDecoder#decode: input'' (argument 0 args)) of
        Inl e \<Rightarrow> (Inl e, self)
      | Inr src \<Rightarrow> (case decode_stream_flag args of
                      Inl e \<Rightarrow> (Inl e, self)
                    | Inr stream \<Rightarrow> decode_bytes E self src stream))"

text \<open>
  The getters, for an object whose prototype is that of the class or, as for an instance of a
  subclass, is not.
\<close>

definition ascii_lower :: "char \<Rightarrow> char" where
  "ascii_lower c = (if 65 \<le> (of_char c :: nat) \<and> (of_char c :: nat) \<le> 90 then char_of ((of_char c :: nat) + 32) else c)"

definition TextDecoder_encoding_get :: "('e, 'd) codec_engine \<Rightarrow> bool \<Rightarrow> ('e, 'd) text_decoder \<Rightarrow> js_error + string" where
  "TextDecoder_encoding_get E own_proto self =
     (if \<not> own_proto then Inl (interface_error ''encoding get'' ''TextDecoder'')
      else Inr (map ascii_lower (encoding_name E (enc self))))"

definition TextDecoder_fatal_get :: "bool \<Rightarrow> ('e, 'd) text_decoder \<Rightarrow> js_error + bool" where
  "TextDecoder_fatal_get own_proto self =
     (if \<not> own_proto then Inl (interface_error ''fatal get'' ''TextDecoder'') else Inr (Fatal self))"

definition TextDecoder_ignoreBOM_get :: "bool \<Rightarrow> ('e, 'd) text_decoder \<Rightarrow> js_error + bool" where
  "TextDecoder_ignoreBOM_get own_proto self =
     (if \<not> own_proto then Inl (interface_error ''ignoreBOM get'' ''TextDecoder'') else Inr (IgnoreBOM self))"

subsection \<open>TextEncoder\<close>

text \<open>
  \<open>encode\<close> does not look at a failure of \<open>core::encode\<close>: it goes on with an empty string.  The
  first component says whether an exception is pending when it returns.
\<close>

definition TextEncoder_encode :: "('e, 'd) codec_engine \<Rightarrow> script_value list \<Rightarrow> bool \<times> byte list" where
  "TextEncoder_encode E args =
     (if argument 0 args = Undefined then (False, [])
      else case to_utf8 E (argument 0 args) of
             None \<Rightarrow> (True, [])
           | Some chars \<Rightarrow> (False, map byte_of chars))"

text \<open>The view that is written to comes back with its new contents.\<close>

definition invalid_array :: js_error where
  "invalid_array = ReportError ''TextEncoder.encodeInto: Argument 2 does not implement interface Uint8Array.''"

definition TextEncoder_encodeInto :: "('e, 'd) codec_engine \<Rightarrow> script_value list \<Rightarrow> js_error + nat \<times> nat \<times> byte list" where
  "TextEncoder_encodeInto E args =
     (if length args < 2 then Inl (NotEnoughArgs 2)
      else case to_units E (argument 0 args) of
             None \<Rightarrow> Inl PendingException
           | Some source \<Rightarrow>
               (case argument 1 args of
                  Object destination \<Rightarrow>
                    if \<not> is_view destination then Inl invalid_array
                    else if is_large_view destination then Inl invalid_array
                    else (case byte_view destination of
                            None \<Rightarrow> Inl invalid_array
                          | Some span \<Rightarrow>
                              (case encode_partial E source (length span) of
                                 None \<Rightarrow> Inl PendingException
                               | Some (read, bytes) \<Rightarrow> Inr (read, length bytes, bytes @ drop (length bytes) span)))
                | _ \<Rightarrow> Inl invalid_array))"

definition TextEncoder_encoding_get :: "bool \<Rightarrow> js_error + string" where
  "TextEncoder_encoding_get own_proto =
     (if \<not> own_proto then Inl (interface_error ''encoding get'' ''TextEncoder'') else Inr ''utf-8'')"

subsection \<open>Streams of chunks\<close>

text \<open>A step as the decoder makes it, with the output buffer that it allocates.\<close>

definition decode_step :: "('e, 'd) codec_engine \<Rightarrow> bool \<Rightarrow> 'd \<Rightarrow> byte list \<Rightarrow> bool \<Rightarrow> 32 word \<times> units \<times> 'd" where
  "decode_step E fatal d bytes final =
     (let cap = decoder_max_utf16_buffer_length E d (length bytes)
      in if fatal then decode_without_replacement E d bytes cap final else decoder_decode_to_utf16 E d bytes cap final)"

text \<open>
  What the documentation of \<open>encoding_rs\<close> says of a buffer of the maximum length: decoding with
  replacement consumes the input; bytes may be split anywhere between steps; without replacement a
  malformed sequence is found, whichever the split.
\<close>

definition streaming_laws :: "('e, 'd) codec_engine \<Rightarrow> bool" where
  "streaming_laws E \<longleftrightarrow>
     (\<forall>d bytes final. fst (decode_step E False d bytes final) = 0)
   \<and> (\<forall>fatal d a b final r u d' r' v d''. decode_step E fatal d a False = (r, u, d') \<longrightarrow> decode_step E fatal d' b final = (r', v, d'')
        \<longrightarrow> (if r = 0 \<and> r' = 0 then decode_step E fatal d (a @ b) final = (0, u @ v, d'')
             else fst (decode_step E fatal d (a @ b) final) \<noteq> 0))"

definition gives :: "script_value list \<Rightarrow> byte list \<Rightarrow> bool \<Rightarrow> bool" where
  "gives args bytes stream \<longleftrightarrow>
     (case argument 0 args of Undefined \<Rightarrow> bytes = [] | Object ob \<Rightarrow> buffer_bytes ob = Some bytes | _ \<Rightarrow> False)
   \<and> decode_stream_flag args = Inr stream"

definition fresh :: "('e, 'd) codec_engine \<Rightarrow> ('e, 'd) text_decoder \<Rightarrow> bool" where
  "fresh E self \<longleftrightarrow> dec self = new_decoder E (enc self) (IgnoreBOM self)"

fun decode_calls :: "('e, 'd) codec_engine \<Rightarrow> ('e, 'd) text_decoder \<Rightarrow> script_value list list
    \<Rightarrow> (js_error + units) \<times> ('e, 'd) text_decoder" where
  "decode_calls E self [] = (Inr [], self)"
| "decode_calls E self (args # calls) =
     (case TextDecoder_decode E self args of
        (Inl e, t) \<Rightarrow> (Inl e, t)
      | (Inr u, t) \<Rightarrow> (case decode_calls E t calls of (Inl e, t') \<Rightarrow> (Inl e, t') | (Inr v, t') \<Rightarrow> (Inr (u @ v), t')))"

lemma constructed_fresh:
  assumes "TextDecoder_constructor E args = Inr self"
  shows "fresh E self"
proof -
  obtain found where tail: "(case found of
         None \<Rightarrow> Inl (invalid_encoding E)
       | Some encoding \<Rightarrow>
           rbind (decoder_options args) (\<lambda>(fatal, ignoreBOM).
             Inr \<lparr>dec = new_decoder E encoding ignoreBOM, enc = encoding, Fatal = fatal, IgnoreBOM = ignoreBOM\<rparr>)) = Inr self"
    using assms unfolding TextDecoder_constructor_def rbind_eq_Inr by blast
  then show ?thesis by (cases found; cases "decoder_options args") (auto simp: fresh_def)
qed

lemma decode_gives:
  assumes "gives args bytes stream"
  shows "TextDecoder_decode E self args = decode_bytes E self bytes stream"
  using assms by (auto simp: gives_def TextDecoder_decode_def value_to_buffer_bytes_def split: script_value.splits)

lemma decode_bytes_step:
  "decode_bytes E self bytes stream =
     (case decode_step E (Fatal self) (dec self) bytes (\<not> stream) of (r, u, d) \<Rightarrow>
        if Fatal self \<and> r \<noteq> 0 then (Inl (ReportError ''TextDecoder.decode: Decoding failed.''), self\<lparr>dec := d\<rparr>)
        else (Inr u, self\<lparr>dec := if stream then d else new_decoder E (enc self) (IgnoreBOM self)\<rparr>))"
  by (simp add: decode_bytes_def decode_step_def Let_def split: prod.split)

lemma replacement_decodes: "streaming_laws E \<Longrightarrow> decode_step E False d bytes final = (r, u, d') \<Longrightarrow> r = 0"
proof -
  assume laws: "streaming_laws E" and one: "decode_step E False d bytes final = (r, u, d')"
  have "\<forall>d bytes final. fst (decode_step E False d bytes final) = 0" using laws unfolding streaming_laws_def by (rule conjunct1)
  then have "fst (decode_step E False d bytes final) = 0" by blast
  then show ?thesis by (simp add: one)
qed

lemma step_split:
  "streaming_laws E \<Longrightarrow> decode_step E fatal d a False = (r, u, d') \<Longrightarrow> decode_step E fatal d' b final = (r', v, d'')
    \<Longrightarrow> if r = 0 \<and> r' = 0 then decode_step E fatal d (a @ b) final = (0, u @ v, d'')
        else fst (decode_step E fatal d (a @ b) final) \<noteq> 0"
  proof -
  assume laws: "streaming_laws E" and one: "decode_step E fatal d a False = (r, u, d')" and two: "decode_step E fatal d' b final = (r', v, d'')"
  have all: "\<forall>fatal d a b final r u d' r' v d''. decode_step E fatal d a False = (r, u, d') \<longrightarrow> decode_step E fatal d' b final = (r', v, d'')
        \<longrightarrow> (if r = 0 \<and> r' = 0 then decode_step E fatal d (a @ b) final = (0, u @ v, d'')
             else fst (decode_step E fatal d (a @ b) final) \<noteq> 0)"
    using laws unfolding streaming_laws_def by (rule conjunct2)
  show ?thesis using all [rule_format, OF one two] by (simp split: if_splits)
qed

text \<open>What the chunks give is one step over all their bytes, and the last call resets the decoder.\<close>

lemma decode_calls_step:
  assumes laws: "streaming_laws E" and "list_all2 (\<lambda>args b. gives args b True) calls chunks" and "gives final c False"
  shows "case decode_step E (Fatal self) (dec self) (concat chunks @ c) True of (r, u, d) \<Rightarrow>
      if r = 0 then decode_calls E self (calls @ [final]) = (Inr u, self\<lparr>dec := new_decoder E (enc self) (IgnoreBOM self)\<rparr>)
      else \<exists>e t. decode_calls E self (calls @ [final]) = (Inl e, t)"
  using assms(2)
proof (induction calls arbitrary: chunks self)
  case Nil
  obtain r u d where one: "decode_step E (Fatal self) (dec self) c True = (r, u, d)" by (metis prod_cases3)
  then have "\<not> Fatal self \<Longrightarrow> r = 0" using replacement_decodes [OF laws] by auto
  then show ?case using Nil one by (auto simp: decode_gives [OF assms(3)] decode_bytes_step)
next
  case (Cons args calls)
  then obtain b bs where chunks: "chunks = b # bs" and b: "gives args b True" and rest: "list_all2 (\<lambda>args b. gives args b True) calls bs"
    by (auto simp: list_all2_Cons1)
  obtain r u d' where one: "decode_step E (Fatal self) (dec self) b False = (r, u, d')" by (metis prod_cases3)
  obtain r' v d'' where two: "decode_step E (Fatal self) d' (concat bs @ c) True = (r', v, d'')" by (metis prod_cases3)
  have ok: "\<not> Fatal self \<longrightarrow> r = 0"
    using replacement_decodes [OF laws] one by auto
  have split: "if r = 0 \<and> r' = 0 then decode_step E (Fatal self) (dec self) (b @ concat bs @ c) True = (0, u @ v, d'')
      else fst (decode_step E (Fatal self) (dec self) (b @ concat bs @ c) True) \<noteq> 0"
    using step_split [OF laws one two] .
  have IH: "if r' = 0 then decode_calls E (self\<lparr>dec := d'\<rparr>) (calls @ [final]) = (Inr v, self\<lparr>dec := new_decoder E (enc self) (IgnoreBOM self)\<rparr>)
      else \<exists>e t. decode_calls E (self\<lparr>dec := d'\<rparr>) (calls @ [final]) = (Inl e, t)"
    using Cons.IH [OF rest, of "self\<lparr>dec := d'\<rparr>"] two by simp
  show ?case
  proof (cases "r = 0")
    case True
    then have first: "TextDecoder_decode E self args = (Inr u, self\<lparr>dec := d'\<rparr>)"
      using one by (simp add: decode_gives [OF b] decode_bytes_step)
    show ?thesis
    proof (cases "r' = 0")
      case zero: True
      then show ?thesis using True split IH by (simp add: chunks first)
    next
      case False
      then obtain e t where "decode_calls E (self\<lparr>dec := d'\<rparr>) (calls @ [final]) = (Inl e, t)" using IH by auto
      then show ?thesis using False split by (auto simp: chunks first)
    qed
  next
    case False
    then have "\<exists>e t. TextDecoder_decode E self args = (Inl e, t)"
      using one ok by (auto simp: decode_gives [OF b] decode_bytes_step)
    then show ?thesis using False split by (auto simp: chunks)
  qed
qed

text \<open>
  C36. Decoding a stream chunk by chunk, with a last call that is not part of a stream, is decoding
  all the bytes in one call: it succeeds exactly if the one call does, with the same text, and both
  leave the object as it was made.
\<close>

theorem streamed_decoding_is_one_decoding:
  assumes "streaming_laws E" and "TextDecoder_constructor E cargs = Inr self"
    and "list_all2 (\<lambda>args b. gives args b True) calls chunks" and "gives final c False"
    and whole: "gives args (concat chunks @ c) False"
  shows "(decode_calls E self (calls @ [final]) = (Inr u, t) \<longleftrightarrow> TextDecoder_decode E self args = (Inr u, t))
    \<and> (TextDecoder_decode E self args = (Inr u, t) \<longrightarrow> t = self)"
proof -
  have "dec self = new_decoder E (enc self) (IgnoreBOM self)" using constructed_fresh [OF assms(2)] by (simp add: fresh_def)
  then have self: "self\<lparr>dec := new_decoder E (enc self) (IgnoreBOM self)\<rparr> = self" by (cases self) simp
  obtain r v d where one: "decode_step E (Fatal self) (dec self) (concat chunks @ c) True = (r, v, d)" by (metis prod_cases3)
  then have ok: "\<not> Fatal self \<Longrightarrow> r = 0" using replacement_decodes [OF assms(1)] by auto
  have calls: "if r = 0 then decode_calls E self (calls @ [final]) = (Inr v, self)
      else \<exists>e t. decode_calls E self (calls @ [final]) = (Inl e, t)"
    using decode_calls_step [OF assms(1,3,4), of self] one self by simp
  show ?thesis
  proof (cases "r = 0")
    case True
    then show ?thesis using calls one self by (auto simp: decode_gives [OF whole] decode_bytes_step)
  next
    case False
    then have "\<exists>e t. TextDecoder_decode E self args = (Inl e, t)"
      using one ok by (auto simp: decode_gives [OF whole] decode_bytes_step)
    then show ?thesis using calls False by auto
  qed
qed

text \<open>
  A call that fails, with an encoding error of a fatal decoder, does not reset the decoder: the
  next call goes on with what the failed one left.
\<close>

theorem failed_decode_is_not_reset:
  assumes "gives args b False" and "gives args' b' stream" and "TextDecoder_decode E self args = (Inl e, t)"
  shows "Fatal self \<and> TextDecoder_decode E t args'
    = decode_bytes E (self\<lparr>dec := snd (snd (decode_step E True (dec self) b True))\<rparr>) b' stream"
  using assms(3) unfolding decode_gives [OF assms(1)] decode_gives [OF assms(2)] decode_bytes_step [of E self]
  by (auto split: prod.splits if_splits)

subsection \<open>Encoding in pieces\<close>

text \<open>
  What is known of the encoder of the engine: it encodes a prefix, as long as there is room, and any
  character needs four bytes at most.
\<close>

definition encoder_laws :: "('e, 'd) codec_engine \<Rightarrow> (units \<Rightarrow> byte list) \<Rightarrow> bool" where
  "encoder_laws E utf8 \<longleftrightarrow>
     utf8 [] = [] \<and> (\<forall>u. to_units E (Str u) = Some u \<and> to_utf8 E (Str u) = Some (map char_of_byte (utf8 u)))
   \<and> (\<forall>src cap. \<exists>read bytes. encode_partial E src cap = Some (read, bytes) \<and> read \<le> length src \<and> length bytes \<le> cap
        \<and> utf8 src = bytes @ utf8 (drop read src) \<and> (src \<noteq> [] \<and> 4 \<le> cap \<longrightarrow> 0 < read))"

definition uint8_array :: "byte list \<Rightarrow> script_value" where
  "uint8_array span = Object \<lparr>buffer_bytes = Some span, byte_view = Some span, is_view = True, is_large_view = False,
     boolean_member = (\<lambda>_. Inr False)\<rparr>"

text \<open>A script that encodes what is left of a string into one view after the other.\<close>

fun encode_into_views :: "('e, 'd) codec_engine \<Rightarrow> units \<Rightarrow> byte list list \<Rightarrow> (byte list \<times> units) option" where
  "encode_into_views E src [] = Some ([], src)"
| "encode_into_views E src (span # spans) =
     (case TextEncoder_encodeInto E [Str src, uint8_array span] of
        Inl _ \<Rightarrow> None
      | Inr (read, written, after) \<Rightarrow>
          map_option (\<lambda>(out, rest). (take written after @ out, rest)) (encode_into_views E (drop read src) spans))"

lemma encodeInto_prefix:
  assumes "encoder_laws E utf8"
  obtains read written after where "TextEncoder_encodeInto E [Str src, uint8_array span] = Inr (read, written, after)"
    and "read \<le> length src" and "written \<le> length span" and "length after = length span" and "drop written after = drop written span"
    and "utf8 src = take written after @ utf8 (drop read src)" and "src \<noteq> [] \<Longrightarrow> 4 \<le> length span \<Longrightarrow> 0 < read"
proof -
  obtain read bytes where "encode_partial E src (length span) = Some (read, bytes)" "read \<le> length src" "length bytes \<le> length span"
    "utf8 src = bytes @ utf8 (drop read src)" "src \<noteq> [] \<and> 4 \<le> length span \<longrightarrow> 0 < read" "to_units E (Str src) = Some src"
    using assms unfolding encoder_laws_def by metis
  then show thesis by (intro that [of read "length bytes" "bytes @ drop (length bytes) span"])
      (auto simp: TextEncoder_encodeInto_def argument_def uint8_array_def)
qed

text \<open>
  C37. A script that calls encodeInto on what is left of a string, with views of four bytes or more,
  has encoded all of it after as many views as it has code units at the latest; the bytes written
  are those that encode returns.
\<close>

theorem encode_into_pieces:
  assumes laws: "encoder_laws E utf8" and "length src \<le> length spans" and "\<forall>span\<in>set spans. 4 \<le> length span"
  shows "\<exists>out. encode_into_views E src spans = Some (out, []) \<and> TextEncoder_encode E [Str src] = (False, out)"
proof -
  have "TextEncoder_encode E [Str src] = (False, utf8 src)"
    using laws by (simp add: encoder_laws_def TextEncoder_encode_def argument_def o_def)
  moreover have "encode_into_views E src spans = Some (utf8 src, [])"
    using assms(2,3)
  proof (induction spans arbitrary: src)
    case Nil
    then show ?case using laws by (simp add: encoder_laws_def)
  next
    case (Cons span spans)
    obtain read written after where call: "TextEncoder_encodeInto E [Str src, uint8_array span] = Inr (read, written, after)"
      and out: "utf8 src = take written after @ utf8 (drop read src)" and "src \<noteq> [] \<Longrightarrow> 4 \<le> length span \<Longrightarrow> 0 < read"
      using encodeInto_prefix [OF laws] by metis
    then have "length (drop read src) \<le> length spans" using Cons.prems by (cases "src = []") auto
    then show ?case using Cons call out by simp
  qed
  ultimately show ?thesis by blast
qed

subsection \<open>A small codec\<close>

text \<open>A byte order mark FE is dropped once, FF is malformed, all else stands for itself.\<close>

fun demo_decode :: "bool \<Rightarrow> bool \<Rightarrow> byte list \<Rightarrow> 32 word \<times> units \<times> bool" where
  "demo_decode fatal bom [] = (0, [], bom)"
| "demo_decode fatal bom (b # bs) =
     (if bom \<and> b = 0xFE then demo_decode fatal False bs
      else if b = 0xFF \<and> fatal then (1, [], False)
      else (case demo_decode fatal False bs of (r, u, e) \<Rightarrow> (r, (if b = 0xFF then 0xFFFD else ucast b) # u, e)))"

definition demo_codec :: "(unit, bool) codec_engine" where
  "demo_codec = \<lparr>encoding_for_label_no_replacement = (\<lambda>_. Some ()), encoding_name = (\<lambda>_. ''DEMO''),
     decoder_without_bom_handling = (\<lambda>_. False), decoder_with_bom_removal = (\<lambda>_. True),
     decoder_max_utf16_buffer_length = (\<lambda>_ n. n), decoder_decode_to_utf16 = (\<lambda>d bs _ _. demo_decode False d bs),
     decode_without_replacement = (\<lambda>d bs _ _. demo_decode True d bs),
     to_utf8 = (\<lambda>v. case v of Str u \<Rightarrow> Some (map (char_of_byte \<circ> ucast) u) | _ \<Rightarrow> None),
     to_units = (\<lambda>v. case v of Str u \<Rightarrow> Some u | _ \<Rightarrow> None),
     encode_partial = (\<lambda>u cap. Some (min (length u) cap, map ucast (take cap u))), stray_argument = []\<rparr>"

lemma demo_decode_append:
  "demo_decode fatal d (a @ b) =
     (case demo_decode fatal d a of (r, u, d') \<Rightarrow>
        if r = 0 then (case demo_decode fatal d' b of (r', v, d'') \<Rightarrow> (r', u @ v, d'')) else (r, u, d'))"
  by (induction fatal d a rule: demo_decode.induct) (auto split: prod.splits)

lemma demo_replacement: "fst (demo_decode False d b) = 0"
  by (induction "False" d b rule: demo_decode.induct) (auto split: prod.splits)

lemma demo_step: "decode_step demo_codec fatal d b final = demo_decode fatal d b"
  by (simp add: decode_step_def demo_codec_def Let_def)

lemma demo_streaming: "streaming_laws demo_codec"
  unfolding streaming_laws_def demo_step by (auto simp: demo_replacement demo_decode_append)

lemma demo_encoder: "encoder_laws demo_codec (map ucast)"
proof -
  have "drop (min (length src) cap) src = drop cap src" for src :: units and cap by (simp add: min_def)
  moreover have "(map ucast src :: byte list) = map ucast (take cap src) @ map ucast (drop cap src)" for src :: units and cap
    by (simp flip: map_append)
  ultimately show ?thesis unfolding encoder_laws_def by (auto simp: demo_codec_def)
qed

definition stream_arg :: script_value where
  "stream_arg = Object \<lparr>buffer_bytes = None, byte_view = None, is_view = False, is_large_view = False,
     boolean_member = (\<lambda>m. Inr (m = ''stream'' \<or> m = ''fatal''))\<rparr>"

lemma demo_gives:
  "gives [uint8_array b, stream_arg] b True" "gives [uint8_array b] b False" "gives [] [] False"
  by (simp_all add: gives_def argument_def decode_stream_flag_def has_defined_def uint8_array_def stream_arg_def)

definition demo_text_decoder :: "(unit, bool) text_decoder" where
  "demo_text_decoder = \<lparr>dec = True, enc = (), Fatal = True, IgnoreBOM = False\<rparr>"

lemma demo_constructed: "TextDecoder_constructor demo_codec [Undefined, stream_arg] = Inr demo_text_decoder"
  by (simp add: TextDecoder_constructor_def argument_def decoder_options_def has_defined_def stream_arg_def demo_codec_def
      new_decoder_def demo_text_decoder_def)

theorem streamed_decoding_is_one_decoding_witness:
  "decode_calls demo_codec demo_text_decoder [[uint8_array [0xFE], stream_arg], [uint8_array [0x41], stream_arg], []]
     = (Inr [0x41], demo_text_decoder)"
proof -
  have chunks: "list_all2 (\<lambda>args b. gives args b True) [[uint8_array [0xFE], stream_arg], [uint8_array [0x41], stream_arg]] [[0xFE], [0x41]]"
    by (simp add: demo_gives)
  have whole: "gives [uint8_array [0xFE, 0x41]] (concat [[0xFE], [0x41]] @ []) False" by (simp add: demo_gives)
  have new: "new_decoder demo_codec () False = True" by (simp add: new_decoder_def demo_codec_def)
  have "TextDecoder_decode demo_codec demo_text_decoder [uint8_array [0xFE, 0x41]] = (Inr [0x41], demo_text_decoder)"
    by (simp add: decode_gives [OF demo_gives(2)] decode_bytes_step demo_step demo_text_decoder_def new)
  then show ?thesis
    using streamed_decoding_is_one_decoding [OF demo_streaming demo_constructed chunks demo_gives(3) whole] by simp
qed

theorem failed_decode_is_not_reset_witness:
  "TextDecoder_decode demo_codec (demo_text_decoder\<lparr>dec := False\<rparr>) [uint8_array [0xFE, 0x41]]
      = (Inr [0xFE, 0x41], demo_text_decoder)
   \<and> TextDecoder_decode demo_codec demo_text_decoder [uint8_array [0xFE, 0x41]] = (Inr [0x41], demo_text_decoder)"
proof -
  have failed: "TextDecoder_decode demo_codec demo_text_decoder [uint8_array [0xFF]]
      = (Inl (ReportError ''TextDecoder.decode: Decoding failed.''), demo_text_decoder\<lparr>dec := False\<rparr>)"
    by (simp add: decode_gives [OF demo_gives(2)] decode_bytes_step demo_step demo_text_decoder_def)
  have new: "new_decoder demo_codec () False = True" by (simp add: new_decoder_def demo_codec_def)
  show ?thesis
    using failed_decode_is_not_reset [OF demo_gives(2) demo_gives(2) failed, of "[0xFE, 0x41]"]
    by (simp add: decode_gives [OF demo_gives(2)] decode_bytes_step demo_step demo_text_decoder_def new)
qed

theorem encode_into_pieces_witness:
  "encode_into_views demo_codec [1, 2, 3, 4, 5] [[0, 0, 0, 0], [0, 0, 0, 0], [0, 0, 0, 0], [0, 0, 0, 0], [0, 0, 0, 0]] = Some ([1, 2, 3, 4, 5], [])"
proof -
  have "TextEncoder_encode demo_codec [Str [1, 2, 3, 4, 5]] = (False, [1, 2, 3, 4, 5])"
    by (simp add: TextEncoder_encode_def argument_def demo_codec_def o_def)
  then show ?thesis
    using encode_into_pieces [OF demo_encoder, of "[1, 2, 3, 4, 5]" "[[0, 0, 0, 0], [0, 0, 0, 0], [0, 0, 0, 0], [0, 0, 0, 0], [0, 0, 0, 0]]"] by simp
qed

end
