(* ===== verification/Web_Globals.thy ===== *)
theory Web_Globals
  imports Url
begin

section \<open>Small globals\<close>

text \<open>
  \<open>dom-exception.cpp\<close>, \<open>structured-clone.cpp\<close>, \<open>worker-location.cpp\<close>, \<open>queue-microtask.cpp\<close>,
  \<open>performance.cpp\<close> and \<open>global_self.cpp\<close> of \<open>builtins/web\<close>.

  \<^item> A getter called on the prototype of \<open>DOMException\<close>, which has the class but no slots, is the
    argument \<open>None\<close>.
  \<^item> Of the structured clone algorithm of the engine, which is a parameter, the two callbacks for
    objects of builtins are modelled, on the heap of \<open>Url\<close>.
  \<^item> \<open>location\<close> has the accessors of the URL of the request, once there is one.
\<close>

subsection \<open>DOMException\<close>

record dom_exception =
  dom_message :: string
  dom_name :: string

definition invalid_interface :: js_error where
  "invalid_interface = ReportError ''name get called on an object that does not implement interface DOMException''"

definition DOMException_name_get :: "dom_exception option \<Rightarrow> js_error + string" where
  "DOMException_name_get self = (case self of None \<Rightarrow> Inl invalid_interface | Some e \<Rightarrow> Inr (dom_name e))"

definition DOMException_message_get :: "dom_exception option \<Rightarrow> js_error + string" where
  "DOMException_message_get self = (case self of None \<Rightarrow> Inl invalid_interface | Some e \<Rightarrow> Inr (dom_message e))"

text \<open>The comparisons of \<open>code_get\<close> in their order.\<close>

definition error_codes :: "(string \<times> int) list" where
  "error_codes =
    [(''IndexSizeError'', 1), (''HierarchyRequestError'', 3), (''WrongDocumentError'', 4),
     (''InvalidCharacterError'', 5), (''NoModificationAllowedError'', 7), (''NotFoundError'', 8),
     (''NotSupportedError'', 9), (''InUseAttributeError'', 10), (''InvalidStateError'', 11), (''SyntaxError'',
     12), (''InvalidModificationError'', 13), (''NamespaceError'', 14), (''InvalidAccessError'', 15),
     (''TypeMismatchError'', 17), (''SecurityError'', 18), (''NetworkError'', 19), (''AbortError'', 20),
     (''URLMismatchError'', 21), (''QuotaExceededError'', 22), (''TimeoutError'', 23),
     (''InvalidNodeTypeError'', 24), (''DataCloneError'', 25)]"

definition code_of_name :: "string \<Rightarrow> int" where
  "code_of_name name = (case map_of error_codes name of Some code \<Rightarrow> code | None \<Rightarrow> 0)"

definition DOMException_code_get :: "dom_exception option \<Rightarrow> js_error + int" where
  "DOMException_code_get self = (case self of None \<Rightarrow> Inl invalid_interface | Some e \<Rightarrow> Inr (code_of_name (dom_name e)))"

definition DOMException_properties :: "(string \<times> int) list" where
  "DOMException_properties =
    [(''INDEX_SIZE_ERR'', 1), (''DOMSTRING_SIZE_ERR'', 2), (''HIERARCHY_REQUEST_ERR'', 3),
     (''WRONG_DOCUMENT_ERR'', 4), (''INVALID_CHARACTER_ERR'', 5), (''NO_DATA_ALLOWED_ERR'', 6),
     (''NO_MODIFICATION_ALLOWED_ERR'', 7), (''NOT_FOUND_ERR'', 8), (''NOT_SUPPORTED_ERR'', 9),
     (''INUSE_ATTRIBUTE_ERR'', 10), (''INVALID_STATE_ERR'', 11), (''SYNTAX_ERR'', 12),
     (''INVALID_MODIFICATION_ERR'', 13), (''NAMESPACE_ERR'', 14), (''INVALID_ACCESS_ERR'', 15),
     (''VALIDATION_ERR'', 16), (''TYPE_MISMATCH_ERR'', 17), (''SECURITY_ERR'', 18), (''NETWORK_ERR'', 19),
     (''ABORT_ERR'', 20), (''URL_MISMATCH_ERR'', 21), (''QUOTA_EXCEEDED_ERR'', 22), (''TIMEOUT_ERR'', 23),
     (''INVALID_NODE_TYPE_ERR'', 24), (''DATA_CLONE_ERR'', 25)]"

text \<open>An argument that is missing or \<open>undefined\<close> is \<open>None\<close>; a conversion may throw.\<close>

definition dom_string :: "(js_error + string) option \<Rightarrow> string \<Rightarrow> js_error + string" where
  "dom_string arg absent = (case arg of None \<Rightarrow> Inr absent | Some conversion \<Rightarrow> conversion)"

definition DOMException_constructor :: "(js_error + string) option \<Rightarrow> (js_error + string) option \<Rightarrow> js_error + dom_exception" where
  "DOMException_constructor message name =
     rbind (dom_string message []) (\<lambda>m. rbind (dom_string name ''Error'') (\<lambda>n. Inr \<lparr>dom_message = m, dom_name = n\<rparr>))"

definition DOMException_create :: "string \<Rightarrow> string \<Rightarrow> dom_exception option" where
  "DOMException_create message name =
     (case DOMException_constructor (Some (Inr message)) (Some (Inr name)) of
        Inl _ \<Rightarrow> None
      | Inr e \<Rightarrow> Some (e\<lparr>dom_message := message, dom_name := name\<rparr>))"

text \<open>The exception that is pending afterwards; a failed creation is dereferenced.\<close>

definition DOMException_raise :: "string \<Rightarrow> string \<Rightarrow> dom_exception option" where
  "DOMException_raise message name = DOMException_create message name"

lemma raise_sets_exception: "DOMException_raise message name = Some \<lparr>dom_message = message, dom_name = name\<rparr>"
  by (simp add: DOMException_raise_def DOMException_create_def DOMException_constructor_def dom_string_def)

text \<open>
  Every code but three of the constants is the code of one name, and no name has another code.
\<close>

lemma dom_exception_codes:
  "range code_of_name - {0} = snd ` set DOMException_properties - {2, 6, 16}"
proof -
  have "distinct (map fst error_codes)" by (simp add: error_codes_def)
  then have "ran (map_of error_codes) = snd ` set error_codes" by (rule ran_distinct)
  moreover have "range code_of_name - {0} = ran (map_of error_codes) - {0}"
  proof (intro set_eqI iffI)
    fix c
    assume "c \<in> ran (map_of error_codes) - {0}"
    then obtain name where "map_of error_codes name = Some c" "c \<noteq> 0" by (auto simp: ran_def)
    then have "code_of_name name = c \<and> c \<noteq> 0" by (simp add: code_of_name_def)
    then show "c \<in> range code_of_name - {0}" by auto
  qed (auto simp: code_of_name_def ran_def split: option.splits)
  moreover have "snd ` set error_codes - {0} = snd ` set DOMException_properties - {2, 6, 16}"
    by (auto simp: error_codes_def DOMException_properties_def)
  ultimately show ?thesis by simp
qed

subsection \<open>queueMicrotask and self\<close>

text \<open>The callback becomes the reaction of a promise that is resolved: a job at the end of the queue.\<close>

definition queueMicrotask :: "('v \<Rightarrow> bool) \<Rightarrow> 'v list \<Rightarrow> 'v list \<Rightarrow> js_error + 'v list" where
  "queueMicrotask is_function args jobs =
     require_at_least 1 args (\<lambda>_.
       if \<not> is_function (args ! 0) then Inl (ReportError ''queueMicrotask: Argument 1 is not a function'')
       else Inr (jobs @ [args ! 0]))"

text \<open>The property \<open>self\<close> is an accessor until the setter replaces it by a data property.\<close>

definition self_get :: "'v \<Rightarrow> 'v" where
  "self_get global = global"

definition self_set :: "'v \<Rightarrow> 'v \<Rightarrow> 'v list \<Rightarrow> js_error + 'v" where
  "self_set global this args =
     require_at_least 1 args (\<lambda>_.
       if this \<noteq> global then Inl (ReportError ''globalThis.self setter can only be called on the global object'')
       else Inr (args ! 0))"

subsection \<open>performance\<close>

text \<open>
  Times are in nanoseconds of the clock; \<open>ms\<close> converts to a 32-bit float of milliseconds.  Without an
  origin \<open>value()\<close> aborts.
\<close>

definition Performance_now :: "(int \<Rightarrow> 'f) \<Rightarrow> int option \<Rightarrow> int \<Rightarrow> 'f option" where
  "Performance_now ms timeOrigin finish = map_option (\<lambda>t. ms (finish - t)) timeOrigin"

definition timeOrigin_get :: "(int \<Rightarrow> 'f) \<Rightarrow> int option \<Rightarrow> 'f option" where
  "timeOrigin_get ms timeOrigin = map_option ms timeOrigin"

subsection \<open>location\<close>

datatype location_error = WrongReceiver | NotInRequest string | NoUrl

definition location_get :: "'u url_crate \<Rightarrow> field \<Rightarrow> string \<Rightarrow> bool \<Rightarrow> bool \<Rightarrow> nat option \<Rightarrow> 'u heap \<Rightarrow> location_error + string" where
  "location_get U f fname receiver_ok wizening url h =
     (if \<not> receiver_ok then Inl WrongReceiver
      else if wizening
      then Inl (NotInRequest (''location.'' @ fname @ '' can only be used during request handling, not during initialization''))
      else case url of None \<Rightarrow> Inl NoUrl | Some u \<Rightarrow> Inr (get_field U f u h))"

definition location_toString :: "'u url_crate \<Rightarrow> bool \<Rightarrow> bool \<Rightarrow> nat option \<Rightarrow> 'u heap \<Rightarrow> location_error + string" where
  "location_toString U receiver_ok wizening url h =
     (if \<not> receiver_ok then Inl WrongReceiver else location_get U Href ''href'' receiver_ok wizening url h)"

subsection \<open>structuredClone\<close>

text \<open>What the engine finds: parameters, an object of another builtin, or a value of its own.\<close>

datatype 'v cloned = Params nat | OtherBuiltin | Plain 'v

datatype 'v dictionary_arg = NoObject | WithTransfer "js_error + 'v"

definition WriteStructuredClone :: "'u url_crate \<Rightarrow> nat option \<Rightarrow> 'u heap \<Rightarrow> js_error + string" where
  "WriteStructuredClone U ob h =
     (case ob of None \<Rightarrow> Inl (ReportError ''The object could not be cloned'') | Some p \<Rightarrow> Inr (params_to_string U p h))"

definition ReadStructuredClone :: "'u url_crate \<Rightarrow> string \<Rightarrow> 'u heap \<Rightarrow> nat \<times> 'u heap" where
  "ReadStructuredClone U bytes h = (case new_params h of (p, h) \<Rightarrow> (p, params_init U p bytes h))"

definition transferables :: "'v dictionary_arg \<Rightarrow> js_error + 'v option" where
  "transferables options =
     (case options of NoObject \<Rightarrow> Inr None | WithTransfer (Inl e) \<Rightarrow> Inl e | WithTransfer (Inr v) \<Rightarrow> Inr (Some v))"

text \<open>
  The engine looks at the transferables first (\<open>engine_transfer\<close>), then at the value; \<open>None\<close> is
  \<open>undefined\<close>.
\<close>

definition structuredClone :: "'u url_crate \<Rightarrow> ('v option \<Rightarrow> js_error + unit) \<Rightarrow> ('v option \<Rightarrow> 'v \<Rightarrow> js_error + 'v)
    \<Rightarrow> 'v cloned list \<Rightarrow> 'v dictionary_arg \<Rightarrow> 'u heap \<Rightarrow> js_error + 'v cloned \<times> 'u heap" where
  "structuredClone U engine_transfer engine_clone args options h =
     require_at_least 1 args (\<lambda>_.
     rbind (transferables options) (\<lambda>transfer.
     rbind (engine_transfer transfer) (\<lambda>_.
       case args ! 0 of
         Plain v \<Rightarrow> rbind (engine_clone transfer v) (\<lambda>v. Inr (Plain v, h))
       | OtherBuiltin \<Rightarrow> rbind (WriteStructuredClone U None h) (\<lambda>_. Inr (OtherBuiltin, h))
       | Params p \<Rightarrow> rbind (WriteStructuredClone U (Some p) h) (\<lambda>bytes.
           case ReadStructuredClone U bytes h of (q, h) \<Rightarrow> Inr (Params q, h)))))"

text \<open>
  What the clone has: the pairs of the original, unless this belongs to a URL whose query starts with
  another question mark, which is then taken for the one before a query.
\<close>

definition cloned_list :: "'u url_crate \<Rightarrow> nat \<Rightarrow> 'u heap \<Rightarrow> pairs" where
  "cloned_list U p h =
     (case url_or_str (params_objs h ! p) of
        OfStr _ \<Rightarrow> plist (params_objs h ! p)
      | OfUrl u \<Rightarrow> (case query U (crate_url (urls h ! u)) of
                     Some q \<Rightarrow> if q \<noteq> [] \<and> q ! 0 = CHR ''?'' then form_parse U (drop 1 q) else plist (params_objs h ! p)
                   | None \<Rightarrow> plist (params_objs h ! p)))"

lemma read_back:
  assumes laws: "url_laws U" and queries: "\<And>x. query_pairs U x = (case query U x of None \<Rightarrow> [] | Some q \<Rightarrow> form_parse U q)"
    and ok: "params_ok U h p"
  shows "(let t = params_to_string U p h in form_parse U (if length t > 0 \<and> t ! 0 = CHR ''?'' then drop 1 t else t)) = cloned_list U p h"
proof (cases "url_or_str (params_objs h ! p)")
  case (OfUrl u)
  have "form_parse U [] = []" using url_lawsD(6,7) [OF laws] by metis
  then show ?thesis using ok OfUrl
    by (auto simp: params_ok_def cloned_list_def params_to_string_def queries Let_def split: option.splits)
next
  case (OfStr s)
  define t where "t = form_serialize U (plist (params_objs h ! p))"
  have "\<not> (length t > 0 \<and> t ! 0 = CHR ''?'')" using url_lawsD(8) [OF laws, of "plist (params_objs h ! p)"] by (cases t) (auto simp: t_def)
  moreover have "form_parse U t = plist (params_objs h ! p)" unfolding t_def by (rule url_lawsD(7) [OF laws])
  moreover have "params_to_string U p h = t" using ok OfStr by (simp add: params_ok_def params_to_string_def t_def)
  ultimately show ?thesis using OfStr by (auto simp add: cloned_list_def Let_def)
qed

text \<open>
  C38. Cloning parameters on any heap that scripts reach succeeds when the engine accepts the
  transferables: the clone is a new object that
  belongs to no URL; its list is that of the original, except that a question mark at the start of
  the query of a URL is lost; every object that was there is as it was, and the heap still fulfils
  its invariant.
\<close>

theorem structured_clone_round_trip:
  assumes laws: "url_laws U" and queries: "\<And>x. query_pairs U x = (case query U x of None \<Rightarrow> [] | Some q \<Rightarrow> form_parse U q)"
    and reach: "(url_step U enc)\<^sup>*\<^sup>* empty_heap h" and p: "p < length (params_objs h)"
    and options: "rbind (transferables options) engine_transfer = Inr ()"
  shows "\<exists>h'. structuredClone U engine_transfer engine_clone [Params p] options h = Inr (Params (length (params_objs h)), h')
    \<and> heap_ok U h' \<and> holds_list U (length (params_objs h)) h' (cloned_list U p h)
    \<and> url_or_str (params_objs h' ! length (params_objs h)) = OfStr (form_serialize U (cloned_list U p h))
    \<and> urls h' = urls h \<and> take (length (params_objs h)) (params_objs h') = params_objs h"
proof -
  define q where "q = length (params_objs h)"
  define h1 where "h1 = snd (new_params h)"
  define h' where "h' = change_list U q (\<lambda>_. cloned_list U p h) h1"
  have ok: "heap_ok U h" using reachable_heap_ok [OF reach laws] .
  have pok: "params_ok U h p" using ok p by (simp add: heap_ok_def)
  have ok1: "heap_ok U h1" unfolding h1_def by (rule new_params_ok [OF laws ok])
  have q: "q < length (params_objs h1)" and new: "params_objs h1 = params_objs h @ [\<lparr>plist = [], url_or_str = OfStr []\<rparr>]"
    and urls: "urls h1 = urls h"
    by (simp_all add: q_def h1_def new_params_def)
  have "ReadStructuredClone U (params_to_string U p h) h = (q, h')"
    using read_back [OF laws queries pok]
    by (simp add: ReadStructuredClone_def q_def h'_def h1_def new_params_def params_init_def Let_def)
  moreover obtain transfer where "transferables options = Inr transfer" "engine_transfer transfer = Inr ()"
    using options by (cases "transferables options") (auto simp: rbind_def)
  ultimately have "structuredClone U engine_transfer engine_clone [Params p] options h = Inr (Params q, h')"
    by (simp add: structuredClone_def require_at_least_def WriteStructuredClone_def)
  moreover have "heap_ok U h'" unfolding h'_def by (rule change_list_ok [OF laws ok1 q])
  moreover have "holds_list U q h' (cloned_list U p h)"
    using change_list_plist [OF q] change_list_str [OF laws ok1 q] by (simp add: holds_list_def h'_def)
  moreover have "params_objs h' = params_objs h @ [\<lparr>plist = cloned_list U p h, url_or_str = OfStr (form_serialize U (cloned_list U p h))\<rparr>]"
    "urls h' = urls h"
    using new urls by (auto simp: h'_def change_list_def update_url_or_str_def Let_def q_def)
  ultimately show ?thesis by (simp add: q_def)
qed

theorem structured_clone_round_trip_witness:
  "\<exists>h'. structuredClone demo_crate (\<lambda>_. Inr ()) (\<lambda>_. Inr) [Params 0] (NoObject :: unit dictionary_arg) demo_heap = Inr (Params 1, h')
     \<and> plist (params_objs h' ! 1) = [(''q'', [])] \<and> take 1 (params_objs h') = params_objs demo_heap"
proof -
  have queries: "query_pairs demo_crate x = (case query demo_crate x of None \<Rightarrow> [] | Some q \<Rightarrow> form_parse demo_crate q)" for x
    by (simp add: demo_crate_def demo_round_trip)
  have "cloned_list demo_crate 0 demo_heap = [(''q'', [])]"
    by (simp add: cloned_list_def demo_heap_def demo_crate_def demo_serialize_def demo_escape_def)
  then show ?thesis
    using structured_clone_round_trip [OF demo_laws queries demo_heap_reachable, of 0 NoObject "\<lambda>_. Inr ()" "\<lambda>_. Inr"]
    by (simp add: demo_heap_def holds_list_def transferables_def) blast
qed

end
