(* ===== verification/Stream_Pipes.thy ===== *)
theory Stream_Pipes
  imports Prelude
begin

section \<open>Native sinks and pipes\<close>

text \<open>
  \<open>builtins/web/streams/native-stream-sink.cpp\<close> and the additions to \<open>ReadableStream\<close> at the top of
  \<open>transform-stream.cpp\<close>: \<open>pipeTo\<close>, which notes that a native body is piped through an identity
  stream, and \<open>pipeThrough\<close>.

  \<^item> The state has the native sources and sinks with their slots and which TransformStreams have a
    transformer; the streams of the engine are in \<open>engine_part\<close>.
  \<^item> \<open>stream_calls\<close> has what is asked of the engine.  Reading a member of an object and calling the
    original \<open>pipeTo\<close> may run scripts and change any part of the state.
\<close>

datatype 'v pipe_value = RsValue nat | WsValue nat | ObjectValue 'v | PrimitiveValue

record ('v, 'alg) native_sink =
  snk_owner :: nat
  snk_controller :: "nat option"
  snk_start_promise :: 'v
  snk_write :: 'alg
  snk_abort :: 'alg
  snk_close :: 'alg

record ('v, 'alg, 'e) pipe_state =
  piped_to :: "nat \<rightharpoonup> nat"
  sinks :: "('v, 'alg) native_sink list"
  has_transformer :: "nat \<Rightarrow> bool"
  engine_part :: 'e

record ('v, 'alg, 'e) stream_calls =
  source_of :: "nat \<Rightarrow> 'e \<Rightarrow> nat option"
  sink_of :: "nat \<Rightarrow> 'e \<Rightarrow> nat option"
  rs_is_locked :: "nat \<Rightarrow> 'e \<Rightarrow> bool option"
  ws_is_locked :: "nat \<Rightarrow> 'e \<Rightarrow> bool"
  read_member :: "'v pipe_value \<Rightarrow> string \<Rightarrow> ('v, 'alg, 'e) pipe_state \<Rightarrow> (js_error + 'v pipe_value) \<times> ('v, 'alg, 'e) pipe_state"
  call_original_pipeTo :: "nat \<Rightarrow> 'v pipe_value list \<Rightarrow> ('v, 'alg, 'e) pipe_state \<Rightarrow> (js_error + nat) \<times> ('v, 'alg, 'e) pipe_state"
  ignore_rejection :: "nat \<Rightarrow> 'e \<Rightarrow> bool \<times> 'e"
  undefined_arg :: "'v pipe_value"

subsection \<open>Sinks\<close>

definition NativeStreamSink_create :: "nat \<Rightarrow> 'v \<Rightarrow> 'alg \<Rightarrow> 'alg \<Rightarrow> 'alg \<Rightarrow> ('v, 'alg, 'e) pipe_state
    \<Rightarrow> nat \<times> ('v, 'alg, 'e) pipe_state" where
  "NativeStreamSink_create owner startPromise write close abort s =
     (length (sinks s),
      s\<lparr>sinks := sinks s @ [\<lparr>snk_owner = owner, snk_controller = None, snk_start_promise = startPromise,
          snk_write = write, snk_abort = abort, snk_close = close\<rparr>]\<rparr>)"

definition NativeStreamSink_start :: "nat \<Rightarrow> nat list \<Rightarrow> ('v, 'alg, 'e) pipe_state
    \<Rightarrow> (js_error + 'v) \<times> ('v, 'alg, 'e) pipe_state" where
  "NativeStreamSink_start self args s =
     (case args of
        [] \<Rightarrow> (Inl (NotEnoughArgs 1), s)
      | controller # _ \<Rightarrow>
          (Inr (snk_start_promise (sinks s ! self)),
           s\<lparr>sinks := (sinks s)[self := (sinks s ! self)\<lparr>snk_controller := Some controller\<rparr>]\<rparr>))"

text \<open>The algorithms are called with the sink, its owner and the argument; \<open>run\<close> is what they do.\<close>

definition NativeStreamSink_write :: "('alg \<Rightarrow> nat \<Rightarrow> nat \<Rightarrow> 'v list \<Rightarrow> 's \<Rightarrow> (js_error + 'v) \<times> 's) \<Rightarrow> ('v, 'alg) native_sink
    \<Rightarrow> nat \<Rightarrow> 'v list \<Rightarrow> 's \<Rightarrow> (js_error + 'v) \<times> 's" where
  "NativeStreamSink_write run sink self args s =
     (if args = [] then (Inl (NotEnoughArgs 1), s) else run (snk_write sink) self (snk_owner sink) [args ! 0] s)"

definition NativeStreamSink_abort :: "('alg \<Rightarrow> nat \<Rightarrow> nat \<Rightarrow> 'v list \<Rightarrow> 's \<Rightarrow> (js_error + 'v) \<times> 's) \<Rightarrow> ('v, 'alg) native_sink
    \<Rightarrow> nat \<Rightarrow> 'v list \<Rightarrow> 's \<Rightarrow> (js_error + 'v) \<times> 's" where
  "NativeStreamSink_abort run sink self args s =
     (if args = [] then (Inl (NotEnoughArgs 1), s) else run (snk_abort sink) self (snk_owner sink) [args ! 0] s)"

definition NativeStreamSink_close :: "('alg \<Rightarrow> nat \<Rightarrow> nat \<Rightarrow> 'v list \<Rightarrow> 's \<Rightarrow> (js_error + 'v) \<times> 's) \<Rightarrow> ('v, 'alg) native_sink
    \<Rightarrow> nat \<Rightarrow> 's \<Rightarrow> (js_error + 'v) \<times> 's" where
  "NativeStreamSink_close run sink self s = run (snk_close sink) self (snk_owner sink) [] s"

definition stream_has_native_sink :: "('v, 'alg, 'e) stream_calls \<Rightarrow> nat \<Rightarrow> ('v, 'alg, 'e) pipe_state \<Rightarrow> bool" where
  "stream_has_native_sink C stream s \<longleftrightarrow> sink_of C stream (engine_part s) \<noteq> None"

subsection \<open>The writable end of a TransformStream\<close>

text \<open>Every native sink belongs to a TransformStream.\<close>

definition is_ts_writable :: "('v, 'alg, 'e) stream_calls \<Rightarrow> nat \<Rightarrow> ('v, 'alg, 'e) pipe_state \<Rightarrow> bool" where
  "is_ts_writable C writable s \<longleftrightarrow> sink_of C writable (engine_part s) \<noteq> None"

definition ts_from_writable :: "('v, 'alg, 'e) stream_calls \<Rightarrow> nat \<Rightarrow> ('v, 'alg, 'e) pipe_state \<Rightarrow> nat option" where
  "ts_from_writable C writable s = map_option (\<lambda>k. snk_owner (sinks s ! k)) (sink_of C writable (engine_part s))"

subsection \<open>pipeTo and pipeThrough\<close>

definition note_pipe :: "('v, 'alg, 'e) stream_calls \<Rightarrow> nat \<Rightarrow> 'v pipe_value \<Rightarrow> ('v, 'alg, 'e) pipe_state \<Rightarrow> ('v, 'alg, 'e) pipe_state" where
  "note_pipe C self target s =
     (case target of
        WsValue w \<Rightarrow>
          (case source_of C self (engine_part s) of
             None \<Rightarrow> s
           | Some src \<Rightarrow>
               if \<not> is_ts_writable C w s then s
               else (case ts_from_writable C w s of
                       None \<Rightarrow> s
                     | Some ts \<Rightarrow> if has_transformer s ts then s else s\<lparr>piped_to := (piped_to s)(src \<mapsto> ts)\<rparr>))
      | _ \<Rightarrow> s)"

definition pipeTo :: "('v, 'alg, 'e) stream_calls \<Rightarrow> nat \<Rightarrow> 'v pipe_value list \<Rightarrow> ('v, 'alg, 'e) pipe_state
    \<Rightarrow> (js_error + nat) \<times> ('v, 'alg, 'e) pipe_state" where
  "pipeTo C self args s =
     (if args = [] then (Inl (NotEnoughArgs 1), s)
      else call_original_pipeTo C self args (note_pipe C self (args ! 0) s))"

definition pipeThrough_streams :: "('v, 'alg, 'e) stream_calls \<Rightarrow> nat \<Rightarrow> nat \<Rightarrow> 'v pipe_value \<Rightarrow> ('v, 'alg, 'e) pipe_state
    \<Rightarrow> (js_error + unit) \<times> ('v, 'alg, 'e) pipe_state" where
  "pipeThrough_streams C source_readable target_writable options s =
     (case rs_is_locked C source_readable (engine_part s) of
        None \<Rightarrow> (Inl PendingException, s)
      | Some True \<Rightarrow> (Inl (ReportError ''pipeThrough called on a ReadableStream that's already locked''), s)
      | Some False \<Rightarrow>
          if ws_is_locked C target_writable (engine_part s)
          then (Inl (ReportError (''The writable end of the transform object passed to pipeThrough ''
                  @ '' passed to pipeThrough is already locked'')), s)
          else (case pipeTo C source_readable [WsValue target_writable, options] s of
                  (Inl e, s) \<Rightarrow> (Inl e, s)
                | (Inr promise, s) \<Rightarrow>
                    (case ignore_rejection C promise (engine_part s) of
                       (ok, e) \<Rightarrow> (if ok then Inr () else Inl PendingException, s\<lparr>engine_part := e\<rparr>))))"

definition pipeThrough :: "('v, 'alg, 'e) stream_calls \<Rightarrow> nat \<Rightarrow> 'v pipe_value list \<Rightarrow> ('v, 'alg, 'e) pipe_state
    \<Rightarrow> (js_error + nat) \<times> ('v, 'alg, 'e) pipe_state" where
  "pipeThrough C self args s =
     (if args = [] then (Inl (NotEnoughArgs 1), s)
      else if args ! 0 = PrimitiveValue then (Inl (ReportError ''First argument to pipeThrough must be an object''), s)
      else case read_member C (args ! 0) ''readable'' s of
             (Inl e, s) \<Rightarrow> (Inl e, s)
           | (Inr (RsValue readable), s) \<Rightarrow>
               (case read_member C (args ! 0) ''writable'' s of
                  (Inl e, s) \<Rightarrow> (Inl e, s)
                | (Inr (WsValue writable), s) \<Rightarrow>
                    (case pipeThrough_streams C self writable (if length args < 2 then undefined_arg C else args ! 1) s of
                       (Inl e, s) \<Rightarrow> (Inl e, s)
                     | (Inr _, s) \<Rightarrow> (Inr readable, s))
                | (Inr _, s) \<Rightarrow> (Inl (ReportError (''First argument to pipeThrough must be an object with a ''
                      @ ''|writable| property that is an instance of WritableStream'')), s))
           | (Inr _, s) \<Rightarrow> (Inl (ReportError (''First argument to pipeThrough must be an object with a ''
                 @ ''|readable| property that is an instance of ReadableStream'')), s))"

subsection \<open>What is noted\<close>

text \<open>
  The shortcut for bodies is taken only if no transformer would be skipped: what \<open>pipeTo\<close> notes by
  itself is a stream without transformer, the owner of the sink of the destination.
\<close>

lemma note_pipe_identity_only:
  "piped_to (note_pipe C self target s) src = Some ts \<Longrightarrow> piped_to s src = Some ts
     \<or> source_of C self (engine_part s) = Some src \<and> \<not> has_transformer s ts
       \<and> (\<exists>w. target = WsValue w \<and> ts_from_writable C w s = Some ts)"
  by (auto simp: note_pipe_def split: pipe_value.splits option.splits if_splits)

text \<open>
  \<open>pipeThrough\<close> touches a stream only if neither end was locked, and gives back the readable end of
  the pair it was given.
\<close>

lemma pipeThrough_result:
  assumes "pipeThrough C self args s = (Inr r, t)"
  shows "\<exists>s1 s2 w. args \<noteq> [] \<and> read_member C (args ! 0) ''readable'' s = (Inr (RsValue r), s1)
    \<and> read_member C (args ! 0) ''writable'' s1 = (Inr (WsValue w), s2)
    \<and> rs_is_locked C self (engine_part s2) = Some False \<and> \<not> ws_is_locked C w (engine_part s2)"
  using assms by (auto simp: pipeThrough_def pipeThrough_streams_def split: if_splits sum.splits prod.splits pipe_value.splits option.splits bool.splits)

end
