(* ===== verification/Wasi_Calls.thy ===== *)
theory Wasi_Calls
  imports Wasi_Error_Code
begin

section \<open>The generated bindings: the calls of the host API\<close>

text \<open>
  The functions of \<open>host-apis/wasi-0.2.0/bindings/bindings.c\<close>, other than those with an error code,
  that \<open>host_api.cpp\<close> calls: streams, pollables, random bytes, fields, requests and responses.  As in
  \<open>Wasi_Error_Code\<close>, an imported function changes the memory, \<open>ptr\<close> is the address of the return
  area, and \<open>None\<close> is a value that the C code leaves indeterminate.

  A function that returns \<open>bool\<close> and writes its result through one of two pointers is a sum.  The
  results are compared with what the canonical ABI loads for the type in the WIT files, and the
  flattened arguments with what it lifts.
\<close>

subsection \<open>Streams, pollables and random bytes\<close>

datatype stream_error_val = NoStreamVal | LastOperationFailed handle

record stream_error =
  stream_tag :: byte
  stream_val :: stream_error_val

definition stream_error_at :: "mem \<Rightarrow> addr \<Rightarrow> addr \<Rightarrow> stream_error option" where
  "stream_error_at m tag_addr val_addr =
     (let tag = load_u8 m tag_addr
      in if unat tag = 0 then Some \<lparr>stream_tag = tag, stream_val = LastOperationFailed (load_i32 m val_addr)\<rparr>
         else if unat tag = 1 then Some \<lparr>stream_tag = tag, stream_val = NoStreamVal\<rparr>
         else None)"

definition poll_poll :: "(bindings_string \<Rightarrow> addr \<Rightarrow> mem \<Rightarrow> mem) \<Rightarrow> bindings_string \<Rightarrow> addr \<Rightarrow> mem \<Rightarrow> bindings_string option \<times> mem" where
  "poll_poll imp pollables ptr m =
     (let m = imp pollables ptr m in (Some (load_i32 m ptr, load_i32 m (ptr + 4)), m))"

definition input_stream_read :: "(handle \<Rightarrow> 64 word \<Rightarrow> addr \<Rightarrow> mem \<Rightarrow> mem) \<Rightarrow> handle \<Rightarrow> 64 word \<Rightarrow> addr \<Rightarrow> mem
    \<Rightarrow> (stream_error + bindings_string) option \<times> mem" where
  "input_stream_read imp self len ptr m =
     (let m = imp self len ptr m
      in (switch_result (disc m ptr) (Some (load_i32 m (ptr + 4), load_i32 m (ptr + 8)))
            (stream_error_at m (ptr + 4) (ptr + 8)), m))"

definition input_stream_subscribe :: "(handle \<Rightarrow> 32 word) \<Rightarrow> handle \<Rightarrow> handle" where
  "input_stream_subscribe imp self = imp self"

definition output_stream_check_write :: "(handle \<Rightarrow> addr \<Rightarrow> mem \<Rightarrow> mem) \<Rightarrow> handle \<Rightarrow> addr \<Rightarrow> mem
    \<Rightarrow> (stream_error + 64 word) option \<times> mem" where
  "output_stream_check_write imp self ptr m =
     (let m = imp self ptr m
      in (switch_result (disc m ptr) (Some (load_i64 m (ptr + 8))) (stream_error_at m (ptr + 8) (ptr + 12)), m))"

definition output_stream_write :: "(handle \<Rightarrow> bindings_string \<Rightarrow> addr \<Rightarrow> mem \<Rightarrow> mem) \<Rightarrow> handle \<Rightarrow> bindings_string \<Rightarrow> addr \<Rightarrow> mem
    \<Rightarrow> (stream_error + unit) option \<times> mem" where
  "output_stream_write imp self contents ptr m =
     (let m = imp self contents ptr m
      in (switch_result (disc m ptr) (Some ()) (stream_error_at m (ptr + 4) (ptr + 8)), m))"

definition output_stream_blocking_flush :: "(handle \<Rightarrow> addr \<Rightarrow> mem \<Rightarrow> mem) \<Rightarrow> handle \<Rightarrow> addr \<Rightarrow> mem
    \<Rightarrow> (stream_error + unit) option \<times> mem" where
  "output_stream_blocking_flush imp self ptr m =
     (let m = imp self ptr m
      in (switch_result (disc m ptr) (Some ()) (stream_error_at m (ptr + 4) (ptr + 8)), m))"

definition output_stream_subscribe :: "(handle \<Rightarrow> 32 word) \<Rightarrow> handle \<Rightarrow> handle" where
  "output_stream_subscribe imp self = imp self"

definition get_random_bytes :: "(64 word \<Rightarrow> addr \<Rightarrow> mem \<Rightarrow> mem) \<Rightarrow> 64 word \<Rightarrow> addr \<Rightarrow> mem \<Rightarrow> bindings_string option \<times> mem" where
  "get_random_bytes imp len ptr m =
     (let m = imp len ptr m in (Some (load_i32 m ptr, load_i32 m (ptr + 4)), m))"

subsection \<open>Fields\<close>

record header_error =
  header_tag :: byte

definition header_error_at :: "mem \<Rightarrow> addr \<Rightarrow> header_error option" where
  "header_error_at m tag_addr =
     (let tag = load_u8 m tag_addr
      in if unat tag = 0 \<or> unat tag = 1 \<or> unat tag = 2 then Some \<lparr>header_tag = tag\<rparr> else None)"

definition fields_from_list :: "(bindings_string \<Rightarrow> addr \<Rightarrow> mem \<Rightarrow> mem) \<Rightarrow> bindings_string \<Rightarrow> addr \<Rightarrow> mem
    \<Rightarrow> (header_error + handle) option \<times> mem" where
  "fields_from_list imp entries ptr m =
     (let m = imp entries ptr m
      in (switch_result (disc m ptr) (Some (load_i32 m (ptr + 4))) (header_error_at m (ptr + 4)), m))"

definition fields_get :: "(handle \<Rightarrow> bindings_string \<Rightarrow> addr \<Rightarrow> mem \<Rightarrow> mem) \<Rightarrow> handle \<Rightarrow> bindings_string \<Rightarrow> addr \<Rightarrow> mem
    \<Rightarrow> bindings_string option \<times> mem" where
  "fields_get imp self name ptr m =
     (let m = imp self name ptr m in (Some (load_i32 m ptr, load_i32 m (ptr + 4)), m))"

definition fields_set :: "(handle \<Rightarrow> bindings_string \<Rightarrow> bindings_string \<Rightarrow> addr \<Rightarrow> mem \<Rightarrow> mem) \<Rightarrow> handle \<Rightarrow> bindings_string
    \<Rightarrow> bindings_string \<Rightarrow> addr \<Rightarrow> mem \<Rightarrow> (header_error + unit) option \<times> mem" where
  "fields_set imp self name val ptr m =
     (let m = imp self name val ptr m
      in (switch_result (disc m ptr) (Some ()) (header_error_at m (ptr + 1)), m))"

definition fields_delete :: "(handle \<Rightarrow> bindings_string \<Rightarrow> addr \<Rightarrow> mem \<Rightarrow> mem) \<Rightarrow> handle \<Rightarrow> bindings_string \<Rightarrow> addr \<Rightarrow> mem
    \<Rightarrow> (header_error + unit) option \<times> mem" where
  "fields_delete imp self name ptr m =
     (let m = imp self name ptr m
      in (switch_result (disc m ptr) (Some ()) (header_error_at m (ptr + 1)), m))"

definition fields_append :: "(handle \<Rightarrow> bindings_string \<Rightarrow> bindings_string \<Rightarrow> addr \<Rightarrow> mem \<Rightarrow> mem) \<Rightarrow> handle \<Rightarrow> bindings_string
    \<Rightarrow> bindings_string \<Rightarrow> addr \<Rightarrow> mem \<Rightarrow> (header_error + unit) option \<times> mem" where
  "fields_append imp self name val ptr m =
     (let m = imp self name val ptr m
      in (switch_result (disc m ptr) (Some ()) (header_error_at m (ptr + 1)), m))"

definition fields_entries :: "(handle \<Rightarrow> addr \<Rightarrow> mem \<Rightarrow> mem) \<Rightarrow> handle \<Rightarrow> addr \<Rightarrow> mem \<Rightarrow> bindings_string option \<times> mem" where
  "fields_entries imp self ptr m =
     (let m = imp self ptr m in (Some (load_i32 m ptr, load_i32 m (ptr + 4)), m))"

definition fields_clone :: "(handle \<Rightarrow> 32 word) \<Rightarrow> handle \<Rightarrow> handle" where
  "fields_clone imp self = imp self"

text \<open>The elements of the lists of fields, as the C structs have them in memory.\<close>

definition field_value_element :: "mem \<Rightarrow> addr \<Rightarrow> nat \<Rightarrow> bindings_string" where
  "field_value_element m values_ptr i =
     (load_i32 m (values_ptr + of_nat (8 * i)), load_i32 m (values_ptr + of_nat (8 * i + 4)))"

definition entries_element :: "mem \<Rightarrow> addr \<Rightarrow> nat \<Rightarrow> bindings_string \<times> bindings_string" where
  "entries_element m entries_ptr i =
     ((load_i32 m (entries_ptr + of_nat (16 * i)), load_i32 m (entries_ptr + of_nat (16 * i + 4))),
      (load_i32 m (entries_ptr + of_nat (16 * i + 8)), load_i32 m (entries_ptr + of_nat (16 * i + 12))))"

subsection \<open>Requests\<close>

text \<open>The union of a method and of a scheme has the name for \<open>other\<close>.\<close>

record named_variant =
  nv_tag :: byte
  nv_other :: "bindings_string option"

definition incoming_request_method_get :: "(handle \<Rightarrow> addr \<Rightarrow> mem \<Rightarrow> mem) \<Rightarrow> handle \<Rightarrow> addr \<Rightarrow> mem
    \<Rightarrow> named_variant option \<times> mem" where
  "incoming_request_method_get imp self ptr m =
     (let m = imp self ptr m; tag = load_u8 m ptr
      in (if unat tag \<le> 8 then Some \<lparr>nv_tag = tag, nv_other = None\<rparr>
          else if unat tag = 9 then Some \<lparr>nv_tag = tag, nv_other = Some (load_i32 m (ptr + 4), load_i32 m (ptr + 8))\<rparr>
          else None, m))"

definition incoming_request_path_with_query :: "(handle \<Rightarrow> addr \<Rightarrow> mem \<Rightarrow> mem) \<Rightarrow> handle \<Rightarrow> addr \<Rightarrow> mem
    \<Rightarrow> bindings_string option option \<times> mem" where
  "incoming_request_path_with_query imp self ptr m =
     (let m = imp self ptr m
      in (switch_option (disc m ptr) (Some (load_i32 m (ptr + 4), load_i32 m (ptr + 8))), m))"

definition scheme_at :: "mem \<Rightarrow> addr \<Rightarrow> named_variant option" where
  "scheme_at m ptr =
     (let tag = load_u8 m (ptr + 4)
      in if unat tag = 0 \<or> unat tag = 1 then Some \<lparr>nv_tag = tag, nv_other = None\<rparr>
         else if unat tag = 2 then Some \<lparr>nv_tag = tag, nv_other = Some (load_i32 m (ptr + 8), load_i32 m (ptr + 12))\<rparr>
         else None)"

definition incoming_request_scheme :: "(handle \<Rightarrow> addr \<Rightarrow> mem \<Rightarrow> mem) \<Rightarrow> handle \<Rightarrow> addr \<Rightarrow> mem
    \<Rightarrow> named_variant option option \<times> mem" where
  "incoming_request_scheme imp self ptr m =
     (let m = imp self ptr m in (switch_option (disc m ptr) (scheme_at m ptr), m))"

definition incoming_request_authority :: "(handle \<Rightarrow> addr \<Rightarrow> mem \<Rightarrow> mem) \<Rightarrow> handle \<Rightarrow> addr \<Rightarrow> mem
    \<Rightarrow> bindings_string option option \<times> mem" where
  "incoming_request_authority imp self ptr m =
     (let m = imp self ptr m
      in (switch_option (disc m ptr) (Some (load_i32 m (ptr + 4), load_i32 m (ptr + 8))), m))"

definition incoming_request_consume :: "(handle \<Rightarrow> addr \<Rightarrow> mem \<Rightarrow> mem) \<Rightarrow> handle \<Rightarrow> addr \<Rightarrow> mem
    \<Rightarrow> (unit + handle) option \<times> mem" where
  "incoming_request_consume imp self ptr m =
     (let m = imp self ptr m in (switch_result (disc m ptr) (Some (load_i32 m (ptr + 4))) (Some ()), m))"

definition outgoing_request_body :: "(handle \<Rightarrow> addr \<Rightarrow> mem \<Rightarrow> mem) \<Rightarrow> handle \<Rightarrow> addr \<Rightarrow> mem
    \<Rightarrow> (unit + handle) option \<times> mem" where
  "outgoing_request_body imp self ptr m =
     (let m = imp self ptr m in (switch_result (disc m ptr) (Some (load_i32 m (ptr + 4))) (Some ()), m))"

text \<open>The switch over the number that a setter of the host returns.\<close>

definition switch_void :: "32 word \<Rightarrow> bool option" where
  "switch_void ret = (if ret = 0 then Some True else if ret = 1 then Some False else None)"

definition set_method_flat :: "named_variant \<Rightarrow> (32 word \<times> 32 word \<times> 32 word) option" where
  "set_method_flat method =
     (let tag = unat (nv_tag method)
      in if tag \<le> 8 then Some (of_nat tag, 0, 0)
         else if tag = 9 then map_option (\<lambda>(variant9, variant10). (9, variant9, variant10)) (nv_other method)
         else None)"

definition outgoing_request_set_method :: "(handle \<Rightarrow> 32 word \<Rightarrow> 32 word \<Rightarrow> 32 word \<Rightarrow> 32 word) \<Rightarrow> handle \<Rightarrow> named_variant \<Rightarrow> bool option" where
  "outgoing_request_set_method imp self method =
     Option.bind (set_method_flat method) (\<lambda>(variant, variant9, variant10). switch_void (imp self variant variant9 variant10))"

definition set_string_flat :: "bindings_string option \<Rightarrow> 32 word \<times> 32 word \<times> 32 word" where
  "set_string_flat maybe = (case maybe of Some (p, l) \<Rightarrow> (1, p, l) | None \<Rightarrow> (0, 0, 0))"

definition outgoing_request_set_path_with_query :: "(handle \<Rightarrow> 32 word \<Rightarrow> 32 word \<Rightarrow> 32 word \<Rightarrow> 32 word) \<Rightarrow> handle
    \<Rightarrow> bindings_string option \<Rightarrow> bool option" where
  "outgoing_request_set_path_with_query imp self path =
     (case set_string_flat path of (option, option1, option2) \<Rightarrow> switch_void (imp self option option1 option2))"

definition outgoing_request_set_authority :: "(handle \<Rightarrow> 32 word \<Rightarrow> 32 word \<Rightarrow> 32 word \<Rightarrow> 32 word) \<Rightarrow> handle
    \<Rightarrow> bindings_string option \<Rightarrow> bool option" where
  "outgoing_request_set_authority imp self authority =
     (case set_string_flat authority of (option, option1, option2) \<Rightarrow> switch_void (imp self option option1 option2))"

definition set_scheme_flat :: "named_variant option \<Rightarrow> (32 word \<times> 32 word \<times> 32 word \<times> 32 word) option" where
  "set_scheme_flat scheme =
     (case scheme of
        None \<Rightarrow> Some (0, 0, 0, 0)
      | Some payload0 \<Rightarrow>
          map_option (\<lambda>(variant, variant4, variant5). (1, variant, variant4, variant5))
            (let tag = unat (nv_tag payload0)
             in if tag = 0 then Some (0, 0, 0)
                else if tag = 1 then Some (1, 0, 0)
                else if tag = 2 then map_option (\<lambda>(p, l). (2, p, l)) (nv_other payload0)
                else None))"

definition outgoing_request_set_scheme :: "(handle \<Rightarrow> 32 word \<Rightarrow> 32 word \<Rightarrow> 32 word \<Rightarrow> 32 word \<Rightarrow> 32 word) \<Rightarrow> handle
    \<Rightarrow> named_variant option \<Rightarrow> bool option" where
  "outgoing_request_set_scheme imp self scheme =
     Option.bind (set_scheme_flat scheme) (\<lambda>(option, option6, option7, option8).
       switch_void (imp self option option6 option7 option8))"

subsection \<open>Responses and bodies\<close>

definition incoming_response_status :: "(handle \<Rightarrow> 32 word) \<Rightarrow> handle \<Rightarrow> 16 word" where
  "incoming_response_status imp self = ucast (imp self)"

definition incoming_response_consume :: "(handle \<Rightarrow> addr \<Rightarrow> mem \<Rightarrow> mem) \<Rightarrow> handle \<Rightarrow> addr \<Rightarrow> mem
    \<Rightarrow> (unit + handle) option \<times> mem" where
  "incoming_response_consume imp self ptr m =
     (let m = imp self ptr m in (switch_result (disc m ptr) (Some (load_i32 m (ptr + 4))) (Some ()), m))"

definition incoming_body_stream :: "(handle \<Rightarrow> addr \<Rightarrow> mem \<Rightarrow> mem) \<Rightarrow> handle \<Rightarrow> addr \<Rightarrow> mem
    \<Rightarrow> (unit + handle) option \<times> mem" where
  "incoming_body_stream imp self ptr m =
     (let m = imp self ptr m in (switch_result (disc m ptr) (Some (load_i32 m (ptr + 4))) (Some ()), m))"

definition outgoing_response_set_status_code :: "(handle \<Rightarrow> 32 word \<Rightarrow> 32 word) \<Rightarrow> handle \<Rightarrow> 16 word \<Rightarrow> bool option" where
  "outgoing_response_set_status_code imp self status_code = switch_void (imp self (ucast status_code))"

definition outgoing_response_body :: "(handle \<Rightarrow> addr \<Rightarrow> mem \<Rightarrow> mem) \<Rightarrow> handle \<Rightarrow> addr \<Rightarrow> mem
    \<Rightarrow> (unit + handle) option \<times> mem" where
  "outgoing_response_body imp self ptr m =
     (let m = imp self ptr m in (switch_result (disc m ptr) (Some (load_i32 m (ptr + 4))) (Some ()), m))"

definition outgoing_body_write :: "(handle \<Rightarrow> addr \<Rightarrow> mem \<Rightarrow> mem) \<Rightarrow> handle \<Rightarrow> addr \<Rightarrow> mem
    \<Rightarrow> (unit + handle) option \<times> mem" where
  "outgoing_body_write imp self ptr m =
     (let m = imp self ptr m in (switch_result (disc m ptr) (Some (load_i32 m (ptr + 4))) (Some ()), m))"

subsection \<open>The interface types\<close>

definition stream_error_ty :: wit where "stream_error_ty = Variant [Some Handle, None]"

definition header_error_ty :: wit where "header_error_ty = Variant [None, None, None]"

definition method_ty :: wit where
  "method_ty = Variant [None, None, None, None, None, None, None, None, None, Some Span]"

definition scheme_ty :: wit where "scheme_ty = Variant [None, None, Some Span]"

definition wstream_error :: "stream_error \<Rightarrow> wval" where
  "wstream_error e = WVariant (unat (stream_tag e))
     (case stream_val e of NoStreamVal \<Rightarrow> None | LastOperationFailed h \<Rightarrow> Some (WHandle h))"

definition wheader_error :: "header_error \<Rightarrow> wval" where
  "wheader_error e = WVariant (unat (header_tag e)) None"

definition wnamed :: "named_variant \<Rightarrow> wval" where
  "wnamed v = WVariant (unat (nv_tag v)) (map_option wspan (nv_other v))"

subsection \<open>Reading the return area\<close>

lemma call_offsets [abi_simps]:
  "payload_offset [Some Handle, None] = 4" "payload_offset [None, Some stream_error_ty] = 4"
  "payload_offset [Some Span, Some stream_error_ty] = 4" "payload_offset [Some U64, Some stream_error_ty] = 8"
  "payload_offset [None, Some header_error_ty] = 1" "payload_offset [Some Handle, Some header_error_ty] = 4"
  "payload_offset [None, None, Some Span] = 4" "payload_offset [None, Some scheme_ty] = 4"
  "payload_offset [None, None, None, None, None, None, None, None, None, Some Span] = 4"
  by (simp_all add: payload_offset_def align_to_def stream_error_ty_def header_error_ty_def scheme_ty_def abi_align.simps(8))

lemma load_stream_error:
  assumes "a = b + of_nat n" and "a' = b + of_nat (n + 4)"
  shows "map_option wstream_error (stream_error_at m a a') = abi_load m b n stream_error_ty"
  using assms
  by (simp add: stream_error_at_def stream_error_ty_def abi_load.simps(8) disc_def Let_def wstream_error_def less_Suc_eq
      numeral_2_eq_2 call_offsets)

lemma load_header_error: "map_option wheader_error (header_error_at m (b + of_nat n)) = abi_load m b n header_error_ty"
  by (simp add: header_error_at_def header_error_ty_def abi_load.simps(8) disc_def Let_def wheader_error_def less_Suc_eq
      numeral_3_eq_3 numeral_2_eq_2)

lemma load_scheme: "map_option wnamed (scheme_at m b) = abi_load m b 4 scheme_ty"
  by (simp add: scheme_at_def scheme_ty_def abi_load.simps(8) disc_def Let_def wnamed_def less_Suc_eq
      numeral_3_eq_3 numeral_2_eq_2 call_offsets)

lemma load_span: "map_option wspan (Some (load_i32 m ptr, load_i32 m (ptr + 4))) = abi_load m ptr 0 Span"
  by simp

lemma load_string_option:
  "map_option (wval_option wspan) (switch_option (disc m ptr) (Some (load_i32 m (ptr + 4), load_i32 m (ptr + 8))))
     = abi_load m ptr 0 (wit_option Span)"
  by (rule read_option) (simp_all add: abi_simps)

lemma load_scheme_option:
  "map_option (wval_option wnamed) (switch_option (disc m ptr) (scheme_at m ptr)) = abi_load m ptr 0 (wit_option scheme_ty)"
  by (rule read_option) (simp_all add: abi_simps load_scheme)

lemma load_handle_result:
  "map_option (wval_result (some_of WHandle) (\<lambda>_. None)) (switch_result (disc m ptr) (Some (load_i32 m (ptr + 4))) (Some ()))
     = abi_load m ptr 0 (wit_result (Some Handle) None)"
  by (rule read_result) (simp_all add: abi_simps load_payload_def)

lemma load_void_header_result:
  "map_option (wval_result (\<lambda>_. None) (some_of wheader_error)) (switch_result (disc m ptr) (Some ()) (header_error_at m (ptr + 1)))
     = abi_load m ptr 0 (wit_result None (Some header_error_ty))"
  by (rule read_result) (simp_all only: abi_simps load_payload_none load_payload_some [OF load_header_error [of m ptr 1, simplified]], simp_all)

lemma load_fields_result:
  "map_option (wval_result (some_of WHandle) (some_of wheader_error))
       (switch_result (disc m ptr) (Some (load_i32 m (ptr + 4))) (header_error_at m (ptr + 4)))
     = abi_load m ptr 0 (wit_result (Some Handle) (Some header_error_ty))"
  by (rule read_result) (simp_all only: abi_simps load_payload_some [OF load_header_error [of m ptr 4, simplified]],
      simp_all add: load_payload_def load_payload_some [OF load_header_error [of m ptr 4, simplified]])

lemma load_read_result:
  "map_option (wval_result (some_of wspan) (some_of wstream_error))
       (switch_result (disc m ptr) (Some (load_i32 m (ptr + 4), load_i32 m (ptr + 8))) (stream_error_at m (ptr + 4) (ptr + 8)))
     = abi_load m ptr 0 (wit_result (Some Span) (Some stream_error_ty))"
proof (rule read_result)
  show "map_option (some_of wspan) (Some (load_i32 m (ptr + 4), load_i32 m (ptr + 8)))
      = load_payload m ptr (0 + payload_offset [Some Span, Some stream_error_ty]) (Some Span)"
    by (rule load_payload_some) (simp add: call_offsets)
  show "map_option (some_of wstream_error) (stream_error_at m (ptr + 4) (ptr + 8))
      = load_payload m ptr (0 + payload_offset [Some Span, Some stream_error_ty]) (Some stream_error_ty)"
    by (rule load_payload_some, rule load_stream_error) (simp_all add: call_offsets)
qed simp

lemma load_permit_result:
  "map_option (wval_result (some_of WU64) (some_of wstream_error))
       (switch_result (disc m ptr) (Some (load_i64 m (ptr + 8))) (stream_error_at m (ptr + 8) (ptr + 12)))
     = abi_load m ptr 0 (wit_result (Some U64) (Some stream_error_ty))"
proof (rule read_result)
  show "map_option (some_of WU64) (Some (load_i64 m (ptr + 8)))
      = load_payload m ptr (0 + payload_offset [Some U64, Some stream_error_ty]) (Some U64)"
    by (rule load_payload_some) (simp add: call_offsets)
  show "map_option (some_of wstream_error) (stream_error_at m (ptr + 8) (ptr + 12))
      = load_payload m ptr (0 + payload_offset [Some U64, Some stream_error_ty]) (Some stream_error_ty)"
    by (rule load_payload_some, rule load_stream_error) (simp_all add: call_offsets)
qed simp

lemma load_void_stream_result:
  "map_option (wval_result (\<lambda>_. None) (some_of wstream_error))
       (switch_result (disc m ptr) (Some ()) (stream_error_at m (ptr + 4) (ptr + 8)))
     = abi_load m ptr 0 (wit_result None (Some stream_error_ty))"
proof (rule read_result)
  show "map_option (some_of wstream_error) (stream_error_at m (ptr + 4) (ptr + 8))
      = load_payload m ptr (0 + payload_offset [None, Some stream_error_ty]) (Some stream_error_ty)"
    by (rule load_payload_some, rule load_stream_error) (simp_all add: call_offsets)
qed (simp_all add: load_payload_def)

lemma nth_nones: "i \<le> 8 \<Longrightarrow> [None, None, None, None, None, None, None, None, None, x] ! i = (None :: 'a option)"
  by (auto simp: numeral_eq_Suc le_Suc_eq)

lemma load_method:
  "map_option wnamed (fst (incoming_request_method_get imp self ptr m)) = abi_load (imp self ptr m) ptr 0 method_ty"
proof -
  define i where "i = unat (load_u8 (imp self ptr m) ptr)"
  consider "i \<le> 8" | "i = 9" | "9 < i" by linarith
  then show ?thesis
    by cases (auto simp: incoming_request_method_get_def method_ty_def abi_load.simps(8) disc_def Let_def wnamed_def
        nth_nones call_offsets simp flip: i_def)
qed

lemmas call_defs = poll_poll_def input_stream_read_def output_stream_check_write_def output_stream_write_def
  output_stream_blocking_flush_def get_random_bytes_def fields_from_list_def fields_get_def fields_set_def
  fields_delete_def fields_append_def fields_entries_def incoming_request_path_with_query_def
  incoming_request_scheme_def incoming_request_authority_def incoming_request_consume_def outgoing_request_body_def
  incoming_response_consume_def incoming_body_stream_def outgoing_response_body_def outgoing_body_write_def


subsection \<open>The lists of fields\<close>

text \<open>An element of a list is loaded at its index times the size of its type.\<close>

definition field_entry_ty :: wit where "field_entry_ty = Rec [Span, Span]"

lemma field_value_element_loads:
  "Some (wspan (field_value_element m p i)) = abi_load m p (abi_size Span * i) Span"
  by (simp add: field_value_element_def)

lemma field_entry_size: "abi_size field_entry_ty = 16"
  by (simp add: field_entry_ty_def align_to_def abi_size.simps(7) abi_align.simps(7))

lemma align_entry: "align_to (16 * i) 4 = 16 * i" "align_to (16 * i + 8) 4 = 16 * i + 8"
  unfolding align_to_def by presburger+

lemma entries_element_loads:
  "Some (case entries_element m p i of (k, v) \<Rightarrow> WRec [wspan k, wspan v])
     = abi_load m p (abi_size field_entry_ty * i) field_entry_ty"
  unfolding field_entry_size by (simp add: entries_element_def field_entry_ty_def align_entry add.commute [of 12])

subsection \<open>Lifting the flattened arguments\<close>

definition flat3 :: "32 word \<times> 32 word \<times> 32 word \<Rightarrow> core_val list" where
  "flat3 = (\<lambda>(a, b, c). [CI32 a, CI32 b, CI32 c])"

definition flat4 :: "32 word \<times> 32 word \<times> 32 word \<times> 32 word \<Rightarrow> core_val list" where
  "flat4 = (\<lambda>(a, b, c, d). [CI32 a, CI32 b, CI32 c, CI32 d])"

text \<open>The union has the name just when the tag is that of \<open>other\<close>.\<close>

definition named_ok :: "nat \<Rightarrow> named_variant \<Rightarrow> bool" where
  "named_ok other v = (unat (nv_tag v) \<le> other \<and> (nv_other v \<noteq> None) = (unat (nv_tag v) = other))"

lemma method_lifts_back:
  assumes "named_ok 9 v"
  shows "Option.bind (set_method_flat v) (abi_lift method_ty \<circ> flat3) = Some (wnamed v, [])"
proof -
  define i where "i = unat (nv_tag v)"
  consider "i \<le> 8" "nv_other v = None" | p l where "i = 9" "nv_other v = Some (p, l)"
    using assms by (cases "nv_other v") (auto simp: named_ok_def i_def)
  then show ?thesis
    by cases (simp_all add: set_method_flat_def method_ty_def flat3_def wnamed_def nth_nones unat_of_nat Let_def
        list_all2_Cons1 flip: i_def)
qed

lemma scheme_lifts_back:
  assumes "\<And>v. scheme = Some v \<Longrightarrow> named_ok 2 v"
  shows "Option.bind (set_scheme_flat scheme) (abi_lift (wit_option scheme_ty) \<circ> flat4) = Some (wval_option wnamed scheme, [])"
proof (cases scheme)
  case None
  then show ?thesis by (simp add: set_scheme_flat_def scheme_ty_def flat4_def Let_def)
next
  case (Some v)
  define i where "i = unat (nv_tag v)"
  have "named_ok 2 v" by (rule assms [OF Some])
  then consider "i = 0" "nv_other v = None" | "i = 1" "nv_other v = None" | p l where "i = 2" "nv_other v = Some (p, l)"
    by (cases "nv_other v") (auto simp: named_ok_def i_def le_Suc_eq numeral_2_eq_2)
  then show ?thesis
    by cases (simp_all add: Some set_scheme_flat_def scheme_ty_def flat4_def wnamed_def Let_def flip: i_def)
qed

lemma string_lifts_back: "abi_lift (wit_option Span) (flat3 (set_string_flat maybe)) = Some (wval_option wspan maybe, [])"
  by (cases maybe) (auto simp: set_string_flat_def flat3_def Let_def)

text \<open>
  C40. The numbers that the setters of an outgoing request pass for a method, an optional string or
  an optional scheme are lifted by the host to that very value, with nothing left over.
\<close>

theorem host_arguments_lift_back:
  assumes "named_ok 9 method" and "\<And>v. scheme = Some v \<Longrightarrow> named_ok 2 v"
  shows "Option.bind (set_method_flat method) (abi_lift method_ty \<circ> flat3) = Some (wnamed method, [])
    \<and> Option.bind (set_scheme_flat scheme) (abi_lift (wit_option scheme_ty) \<circ> flat4) = Some (wval_option wnamed scheme, [])
    \<and> abi_lift (wit_option Span) (flat3 (set_string_flat maybe)) = Some (wval_option wspan maybe, [])"
  by (intro conjI method_lifts_back [OF assms(1)] scheme_lifts_back [OF assms(2)] string_lifts_back)

theorem host_arguments_lift_back_witness:
  "Option.bind (set_method_flat \<lparr>nv_tag = 9, nv_other = Some (64, 3)\<rparr>) (abi_lift method_ty \<circ> flat3)
     = Some (WVariant 9 (Some (WSpan 64 3)), [])"
  using host_arguments_lift_back [of "\<lparr>nv_tag = 9, nv_other = Some (64, 3)\<rparr>" None None]
  by (simp add: named_ok_def wnamed_def)

end
