(* ===== verification/Host_Candidates.thy ===== *)
theory Host_Candidates
  imports Host_Http
begin

section \<open>The host API over release candidates of WASI\<close>

text \<open>
  A build may select \<open>host-apis/wasi-0.2.0-rc-2023-10-18\<close> or \<open>host-apis/wasi-0.2.0-rc-2023-12-05\<close> in
  place of \<open>host-apis/wasi-0.2.0\<close>.  This theory has the operations of their \<open>host_api.cpp\<close> that differ
  from the ones in \<open>Http_Fields\<close>, \<open>Host_Body\<close> and \<open>Host_Http\<close>: the first run of an append task (both),
  and headers, URLs, requests and responses (the older one, whose names end in \<open>old\<close>).

  \<^item> Whether a chunk of bytes has a null pointer depends on \<open>cabi_realloc\<close> of \<open>runtime/allocator.cpp\<close>,
    by which the host allocates it; the allocator of the engine is a parameter.
  \<^item> Results: append tasks still copy in order; where the final version gives a URL or a request, the
    older one gives the same.
\<close>

subsection \<open>Append tasks\<close>

text \<open>A null pointer is \<open>0\<close>.\<close>

definition cabi_realloc :: "(nat \<Rightarrow> nat \<Rightarrow> nat \<Rightarrow> nat) \<Rightarrow> nat \<Rightarrow> nat \<Rightarrow> nat \<Rightarrow> nat" where
  "cabi_realloc js_realloc ptr orig_size new_size =
     (if new_size = orig_size then ptr else js_realloc ptr orig_size new_size)"

text \<open>\<open>HostBytes::operator bool\<close> of the bytes that a read gives.\<close>

definition host_bytes_bool :: "(nat \<Rightarrow> nat \<Rightarrow> nat \<Rightarrow> nat) \<Rightarrow> byte list \<Rightarrow> bool" where
  "host_bytes_bool js_realloc bytes \<longleftrightarrow> cabi_realloc js_realloc 0 0 (length bytes) \<noteq> 0"

text \<open>
  \<open>auto [bytes, done]\<close> names the members the other way round: what is tested as \<open>done\<close> are the bytes.
\<close>

definition candidate_append_run :: "(nat \<Rightarrow> nat \<Rightarrow> nat \<Rightarrow> nat) \<Rightarrow> 'w streams_host \<Rightarrow> append_task \<Rightarrow> 'w
    \<Rightarrow> (run_result exec \<times> append_task \<times> 'w) option" where
  "candidate_append_run js_realloc H t w = (if at_state t = BlockedOnBoth \<or> at_state t = BlockedOnIncoming
     then case HttpIncomingBody_read H (at_in t) 0 w of
            (Inl _, w1) \<Rightarrow> Some (Trap, t, w1)
          | (Inr (_, bytes), w1) \<Rightarrow>
              if host_bytes_bool js_realloc bytes then Some (Returns RunDone, t\<lparr>at_state := AppendDone\<rparr>, w1)
              else append_when_readable H (t\<lparr>at_state := BlockedOnOutgoing\<rparr>) w1
     else append_when_readable H t w)"

lemma host_bytes_bool_empty [simp]: "\<not> host_bytes_bool js_realloc []"
  by (simp add: host_bytes_bool_def cabi_realloc_def)

lemma candidate_append_run_copies:
  assumes laws: "stream_laws H permit sent taken content"
    and out: "at_out t = Some st"
    and run: "candidate_append_run js_realloc H t w = Some (r, t', w')"
  shows "moved_by sent taken content t st w (r, t', w')
    \<or> r = Trap \<and> t' = t \<and> sent (ob_stream st) w' = sent (ob_stream st) w \<and> taken (at_in t) w' = taken (at_in t) w"
proof (cases "at_state t = BlockedOnBoth \<or> at_state t = BlockedOnIncoming")
  case False
  then have "append_when_readable H t w = Some (r, t', w')" using run by (simp add: candidate_append_run_def)
  then show ?thesis using append_when_readable_copies [OF laws out, of t w] out by simp
next
  case True
  obtain x w1 where x: "HttpIncomingBody_read H (at_in t) 0 w = (x, w1)" by (rule prod.exhaust)
  note rl = read_laws [OF laws x]
  show ?thesis
  proof (cases x)
    case (Inl e)
    then show ?thesis using run True x rl(1,2) by (auto simp: candidate_append_run_def)
  next
    case (Inr fb)
    obtain f bytes where fb: "fb = (f, bytes)" by (rule prod.exhaust)
    note tk = rl(3) [OF Inr [unfolded fb]]
    then have "append_when_readable H (t\<lparr>at_state := BlockedOnOutgoing\<rparr>) w1 = Some (r, t', w')"
      using run True x Inr fb by (simp add: candidate_append_run_def)
    then show ?thesis
      using append_when_readable_copies [OF laws out, of "t\<lparr>at_state := BlockedOnOutgoing\<rparr>" w1] out tk rl(1) by simp
  qed
qed

text \<open>
  The test never finds the input closed, which only the next read with room in the output does; in
  every other case the run is that of the final version.
\<close>

lemma candidate_append_run_agrees:
  assumes laws: "stream_laws H permit sent taken content"
    and opened: "\<And>w'. HttpIncomingBody_read H (at_in t) 0 w \<noteq> (Inr (True, []), w')"
  shows "candidate_append_run js_realloc H t w = BodyAppendTask_run H t w"
proof -
  obtain x w1 where x: "HttpIncomingBody_read H (at_in t) 0 w = (x, w1)" by (rule prod.exhaust)
  show ?thesis
  proof (cases x)
    case (Inl e)
    then show ?thesis by (simp add: candidate_append_run_def BodyAppendTask_run_def x)
  next
    case (Inr fb)
    obtain finished bytes where fb: "fb = (finished, bytes)" by (rule prod.exhaust)
    have "bytes = []" using read_laws(3) [OF laws x Inr [unfolded fb]] by simp
    moreover have "\<not> finished" using opened [of w1] x Inr fb calculation by auto
    ultimately show ?thesis by (simp add: candidate_append_run_def BodyAppendTask_run_def x Inr fb)
  qed
qed

text \<open>
  As long as nobody else reads the input or writes to the output, the runs of an append task
  over a release candidate send, in order and without repetition, the bytes they took: all of them
  while the task is queued, exactly the whole input when it is done, and a prefix when it fails.
\<close>

theorem candidate_append_copies_in_order:
  assumes laws: "stream_laws H permit sent taken content"
    and env: "\<And>v v'. env v v' \<Longrightarrow> sent (ob_stream st) v' = sent (ob_stream st) v \<and> taken (at_in t) v' = taken (at_in t) v"
    and "at_out t = Some st" "taken (at_in t) w = []"
    and "append_runs (candidate_append_run js_realloc H) env t w r t' w'"
  shows "\<exists>pre post. taken (at_in t) w' = pre @ post \<and> sent (ob_stream st) w' = sent (ob_stream st) w @ pre
    \<and> (r = Returns RunQueued \<longrightarrow> post = [])
    \<and> (r = Returns RunDone \<longrightarrow> pre = content (at_in t))"
  using candidate_append_run_copies [OF laws] env assms(3-5) by (rule append_runs_copy)

theorem candidate_append_copies_in_order_witness:
  "append_runs (candidate_append_run (\<lambda>_ _ _. 8) demo_body_host) (=) demo_task (0, [], 0) (Returns RunDone)
     (demo_task\<lparr>at_state := AppendDone\<rparr>) (6, demo_content, 2)
   \<and> demo_sent 1 (6, demo_content, 2) = demo_content"
proof -
  have run: "candidate_append_run (\<lambda>_ _ _. 8) demo_body_host demo_task (0, [], 0)
      = Some (Returns RunDone, demo_task\<lparr>at_state := AppendDone\<rparr>, (6, demo_content, 2))"
    using demo_run candidate_append_run_agrees [OF demo_body_laws, of demo_task "(0, [], 0)"]
    by (simp add: HttpIncomingBody_read_def demo_body_host_def demo_content_def)
  have r: "append_runs (candidate_append_run (\<lambda>_ _ _. 8) demo_body_host) (=) demo_task (0, [], 0) (Returns RunDone)
     (demo_task\<lparr>at_state := AppendDone\<rparr>) (6, demo_content, 2)"
    by (rule append_runs.Run, rule append_runs.Queued, rule refl, rule run)
  have "at_out demo_task = Some demo_body" "demo_taken (at_in demo_task) (0, [], 0) = []"
    by (simp_all add: demo_task_def demo_taken_def)
  from candidate_append_copies_in_order [OF demo_body_laws _ this r] r show ?thesis
    by (auto simp: demo_sent_def demo_body_def)
qed

subsection \<open>Headers\<close>

text \<open>The functions on fields report no errors.\<close>

record 'f old_fields =
  of_new :: "(string \<times> string) list \<Rightarrow> 'f"
  of_set :: "'f \<Rightarrow> string \<Rightarrow> string list \<Rightarrow> 'f"
  of_append :: "'f \<Rightarrow> string \<Rightarrow> string \<Rightarrow> 'f"
  of_delete :: "'f \<Rightarrow> string \<Rightarrow> 'f"

definition HttpHeaders_new_old :: "'f old_fields \<Rightarrow> 'f" where
  "HttpHeaders_new_old F = of_new F []"

text \<open>After the call of the host, \<open>free\<close> is called on the address of a local variable.\<close>

definition HttpHeaders_set_old :: "'f old_fields \<Rightarrow> 'f \<Rightarrow> string \<Rightarrow> string \<Rightarrow> unit api_result exec \<times> 'f" where
  "HttpHeaders_set_old F f name value = (Trap, of_set F f name [value])"

text \<open>
  The constructor from entries makes no fields: it calls \<open>set\<close> with a null handle state, and without
  any value leaves an object that has none (\<open>None\<close>).
\<close>

definition HttpHeaders_from_entries_old :: "(string \<times> string list) list \<Rightarrow> 'f option exec" where
  "HttpHeaders_from_entries_old entries =
     (if concat (map (\<lambda>(name, vals). map (Pair name) vals) entries) = [] then Returns None else Trap)"

definition HttpHeaders_append_old :: "'f old_fields \<Rightarrow> 'f \<Rightarrow> string \<Rightarrow> string \<Rightarrow> unit api_result \<times> 'f" where
  "HttpHeaders_append_old F f name value = (Inr (), of_append F f name value)"

definition HttpHeaders_remove_old :: "'f old_fields \<Rightarrow> 'f \<Rightarrow> string \<Rightarrow> unit api_result \<times> 'f" where
  "HttpHeaders_remove_old F f name = (Inr (), of_delete F f name)"

subsection \<open>Clock, URLs, requests and responses\<close>

definition MonotonicClock_subscribe_old :: "(64 word \<Rightarrow> bool \<Rightarrow> int) \<Rightarrow> 64 word \<Rightarrow> bool \<Rightarrow> int" where
  "MonotonicClock_subscribe_old subscribe when absolute = subscribe when absolute"

text \<open>
  The scheme starts as HTTP, but the generated function writes an indeterminate one, \<open>junk\<close>, when the
  request has none.
\<close>

definition HttpRequest_url_old :: "http_scheme \<Rightarrow> ('f, 'i, 'b) incoming_request_ops \<Rightarrow> ('f, 'i, 'b) http_incoming_request
    \<Rightarrow> string \<times> ('f, 'i, 'b) http_incoming_request" where
  "HttpRequest_url_old junk R r =
     (case i_url r of
        Some u \<Rightarrow> (u, r)
      | None \<Rightarrow>
          (let scheme = (case iq_scheme R (i_resource r) of Some scheme \<Rightarrow> scheme | None \<Rightarrow> junk);
               authority = (case iq_authority R (i_resource r) of Some authority \<Rightarrow> authority | None \<Rightarrow> ''localhost'');
               path = (case iq_path_with_query R (i_resource r) of Some path \<Rightarrow> path | None \<Rightarrow> []);
               u = scheme_to_string scheme @ authority @ path
           in (u, r\<lparr>i_url := Some u\<rparr>)))"

lemma url_old_agrees: "HttpRequest_url R r = Returns y \<Longrightarrow> HttpRequest_url_old junk R r = y"
  by (auto simp: HttpRequest_url_def HttpRequest_url_old_def Let_def split: option.splits)

text \<open>The constructor of a request takes all parts at once and only borrows the headers.\<close>

definition HttpOutgoingRequest_make_old :: "(http_method \<Rightarrow> string option \<Rightarrow> http_scheme option \<Rightarrow> string option \<Rightarrow> 'f \<Rightarrow> 'q)
    \<Rightarrow> string \<Rightarrow> (string \<times> string \<times> string) option \<Rightarrow> 'f field_handle \<Rightarrow> ('f, 'q, 'b) http_outgoing_request exec" where
  "HttpOutgoingRequest_make_old new method_str url headers =
     (case headers of
        Moved \<Rightarrow> Trap
      | Live f \<Rightarrow>
          (let (maybe_scheme, maybe_authority, maybe_path) =
             (case url of None \<Rightarrow> (None, None, None)
              | Some (protocol, authority, path) \<Rightarrow>
                  (Some (scheme_of_protocol protocol), Some authority, Some path));
               q = new (http_method_to_host method_str) maybe_path maybe_scheme maybe_authority f
           in Returns \<lparr>q_resource = q, q_headers = Live f, q_body = None, q_method = []\<rparr>))"

definition wit_request_new_old :: "http_method \<Rightarrow> string option \<Rightarrow> http_scheme option \<Rightarrow> string option \<Rightarrow> wit_fields \<Rightarrow> wit_request" where
  "wit_request_new_old m p s a f =
     \<lparr>w_method = m, w_scheme = s, w_authority = a, w_path = p, w_fields = f, w_body_taken = False\<rparr>"

text \<open>For a valid method it is the request of the final version, and the headers can still be used.\<close>

lemma make_old_agrees:
  assumes "HttpOutgoingRequest_make wit_request_ops m url (Live f) = Returns r" and "valid_method (http_method_to_host m)"
  shows "HttpOutgoingRequest_make_old wit_request_new_old m url (Live f) = Returns (r\<lparr>q_headers := Live f\<rparr>)"
  using assms
  by (auto simp: HttpOutgoingRequest_make_def HttpOutgoingRequest_make_old_def wit_request_ops_def wit_request_new_old_def
      Let_def split: option.splits)

definition HttpOutgoingResponse_make_old :: "(16 word \<Rightarrow> 'f \<Rightarrow> 'p) \<Rightarrow> 16 word \<Rightarrow> 'f field_handle
    \<Rightarrow> ('f, 'p, 'b) http_outgoing_response exec" where
  "HttpOutgoingResponse_make_old new status headers =
     (case headers of
        Moved \<Rightarrow> Trap
      | Live f \<Rightarrow> Returns \<lparr>p_resource = new status f, p_valid = True, p_headers = Live f, p_body = None, p_status = status\<rparr>)"

text \<open>The headers are not dropped.\<close>

definition HttpOutgoingResponse_send_old :: "('p \<Rightarrow> 'w \<Rightarrow> 'w) \<Rightarrow> ('f, 'p, 'b) http_outgoing_response \<Rightarrow> 'w
    \<Rightarrow> ('f, 'p, 'b) http_outgoing_response \<times> 'w" where
  "HttpOutgoingResponse_send_old outparam_set r w = (r, outparam_set (p_resource r) w)"

end
