(* ===== verification/Wasi_Old_Calls.thy ===== *)
theory Wasi_Old_Calls
  imports Wasi_Calls
begin

section \<open>The generated bindings of the older release candidate\<close>

text \<open>
  The functions of \<open>host-apis/wasi-0.2.0-rc-2023-10-18/bindings/bindings.c\<close> that \<open>host_api.cpp\<close> beside it
  calls; their names end in \<open>old\<close>.  In this version an error of \<open>wasi:http\<close> is one of four strings, the
  functions on fields report nothing, and a request is made by one call with all its parts.  As in
  \<open>Wasi_Calls\<close>, each function is translated with its own offsets, results are compared with what the
  canonical ABI loads, and arguments with what it lifts.
\<close>

subsection \<open>Streams, pollables, clock and random bytes\<close>

definition poll_poll_list_old :: "(bindings_string \<Rightarrow> addr \<Rightarrow> mem \<Rightarrow> mem) \<Rightarrow> bindings_string \<Rightarrow> addr \<Rightarrow> mem
    \<Rightarrow> bindings_string option \<times> mem" where
  "poll_poll_list_old imp pollables ptr m =
     (let m = imp pollables ptr m in (Some (load_i32 m ptr, load_i32 m (ptr + 4)), m))"

definition clock_now_old :: "64 word \<Rightarrow> 64 word" where "clock_now_old imp = imp"

definition clock_resolution_old :: "64 word \<Rightarrow> 64 word" where "clock_resolution_old imp = imp"

definition clock_subscribe_old :: "(64 word \<Rightarrow> 32 word \<Rightarrow> 32 word) \<Rightarrow> 64 word \<Rightarrow> bool \<Rightarrow> handle" where
  "clock_subscribe_old imp when absolute = imp when (if absolute then 1 else 0)"

definition input_stream_read_old :: "(handle \<Rightarrow> 64 word \<Rightarrow> addr \<Rightarrow> mem \<Rightarrow> mem) \<Rightarrow> handle \<Rightarrow> 64 word \<Rightarrow> addr \<Rightarrow> mem
    \<Rightarrow> (stream_error + bindings_string) option \<times> mem" where
  "input_stream_read_old imp self len ptr m =
     (let m = imp self len ptr m
      in (switch_result (disc m ptr) (Some (load_i32 m (ptr + 4), load_i32 m (ptr + 8)))
            (stream_error_at m (ptr + 4) (ptr + 8)), m))"

definition input_stream_subscribe_old :: "(handle \<Rightarrow> 32 word) \<Rightarrow> handle \<Rightarrow> handle" where
  "input_stream_subscribe_old imp self = imp self"

definition output_stream_check_write_old :: "(handle \<Rightarrow> addr \<Rightarrow> mem \<Rightarrow> mem) \<Rightarrow> handle \<Rightarrow> addr \<Rightarrow> mem
    \<Rightarrow> (stream_error + 64 word) option \<times> mem" where
  "output_stream_check_write_old imp self ptr m =
     (let m = imp self ptr m
      in (switch_result (disc m ptr) (Some (load_i64 m (ptr + 8))) (stream_error_at m (ptr + 8) (ptr + 12)), m))"

definition output_stream_write_old :: "(handle \<Rightarrow> bindings_string \<Rightarrow> addr \<Rightarrow> mem \<Rightarrow> mem) \<Rightarrow> handle \<Rightarrow> bindings_string
    \<Rightarrow> addr \<Rightarrow> mem \<Rightarrow> (stream_error + unit) option \<times> mem" where
  "output_stream_write_old imp self contents ptr m =
     (let m = imp self contents ptr m
      in (switch_result (disc m ptr) (Some ()) (stream_error_at m (ptr + 4) (ptr + 8)), m))"

definition output_stream_blocking_flush_old :: "(handle \<Rightarrow> addr \<Rightarrow> mem \<Rightarrow> mem) \<Rightarrow> handle \<Rightarrow> addr \<Rightarrow> mem
    \<Rightarrow> (stream_error + unit) option \<times> mem" where
  "output_stream_blocking_flush_old imp self ptr m =
     (let m = imp self ptr m
      in (switch_result (disc m ptr) (Some ()) (stream_error_at m (ptr + 4) (ptr + 8)), m))"

definition output_stream_subscribe_old :: "(handle \<Rightarrow> 32 word) \<Rightarrow> handle \<Rightarrow> handle" where
  "output_stream_subscribe_old imp self = imp self"

definition get_random_bytes_old :: "(64 word \<Rightarrow> addr \<Rightarrow> mem \<Rightarrow> mem) \<Rightarrow> 64 word \<Rightarrow> addr \<Rightarrow> mem
    \<Rightarrow> bindings_string option \<times> mem" where
  "get_random_bytes_old imp len ptr m =
     (let m = imp len ptr m in (Some (load_i32 m ptr, load_i32 m (ptr + 4)), m))"

definition get_random_u64_old :: "64 word \<Rightarrow> 64 word" where "get_random_u64_old imp = imp"

subsection \<open>Fields\<close>

text \<open>The changing functions give the resources afterwards.\<close>

definition constructor_fields_old :: "(32 word \<Rightarrow> 32 word \<Rightarrow> 32 word) \<Rightarrow> bindings_string \<Rightarrow> handle" where
  "constructor_fields_old imp entries = imp (fst entries) (snd entries)"

definition fields_get_old :: "(handle \<Rightarrow> bindings_string \<Rightarrow> addr \<Rightarrow> mem \<Rightarrow> mem) \<Rightarrow> handle \<Rightarrow> bindings_string \<Rightarrow> addr \<Rightarrow> mem
    \<Rightarrow> bindings_string option \<times> mem" where
  "fields_get_old imp self name ptr m =
     (let m = imp self name ptr m in (Some (load_i32 m ptr, load_i32 m (ptr + 4)), m))"

definition fields_set_old :: "(handle \<Rightarrow> 32 word \<Rightarrow> 32 word \<Rightarrow> 32 word \<Rightarrow> 32 word \<Rightarrow> 'w \<Rightarrow> 'w) \<Rightarrow> handle \<Rightarrow> bindings_string
    \<Rightarrow> bindings_string \<Rightarrow> 'w \<Rightarrow> 'w" where
  "fields_set_old imp self name val w = imp self (fst name) (snd name) (fst val) (snd val) w"

definition fields_delete_old :: "(handle \<Rightarrow> 32 word \<Rightarrow> 32 word \<Rightarrow> 'w \<Rightarrow> 'w) \<Rightarrow> handle \<Rightarrow> bindings_string \<Rightarrow> 'w \<Rightarrow> 'w" where
  "fields_delete_old imp self name w = imp self (fst name) (snd name) w"

definition fields_append_old :: "(handle \<Rightarrow> 32 word \<Rightarrow> 32 word \<Rightarrow> 32 word \<Rightarrow> 32 word \<Rightarrow> 'w \<Rightarrow> 'w) \<Rightarrow> handle \<Rightarrow> bindings_string
    \<Rightarrow> bindings_string \<Rightarrow> 'w \<Rightarrow> 'w" where
  "fields_append_old imp self name val w = imp self (fst name) (snd name) (fst val) (snd val) w"

definition fields_entries_old :: "(handle \<Rightarrow> addr \<Rightarrow> mem \<Rightarrow> mem) \<Rightarrow> handle \<Rightarrow> addr \<Rightarrow> mem \<Rightarrow> bindings_string option \<times> mem" where
  "fields_entries_old imp self ptr m =
     (let m = imp self ptr m in (Some (load_i32 m ptr, load_i32 m (ptr + 4)), m))"

definition fields_clone_old :: "(handle \<Rightarrow> 32 word) \<Rightarrow> handle \<Rightarrow> handle" where
  "fields_clone_old imp self = imp self"

subsection \<open>Incoming requests\<close>

definition incoming_request_method_old :: "(handle \<Rightarrow> addr \<Rightarrow> mem \<Rightarrow> mem) \<Rightarrow> handle \<Rightarrow> addr \<Rightarrow> mem
    \<Rightarrow> named_variant option \<times> mem" where
  "incoming_request_method_old imp self ptr m =
     (let m = imp self ptr m; tag = load_u8 m ptr
      in (if unat tag \<le> 8 then Some \<lparr>nv_tag = tag, nv_other = None\<rparr>
          else if unat tag = 9 then Some \<lparr>nv_tag = tag, nv_other = Some (load_i32 m (ptr + 4), load_i32 m (ptr + 8))\<rparr>
          else None, m))"

definition incoming_request_path_with_query_old :: "(handle \<Rightarrow> addr \<Rightarrow> mem \<Rightarrow> mem) \<Rightarrow> handle \<Rightarrow> addr \<Rightarrow> mem
    \<Rightarrow> bindings_string option option \<times> mem" where
  "incoming_request_path_with_query_old imp self ptr m =
     (let m = imp self ptr m
      in (switch_option (disc m ptr) (Some (load_i32 m (ptr + 4), load_i32 m (ptr + 8))), m))"

definition incoming_request_scheme_old :: "(handle \<Rightarrow> addr \<Rightarrow> mem \<Rightarrow> mem) \<Rightarrow> handle \<Rightarrow> addr \<Rightarrow> mem
    \<Rightarrow> named_variant option option \<times> mem" where
  "incoming_request_scheme_old imp self ptr m =
     (let m = imp self ptr m
      in (switch_option (disc m ptr)
            (let tag = load_u8 m (ptr + 4)
             in if unat tag = 0 \<or> unat tag = 1 then Some \<lparr>nv_tag = tag, nv_other = None\<rparr>
                else if unat tag = 2 then Some \<lparr>nv_tag = tag, nv_other = Some (load_i32 m (ptr + 8), load_i32 m (ptr + 12))\<rparr>
                else None), m))"

definition incoming_request_authority_old :: "(handle \<Rightarrow> addr \<Rightarrow> mem \<Rightarrow> mem) \<Rightarrow> handle \<Rightarrow> addr \<Rightarrow> mem
    \<Rightarrow> bindings_string option option \<times> mem" where
  "incoming_request_authority_old imp self ptr m =
     (let m = imp self ptr m
      in (switch_option (disc m ptr) (Some (load_i32 m (ptr + 4), load_i32 m (ptr + 8))), m))"

definition incoming_request_headers_old :: "(handle \<Rightarrow> 32 word) \<Rightarrow> handle \<Rightarrow> handle" where
  "incoming_request_headers_old imp self = imp self"

text \<open>The functions that give a handle or nothing.\<close>

definition incoming_request_consume_old :: "(handle \<Rightarrow> addr \<Rightarrow> mem \<Rightarrow> mem) \<Rightarrow> handle \<Rightarrow> addr \<Rightarrow> mem
    \<Rightarrow> (unit + handle) option \<times> mem" where
  "incoming_request_consume_old imp self ptr m =
     (let m = imp self ptr m in (switch_result (disc m ptr) (Some (load_i32 m (ptr + 4))) (Some ()), m))"

definition outgoing_request_write_old :: "(handle \<Rightarrow> addr \<Rightarrow> mem \<Rightarrow> mem) \<Rightarrow> handle \<Rightarrow> addr \<Rightarrow> mem
    \<Rightarrow> (unit + handle) option \<times> mem" where
  "outgoing_request_write_old imp self ptr m =
     (let m = imp self ptr m in (switch_result (disc m ptr) (Some (load_i32 m (ptr + 4))) (Some ()), m))"

definition incoming_response_consume_old :: "(handle \<Rightarrow> addr \<Rightarrow> mem \<Rightarrow> mem) \<Rightarrow> handle \<Rightarrow> addr \<Rightarrow> mem
    \<Rightarrow> (unit + handle) option \<times> mem" where
  "incoming_response_consume_old imp self ptr m =
     (let m = imp self ptr m in (switch_result (disc m ptr) (Some (load_i32 m (ptr + 4))) (Some ()), m))"

definition incoming_body_stream_old :: "(handle \<Rightarrow> addr \<Rightarrow> mem \<Rightarrow> mem) \<Rightarrow> handle \<Rightarrow> addr \<Rightarrow> mem
    \<Rightarrow> (unit + handle) option \<times> mem" where
  "incoming_body_stream_old imp self ptr m =
     (let m = imp self ptr m in (switch_result (disc m ptr) (Some (load_i32 m (ptr + 4))) (Some ()), m))"

definition outgoing_response_write_old :: "(handle \<Rightarrow> addr \<Rightarrow> mem \<Rightarrow> mem) \<Rightarrow> handle \<Rightarrow> addr \<Rightarrow> mem
    \<Rightarrow> (unit + handle) option \<times> mem" where
  "outgoing_response_write_old imp self ptr m =
     (let m = imp self ptr m in (switch_result (disc m ptr) (Some (load_i32 m (ptr + 4))) (Some ()), m))"

definition outgoing_body_write_old :: "(handle \<Rightarrow> addr \<Rightarrow> mem \<Rightarrow> mem) \<Rightarrow> handle \<Rightarrow> addr \<Rightarrow> mem
    \<Rightarrow> (unit + handle) option \<times> mem" where
  "outgoing_body_write_old imp self ptr m =
     (let m = imp self ptr m in (switch_result (disc m ptr) (Some (load_i32 m (ptr + 4))) (Some ()), m))"

subsection \<open>Outgoing requests\<close>

text \<open>The thirteen numbers that the method, the path, the scheme and the authority become.\<close>

definition method_flat_old :: "named_variant \<Rightarrow> 32 word list option" where
  "method_flat_old method =
     (let tag = unat (nv_tag method)
      in if tag \<le> 8 then Some [of_nat tag, 0, 0]
         else if tag = 9 then map_option (\<lambda>(variant9, variant10). [9, variant9, variant10]) (nv_other method)
         else None)"

definition string_flat_old :: "bindings_string option \<Rightarrow> 32 word list" where
  "string_flat_old s = (case s of Some (p, l) \<Rightarrow> [1, p, l] | None \<Rightarrow> [0, 0, 0])"

definition scheme_flat_old :: "named_variant option \<Rightarrow> 32 word list option" where
  "scheme_flat_old scheme =
     (case scheme of
        None \<Rightarrow> Some [0, 0, 0, 0]
      | Some payload16 \<Rightarrow>
          map_option (\<lambda>(variant20, variant21, variant22). [1, variant20, variant21, variant22])
            (let tag = unat (nv_tag payload16)
             in if tag = 0 then Some (0, 0, 0)
                else if tag = 1 then Some (1, 0, 0)
                else if tag = 2 then map_option (\<lambda>(p, l). (2, p, l)) (nv_other payload16)
                else None))"

definition outgoing_request_flat_old :: "named_variant \<Rightarrow> bindings_string option \<Rightarrow> named_variant option \<Rightarrow> bindings_string option
    \<Rightarrow> 32 word list option" where
  "outgoing_request_flat_old method path_with_query scheme authority =
     Option.bind (method_flat_old method) (\<lambda>variants.
     Option.bind (scheme_flat_old scheme) (\<lambda>options.
     Some (variants @ string_flat_old path_with_query @ options @ string_flat_old authority)))"

definition constructor_outgoing_request_old :: "(32 word list \<Rightarrow> 32 word \<Rightarrow> 32 word) \<Rightarrow> named_variant \<Rightarrow> bindings_string option
    \<Rightarrow> named_variant option \<Rightarrow> bindings_string option \<Rightarrow> handle \<Rightarrow> handle option" where
  "constructor_outgoing_request_old imp method path_with_query scheme authority headers =
     map_option (\<lambda>args. imp args headers) (outgoing_request_flat_old method path_with_query scheme authority)"

subsection \<open>Errors\<close>

record old_error =
  oe_tag :: byte
  oe_text :: bindings_string

definition old_error_at :: "mem \<Rightarrow> addr \<Rightarrow> addr \<Rightarrow> addr \<Rightarrow> old_error option" where
  "old_error_at m tag_addr ptr_addr len_addr =
     (let tag = load_u8 m tag_addr
      in if unat tag = 0 \<or> unat tag = 1 \<or> unat tag = 2 \<or> unat tag = 3
         then Some \<lparr>oe_tag = tag, oe_text = (load_i32 m ptr_addr, load_i32 m len_addr)\<rparr> else None)"

definition response_outparam_flat_old :: "old_error + handle \<Rightarrow> (32 word \<times> 32 word \<times> 32 word \<times> 32 word) option" where
  "response_outparam_flat_old response =
     (case response of
        Inl payload0 \<Rightarrow>
          (let tag = unat (oe_tag payload0); (p, l) = oe_text payload0
           in if tag = 0 then Some (1, 0, p, l) else if tag = 1 then Some (1, 1, p, l)
              else if tag = 2 then Some (1, 2, p, l) else if tag = 3 then Some (1, 3, p, l) else None)
      | Inr payload \<Rightarrow> Some (0, payload, 0, 0))"

definition response_outparam_set_old :: "(handle \<Rightarrow> 32 word \<times> 32 word \<times> 32 word \<times> 32 word \<Rightarrow> mem \<Rightarrow> mem) \<Rightarrow> handle
    \<Rightarrow> old_error + handle \<Rightarrow> mem \<Rightarrow> mem option" where
  "response_outparam_set_old imp param response m =
     map_option (\<lambda>flat. imp param flat m) (response_outparam_flat_old response)"

definition future_incoming_response_get_old :: "(handle \<Rightarrow> addr \<Rightarrow> mem \<Rightarrow> mem) \<Rightarrow> handle \<Rightarrow> addr \<Rightarrow> mem
    \<Rightarrow> (unit + old_error + handle) option option \<times> mem" where
  "future_incoming_response_get_old imp self ptr m =
     (let m = imp self ptr m
      in (switch_option (disc m ptr)
            (switch_result (disc m (ptr + 4))
              (switch_result (disc m (ptr + 8)) (Some (load_i32 m (ptr + 12))) (old_error_at m (ptr + 12) (ptr + 16) (ptr + 20)))
              (Some ())), m))"

definition future_incoming_response_subscribe_old :: "(handle \<Rightarrow> 32 word) \<Rightarrow> handle \<Rightarrow> handle" where
  "future_incoming_response_subscribe_old imp self = imp self"

record request_options_old =
  connect_timeout_ms :: "32 word option"
  first_byte_timeout_ms :: "32 word option"
  between_bytes_timeout_ms :: "32 word option"

definition timeout_flat_old :: "32 word option \<Rightarrow> 32 word list" where
  "timeout_flat_old t = (case t of Some ms \<Rightarrow> [1, ms] | None \<Rightarrow> [0, 0])"

definition request_options_flat_old :: "request_options_old option \<Rightarrow> 32 word list" where
  "request_options_flat_old maybe_options =
     (case maybe_options of
        Some payload0 \<Rightarrow> 1 # timeout_flat_old (connect_timeout_ms payload0) @ timeout_flat_old (first_byte_timeout_ms payload0)
          @ timeout_flat_old (between_bytes_timeout_ms payload0)
      | None \<Rightarrow> [0, 0, 0, 0, 0, 0, 0])"

definition outgoing_handler_handle_old :: "(handle \<Rightarrow> 32 word list \<Rightarrow> addr \<Rightarrow> mem \<Rightarrow> mem) \<Rightarrow> handle
    \<Rightarrow> request_options_old option \<Rightarrow> addr \<Rightarrow> mem \<Rightarrow> (old_error + handle) option \<times> mem" where
  "outgoing_handler_handle_old imp request maybe_options ptr m =
     (let m = imp request (request_options_flat_old maybe_options) ptr m
      in (switch_result (disc m ptr) (Some (load_i32 m (ptr + 4))) (old_error_at m (ptr + 4) (ptr + 8) (ptr + 12)), m))"

subsection \<open>Responses and bodies\<close>

definition incoming_response_status_old :: "(handle \<Rightarrow> 32 word) \<Rightarrow> handle \<Rightarrow> 16 word" where
  "incoming_response_status_old imp self = ucast (imp self)"

definition incoming_response_headers_old :: "(handle \<Rightarrow> 32 word) \<Rightarrow> handle \<Rightarrow> handle" where
  "incoming_response_headers_old imp self = imp self"

definition constructor_outgoing_response_old :: "(32 word \<Rightarrow> handle \<Rightarrow> 32 word) \<Rightarrow> 16 word \<Rightarrow> handle \<Rightarrow> handle" where
  "constructor_outgoing_response_old imp status_code headers = imp (ucast status_code) headers"

definition outgoing_body_finish_old :: "(handle \<Rightarrow> 32 word \<Rightarrow> 32 word \<Rightarrow> 'w \<Rightarrow> 'w) \<Rightarrow> handle \<Rightarrow> handle option \<Rightarrow> 'w \<Rightarrow> 'w" where
  "outgoing_body_finish_old imp this maybe_trailers w =
     (case maybe_trailers of Some payload0 \<Rightarrow> imp this 1 payload0 w | None \<Rightarrow> imp this 0 0 w)"

subsection \<open>The interface types\<close>

definition old_error_ty :: wit where "old_error_ty = Variant [Some Span, Some Span, Some Span, Some Span]"

definition request_options_ty :: wit where "request_options_ty = Rec [wit_option U32, wit_option U32, wit_option U32]"

definition wold_error :: "old_error \<Rightarrow> wval" where
  "wold_error e = WVariant (unat (oe_tag e)) (Some (wspan (oe_text e)))"

definition woptions :: "request_options_old \<Rightarrow> wval" where
  "woptions r = WRec [wval_option WU32 (connect_timeout_ms r), wval_option WU32 (first_byte_timeout_ms r),
     wval_option WU32 (between_bytes_timeout_ms r)]"

subsection \<open>Reading the return area\<close>

lemma old_offsets [abi_simps]:
  "payload_offset [Some Span, Some Span, Some Span, Some Span] = 4" "payload_offset [Some Handle, Some old_error_ty] = 4"
  "payload_offset [Some (wit_result (Some Handle) (Some old_error_ty)), None] = 4"
  "payload_offset [None, Some (wit_result (Some (wit_result (Some Handle) (Some old_error_ty))) None)] = 4"
  by (simp_all add: payload_offset_def align_to_def old_error_ty_def abi_align.simps(8))

lemma load_old_error:
  assumes "a = b + of_nat n" "a' = b + of_nat (n + 4)" "a'' = b + of_nat (n + 8)"
  shows "map_option wold_error (old_error_at m a a' a'') = abi_load m b n old_error_ty"
proof -
  have "i < 4 \<longleftrightarrow> i = 0 \<or> i = 1 \<or> i = 2 \<or> i = 3" for i :: nat by auto
  then show ?thesis
    using assms
    by (auto simp: old_error_at_def old_error_ty_def abi_load.simps(8) disc_def Let_def wold_error_def old_offsets add.assoc
        nth_Cons split: nat.splits)
qed

lemma handler_handle_old_abi:
  "map_option (wval_result (some_of WHandle) (some_of wold_error)) (fst (outgoing_handler_handle_old imp request options ptr m))
     = abi_load (snd (outgoing_handler_handle_old imp request options ptr m)) ptr 0 (wit_result (Some Handle) (Some old_error_ty))"
  unfolding outgoing_handler_handle_old_def Let_def fst_conv snd_conv
  by (rule read_result, rule load_payload_some, simp_all only: abi_simps, simp, rule load_payload_some, rule load_old_error)
    simp_all

lemma future_get_old_abi:
  "map_option (wval_option (wval_result (some_of (wval_result (some_of WHandle) (some_of wold_error))) (\<lambda>_. None)))
       (fst (future_incoming_response_get_old imp self ptr m))
     = abi_load (snd (future_incoming_response_get_old imp self ptr m)) ptr 0
         (wit_option (wit_result (Some (wit_result (Some Handle) (Some old_error_ty))) None))"
  unfolding future_incoming_response_get_old_def Let_def fst_conv snd_conv
  by (rule read_option, rule read_result, rule load_payload_some, rule read_result, rule load_payload_some,
      simp_all only: abi_simps load_payload_none, simp, rule load_payload_some, rule load_old_error) simp_all

lemma load_method_old:
  "map_option wnamed (fst (incoming_request_method_old imp self ptr m)) = abi_load (snd (incoming_request_method_old imp self ptr m)) ptr 0 method_ty"
  using load_method [of imp self ptr m]
  by (simp add: incoming_request_method_get_def incoming_request_method_old_def Let_def)

lemma load_scheme_old:
  "map_option (wval_option wnamed) (fst (incoming_request_scheme_old imp self ptr m))
     = abi_load (snd (incoming_request_scheme_old imp self ptr m)) ptr 0 (wit_option scheme_ty)"
  using load_scheme_option [of "imp self ptr m" ptr]
  by (simp only: incoming_request_scheme_old_def scheme_at_def Let_def fst_conv snd_conv)

lemmas old_call_defs = poll_poll_list_old_def
  input_stream_read_old_def
  output_stream_check_write_old_def
  output_stream_write_old_def
  output_stream_blocking_flush_old_def
  get_random_bytes_old_def
  fields_get_old_def
  fields_entries_old_def
  incoming_request_path_with_query_old_def
  incoming_request_authority_old_def
  incoming_request_consume_old_def
  outgoing_request_write_old_def
  incoming_response_consume_old_def
  incoming_body_stream_old_def
  outgoing_response_write_old_def
  outgoing_body_write_old_def

text \<open>
  For every content of the return area, the functions of the older candidate give the value that the
  canonical ABI loads for the type of their result, and an indeterminate one exactly when it traps.
\<close>

theorem old_calls_read_canonically:
  "map_option (wspan) (fst (poll_poll_list_old f1 l ptr m))
      = abi_load (snd (poll_poll_list_old f1 l ptr m)) ptr 0 (Span)
   \<and> map_option (wval_result (some_of wspan) (some_of wstream_error)) (fst (input_stream_read_old f2 self n ptr m))
      = abi_load (snd (input_stream_read_old f2 self n ptr m)) ptr 0 (wit_result (Some Span) (Some stream_error_ty))
   \<and> map_option (wval_result (some_of WU64) (some_of wstream_error)) (fst (output_stream_check_write_old f3 self ptr m))
      = abi_load (snd (output_stream_check_write_old f3 self ptr m)) ptr 0 (wit_result (Some U64) (Some stream_error_ty))
   \<and> map_option (wval_result (\<lambda>_. None) (some_of wstream_error)) (fst (output_stream_write_old f4 self l ptr m))
      = abi_load (snd (output_stream_write_old f4 self l ptr m)) ptr 0 (wit_result None (Some stream_error_ty))
   \<and> map_option (wval_result (\<lambda>_. None) (some_of wstream_error)) (fst (output_stream_blocking_flush_old f3 self ptr m))
      = abi_load (snd (output_stream_blocking_flush_old f3 self ptr m)) ptr 0 (wit_result None (Some stream_error_ty))
   \<and> map_option (wspan) (fst (get_random_bytes_old f5 n ptr m))
      = abi_load (snd (get_random_bytes_old f5 n ptr m)) ptr 0 (Span)
   \<and> map_option (wspan) (fst (fields_get_old f4 self l ptr m))
      = abi_load (snd (fields_get_old f4 self l ptr m)) ptr 0 (Span)
   \<and> map_option (wspan) (fst (fields_entries_old f3 self ptr m))
      = abi_load (snd (fields_entries_old f3 self ptr m)) ptr 0 (Span)
   \<and> map_option (wnamed) (fst (incoming_request_method_old f3 self ptr m))
      = abi_load (snd (incoming_request_method_old f3 self ptr m)) ptr 0 (method_ty)
   \<and> map_option (wval_option wspan) (fst (incoming_request_path_with_query_old f3 self ptr m))
      = abi_load (snd (incoming_request_path_with_query_old f3 self ptr m)) ptr 0 (wit_option Span)
   \<and> map_option (wval_option wnamed) (fst (incoming_request_scheme_old f3 self ptr m))
      = abi_load (snd (incoming_request_scheme_old f3 self ptr m)) ptr 0 (wit_option scheme_ty)
   \<and> map_option (wval_option wspan) (fst (incoming_request_authority_old f3 self ptr m))
      = abi_load (snd (incoming_request_authority_old f3 self ptr m)) ptr 0 (wit_option Span)
   \<and> map_option (wval_result (some_of WHandle) (\<lambda>_. None)) (fst (incoming_request_consume_old f3 self ptr m))
      = abi_load (snd (incoming_request_consume_old f3 self ptr m)) ptr 0 (wit_result (Some Handle) None)
   \<and> map_option (wval_result (some_of WHandle) (\<lambda>_. None)) (fst (outgoing_request_write_old f3 self ptr m))
      = abi_load (snd (outgoing_request_write_old f3 self ptr m)) ptr 0 (wit_result (Some Handle) None)
   \<and> map_option (wval_result (some_of WHandle) (\<lambda>_. None)) (fst (incoming_response_consume_old f3 self ptr m))
      = abi_load (snd (incoming_response_consume_old f3 self ptr m)) ptr 0 (wit_result (Some Handle) None)
   \<and> map_option (wval_result (some_of WHandle) (\<lambda>_. None)) (fst (incoming_body_stream_old f3 self ptr m))
      = abi_load (snd (incoming_body_stream_old f3 self ptr m)) ptr 0 (wit_result (Some Handle) None)
   \<and> map_option (wval_result (some_of WHandle) (\<lambda>_. None)) (fst (outgoing_response_write_old f3 self ptr m))
      = abi_load (snd (outgoing_response_write_old f3 self ptr m)) ptr 0 (wit_result (Some Handle) None)
   \<and> map_option (wval_result (some_of WHandle) (\<lambda>_. None)) (fst (outgoing_body_write_old f3 self ptr m))
      = abi_load (snd (outgoing_body_write_old f3 self ptr m)) ptr 0 (wit_result (Some Handle) None)
   \<and> map_option (wval_option (wval_result (some_of (wval_result (some_of WHandle) (some_of wold_error))) (\<lambda>_. None))) (fst (future_incoming_response_get_old f3 self ptr m))
      = abi_load (snd (future_incoming_response_get_old f3 self ptr m)) ptr 0 (wit_option (wit_result (Some (wit_result (Some Handle) (Some old_error_ty))) None))
   \<and> map_option (wval_result (some_of WHandle) (some_of wold_error)) (fst (outgoing_handler_handle_old f7 self options ptr m))
      = abi_load (snd (outgoing_handler_handle_old f7 self options ptr m)) ptr 0 (wit_result (Some Handle) (Some old_error_ty))"
  by (intro conjI load_method_old load_scheme_old future_get_old_abi handler_handle_old_abi;
      simp only: old_call_defs Let_def fst_conv snd_conv load_span load_read_result load_permit_result
        load_void_stream_result load_string_option load_handle_result)

subsection \<open>Lifting the flattened arguments\<close>

text \<open>Each part is lifted from the front of the numbers, whatever follows it.\<close>

lemma lift_string_old:
  "abi_lift (wit_option Span) (map CI32 (string_flat_old s) @ rest) = Some (wval_option wspan s, rest)"
  by (cases s) (auto simp: string_flat_old_def Let_def)

lemma lift_method_old:
  assumes "i \<le> 8" shows "abi_lift method_ty (CI32 (of_nat i) # CI32 0 # CI32 0 # rest) = Some (WVariant i None, rest)"
  using assms by (simp add: method_ty_def nth_nones unat_of_nat Let_def list_all2_Cons1)

lemma lift_method_old_other: "abi_lift method_ty (CI32 9 # CI32 p # CI32 l # rest) = Some (WVariant 9 (Some (WSpan p l)), rest)"
  by (simp add: method_ty_def nth_nones Let_def list_all2_Cons1)

lemma lift_scheme_old:
  "abi_lift (wit_option scheme_ty) (CI32 0 # CI32 0 # CI32 0 # CI32 0 # rest) = Some (wval_option wnamed None, rest)"
  "abi_lift (wit_option scheme_ty) (CI32 1 # CI32 0 # CI32 0 # CI32 0 # rest) = Some (WVariant 1 (Some (WVariant 0 None)), rest)"
  "abi_lift (wit_option scheme_ty) (CI32 1 # CI32 1 # CI32 0 # CI32 0 # rest) = Some (WVariant 1 (Some (WVariant 1 None)), rest)"
  "abi_lift (wit_option scheme_ty) (CI32 1 # CI32 2 # CI32 p # CI32 l # rest)
     = Some (WVariant 1 (Some (WVariant 2 (Some (WSpan p l)))), rest)"
  by (simp_all add: scheme_ty_def Let_def)

lemma named_ok_cases:
  assumes "named_ok k v"
  obtains "unat (nv_tag v) < k" "nv_other v = None" | p l where "unat (nv_tag v) = k" "nv_other v = Some (p, l)"
  using assms by (cases "nv_other v") (auto simp: named_ok_def)

lemma method_lifts_old:
  assumes "named_ok 9 v"
  shows "\<exists>flat. method_flat_old v = Some flat \<and> (\<forall>rest. abi_lift method_ty (map CI32 flat @ rest) = Some (wnamed v, rest))"
proof -
  define i where "i = unat (nv_tag v)"
  from assms consider "i \<le> 8" "nv_other v = None" | p l where "i = 9" "nv_other v = Some (p, l)"
    by (cases rule: named_ok_cases) (auto simp: i_def)
  then show ?thesis
    by cases (simp_all add: method_flat_old_def wnamed_def Let_def lift_method_old lift_method_old_other
      del: abi_lift.simps flip: i_def)
qed

lemma scheme_lifts_old:
  assumes "\<And>v. scheme = Some v \<Longrightarrow> named_ok 2 v"
  shows "\<exists>flat. scheme_flat_old scheme = Some flat
    \<and> (\<forall>rest. abi_lift (wit_option scheme_ty) (map CI32 flat @ rest) = Some (wval_option wnamed scheme, rest))"
proof (cases scheme)
  case None
  then show ?thesis using lift_scheme_old(1) by (simp add: scheme_flat_old_def del: abi_lift.simps)
next
  case (Some v)
  define i where "i = unat (nv_tag v)"
  from assms [OF Some] consider "i = 0" "nv_other v = None" | "i = 1" "nv_other v = None" | p l where "i = 2" "nv_other v = Some (p, l)"
    by (cases rule: named_ok_cases) (auto simp: i_def less_2_cases_iff)
  then show ?thesis
    by cases (simp_all add: Some scheme_flat_old_def wnamed_def lift_scheme_old [unfolded One_nat_def]
      del: abi_lift.simps flip: i_def)
qed

text \<open>
  The thirteen numbers of \<open>outgoing_request_flat_old\<close> are lifted, with nothing left over, to the method,
  the path, the scheme and the authority that the constructor was given.
\<close>

theorem outgoing_request_lifts_back:
  assumes "named_ok 9 method" and "\<And>v. scheme = Some v \<Longrightarrow> named_ok 2 v"
  shows "Option.bind (outgoing_request_flat_old method path scheme authority)
       (\<lambda>flat. abi_lifts [method_ty, wit_option Span, wit_option scheme_ty, wit_option Span] (map CI32 flat))
     = Some ([wnamed method, wval_option wspan path, wval_option wnamed scheme, wval_option wspan authority], [])"
proof -
  obtain ms where m: "method_flat_old method = Some ms"
    and ml: "\<And>rest. abi_lift method_ty (map CI32 ms @ rest) = Some (wnamed method, rest)"
    using method_lifts_old [OF assms(1)] by blast
  obtain ss where s: "scheme_flat_old scheme = Some ss"
    and sl: "\<And>rest. abi_lift (wit_option scheme_ty) (map CI32 ss @ rest) = Some (wval_option wnamed scheme, rest)"
    using scheme_lifts_old [of scheme] assms(2) by blast
  show ?thesis
    using lift_string_old [of authority "[]"]
    by (simp add: outgoing_request_flat_old_def m s ml sl lift_string_old del: abi_lift.simps)
qed

lemma response_outparam_lifts_back_old:
  assumes "\<And>e. response = Inl e \<Longrightarrow> unat (oe_tag e) \<le> 3"
  shows "Option.bind (response_outparam_flat_old response) (abi_lift (wit_result (Some Handle) (Some old_error_ty)) \<circ> flat4)
     = Some (wval_result (some_of WHandle) (some_of wold_error) response, [])"
proof (cases response)
  case (Inl e)
  obtain p l where t: "oe_text e = (p, l)" by (cases "oe_text e")
  define i where "i = unat (oe_tag e)"
  have "i \<le> 3" unfolding i_def by (rule assms [OF Inl])
  then consider "i = 0" | "i = 1" | "i = 2" | "i = 3" by linarith
  then show ?thesis
    by cases (simp_all add: Inl t response_outparam_flat_old_def wval_result_def flat4_def old_error_ty_def wold_error_def Let_def
        flip: i_def)
qed (simp add: response_outparam_flat_old_def wval_result_def flat4_def old_error_ty_def Let_def)

lemma request_options_lift_back:
  "abi_lift (wit_option request_options_ty) (map CI32 (request_options_flat_old options)) = Some (wval_option woptions options, [])"
  by (cases options)
    (auto simp: request_options_flat_old_def request_options_ty_def timeout_flat_old_def woptions_def Let_def split: option.split)

end
