(* ===== verification/Spec2Isabelle.thy ===== *)
theory Spec2Isabelle
  imports Prelude Base64 Event_Loop Sequence Http_Fields Headers Console Fetch_Event Url Canonical_Abi
    Wasi_Error_Code Transform_Stream Compression Host_Body Host_Http Body_Reading Fetch_Body Body_Frames
    Body_Promises Request_Response Request_Frames Fetch_Properties Fetch_Promises
    Crypto_Key Crypto_Algorithm Subtle_Crypto Crypto_Properties Script_Loader Module_Loading Engine
    Text_Codec Web_Globals Stream_Pipes Wasi_Calls
    Host_Candidates Wasi_Old_Calls
begin

text \<open>
  A verification development for StarlingMonkey, a JavaScript runtime that embeds SpiderMonkey in
  a WebAssembly component.  \<open>runtime/\<close> drives the engine and its event loop, \<open>builtins/web/\<close> has
  the web APIs that scripts see, and \<open>host-apis/\<close> implements the host side of them over WASI with
  bindings generated from WIT.

  Parts and theories.

  \<^item> \<open>Prelude\<close>: byte strings, JavaScript strings, results of fallible code, generic lemmas.
  \<^item> \<open>Base64\<close>: \<open>builtins/web/base64.cpp\<close>.  The block-wise coder is proved equal to the bit-buffer
    algorithm of the standard and to RFC 4648, and \<open>atob\<close> inverts \<open>btoa\<close>.
  \<^item> \<open>Event_Loop\<close>: \<open>runtime/event_loop.cpp\<close>, \<open>builtins/web/timers.cpp\<close> and the clock and \<open>poll\<close> of
    \<open>host-apis/wasi-0.2.0/host_api.cpp\<close>.  Tasks are in a heap; the queue invariant, one iteration,
    completion of the loop, and the ways in which cancelling from within a callback breaks it.
  \<^item> \<open>Sequence\<close>: \<open>runtime/sequence.hpp\<close>, which \<open>Headers\<close> and \<open>Url\<close> use for their constructors.
  \<^item> \<open>Http_Fields\<close>: the classes \<open>HttpHeaders\<close> of \<open>host_api.cpp\<close> over WASI \<open>fields\<close>.
  \<^item> \<open>Headers\<close>: \<open>builtins/web/fetch/headers.cpp\<close> on top of \<open>Http_Fields\<close>: normalization, the lazy
    map and its agreement with the host, the operations, cookie splitting.
  \<^item> \<open>Console\<close>: \<open>builtins/web/console.cpp\<close>: printing a heap of objects, counters, timers.
  \<^item> \<open>Fetch_Event\<close>: \<open>builtins/web/fetch/fetch_event.cpp\<close>: the state machine of the event with its
    promise reactions as an inductive step relation, and the exported handler.
  \<^item> \<open>Url\<close>: \<open>builtins/web/url.cpp\<close> and \<open>crates/rust-url/src/lib.rs\<close>: URLs and parameters in a heap.
  \<^item> \<open>Canonical_Abi\<close>: the memory layout and the flattening of the component model, as reference.
  \<^item> \<open>Wasi_Error_Code\<close>: the functions of the generated \<open>bindings.c\<close> that read, pass and free an
    \<open>error-code\<close>, against the reference.  \<open>Wasi_Calls\<close>: those that \<open>host_api.cpp\<close> calls for
    streams, fields, requests, responses and bodies, their results and their flattened arguments.
  \<^item> \<open>Transform_Stream\<close>: \<open>builtins/web/streams/transform-stream.cpp\<close> and its default controller: the
    stream as a record with its promises, the calls of engine and script as an inductive step
    relation, no call of an algorithm that was cleared, and who wakes a waiting write.
    \<open>Stream_Pipes\<close>: \<open>native-stream-sink.cpp\<close> and the replacements of \<open>pipeTo\<close> and \<open>pipeThrough\<close>.
  \<^item> \<open>Compression\<close>: \<open>compression-stream.cpp\<close> and \<open>decompression-stream.cpp\<close>: the loop around zlib, whose
    documented behaviour is a locale; its output is complete, and what truncated input does.
  \<^item> \<open>Host_Body\<close>: outgoing and incoming bodies of \<open>host_api.cpp\<close> and the task that copies one into
    the other over WASI streams.  \<open>Host_Http\<close>: its requests, responses and the future of a response.
    \<open>Host_Candidates\<close>: what differs in the \<open>host_api.cpp\<close> of the two release candidates of WASI.
    \<open>Wasi_Old_Calls\<close>: the generated functions that the first of them calls, against the same reference.
  \<^item> \<open>Body_Reading\<close>: how the chunks of a body are put into one buffer, in 32-bit arithmetic.
  \<^item> \<open>Fetch_Body\<close>: the class \<open>RequestOrResponse\<close> of \<open>builtins/web/fetch/request-response.cpp\<close> with
    \<open>native-stream-source.cpp\<close>: objects, sources, promises, pending reactions and jobs in one state.
  \<^item> \<open>Request_Response\<close>: the classes \<open>Request\<close> and \<open>Response\<close>, and \<open>fetch-api.cpp\<close>, on that state.
  \<^item> \<open>Body_Frames\<close> and \<open>Request_Frames\<close>: locales of a predicate on states that the elementary changes
    preserve; every operation then does.  Each interpretation is one frame property of all of them.
  \<^item> \<open>Body_Promises\<close>: the promises of \<open>text\<close>, \<open>json\<close> and \<open>arrayBuffer\<close>: invariant, result, failure.
  \<^item> \<open>Fetch_Promises\<close>: how and when the promise of \<open>fetch\<close> is settled, over the steps of scripts, engine,
    loop and host.  \<open>Fetch_Properties\<close>: methods of requests and the \<open>Response\<close> constructor.

  \<^item> \<open>Crypto_Key\<close>, \<open>Crypto_Algorithm\<close>, \<open>Subtle_Crypto\<close>: \<open>builtins/web/crypto/\<close>: usages and JSON Web Keys;
    normalization, digests, import and creation of keys, signatures; the methods of \<open>crypto\<close> and
    \<open>crypto.subtle\<close>.  OpenSSL is the record \<open>openssl\<close>.  \<open>Crypto_Properties\<close>: the mask of usages, what
    keys hold in reachable states, whose memory an HMAC key uses, failures without an exception.

  \<^item> \<open>Script_Loader\<close> and \<open>Module_Loading\<close>: \<open>runtime/script_loader.cpp\<close>: the recursion of the import hook
    with the depth of the stack as fuel; it ends exactly if no chain of imports is infinite, and what
    the registry holds.  \<open>Engine\<close>: \<open>runtime/engine.cpp\<close> and \<open>runtime/js.cpp\<close>: printing, rejected
    promises and the start, which puts loader, engine and event loop together.
  \<^item> \<open>Text_Codec\<close>: \<open>builtins/web/text-codec/\<close> over the decoders of \<open>encoding_rs\<close>: streams of chunks,
    and strings encoded in pieces.
  \<^item> \<open>Web_Globals\<close>: \<open>DOMException\<close>, \<open>structuredClone\<close>, \<open>location\<close>, \<open>queueMicrotask\<close>, \<open>self\<close> and
    \<open>performance\<close>; what a clone of parameters has, on every heap of \<open>Url\<close> that scripts reach.

  How code is modelled.  A C++ function becomes a function with the state it changes passed
  explicitly; a function that reports an exception returns a sum; data of the engine that C++
  code only asks for (what a conversion, an iteration or a property read yields) is an argument of
  the definitions; what is not in the repository (the engine, the host, the \<open>url\<close> crate) is a
  record of functions with its documented laws as hypotheses, and each law has a concrete
  instance that the witnesses use.  User code that the engine may run during a conversion is
  taken to have run before the operation that converts.

  Loops.  Loops are structural recursions or have a termination proof, apart from those that user
  code can keep alive: the event loop and \<open>forEach\<close> are partial functions into an option with
  theorems that they return, and printing takes fuel, for which one unit more than the number of
  objects in the heap is proved enough.  The depth of recursive module loading is fuel too; which depth is
  enough, and that none is for a cycle of imports, is proved.

  Not modelled: garbage collection and memory exhaustion, property descriptors and class
  installation, tracing and debug assertions, and the components the manifest lists as such.
\<close>

end
